(* ===== verification/Prelude.thy ===== *)
theory Prelude
  imports Main "HOL-Library.AList"
begin

text \<open>
  The shared base of the development: errors and results of Go functions, the sequencing of
  fallible pure code, Go maps and the loops that build them, and the generic lemmas on lists and
  maps that the component theories use.

  A Go function returning \<open>(T, error)\<close> is modelled with a value of type \<open>'a outcome\<close>:
  \<open>Ok v\<close> for a nil error, \<open>Err e\<close> for a non-nil error, \<open>Panic\<close> for a run-time
  panic (nil-pointer dereference, index out of range, write to a nil map).
\<close>

named_theorems runs \<open>the definitions of programs, applied to a state\<close>
named_theorems io_simps \<open>unfolding of the effect combinators on a given state\<close>
named_theorems emits_rules \<open>rules that bound the requests a program may send\<close>
named_theorems wp_rules \<open>rules that propagate postconditions through programs\<close>

subsection \<open>Errors\<close>

text \<open>
  An error is a cause with the contexts that \<open>fmt.Errorf("...: %w", err)\<close> wrapped around
  it. The causes named here are the ones some code under src/ asks for (with \<open>errors.Is\<close>,
  \<open>errors.As\<close> or the \<open>apierrors\<close> predicates, all of which look through wrapping);
  every other error is \<open>Opaque\<close>. Wrapping with \<open>%s\<close> instead of \<open>%w\<close> loses
  the cause and is modelled by an \<open>Opaque\<close> error.
\<close>

datatype cause =
    NotFound
  | Conflict
  | NamespaceTerminating
  | AlreadyOwned string string string \<comment> \<open>object name, owner kind, owner name\<close>
  | BadRequest
  | Opaque string

datatype err = Cause cause | Wrapped string err

fun root_cause :: "err \<Rightarrow> cause" where
  "root_cause (Cause c) = c"
| "root_cause (Wrapped _ e) = root_cause e"

datatype 'a outcome = Ok 'a | Err err | Panic

fun is_ok :: "'a outcome \<Rightarrow> bool" where
  "is_ok (Ok _) = True"
| "is_ok (Err _) = False"
| "is_ok Panic = False"

fun out_bind :: "'a outcome \<Rightarrow> ('a \<Rightarrow> 'b outcome) \<Rightarrow> 'b outcome" where
  "out_bind (Ok x) f = f x"
| "out_bind (Err e) f = Err e"
| "out_bind Panic f = Panic"

fun out_wrap :: "string \<Rightarrow> 'a outcome \<Rightarrow> 'a outcome" where
  "out_wrap msg (Ok x) = Ok x"
| "out_wrap msg (Err e) = Err (Wrapped msg e)"
| "out_wrap msg Panic = Panic"

text \<open>Dereferencing a pointer: nil panics.\<close>

fun deref :: "'a option \<Rightarrow> 'a outcome" where
  "deref None = Panic"
| "deref (Some x) = Ok x"

lemma deref_Ok_iff [simp]: "deref p = Ok x \<longleftrightarrow> p = Some x"
  by (cases p) auto

lemma deref_not_Err [simp]: "deref p \<noteq> Err e"
  by (cases p) auto

lemma out_bind_Ok_iff: "out_bind m f = Ok y \<longleftrightarrow> (\<exists>x. m = Ok x \<and> f x = Ok y)"
  by (cases m) auto

lemma out_bind_cong [fundef_cong]:
  "m = m' \<Longrightarrow> (\<And>x. m' = Ok x \<Longrightarrow> f x = f' x) \<Longrightarrow> out_bind m f = out_bind m' f'"
  by (cases m') auto

lemma out_bind_assoc: "out_bind (out_bind m f) g = out_bind m (\<lambda>x. out_bind (f x) g)"
  by (cases m) auto

lemma out_bind_Ok_right [simp]: "out_bind m Ok = m"
  by (cases m) auto

lemma out_wrap_Ok_iff [simp]: "out_wrap msg m = Ok x \<longleftrightarrow> m = Ok x"
  by (cases m) auto

text \<open>A loop that collects one fallible result per element, in order.\<close>

fun out_map :: "('a \<Rightarrow> 'b outcome) \<Rightarrow> 'a list \<Rightarrow> 'b list outcome" where
  "out_map f [] = Ok []"
| "out_map f (x # xs) = out_bind (f x) (\<lambda>y. out_bind (out_map f xs) (\<lambda>ys. Ok (y # ys)))"

lemma out_map_Ok: "(\<And>x. x \<in> set xs \<Longrightarrow> f x = Ok (g x)) \<Longrightarrow> out_map f xs = Ok (map g xs)"
  by (induction xs) auto

lemma out_map_cong [fundef_cong]:
  "xs = ys \<Longrightarrow> (\<And>x. x \<in> set ys \<Longrightarrow> f x = g x) \<Longrightarrow> out_map f xs = out_map g ys"
proof (induction ys arbitrary: xs)
  case (Cons y ys)
  have "f y = g y" "out_map f ys = out_map g ys"
    using Cons by auto
  then show ?case using Cons.prems(1) by simp
qed simp

text \<open>A loop that keeps the elements for which a fallible test succeeds.\<close>

fun out_filter :: "('a \<Rightarrow> bool outcome) \<Rightarrow> 'a list \<Rightarrow> 'a list outcome" where
  "out_filter p [] = Ok []"
| "out_filter p (x # xs) =
     out_bind (p x) (\<lambda>b. out_bind (out_filter p xs) (\<lambda>ys. Ok (if b then x # ys else ys)))"

lemma out_filter_Ok:
  "(\<And>x. x \<in> set xs \<Longrightarrow> p x = Ok (q x)) \<Longrightarrow> out_filter p xs = Ok (filter q xs)"
  by (induction xs) auto

lemma out_filter_subset: "out_filter p xs = Ok ys \<Longrightarrow> set ys \<subseteq> {x \<in> set xs. p x = Ok True}"
  by (induction xs arbitrary: ys) (auto simp: out_bind_Ok_iff split: if_splits)

text \<open>A search loop that returns true at the first element that passes a fallible test.\<close>

fun out_ex :: "('a \<Rightarrow> bool outcome) \<Rightarrow> 'a list \<Rightarrow> bool outcome" where
  "out_ex p [] = Ok False"
| "out_ex p (x # xs) = out_bind (p x) (\<lambda>b. if b then Ok True else out_ex p xs)"

lemma out_ex_Ok:
  "(\<And>x. x \<in> set xs \<Longrightarrow> p x = Ok (q x)) \<Longrightarrow> out_ex p xs = Ok (\<exists>x \<in> set xs. q x)"
  by (induction xs) auto

text \<open>A loop that folds an accumulator through fallible steps.\<close>

fun out_fold :: "('x \<Rightarrow> 'a \<Rightarrow> 'a outcome) \<Rightarrow> 'x list \<Rightarrow> 'a \<Rightarrow> 'a outcome" where
  "out_fold f [] a = Ok a"
| "out_fold f (x # xs) a = out_bind (f x a) (out_fold f xs)"

lemma out_fold_Ok:
  "(\<And>x a. x \<in> set xs \<Longrightarrow> f x a = Ok (g x a)) \<Longrightarrow> out_fold f xs a = Ok (fold g xs a)"
  by (induction xs arbitrary: a) auto

lemma out_fold_invariant:
  assumes "\<And>x a b. x \<in> set xs \<Longrightarrow> f x a = Ok b \<Longrightarrow> P a \<Longrightarrow> P b"
    and "out_fold f xs a = Ok b" "P a"
  shows "P b"
  using assms
proof (induction xs arbitrary: a)
  case (Cons x xs)
  then show ?case by (auto simp: out_bind_Ok_iff)
qed simp

subsection \<open>Go maps\<close>

text \<open>
  A Go \<open>map[string]V\<close> is an association list with distinct keys. Reading, storing and deleting
  are the operations of \<open>HOL-Library.AList\<close>. The order in which \<open>range\<close> visits a map is
  unspecified in Go: every loop over a map takes the visiting order from a parameter, which
  reorders the keys arbitrarily; \<open>iteration_order\<close> says that it visits every key once.
\<close>

type_synonym 'v gomap = "(string \<times> 'v) list"
type_synonym map_order = "string list \<Rightarrow> string list"

definition gm_wf :: "'v gomap \<Rightarrow> bool" where
  "gm_wf m = distinct (map fst m)"

definition gm_keys :: "'v gomap \<Rightarrow> string set" where
  "gm_keys m = fst ` set m"

definition gm_put :: "string \<Rightarrow> 'v \<Rightarrow> 'v gomap \<Rightarrow> 'v gomap" where
  "gm_put k v m = AList.update k v m"

definition gm_del :: "string \<Rightarrow> 'v gomap \<Rightarrow> 'v gomap" where
  "gm_del k m = AList.delete k m"

definition gm_has :: "'v gomap \<Rightarrow> string \<Rightarrow> bool" where
  "gm_has m k = (map_of m k \<noteq> None)"

definition gm_range :: "map_order \<Rightarrow> 'v gomap \<Rightarrow> (string \<times> 'v) list" where
  "gm_range ord m = map (\<lambda>k. (k, the (map_of m k))) (ord (map fst m))"

definition iteration_order :: "map_order \<Rightarrow> bool" where
  "iteration_order ord \<longleftrightarrow> (\<forall>ks. set (ord ks) = set ks \<and> (distinct ks \<longrightarrow> distinct (ord ks)))"

lemma iteration_order_id: "iteration_order (\<lambda>ks. ks)"
  by (simp add: iteration_order_def)

lemma iteration_order_rev: "iteration_order rev"
  by (simp add: iteration_order_def)

lemma gm_wf_Nil [simp]: "gm_wf []"
  by (simp add: gm_wf_def)

lemma gm_wf_put [simp]: "gm_wf m \<Longrightarrow> gm_wf (gm_put k v m)"
  by (simp add: gm_wf_def gm_put_def distinct_update)

lemma gm_wf_del [simp]: "gm_wf m \<Longrightarrow> gm_wf (gm_del k m)"
  by (simp add: gm_wf_def gm_del_def distinct_delete)

lemma map_of_gm_put [simp]: "map_of (gm_put k v m) = (map_of m)(k \<mapsto> v)"
  by (simp add: gm_put_def update_conv')

lemma map_of_gm_del [simp]: "map_of (gm_del k m) = (map_of m)(k := None)"
  by (simp add: gm_del_def delete_conv')

lemma gm_has_iff: "gm_has m k \<longleftrightarrow> k \<in> gm_keys m"
  by (simp add: gm_has_def gm_keys_def map_of_eq_None_iff)

lemma gm_keys_dom: "gm_keys m = dom (map_of m)"
  by (simp add: gm_keys_def dom_map_of_conv_image_fst)

lemma gm_keys_Nil [simp]: "gm_keys [] = {}"
  by (simp add: gm_keys_def)

lemma gm_keys_put [simp]: "gm_keys (gm_put k v m) = insert k (gm_keys m)"
  by (simp add: gm_keys_dom)

lemma gm_keys_del [simp]: "gm_keys (gm_del k m) = gm_keys m - {k}"
  by (simp add: gm_keys_dom)

lemma map_of_set: "gm_wf m \<Longrightarrow> (k, v) \<in> set m \<longleftrightarrow> map_of m k = Some v"
  by (simp add: gm_wf_def)

lemma gm_range_set:
  assumes "iteration_order ord" "gm_wf m"
  shows "set (gm_range ord m) = set m"
proof -
  have "set (gm_range ord m) = (\<lambda>k. (k, the (map_of m k))) ` fst ` set m"
    using assms(1) by (simp add: gm_range_def iteration_order_def)
  also have "\<dots> = set m"
    using assms(2) by (force simp: gm_wf_def image_iff)
  finally show ?thesis .
qed

lemma gm_range_keys: "map fst (gm_range ord m) = ord (map fst m)"
  by (simp add: gm_range_def comp_def)

lemma gm_range_wf: "iteration_order ord \<Longrightarrow> gm_wf m \<Longrightarrow> gm_wf (gm_range ord m)"
  by (simp add: gm_wf_def gm_range_keys iteration_order_def)

lemma map_of_gm_range:
  assumes "iteration_order ord" "gm_wf m"
  shows "map_of (gm_range ord m) = map_of m"
proof
  fix k
  show "map_of (gm_range ord m) k = map_of m k"
    using map_of_set [OF gm_range_wf [OF assms]] map_of_set [OF assms(2)] gm_range_set [OF assms]
    by (metis not_None_eq)
qed

subsection \<open>Loops that build a map\<close>

text \<open>
  \<open>collect f xs m\<close> is the loop \<open>for _, x := range xs { ...; m[k] = w }\<close> where \<open>f x\<close>
  says which entry, if any, the body stores for \<open>x\<close>; \<open>out_collect\<close> is the same loop with a
  body that may panic.
\<close>

fun collect :: "('x \<Rightarrow> (string \<times> 'v) option) \<Rightarrow> 'x list \<Rightarrow> 'v gomap \<Rightarrow> 'v gomap" where
  "collect f [] m = m"
| "collect f (x # xs) m =
     collect f xs (case f x of None \<Rightarrow> m | Some (k, w) \<Rightarrow> gm_put k w m)"

fun out_collect ::
  "('x \<Rightarrow> (string \<times> 'v) option outcome) \<Rightarrow> 'x list \<Rightarrow> 'v gomap \<Rightarrow> 'v gomap outcome" where
  "out_collect f [] m = Ok m"
| "out_collect f (x # xs) m =
     out_bind (f x) (\<lambda>r. out_collect f xs (case r of None \<Rightarrow> m | Some (k, w) \<Rightarrow> gm_put k w m))"

lemma out_collect_Ok:
  "(\<And>x. x \<in> set xs \<Longrightarrow> f x = Ok (g x)) \<Longrightarrow> out_collect f xs m = Ok (collect g xs m)"
  by (induction xs arbitrary: m) auto

lemma gm_wf_collect [simp]: "gm_wf m \<Longrightarrow> gm_wf (collect f xs m)"
  by (induction xs arbitrary: m) (auto split: option.split)

text \<open>
  The content of the collected map does not depend on the order of the loop as long as the
  entries stored under one key agree.
\<close>

lemma map_of_collect_Some:
  assumes "x \<in> set xs" "f x = Some (k, w)"
    and "\<And>y w'. y \<in> set xs \<Longrightarrow> f y = Some (k, w') \<Longrightarrow> w' = w"
  shows "map_of (collect f xs m) k = Some w"
  using assms
proof (induction xs arbitrary: m x)
  case (Cons z zs)
  show ?case
  proof (cases "\<exists>y \<in> set zs. \<exists>w'. f y = Some (k, w')")
    case True
    then obtain y w' where y: "y \<in> set zs" "f y = Some (k, w')" by blast
    then have "w' = w" using Cons.prems(3) [of y w'] by simp
    have "map_of (collect f zs m') k = Some w" for m'
    proof (rule Cons.IH [OF y(1)])
      show "f y = Some (k, w)" using y(2) \<open>w' = w\<close> by simp
    qed (use Cons.prems(3) in auto)
    then show ?thesis by simp
  next
    case False
    then have none: "\<And>m'. map_of (collect f zs m') k = map_of m' k"
    proof (induction zs)
      case (Cons a as)
      then show ?case by (cases "f a") auto
    qed simp
    have "x = z" using Cons.prems(1,2) False by auto
    then show ?thesis using Cons.prems(2) none by simp
  qed
qed simp

lemma map_of_collect_None:
  assumes "\<And>y w. y \<in> set xs \<Longrightarrow> f y \<noteq> Some (k, w)"
  shows "map_of (collect f xs m) k = map_of m k"
  using assms
proof (induction xs arbitrary: m)
  case (Cons z zs)
  have "f z = None \<or> (\<exists>k' w. f z = Some (k', w) \<and> k' \<noteq> k)"
    using Cons.prems [of z] by (cases "f z") auto
  then show ?case using Cons by auto
qed simp

text \<open>
  The common case: the loop ranges over a map and stores, under the same key, a value computed
  from the entry, or nothing.
\<close>

lemma map_of_collect_range:
  assumes "iteration_order ord" "gm_wf m" "map_of m0 k = None"
    and "\<And>k v. map_of m k = Some v \<Longrightarrow> f (k, v) = map_option (Pair k) (g k v)"
  shows "map_of (collect f (gm_range ord m) m0) k = Option.bind (map_of m k) (g k)"
proof -
  have mem: "\<And>k v. (k, v) \<in> set (gm_range ord m) \<longleftrightarrow> map_of m k = Some v"
    using gm_range_set [OF assms(1,2)] map_of_set [OF assms(2)] by simp
  have feq: "\<And>y. y \<in> set (gm_range ord m) \<Longrightarrow> f y = map_option (Pair (fst y)) (g (fst y) (snd y))"
    using mem assms(4) by (metis prod.collapse)
  show ?thesis
  proof (cases "\<exists>v w. map_of m k = Some v \<and> g k v = Some w")
    case True
    then obtain v w where v: "map_of m k = Some v" "g k v = Some w" by blast
    have "map_of (collect f (gm_range ord m) m0) k = Some w"
    proof (rule map_of_collect_Some [where x = "(k, v)"])
      show "(k, v) \<in> set (gm_range ord m)" using mem v by simp
      show "f (k, v) = Some (k, w)" using v assms(4) by simp
      fix y w'
      assume y: "y \<in> set (gm_range ord m)" "f y = Some (k, w')"
      then have "fst y = k" "g (fst y) (snd y) = Some w'" using feq by auto
      moreover have "snd y = v" using y(1) v(1) mem \<open>fst y = k\<close> by (metis option.inject prod.collapse)
      ultimately show "w' = w" using v by simp
    qed
    then show ?thesis using v by simp
  next
    case False
    have "map_of (collect f (gm_range ord m) m0) k = map_of m0 k"
    proof (rule map_of_collect_None)
      fix y w
      assume y: "y \<in> set (gm_range ord m)"
      show "f y \<noteq> Some (k, w)"
        using feq [OF y] False y mem by (cases y) auto
    qed
    then show ?thesis using False assms(3) by (cases "map_of m k") auto
  qed
qed

subsection \<open>Lists\<close>

lemma fold_invariant:
  "P a \<Longrightarrow> (\<And>x a. x \<in> set xs \<Longrightarrow> P a \<Longrightarrow> P (f x a)) \<Longrightarrow> P (fold f xs a)"
  by (induction xs arbitrary: a) auto

lemma distinct_map_filter: "distinct (map f xs) \<Longrightarrow> distinct (map f (filter p xs))"
  by (induction xs) auto

end
