(* ===== verification/GoStrings.thy ===== *)
theory GoStrings
  imports Prelude "HOL-Library.Sublist"
begin

text \<open>
  The functions of Go's \<open>strings\<close> package that the source calls, over byte strings, and
  \<open>RemoveDuplicates\<close> of pkg/util/strings/strings.go. Case mapping is modelled on ASCII, the
  alphabet of environment-variable prefixes and of the fixed claim names it is applied to.
\<close>

subsection \<open>The strings package\<close>

fun str_join :: "char \<Rightarrow> string list \<Rightarrow> string" where
  "str_join c [] = []"
| "str_join c [s] = s"
| "str_join c (s # t # ss) = s @ c # str_join c (t # ss)"

fun str_split :: "char \<Rightarrow> string \<Rightarrow> string list" where
  "str_split c [] = [[]]"
| "str_split c (x # xs) =
     (if x = c then [] # str_split c xs
      else case str_split c xs of [] \<Rightarrow> [[x]] | p # ps \<Rightarrow> (x # p) # ps)"

fun last_index :: "char \<Rightarrow> string \<Rightarrow> nat option" where
  "last_index c [] = None"
| "last_index c (x # xs) =
     (case last_index c xs of Some i \<Rightarrow> Some (Suc i) | None \<Rightarrow> if x = c then Some 0 else None)"

definition has_prefix :: "string \<Rightarrow> string \<Rightarrow> bool" where
  "has_prefix s p = prefix p s"

fun str_contains :: "string \<Rightarrow> string \<Rightarrow> bool" where
  "str_contains [] sub = (sub = [])"
| "str_contains (c # s) sub = (prefix sub (c # s) \<or> str_contains s sub)"

definition trim_suffix :: "string \<Rightarrow> string \<Rightarrow> string" where
  "trim_suffix s suf = (if suffix suf s then take (length s - length suf) s else s)"

definition upper_char :: "char \<Rightarrow> char" where
  "upper_char c =
     (let n = (of_char c :: nat) in if 97 \<le> n \<and> n \<le> 122 then char_of (n - 32) else c)"

definition to_upper :: "string \<Rightarrow> string" where
  "to_upper s = map upper_char s"

definition equal_fold :: "string \<Rightarrow> string \<Rightarrow> bool" where
  "equal_fold s t = (to_upper s = to_upper t)"

text \<open>The verb \<open>%s\<close> between single quotes, as messages have it.\<close>

definition quoted :: "string \<Rightarrow> string" where
  "quoted s = [CHR 0x27] @ s @ [CHR 0x27]"

lemma str_split_nonempty [simp]: "str_split c s \<noteq> []"
  by (cases s) (auto split: list.split)

lemma str_join_Cons: "str_join c (s # ss) = (if ss = [] then s else s @ c # str_join c ss)"
  by (cases ss) auto

lemma str_join_split [simp]: "str_join c (str_split c s) = s"
proof (induction s)
  case (Cons x xs)
  then show ?case by (cases "str_split c xs") (auto simp: str_join_Cons)
qed simp

lemma str_split_append: "c \<notin> set s \<Longrightarrow> str_split c (s @ c # t) = s # str_split c t"
  by (induction s) auto

lemma str_split_no_sep: "c \<notin> set s \<Longrightarrow> str_split c s = [s]"
  by (induction s) auto

lemma str_split_join:
  "ss \<noteq> [] \<Longrightarrow> (\<And>s. s \<in> set ss \<Longrightarrow> c \<notin> set s) \<Longrightarrow> str_split c (str_join c ss) = ss"
  by (induction c ss rule: str_join.induct) (auto simp: str_split_append str_split_no_sep)

lemma str_split_no_sep_parts: "p \<in> set (str_split c s) \<Longrightarrow> c \<notin> set p"
proof (induction s arbitrary: p)
  case (Cons x xs)
  then show ?case by (cases "str_split c xs") (auto split: if_splits)
qed simp

lemma str_split_snoc: "str_split c (s @ c # t) = str_split c s @ str_split c t"
proof (induction s)
  case (Cons x xs)
  then show ?case by (cases "str_split c xs") auto
qed simp

lemma last_index_None: "last_index c s = None \<longleftrightarrow> c \<notin> set s"
  by (induction s) (auto split: option.split)

lemma last_index_Some:
  "last_index c s = Some i \<Longrightarrow> i < length s \<and> s ! i = c \<and> c \<notin> set (drop (Suc i) s)"
proof (induction s arbitrary: i)
  case (Cons x xs)
  then show ?case
    by (cases "last_index c xs") (auto simp: last_index_None split: if_splits)
qed simp

lemma str_contains_iff: "str_contains s sub \<longleftrightarrow> sublist sub s"
proof (induction s)
  case (Cons c s)
  then show ?case by (auto simp: sublist_Cons_right)
qed simp

lemma trim_suffix_append [simp]: "trim_suffix (s @ suf) suf = s"
  by (simp add: trim_suffix_def suffix_def)

lemma length_to_upper [simp]: "length (to_upper s) = length s"
  by (simp add: to_upper_def)

lemma equal_fold_refl [simp]: "equal_fold s s"
  by (simp add: equal_fold_def)

subsection \<open>RemoveDuplicates\<close>

text \<open>The loop of \<open>RemoveDuplicates\<close>; \<open>seen\<close> is the set of keys met so far.\<close>

fun remove_duplicates_loop :: "string list \<Rightarrow> string list \<Rightarrow> string list" where
  "remove_duplicates_loop seen [] = []"
| "remove_duplicates_loop seen (k # ks) =
     (if k \<in> set seen then remove_duplicates_loop seen ks
      else k # remove_duplicates_loop (k # seen) ks)"

definition remove_duplicates :: "string list \<Rightarrow> string list" where
  "remove_duplicates ks = remove_duplicates_loop [] ks"

lemma set_remove_duplicates_loop:
  "set (remove_duplicates_loop seen ks) = set ks - set seen"
  by (induction seen ks rule: remove_duplicates_loop.induct) auto

lemma set_remove_duplicates [simp]: "set (remove_duplicates ks) = set ks"
  by (simp add: remove_duplicates_def set_remove_duplicates_loop)

lemma remdups_snoc: "remdups (xs @ [k]) = filter (\<lambda>x. x \<noteq> k) (remdups xs) @ [k]"
  by (induction xs) auto

lemma remove_duplicates_loop_remdups:
  "remove_duplicates_loop seen ks = filter (\<lambda>k. k \<notin> set seen) (rev (remdups (rev ks)))"
proof (induction seen ks rule: remove_duplicates_loop.induct)
  case (2 seen k ks)
  have rr: "rev (remdups (rev (k # ks))) = k # filter (\<lambda>x. x \<noteq> k) (rev (remdups (rev ks)))"
    by (simp add: remdups_snoc rev_filter)
  show ?case using 2 unfolding rr by (auto intro: filter_cong)
qed simp

lemma remove_duplicates_remdups: "remove_duplicates ks = rev (remdups (rev ks))"
  by (simp add: remove_duplicates_def remove_duplicates_loop_remdups)

lemma distinct_remove_duplicates [simp]: "distinct (remove_duplicates ks)"
  by (simp add: remove_duplicates_remdups distinct_remdups_id)

lemma remove_duplicates_idem: "distinct ks \<Longrightarrow> remove_duplicates ks = ks"
  by (simp add: remove_duplicates_remdups distinct_remdups_id)

subsection \<open>Properties\<close>

text \<open>\<open>RemoveDuplicates\<close> keeps exactly the keys at the positions where a key occurs for the first
  time, in their order.\<close>

theorem remove_duplicates_first_occurrences:
  "remove_duplicates ks =
     map (\<lambda>i. ks ! i) (filter (\<lambda>i. ks ! i \<notin> set (take i ks)) [0..<length ks])"
proof (induction ks rule: rev_induct)
  case (snoc k ks)
  have "remove_duplicates (ks @ [k]) = remove_duplicates ks @ (if k \<in> set ks then [] else [k])"
    by (simp add: remove_duplicates_remdups)
  moreover have "filter (\<lambda>i. (ks @ [k]) ! i \<notin> set (take i (ks @ [k]))) [0..<length ks] =
      filter (\<lambda>i. ks ! i \<notin> set (take i ks)) [0..<length ks]"
    by (rule filter_cong) (auto simp: nth_append)
  moreover have "map (\<lambda>i. (ks @ [k]) ! i) (filter (\<lambda>i. ks ! i \<notin> set (take i ks)) [0..<length ks]) =
      map (\<lambda>i. ks ! i) (filter (\<lambda>i. ks ! i \<notin> set (take i ks)) [0..<length ks])"
    by (rule map_cong) (auto simp: nth_append)
  ultimately show ?case using snoc by simp
qed (simp add: remove_duplicates_def)

end
