(* ===== verification/Types.thy ===== *)
theory Types
  imports GoStrings
begin

text \<open>
  The data of the operator: the \<open>AzureAdApplication\<close> custom resource, the Graph API entities,
  and the result, credential, configuration and transaction records of pkg/azure, pkg/config and
  pkg/transaction. Structs are records, pointers are options, \<open>time.Time\<close> and
  \<open>time.Duration\<close> are integers (nanoseconds), identifiers and UUIDs are strings. Of the
  library structs (custom resource, Graph entities) the records carry the fields that code under
  src/ reads or writes.
\<close>

type_synonym time = int
type_synonym duration = int
type_synonym object_id = string
type_synonym client_id = string
type_synonym sp_id = string

subsection \<open>The custom resource\<close>

record access_policy_rule =
  rule_application :: string
  rule_namespace :: string
  rule_cluster :: string

record access_policy_permissions =
  perm_scopes :: "string list"
  perm_roles :: "string list"

record inbound_rule =
  in_rule :: access_policy_rule
  in_permissions :: "access_policy_permissions option"

record app_spec =
  spec_allow_all_users :: "bool option"
  spec_claims_groups :: "string list option"
  spec_group_membership_claims :: "string option"
  spec_logout_url :: string
  spec_pre_authorized_applications :: "inbound_rule list"
  spec_reply_urls :: "string list"
  spec_secret_key_prefix :: string
  spec_secret_name :: string
  spec_single_page_application :: "bool option"
  spec_tenant :: string

record pre_authorized_app =
  pre_rule :: "access_policy_rule option"
  pre_client_id :: client_id
  pre_sp_object_id :: sp_id
  pre_reason :: string

record pre_authorized_apps_status =
  pres_assigned :: "pre_authorized_app list"
  pres_unassigned :: "pre_authorized_app list"
  pres_assigned_count :: nat
  pres_unassigned_count :: nat

record app_status =
  status_client_id :: client_id
  status_object_id :: object_id
  status_sp_id :: sp_id
  status_certificate_key_ids :: "string list"
  status_password_key_ids :: "string list"
  status_correlation_id :: string
  status_pre_authorized_apps :: "pre_authorized_apps_status option"
  status_hash :: string
  status_secret_name :: string
  status_rotation_time :: "time option"
  status_state :: string
  status_sync_time :: "time option"
  status_tenant :: string
  status_tenant_name :: string

text \<open>Annotations and labels are nil maps (\<open>None\<close>) until something is stored in them.\<close>

record azure_ad_application =
  app_name :: string
  app_namespace :: string
  app_annotations :: "string gomap option"
  app_labels :: "string gomap option"
  app_finalizers :: "string list"
  app_deletion_timestamp :: "time option"
  app_spec :: app_spec
  app_status :: app_status

subsection \<open>Graph API entities\<close>

record app_role =
  ar_allowed :: "string list"
  ar_description :: "string option"
  ar_display_name :: "string option"
  ar_id :: "string option"
  ar_enabled :: "bool option"
  ar_value :: "string option"

record permission_scope =
  ps_consent_description :: "string option"
  ps_consent_display_name :: "string option"
  ps_id :: "string option"
  ps_enabled :: "bool option"
  ps_type :: "string option"
  ps_value :: "string option"

record pre_authorized_application =
  pa_app_id :: "client_id option"
  pa_permission_ids :: "string list"

record api_application =
  api_accept_mapped_claims :: "bool option"
  api_token_version :: "nat option"
  api_scopes :: "permission_scope list"
  api_pre_authorized :: "pre_authorized_application list"

record key_credential =
  kc_key_id :: "string option"
  kc_display_name :: "string option"
  kc_start :: "time option"
  kc_end :: "time option"
  kc_type :: "string option"
  kc_usage :: "string option"
  kc_key :: "string option"

record password_credential =
  pc_key_id :: "string option"
  pc_display_name :: "string option"
  pc_start :: "time option"
  pc_end :: "time option"
  pc_secret :: "string option"

record optional_claim =
  oc_essential :: "bool option"
  oc_name :: "string option"

record optional_claims =
  oc_access_token :: "optional_claim list"
  oc_id_token :: "optional_claim list"
  oc_saml2_token :: "optional_claim list"

record resource_access =
  rac_id :: "string option"
  rac_type :: "string option"

record required_resource_access =
  rra_app_id :: "string option"
  rra_access :: "resource_access list"

record web_application =
  web_logout_url :: "string option"
  web_redirect_uris :: "string list"
  web_id_token_issuance :: "bool option"
  web_access_token_issuance :: "bool option"

record spa_application =
  spa_redirect_uris :: "string list"

record graph_application =
  ga_id :: "object_id option"
  ga_app_id :: "client_id option"
  ga_display_name :: "string option"
  ga_sign_in_audience :: "string option"
  ga_tags :: "string list"
  ga_api :: "api_application option"
  ga_app_roles :: "app_role list"
  ga_identifier_uris :: "string list"
  ga_key_credentials :: "key_credential list"
  ga_password_credentials :: "password_credential list"
  ga_group_membership_claims :: "string option"
  ga_optional_claims :: "optional_claims option"
  ga_required_resource_access :: "required_resource_access list"
  ga_web :: "web_application option"
  ga_spa :: "spa_application option"

record service_principal =
  sp_id :: "sp_id option"
  sp_app_id :: "client_id option"
  sp_assignment_required :: "bool option"
  sp_tags :: "string list"

record app_role_assignment =
  ra_id :: "string option"
  ra_role_id :: "string option"
  ra_principal_name :: "string option"
  ra_principal_id :: "sp_id option"
  ra_principal_type :: "string option"
  ra_resource_id :: "sp_id option"

record permission_grant =
  gr_client_id :: "string option"
  gr_consent_type :: "string option"
  gr_resource_id :: "string option"
  gr_scope :: "string option"

record graph_group =
  gg_id :: "object_id option"
  gg_display_name :: "string option"

text \<open>The zero value of \<open>msgraph.Application\<close> and of its nested structs.\<close>

definition zero_api :: api_application where
  "zero_api = \<lparr>api_accept_mapped_claims = None, api_token_version = None, api_scopes = [],
     api_pre_authorized = []\<rparr>"

lemma zero_api_simps [simp]:
  "api_accept_mapped_claims zero_api = None"
  "api_token_version zero_api = None"
  "api_scopes zero_api = []"
  "api_pre_authorized zero_api = []"
  by (simp_all add: zero_api_def)

definition zero_application :: graph_application where
  "zero_application =
     \<lparr>ga_id = None, ga_app_id = None, ga_display_name = None, ga_sign_in_audience = None,
      ga_tags = [], ga_api = None, ga_app_roles = [], ga_identifier_uris = [],
      ga_key_credentials = [], ga_password_credentials = [], ga_group_membership_claims = None,
      ga_optional_claims = None, ga_required_resource_access = [], ga_web = None, ga_spa = None\<rparr>"

lemma zero_application_simps [simp]:
  "ga_id zero_application = None"
  "ga_app_id zero_application = None"
  "ga_display_name zero_application = None"
  "ga_sign_in_audience zero_application = None"
  "ga_tags zero_application = []"
  "ga_api zero_application = None"
  "ga_app_roles zero_application = []"
  "ga_identifier_uris zero_application = []"
  "ga_key_credentials zero_application = []"
  "ga_password_credentials zero_application = []"
  "ga_group_membership_claims zero_application = None"
  "ga_optional_claims zero_application = None"
  "ga_required_resource_access zero_application = []"
  "ga_web zero_application = None"
  "ga_spa zero_application = None"
  by (simp_all add: zero_application_def)

subsection \<open>Credentials (pkg/azure/credentials, pkg/util/crypto)\<close>

text \<open>
  A JSON web key with the fields the code sets: the private key material is an opaque string, the
  certificates are their raw (DER) contents. A \<open>Jwk\<close> pairs it with the PEM of its certificate.
\<close>

record json_web_key =
  jk_key :: string
  jk_key_id :: string
  jk_use :: string
  jk_algorithm :: string
  jk_certificates :: "string list"
  jk_thumbprint_sha1 :: string
  jk_thumbprint_sha256 :: string

record jwk =
  jwk_private :: json_web_key
  jwk_public_pem :: string

record certificate =
  cert_key_id :: string
  cert_jwk :: jwk

record password =
  pw_key_id :: string
  pw_client_secret :: string

record credentials =
  cr_certificate :: certificate
  cr_password :: password

record credentials_set =
  set_current :: credentials
  set_next :: credentials

record key_id =
  kid_certificate :: "string list"
  kid_password :: "string list"

record key_ids =
  kids_used :: key_id
  kids_unused :: key_id

record added_key_credential =
  akc_key_credential :: key_credential
  akc_jwk :: jwk

record added_key_credential_set =
  akcs_current :: added_key_credential
  akcs_next :: added_key_credential

subsection \<open>Kubernetes secrets and reconcile results\<close>

text \<open>
  A secret with the fields the code uses; \<open>sec_owner\<close> is the kind and name of its controlling
  owner. \<open>SecretLists\<close> of the liberator library splits the managed secrets into those that
  some pod of the application uses and the others.
\<close>

record secret =
  sec_name :: string
  sec_namespace :: string
  sec_labels :: "string gomap"
  sec_annotations :: "string gomap"
  sec_data :: "string gomap"
  sec_string_data :: "string gomap"
  sec_owner :: "(string \<times> string) option"

record secret_lists =
  sl_used :: "secret list"
  sl_unused :: "secret list"

record ctrl_result =
  requeue :: bool
  requeue_after :: "duration option"

subsection \<open>Configuration (pkg/config)\<close>

record azure_tenant =
  tenant_id :: string
  tenant_name :: string

record azure_features =
  feat_role_assignment_required :: bool
  feat_claims_policies :: bool
  feat_claims_policies_id :: string
  feat_cleanup_orphans :: bool
  feat_security_attributes :: bool
  feat_groups_assignment :: bool
  feat_all_users_group_id :: "string list"
  feat_group_claim_default :: string

record azure_config =
  az_client_id :: client_id
  az_client_secret :: string
  az_google_enabled :: bool
  az_google_project_id :: string
  az_delay :: duration
  az_features :: azure_features
  az_max_pages :: int
  az_grant_resource_id :: string
  az_tenant :: azure_tenant

record leader_election =
  le_enabled :: bool
  le_namespace :: string

record config =
  cfg_azure :: azure_config
  cfg_cluster_name :: string
  cfg_context_timeout :: duration
  cfg_max_concurrent :: int
  cfg_sweep_interval :: duration
  cfg_rotation_max_age :: duration
  cfg_rotation_cleanup :: bool
  cfg_tenant_required :: bool
  cfg_leader_election :: leader_election
  cfg_metrics_addr :: string
  cfg_probes_addr :: string

record openid_config =
  oid_issuer :: string
  oid_token_endpoint :: string
  oid_jwks_uri :: string
  oid_well_known :: string

end
