(* ===== verification/Permissions.thy ===== *)
theory Permissions
  imports Types
begin

text \<open>
  pkg/azure/permissions: the set of permissions (names, IDs, enabled flags) from which both the
  application roles and the OAuth2 permission scopes of an application are generated, so that a
  role and a scope with the same value share one ID.
\<close>

subsection \<open>Constants (const.go)\<close>

definition DefaultPermissionScopeValue :: string where
  "DefaultPermissionScopeValue = ''defaultaccess''"

definition DefaultPermissionScopeId :: string where
  "DefaultPermissionScopeId = ''00000000-1337-d34d-b33f-000000000000''"

definition DefaultScopeType :: string where
  "DefaultScopeType = ''Admin''"

definition DefaultAppRoleValue :: string where
  "DefaultAppRoleValue = ''access_as_application''"

definition DefaultAppRoleId :: string where
  "DefaultAppRoleId = ''00000001-abcd-9001-0000-000000000000''"

definition DefaultGroupRoleValue :: string where
  "DefaultGroupRoleValue = ''defaultrole''"

definition DefaultGroupRoleId :: string where
  "DefaultGroupRoleId = ''00000000-0000-0000-0000-000000000000''"

lemma default_values_distinct [simp]:
  "DefaultPermissionScopeValue \<noteq> DefaultAppRoleValue"
  "DefaultAppRoleValue \<noteq> DefaultPermissionScopeValue"
  "DefaultPermissionScopeValue \<noteq> DefaultGroupRoleValue"
  "DefaultAppRoleValue \<noteq> DefaultGroupRoleValue"
  by (simp_all add: DefaultPermissionScopeValue_def DefaultAppRoleValue_def DefaultGroupRoleValue_def)

lemma default_ids_distinct [simp]:
  "DefaultPermissionScopeId \<noteq> DefaultAppRoleId"
  "DefaultAppRoleId \<noteq> DefaultPermissionScopeId"
  by (simp_all add: DefaultPermissionScopeId_def DefaultAppRoleId_def)

subsection \<open>Permission and Permissions (permissions.go)\<close>

record permission =
  pm_name :: string
  pm_id :: string
  pm_enabled :: bool

type_synonym permissions = "permission gomap"

definition permission_new :: "string \<Rightarrow> string \<Rightarrow> bool \<Rightarrow> permission" where
  "permission_new i name enabled = \<lparr>pm_name = name, pm_id = i, pm_enabled = enabled\<rparr>"

definition permissions_add :: "permission \<Rightarrow> permissions \<Rightarrow> permissions" where
  "permissions_add p m = (if gm_has m (pm_name p) then m else gm_put (pm_name p) p m)"

text \<open>\<open>Filter\<close>: the permissions with one of the desired names, looked up one by one.\<close>

fun permissions_filter_loop ::
  "permissions \<Rightarrow> permissions \<Rightarrow> string list \<Rightarrow> permissions" where
  "permissions_filter_loop p result [] = result"
| "permissions_filter_loop p result (scope # desired) =
     (case map_of p scope of
        None \<Rightarrow> permissions_filter_loop p result desired
      | Some perm \<Rightarrow>
          if gm_has result scope then permissions_filter_loop p result desired
          else permissions_filter_loop p (gm_put scope perm result) desired)"

definition permissions_filter :: "permissions \<Rightarrow> string list \<Rightarrow> permissions" where
  "permissions_filter p desired = permissions_filter_loop p [] desired"

definition permission_ids :: "map_order \<Rightarrow> permissions \<Rightarrow> string list" where
  "permission_ids ord p = map (\<lambda>(_, v). pm_id v) (gm_range ord p)"

definition permissions_enabled :: "map_order \<Rightarrow> permissions \<Rightarrow> permissions" where
  "permissions_enabled ord p =
     fold (\<lambda>(_, v) result. if pm_enabled v then permissions_add v result else result)
       (gm_range ord p) []"

definition permissions_disabled :: "map_order \<Rightarrow> permissions \<Rightarrow> permissions" where
  "permissions_disabled ord p =
     fold (\<lambda>(_, v) result. if \<not> pm_enabled v then permissions_add v result else result)
       (gm_range ord p) []"

text \<open>The result of the search does not depend on the order of the map.\<close>

definition has_role_id :: "permissions \<Rightarrow> string \<Rightarrow> bool" where
  "has_role_id p role_id = list_ex (\<lambda>(_, v). pm_id v = role_id) p"

definition permission_from_app_role :: "app_role \<Rightarrow> permission outcome" where
  "permission_from_app_role r =
     out_bind (deref (ar_id r)) (\<lambda>i. out_bind (deref (ar_value r)) (\<lambda>v.
     out_bind (deref (ar_enabled r)) (\<lambda>e. Ok (permission_new i v e))))"

definition permission_from_scope :: "permission_scope \<Rightarrow> permission outcome" where
  "permission_from_scope r =
     out_bind (deref (ps_id r)) (\<lambda>i. out_bind (deref (ps_value r)) (\<lambda>v.
     out_bind (deref (ps_enabled r)) (\<lambda>e. Ok (permission_new i v e))))"

definition default_app_role_permission :: permission where
  "default_app_role_permission = permission_new DefaultAppRoleId DefaultAppRoleValue True"

definition default_scope_permission :: permission where
  "default_scope_permission =
     permission_new DefaultPermissionScopeId DefaultPermissionScopeValue True"

text \<open>A new permission with the UUID \<open>drawn\<close>.\<close>

definition new_generate_id :: "string \<Rightarrow> string \<Rightarrow> bool \<Rightarrow> permission" where
  "new_generate_id drawn name enabled = permission_new drawn name enabled"

definition new_generate_id_enabled :: "string \<Rightarrow> string \<Rightarrow> permission" where
  "new_generate_id_enabled drawn name = new_generate_id drawn name True"

definition new_generate_id_disabled :: "string \<Rightarrow> string \<Rightarrow> permission" where
  "new_generate_id_disabled drawn name = new_generate_id drawn name False"

lemma new_generate_id_simps [simp]:
  "new_generate_id_enabled drawn name = permission_new drawn name True"
  "new_generate_id_disabled drawn name = permission_new drawn name False"
  by (simp_all add: new_generate_id_enabled_def new_generate_id_disabled_def new_generate_id_def)

definition flatten_rules :: "inbound_rule list \<Rightarrow> (inbound_rule \<Rightarrow> string list) \<Rightarrow> string list" where
  "flatten_rules rules f = fold (\<lambda>app result. result @ f app) rules []"

lemma flatten_rules_concat [simp]: "flatten_rules rules f = concat (map f rules)"
proof -
  have "fold (\<lambda>app result. result @ f app) rules xs = xs @ concat (map f rules)" for xs
    by (induction rules arbitrary: xs) auto
  then show ?thesis by (simp add: flatten_rules_def)
qed

definition flatten_scopes :: "azure_ad_application \<Rightarrow> string list" where
  "flatten_scopes app =
     flatten_rules (spec_pre_authorized_applications (app_spec app))
       (\<lambda>r. case in_permissions r of Some p \<Rightarrow> perm_scopes p | None \<Rightarrow> [])"

definition flatten_roles :: "azure_ad_application \<Rightarrow> string list" where
  "flatten_roles app =
     flatten_rules (spec_pre_authorized_applications (app_spec app))
       (\<lambda>r. case in_permissions r of Some p \<Rightarrow> perm_roles p | None \<Rightarrow> [])"

text \<open>
  \<open>GenerateDesiredPermissionSet\<close>: \<open>fresh i\<close> is the UUID drawn for the \<open>i\<close>-th
  permission of the loop (the code draws one for every listed permission, repeated names included).
\<close>

definition generate_desired :: "(nat \<Rightarrow> string) \<Rightarrow> azure_ad_application \<Rightarrow> permissions" where
  "generate_desired fresh app =
     permissions_add default_scope_permission
       (permissions_add default_app_role_permission
         (fold (\<lambda>(i, name). permissions_add (new_generate_id_enabled (fresh i) name))
           (enumerate 0 (flatten_scopes app @ flatten_roles app)) []))"

definition extract_permissions :: "graph_application \<Rightarrow> permissions outcome" where
  "extract_permissions app =
     out_bind (deref (ga_api app)) (\<lambda>api.
     out_bind (out_fold (\<lambda>s m. out_bind (permission_from_scope s) (\<lambda>p. Ok (permissions_add p m)))
                (api_scopes api) [])
       (out_fold (\<lambda>r m. out_bind (permission_from_app_role r) (\<lambda>p. Ok (permissions_add p m)))
         (ga_app_roles app)))"

text \<open>
  \<open>GenerateDesiredPermissionSetPreserveExisting\<close>: storing under a key the loop is visiting
  changes no other entry, so the visiting order does not matter.
\<close>

definition preserve_existing :: "permissions \<Rightarrow> permissions \<Rightarrow> permissions" where
  "preserve_existing desired actual =
     map (\<lambda>(k, v). (k, case map_of actual k of Some a \<Rightarrow> a | None \<Rightarrow> v)) desired"

definition generate_desired_preserve_existing ::
  "(nat \<Rightarrow> string) \<Rightarrow> azure_ad_application \<Rightarrow> graph_application \<Rightarrow> permissions outcome" where
  "generate_desired_preserve_existing fresh app existing =
     out_bind (extract_permissions existing)
       (\<lambda>actual. Ok (preserve_existing (generate_desired fresh app) actual))"

subsection \<open>Well-formed permission sets\<close>

text \<open>Every entry is stored under its own name: the invariant of \<open>Permissions\<close>.\<close>

definition permissions_wf :: "permissions \<Rightarrow> bool" where
  "permissions_wf m \<longleftrightarrow> gm_wf m \<and> (\<forall>(k, v) \<in> set m. pm_name v = k)"

lemma permissions_wfD: "permissions_wf m \<Longrightarrow> map_of m k = Some v \<Longrightarrow> pm_name v = k"
  by (auto simp: permissions_wf_def dest: map_of_SomeD)

lemma permissions_wf_gm [simp]: "permissions_wf m \<Longrightarrow> gm_wf m"
  by (simp add: permissions_wf_def)

lemma permissions_wfI:
  "gm_wf m \<Longrightarrow> (\<And>k v. map_of m k = Some v \<Longrightarrow> pm_name v = k) \<Longrightarrow> permissions_wf m"
  by (auto simp: permissions_wf_def map_of_set)

lemma permissions_wf_Nil [simp]: "permissions_wf []"
  by (simp add: permissions_wf_def)

lemma map_of_permissions_add:
  "map_of (permissions_add p m) k =
     (if k = pm_name p \<and> map_of m k = None then Some p else map_of m k)"
  by (auto simp: permissions_add_def gm_has_def)

lemma gm_keys_permissions_add [simp]:
  "gm_keys (permissions_add p m) = insert (pm_name p) (gm_keys m)"
  by (auto simp: permissions_add_def gm_has_iff)

lemma permissions_wf_add [simp]: "permissions_wf m \<Longrightarrow> permissions_wf (permissions_add p m)"
  by (rule permissions_wfI)
    (auto simp: map_of_permissions_add permissions_add_def permissions_wfD split: if_splits)

lemma permissions_wf_fold_add:
  "permissions_wf m \<Longrightarrow> permissions_wf (fold (\<lambda>x. permissions_add (f x)) xs m)"
  by (rule fold_invariant) simp_all

lemma gm_keys_fold_add:
  "gm_keys (fold (\<lambda>x. permissions_add (f x)) xs m) = (\<lambda>x. pm_name (f x)) ` set xs \<union> gm_keys m"
  by (induction xs arbitrary: m) auto

lemma map_of_fold_add_keep:
  "map_of m k = Some v \<Longrightarrow> map_of (fold (\<lambda>x. permissions_add (f x)) xs m) k = Some v"
  by (induction xs arbitrary: m) (simp_all add: map_of_permissions_add)

lemma generate_desired_fold:
  "fold (\<lambda>(i, name). permissions_add (permission_new (fresh i) name True)) xs m =
     fold (\<lambda>x. permissions_add (permission_new (fresh (fst x)) (snd x) True)) xs m"
  by (simp add: split_def)

lemma permission_new_sel [simp]:
  "pm_name (permission_new i n e) = n" "pm_id (permission_new i n e) = i"
  "pm_enabled (permission_new i n e) = e"
  by (simp_all add: permission_new_def)

lemma generate_desired_wf [simp]: "permissions_wf (generate_desired fresh app)"
  by (simp add: generate_desired_def generate_desired_fold permissions_wf_fold_add)

text \<open>The names of the desired set: what the resource lists, and the two defaults.\<close>

definition desired_names :: "azure_ad_application \<Rightarrow> string set" where
  "desired_names app =
     set (flatten_scopes app) \<union> set (flatten_roles app) \<union>
       {DefaultAppRoleValue, DefaultPermissionScopeValue}"

lemma generate_desired_keys: "gm_keys (generate_desired fresh app) = desired_names app"
proof -
  have "snd ` set (enumerate 0 xs) = set xs" for xs :: "string list"
    by (metis list.set_map map_snd_enumerate)
  then show ?thesis
    by (auto simp: generate_desired_def generate_desired_fold gm_keys_fold_add desired_names_def
        default_app_role_permission_def default_scope_permission_def)
qed

text \<open>Every generated permission is enabled.\<close>

definition all_enabled :: "permissions \<Rightarrow> bool" where
  "all_enabled m \<longleftrightarrow> (\<forall>(k, v) \<in> set m. pm_enabled v)"

lemma map_of_fold_add_enabled:
  assumes "\<And>k v. map_of m k = Some v \<Longrightarrow> pm_enabled v" "\<And>x. pm_enabled (f x)"
  shows "map_of (fold (\<lambda>x. permissions_add (f x)) xs m) k = Some v \<Longrightarrow> pm_enabled v"
  using assms(1)
proof (induction xs arbitrary: m)
  case (Cons x xs)
  show ?case
    by (rule Cons.IH [where m = "permissions_add (f x) m"])
      (use Cons.prems assms(2) in \<open>auto simp: map_of_permissions_add split: if_splits\<close>)
qed simp

lemma generate_desired_enabled:
  assumes "map_of (generate_desired fresh app) k = Some v"
  shows "pm_enabled v"
proof -
  have "map_of (fold (\<lambda>x. permissions_add (permission_new (fresh (fst x)) (snd x) True)) xs []) k
      = Some v \<Longrightarrow> pm_enabled v" for xs
    by (rule map_of_fold_add_enabled [where m = "[]"]) auto
  then show ?thesis
    using assms
    by (auto simp: generate_desired_def generate_desired_fold map_of_permissions_add
        default_app_role_permission_def default_scope_permission_def split: if_splits)
qed

lemma map_of_preserve_existing:
  "map_of (preserve_existing d a) k =
     (case map_of d k of None \<Rightarrow> None
      | Some v \<Rightarrow> Some (case map_of a k of Some w \<Rightarrow> w | None \<Rightarrow> v))"
  by (induction d) (auto simp: preserve_existing_def split: option.split)

lemma gm_keys_preserve_existing [simp]: "gm_keys (preserve_existing d a) = gm_keys d"
  by (auto simp: gm_keys_dom map_of_preserve_existing dom_def split: option.splits)

lemma gm_wf_preserve_existing [simp]: "gm_wf d \<Longrightarrow> gm_wf (preserve_existing d a)"
  by (simp add: gm_wf_def preserve_existing_def comp_def split_def)

lemma permissions_wf_preserve_existing:
  "permissions_wf d \<Longrightarrow> permissions_wf a \<Longrightarrow> permissions_wf (preserve_existing d a)"
  by (rule permissions_wfI)
    (auto simp: map_of_preserve_existing permissions_wfD split: option.splits)

subsection \<open>Filter, Enabled, Disabled\<close>

lemma map_of_permissions_filter_loop:
  "map_of (permissions_filter_loop p result desired) k =
     (case map_of result k of Some v \<Rightarrow> Some v
      | None \<Rightarrow> if k \<in> set desired then map_of p k else None)"
proof (induction p result desired rule: permissions_filter_loop.induct)
  case (2 p result scope desired)
  then show ?case by (auto simp: gm_has_def split: option.splits)
qed (auto split: option.split)

lemma map_of_permissions_filter:
  "map_of (permissions_filter p desired) k = (if k \<in> set desired then map_of p k else None)"
  by (simp add: permissions_filter_def map_of_permissions_filter_loop)

lemma gm_wf_permissions_filter [simp]: "gm_wf (permissions_filter p desired)"
proof -
  have "gm_wf result \<Longrightarrow> gm_wf (permissions_filter_loop p result desired)" for result
    by (induction p result desired rule: permissions_filter_loop.induct)
      (auto split: option.split)
  then show ?thesis by (simp add: permissions_filter_def)
qed

lemma set_permission_ids:
  assumes "iteration_order ord" "gm_wf p"
  shows "set (permission_ids ord p) = {pm_id v |k v. map_of p k = Some v}"
  using gm_range_set [OF assms] map_of_set [OF assms(2)]
  by (force simp: permission_ids_def image_iff)

lemma map_of_fold_select:
  assumes "iteration_order ord" "permissions_wf p"
  shows "map_of (fold (\<lambda>(_, v) result. if q v then permissions_add v result else result)
           (gm_range ord p) []) k
     = (case map_of p k of Some v \<Rightarrow> if q v then Some v else None | None \<Rightarrow> None)"
proof -
  have *: "map_of (fold (\<lambda>(_, v) result. if q v then permissions_add v result else result) es m) k
      = (case map_of m k of Some v \<Rightarrow> Some v
         | None \<Rightarrow> (case map_of es k of Some v \<Rightarrow> if q v then Some v else None | None \<Rightarrow> None))"
    if "gm_wf es" "\<And>k v. (k, v) \<in> set es \<Longrightarrow> pm_name v = k" for es m k
    using that
  proof (induction es arbitrary: m k)
    case (Cons e es)
    obtain k' v where e: "e = (k', v)" by force
    have nm: "pm_name v = k'" using Cons.prems(2) e by simp
    have wf: "gm_wf es" "map_of es k' = None"
      using Cons.prems(1) e by (auto simp: gm_wf_def map_of_eq_None_iff)
    have IH: "map_of (fold (\<lambda>(_, v) result. if q v then permissions_add v result else result) es m) k
      = (case map_of m k of Some v \<Rightarrow> Some v
         | None \<Rightarrow> (case map_of es k of Some v \<Rightarrow> if q v then Some v else None | None \<Rightarrow> None))" for m k
      by (rule Cons.IH [OF wf(1)]) (use Cons.prems(2) in auto)
    show ?case
      using nm wf(2) unfolding e
      by (cases "k = k'") (simp_all add: IH map_of_permissions_add split: option.split)
  qed (auto split: option.split)
  have "pm_name v = k" if "(k, v) \<in> set (gm_range ord p)" for k v
    using that gm_range_set [OF assms(1) permissions_wf_gm [OF assms(2)]] assms(2)
    by (auto simp: permissions_wf_def)
  then show ?thesis
    using * [OF gm_range_wf [OF assms(1) permissions_wf_gm [OF assms(2)]]]
    by (simp add: map_of_gm_range [OF assms(1) permissions_wf_gm [OF assms(2)]])
qed

lemma map_of_permissions_enabled:
  assumes "iteration_order ord" "permissions_wf p"
  shows "map_of (permissions_enabled ord p) k =
     (case map_of p k of Some v \<Rightarrow> if pm_enabled v then Some v else None | None \<Rightarrow> None)"
  unfolding permissions_enabled_def by (rule map_of_fold_select [OF assms])

lemma map_of_permissions_disabled:
  assumes "iteration_order ord" "permissions_wf p"
  shows "map_of (permissions_disabled ord p) k =
     (case map_of p k of Some v \<Rightarrow> if \<not> pm_enabled v then Some v else None | None \<Rightarrow> None)"
  unfolding permissions_disabled_def by (rule map_of_fold_select [OF assms])

lemma permissions_wf_fold_select:
  "permissions_wf m \<Longrightarrow>
   permissions_wf (fold (\<lambda>(_, v) result. if q v then permissions_add v result else result) es m)"
  by (rule fold_invariant) auto

lemma permissions_wf_enabled [simp]: "permissions_wf (permissions_enabled ord p)"
  by (simp add: permissions_enabled_def permissions_wf_fold_select)

lemma permissions_wf_disabled [simp]: "permissions_wf (permissions_disabled ord p)"
  by (simp add: permissions_disabled_def permissions_wf_fold_select)

lemma has_role_id_iff:
  "gm_wf p \<Longrightarrow> has_role_id p i \<longleftrightarrow> (\<exists>k v. map_of p k = Some v \<and> pm_id v = i)"
  by (force simp: has_role_id_def list_ex_iff map_of_set [symmetric])

end
