(* ===== verification/PermissionDiff.thy ===== *)
theory PermissionDiff
  imports Permissions
begin

text \<open>
  The interface between the desired permissions and the two kinds of entries Azure AD keeps for
  them, application roles and OAuth2 permission scopes. The source has the algorithm twice
  (pkg/azure/client/application/approle and .../permissionscope); the locale states what both
  copies promise for their maps of entries, and derives once what the description of an update
  contains.
\<close>

text \<open>What the desired state says about one entry: its ID and whether it is enabled.\<close>

definition entry_view ::
  "('e \<Rightarrow> string option) \<Rightarrow> ('e \<Rightarrow> string option) \<Rightarrow> ('e \<Rightarrow> bool option) \<Rightarrow> 'e \<Rightarrow>
   string \<times> string \<times> bool" where
  "entry_view val ident enabled e = (the (val e), the (ident e), the (enabled e))"

text \<open>
  The specification of an update: the existing entries keep their (first) ID and are enabled
  exactly if they are desired or the default; names that are not registered yet are created
  enabled, the default one with its well-known ID, the others with the ID of the desired set.
\<close>

definition described_entry ::
  "(string \<rightharpoonup> string) \<Rightarrow> permissions \<Rightarrow> string \<Rightarrow> string \<Rightarrow> string \<Rightarrow> (string \<times> bool) option" where
  "described_entry existing desired dflt dflt_id k =
     (case existing k of
        Some i \<Rightarrow> Some (i, gm_has desired k \<or> k = dflt)
      | None \<Rightarrow>
          if k = dflt then Some (dflt_id, True)
          else map_option (\<lambda>p. (pm_id p, True)) (map_of desired k))"

locale described_permissions =
  fixes val :: "'e \<Rightarrow> string option"
    and ident :: "'e \<Rightarrow> string option"
    and enabled :: "'e \<Rightarrow> bool option"
    and complete :: "'e \<Rightarrow> bool"
    and mk :: "string \<Rightarrow> string \<Rightarrow> 'e"
    and disable :: "'e \<Rightarrow> 'e"
    and dflt :: string
    and dflt_id :: string
    and to_map :: "'e list \<Rightarrow> 'e gomap outcome"
    and to_slice :: "map_order \<Rightarrow> 'e gomap \<Rightarrow> 'e list"
    and to_create :: "map_order \<Rightarrow> 'e gomap \<Rightarrow> permissions \<Rightarrow> 'e gomap"
    and to_disable :: "map_order \<Rightarrow> 'e gomap \<Rightarrow> permissions \<Rightarrow> 'e gomap outcome"
    and unmodified :: "map_order \<Rightarrow> 'e gomap \<Rightarrow> 'e gomap \<Rightarrow> 'e gomap \<Rightarrow> 'e gomap outcome"
    and finish :: "'e list \<Rightarrow> 'e list outcome"
    and describe :: "map_order \<Rightarrow> permissions \<Rightarrow> 'e list \<Rightarrow> 'e list outcome"
  assumes complete_ptrs:
      "complete e \<Longrightarrow> val e \<noteq> None \<and> ident e \<noteq> None \<and> enabled e \<noteq> None"
    and mk_view [simp]:
      "complete (mk i n)" "val (mk i n) = Some n" "ident (mk i n) = Some i"
      "enabled (mk i n) = Some True"
    and disable_view [simp]:
      "complete e \<Longrightarrow> complete (disable e)" "val (disable e) = val e"
      "ident (disable e) = ident e" "enabled (disable e) = Some False"
    and to_map_law:
      "(\<And>e. e \<in> set ex \<Longrightarrow> complete e) \<Longrightarrow>
       \<exists>m. to_map ex = Ok m \<and> gm_wf m \<and> (\<forall>k. map_of m k = find (\<lambda>e. val e = Some k) ex)"
    and to_slice_law: "to_slice ord m = map snd (gm_range ord m)"
    and to_create_law:
      "iteration_order ord \<Longrightarrow> permissions_wf d \<Longrightarrow>
       gm_wf (to_create ord m d) \<and>
       map_of (to_create ord m d) k =
         (if gm_has m k then None
          else if k = dflt then Some (mk dflt_id dflt)
          else map_option (\<lambda>p. mk (pm_id p) (pm_name p)) (map_of d k))"
    and to_disable_law:
      "iteration_order ord \<Longrightarrow> gm_wf m \<Longrightarrow>
       (\<And>k e. map_of m k = Some e \<Longrightarrow> complete e \<and> val e = Some k) \<Longrightarrow>
       \<exists>dis. to_disable ord m d = Ok dis \<and> gm_wf dis \<and>
         (\<forall>k. map_of dis k = (if gm_has d k \<or> k = dflt then None else map_option disable (map_of m k)))"
    and unmodified_law:
      "iteration_order ord \<Longrightarrow> gm_wf m \<Longrightarrow>
       (\<And>k e. map_of m k = Some e \<Longrightarrow> complete e \<and> val e = Some k) \<Longrightarrow>
       \<exists>unm. unmodified ord m c dis = Ok unm \<and> gm_wf unm \<and>
         (\<forall>k. map_of unm k = (if gm_has c k \<or> gm_has dis k then None
                else map_option (\<lambda>e. mk (the (ident e)) k) (map_of m k)))"
    and finish_law:
      "(\<And>e. e \<in> set es \<Longrightarrow> complete e) \<Longrightarrow>
       (\<And>e. e \<in> set es \<Longrightarrow> val e = Some dflt \<Longrightarrow> enabled e = Some True) \<Longrightarrow>
       \<exists>r. finish es = Ok r \<and> (\<forall>e \<in> set r. complete e) \<and>
         map (entry_view val ident enabled) r = map (entry_view val ident enabled) es"
    and describe_law:
      "describe ord d ex =
         out_bind (to_map ex) (\<lambda>m. out_bind (to_disable ord m d) (\<lambda>dis.
         out_bind (unmodified ord m (to_create ord m d) dis) (\<lambda>unm.
           finish (to_slice ord unm @ to_slice ord (to_create ord m d) @ to_slice ord dis))))"
begin

abbreviation view :: "'e \<Rightarrow> string \<times> string \<times> bool" where
  "view \<equiv> entry_view val ident enabled"

lemma range_view:
  assumes "iteration_order ord" "gm_wf m"
    and "\<And>k e. map_of m k = Some e \<Longrightarrow> val e = Some k"
  shows "map (fst \<circ> view) (to_slice ord m) = ord (map fst m)"
proof -
  have "fst (view (snd p)) = fst p" if "p \<in> set (gm_range ord m)" for p
  proof -
    have "map_of m (fst p) = Some (snd p)"
      using that gm_range_set [OF assms(1,2)] map_of_set [OF assms(2)] by (metis prod.collapse)
    then show ?thesis using assms(3) by (simp add: entry_view_def)
  qed
  then have "map (fst \<circ> view) (to_slice ord m) = map fst (gm_range ord m)"
    by (simp add: to_slice_law)
  then show ?thesis by (simp add: gm_range_keys)
qed

lemma in_slice:
  assumes "iteration_order ord" "gm_wf m"
  shows "e \<in> set (to_slice ord m) \<longleftrightarrow> (\<exists>k. map_of m k = Some e)"
  using gm_range_set [OF assms] map_of_set [OF assms(2)] by (force simp: to_slice_law)

text \<open>The three parts of an update have disjoint names.\<close>

lemma view_lookup:
  assumes "iteration_order ord" "gm_wf m"
    and "\<And>k e. map_of m k = Some e \<Longrightarrow> val e = Some k"
  shows "map_of (map view (to_slice ord m)) k = map_option (snd \<circ> view) (map_of m k)"
proof (cases "map_of m k")
  case None
  then have "k \<notin> fst ` set (map view (to_slice ord m))"
    using in_slice [OF assms(1,2)] assms(3) by (force simp: entry_view_def)
  then have "map_of (map view (to_slice ord m)) k = None"
    by (simp only: map_of_eq_None_iff not_False_eq_True)
  then show ?thesis using None by simp
next
  case (Some e)
  have "distinct (map fst (map view (to_slice ord m)))"
    using range_view [OF assms] assms(1,2) by (simp add: iteration_order_def gm_wf_def)
  moreover have "view e \<in> set (map view (to_slice ord m))"
    using in_slice [OF assms(1,2)] Some by auto
  moreover have "fst (view e) = k" using assms(3) [OF Some] by (simp add: entry_view_def)
  ultimately have "map_of (map view (to_slice ord m)) k = Some (snd (view e))"
    by (metis map_of_eq_Some_iff prod.collapse)
  then show ?thesis using Some by simp
qed

theorem describe_spec:
  assumes ord: "iteration_order ord" and d: "permissions_wf d"
    and ex: "\<And>e. e \<in> set ex \<Longrightarrow> complete e"
  shows "\<exists>r. describe ord d ex = Ok r \<and> (\<forall>e \<in> set r. complete e) \<and>
    distinct (map fst (map view r)) \<and>
    (\<forall>k. map_of (map view r) k =
       described_entry (\<lambda>k. Option.bind (find (\<lambda>e. val e = Some k) ex) ident) d dflt dflt_id k)"
proof -
  obtain m where m: "to_map ex = Ok m" "gm_wf m"
      "\<And>k. map_of m k = find (\<lambda>e. val e = Some k) ex"
    using to_map_law ex by blast
  have mok: "complete e \<and> val e = Some k" if "map_of m k = Some e" for k e
  proof -
    have "find (\<lambda>e. val e = Some k) ex = Some e" using that m(3) by simp
    then show ?thesis using ex by (auto simp: find_Some_iff)
  qed
  define c where "c = to_create ord m d"
  have c: "gm_wf c" "\<And>k. map_of c k =
         (if gm_has m k then None
          else if k = dflt then Some (mk dflt_id dflt)
          else map_option (\<lambda>p. mk (pm_id p) (pm_name p)) (map_of d k))"
    using to_create_law [OF ord d] unfolding c_def by blast+
  obtain dis where dis: "to_disable ord m d = Ok dis" "gm_wf dis"
      "\<And>k. map_of dis k = (if gm_has d k \<or> k = dflt then None else map_option disable (map_of m k))"
    using to_disable_law [OF ord m(2) mok] by blast
  obtain unm where unm: "unmodified ord m c dis = Ok unm" "gm_wf unm"
      "\<And>k. map_of unm k = (if gm_has c k \<or> gm_has dis k then None
                else map_option (\<lambda>e. mk (the (ident e)) k) (map_of m k))"
    using unmodified_law [OF ord m(2) mok] by blast
  define es where "es = to_slice ord unm @ to_slice ord c @ to_slice ord dis"
  have okc: "complete e \<and> val e = Some k \<and> enabled e = Some True" if "map_of c k = Some e" for k e
    using that permissions_wfD [OF d] by (auto simp: c(2) split: if_splits)
  have okd: "complete e \<and> val e = Some k \<and> k \<noteq> dflt" if "map_of dis k = Some e" for k e
    using that mok by (auto simp: dis(3) split: if_splits)
  have oku: "complete e \<and> val e = Some k \<and> enabled e = Some True" if "map_of unm k = Some e" for k e
    using that by (auto simp: unm(3) split: if_splits)
  have mem: "complete e \<and> (val e = Some dflt \<longrightarrow> enabled e = Some True)" if "e \<in> set es" for e
    using that okc okd oku in_slice [OF ord c(1)] in_slice [OF ord dis(2)] in_slice [OF ord unm(2)]
    unfolding es_def by fastforce
  have desc: "describe ord d ex = finish es"
    using m(1) dis(1) unm(1) by (simp add: describe_law es_def c_def)
  obtain r where r: "finish es = Ok r" "\<forall>e \<in> set r. complete e" "map view r = map view es"
    using finish_law [of es] mem by blast
  have keys: "map fst (map view es) = ord (map fst unm) @ ord (map fst c) @ ord (map fst dis)"
    using range_view [OF ord unm(2)] range_view [OF ord c(1)] range_view [OF ord dis(2)] okc okd oku
    unfolding es_def by auto
  have disj: "gm_keys unm \<inter> gm_keys c = {}" "gm_keys unm \<inter> gm_keys dis = {}"
      "gm_keys c \<inter> gm_keys dis = {}"
    by (auto simp: gm_keys_dom gm_has_def unm(3) c(2) dis(3) dom_def split: if_splits)
  have dist: "distinct (map fst (map view r))"
    using ord unm(2) c(1) dis(2) disj
    unfolding r(3) keys by (auto simp: iteration_order_def gm_wf_def gm_keys_def)
  have lookup: "map_of (map view r) k =
      (case map_option (snd \<circ> view) (map_of dis k) of Some v \<Rightarrow> Some v
       | None \<Rightarrow> (case map_option (snd \<circ> view) (map_of c k) of Some v \<Rightarrow> Some v
         | None \<Rightarrow> map_option (snd \<circ> view) (map_of unm k)))" for k
  proof -
    have cs: "map_of (map view (to_slice ord c)) k = map_option (snd \<circ> view) (map_of c k)"
      by (rule view_lookup [OF ord c(1)]) (use okc in blast)
    have ds: "map_of (map view (to_slice ord dis)) k = map_option (snd \<circ> view) (map_of dis k)"
      by (rule view_lookup [OF ord dis(2)]) (use okd in blast)
    have us: "map_of (map view (to_slice ord unm)) k = map_option (snd \<circ> view) (map_of unm k)"
      by (rule view_lookup [OF ord unm(2)]) (use oku in blast)
    show ?thesis
      using disj unfolding r(3) es_def gm_keys_dom
      by (auto simp: map_add_def cs ds us split: option.split)
  qed
  have "map_of (map view r) k =
      described_entry (\<lambda>k. Option.bind (find (\<lambda>e. val e = Some k) ex) ident) d dflt dflt_id k" for k
  proof (cases "map_of m k")
    case None
    then show ?thesis
      using permissions_wfD [OF d]
      by (auto simp: lookup c(2) dis(3) unm(3) described_entry_def m(3) [symmetric] gm_has_def
          entry_view_def split: option.split)
  next
    case (Some e)
    then have "complete e" "val e = Some k" using mok by auto
    then obtain i where "ident e = Some i" using complete_ptrs by blast
    then show ?thesis
      using Some \<open>val e = Some k\<close>
      by (auto simp: lookup c(2) dis(3) unm(3) described_entry_def m(3) [symmetric] gm_has_def
          entry_view_def split: option.split)
  qed
  then show ?thesis using desc r(1,2) dist by metis
qed

end

end
