(* ===== verification/AppRoles.thy ===== *)
theory AppRoles
  imports PermissionDiff
begin

text \<open>
  pkg/azure/client/application/approle: the application roles to create, disable and leave
  unmodified (approlemap.go), the roles themselves (approle.go), the description of a creation and
  of an update (approles.go) and its result (result.go).
\<close>

subsection \<open>approle.go\<close>

definition approle_new :: "string \<Rightarrow> string \<Rightarrow> app_role" where
  "approle_new i name =
     \<lparr>ar_allowed = [''Application''], ar_description = Some name, ar_display_name = Some name,
      ar_id = Some i, ar_enabled = Some True, ar_value = Some name\<rparr>"

definition approle_default_role :: app_role where
  "approle_default_role = approle_new DefaultAppRoleId DefaultAppRoleValue"

definition approle_default_group_role :: app_role where
  "approle_default_group_role = approle_new DefaultGroupRoleId DefaultGroupRoleValue"

text \<open>The flag is read only for the default role, as \<open>&&\<close> does.\<close>

definition approle_ensure_default_enabled :: "app_role list \<Rightarrow> app_role list outcome" where
  "approle_ensure_default_enabled roles =
     out_map (\<lambda>r. out_bind (deref (ar_value r)) (\<lambda>v.
       if v = DefaultAppRoleValue
       then out_bind (deref (ar_enabled r)) (\<lambda>e. Ok (if \<not> e then r\<lparr>ar_enabled := Some True\<rparr> else r))
       else Ok r)) roles"

definition approle_from_permission :: "permission \<Rightarrow> app_role" where
  "approle_from_permission p = approle_new (pm_id p) (pm_name p)"

definition approle_remove_disabled :: "graph_application \<Rightarrow> app_role list outcome" where
  "approle_remove_disabled app = out_filter (\<lambda>r. deref (ar_enabled r)) (ga_app_roles app)"

subsection \<open>approlemap.go\<close>

definition approle_map_add :: "app_role \<Rightarrow> app_role gomap \<Rightarrow> app_role gomap outcome" where
  "approle_map_add role m =
     out_bind (deref (ar_value role)) (\<lambda>name. Ok (if gm_has m name then m else gm_put name role m))"

definition approle_to_map :: "app_role list \<Rightarrow> app_role gomap outcome" where
  "approle_to_map roles = out_fold approle_map_add roles []"

definition approle_to_slice :: "map_order \<Rightarrow> app_role gomap \<Rightarrow> app_role list" where
  "approle_to_slice ord m = map snd (gm_range ord m)"

definition approle_to_create :: "map_order \<Rightarrow> app_role gomap \<Rightarrow> permissions \<Rightarrow> app_role gomap" where
  "approle_to_create ord m desired =
     collect (\<lambda>(_, role).
         if pm_name role = DefaultAppRoleValue then None
         else if \<not> gm_has m (pm_name role) then Some (pm_name role, approle_from_permission role)
         else None)
       (gm_range ord desired)
       (if \<not> gm_has m DefaultAppRoleValue
        then gm_put DefaultAppRoleValue approle_default_role [] else [])"

definition approle_to_disable ::
  "map_order \<Rightarrow> app_role gomap \<Rightarrow> permissions \<Rightarrow> app_role gomap outcome" where
  "approle_to_disable ord m desired =
     out_bind (out_collect (\<lambda>(_, role). out_bind (deref (ar_value role)) (\<lambda>name.
          Ok (if \<not> gm_has desired name then Some (name, role\<lparr>ar_enabled := Some False\<rparr>) else None)))
        (gm_range ord m) [])
       (\<lambda>dis. Ok (gm_del DefaultAppRoleValue dis))"

definition approle_unmodified ::
  "map_order \<Rightarrow> app_role gomap \<Rightarrow> app_role gomap \<Rightarrow> app_role gomap \<Rightarrow> app_role gomap outcome" where
  "approle_unmodified ord m to_create to_disable =
     out_collect (\<lambda>(_, role). out_bind (deref (ar_value role)) (\<lambda>name.
         out_bind (deref (ar_id role)) (\<lambda>i.
           Ok (if gm_has to_create name \<or> gm_has to_disable name then None
               else Some (name, approle_new i name)))))
       (gm_range ord m) []"

definition approle_to_permission_list ::
  "map_order \<Rightarrow> app_role gomap \<Rightarrow> permission list outcome" where
  "approle_to_permission_list ord m =
     out_map (\<lambda>(_, role). permission_from_app_role role) (gm_range ord m)"

subsection \<open>result.go and approles.go\<close>

datatype approle_result =
    ApproleCreate "app_role gomap"
  | ApproleUpdate "app_role gomap" "app_role gomap" "app_role gomap" "app_role list"

fun approle_get_result :: "map_order \<Rightarrow> approle_result \<Rightarrow> app_role list" where
  "approle_get_result ord (ApproleCreate to_create) = approle_to_slice ord to_create"
| "approle_get_result ord (ApproleUpdate to_create to_disable unm result) = result"

text \<open>\<open>Log\<close> evaluates the permission lists it prints, so it can dereference nil.\<close>

fun approle_log :: "map_order \<Rightarrow> approle_result \<Rightarrow> unit outcome" where
  "approle_log ord (ApproleCreate to_create) =
     out_bind (approle_to_permission_list ord to_create) (\<lambda>_. Ok ())"
| "approle_log ord (ApproleUpdate to_create to_disable unm result) =
     out_bind (approle_to_permission_list ord to_create) (\<lambda>_.
     out_bind (approle_to_permission_list ord to_disable) (\<lambda>_.
     out_bind (approle_to_permission_list ord unm) (\<lambda>_. Ok ())))"

definition approles_describe_create :: "map_order \<Rightarrow> permissions \<Rightarrow> approle_result" where
  "approles_describe_create ord desired = ApproleCreate (approle_to_create ord [] desired)"

definition approles_describe_update ::
  "map_order \<Rightarrow> permissions \<Rightarrow> app_role list \<Rightarrow> approle_result outcome" where
  "approles_describe_update ord desired existing =
     out_bind (approle_to_map existing) (\<lambda>existing_set.
     let to_create = approle_to_create ord existing_set desired in
     out_bind (approle_to_disable ord existing_set desired) (\<lambda>to_disable.
     out_bind (approle_unmodified ord existing_set to_create to_disable) (\<lambda>unm.
     let result = approle_to_slice ord unm @ approle_to_slice ord to_create
                    @ approle_to_slice ord to_disable in
     out_bind (approle_ensure_default_enabled result) (\<lambda>result.
     Ok (ApproleUpdate to_create to_disable unm result)))))"

subsection \<open>The laws of the interface\<close>

text \<open>A role the Graph API returned: every pointer the code dereferences is set.\<close>

definition approle_complete :: "app_role \<Rightarrow> bool" where
  "approle_complete r \<longleftrightarrow> ar_id r \<noteq> None \<and> ar_value r \<noteq> None \<and> ar_enabled r \<noteq> None"

lemma approle_to_map_spec:
  assumes "\<And>r. r \<in> set ex \<Longrightarrow> approle_complete r"
  shows "\<exists>m. approle_to_map ex = Ok m \<and> gm_wf m \<and> (\<forall>k. map_of m k = find (\<lambda>r. ar_value r = Some k) ex)"
proof -
  have "\<exists>m'. out_fold approle_map_add ex m = Ok m' \<and> gm_wf m' \<and>
      (\<forall>k. map_of m' k = (case map_of m k of Some r \<Rightarrow> Some r | None \<Rightarrow> find (\<lambda>r. ar_value r = Some k) ex))"
    if "gm_wf m" for m
    using that assms
  proof (induction ex arbitrary: m)
    case (Cons r ex)
    obtain v where v: "ar_value r = Some v"
      using Cons.prems(2) [of r] by (auto simp: approle_complete_def)
    define m1 where "m1 = (if gm_has m v then m else gm_put v r m)"
    have "gm_wf m1" using Cons.prems(1) by (simp add: m1_def)
    then obtain m' where m': "out_fold approle_map_add ex m1 = Ok m'" "gm_wf m'"
      "\<forall>k. map_of m' k = (case map_of m1 k of Some r \<Rightarrow> Some r | None \<Rightarrow> find (\<lambda>r. ar_value r = Some k) ex)"
      using Cons.IH Cons.prems(2) by (metis list.set_intros(2))
    have "map_of m' k = (case map_of m k of Some r' \<Rightarrow> Some r'
        | None \<Rightarrow> find (\<lambda>r. ar_value r = Some k) (r # ex))" for k
      using m'(3) v by (auto simp: m1_def gm_has_def split: option.split)
    moreover have "approle_map_add r m = Ok m1" by (simp add: approle_map_add_def m1_def v)
    ultimately show ?case using m' by simp
  qed (auto split: option.split)
  from this [of "[]"] show ?thesis by (simp add: approle_to_map_def)
qed

lemma approle_to_create_spec:
  assumes "iteration_order ord" "permissions_wf d"
  shows "gm_wf (approle_to_create ord m d) \<and>
    map_of (approle_to_create ord m d) k =
      (if gm_has m k then None
       else if k = DefaultAppRoleValue then Some (approle_new DefaultAppRoleId DefaultAppRoleValue)
       else map_option (\<lambda>p. approle_new (pm_id p) (pm_name p)) (map_of d k))"
proof (intro conjI)
  show "gm_wf (approle_to_create ord m d)" by (simp add: approle_to_create_def)
  define f where "f = (\<lambda>(_ :: string, role).
         if pm_name role = DefaultAppRoleValue then None
         else if \<not> gm_has m (pm_name role) then Some (pm_name role, approle_from_permission role)
         else None)"
  define m0 where "m0 = (if \<not> gm_has m DefaultAppRoleValue
        then gm_put DefaultAppRoleValue approle_default_role [] else [])"
  have eq: "approle_to_create ord m d = collect f (gm_range ord d) m0"
    by (simp add: approle_to_create_def f_def m0_def)
  have range: "pm_name v = k'" if "(k', v) \<in> set (gm_range ord d)" for k' v
    using that gm_range_set [OF assms(1) permissions_wf_gm [OF assms(2)]] assms(2)
    by (auto simp: permissions_wf_def)
  show "map_of (approle_to_create ord m d) k = (if gm_has m k then None
       else if k = DefaultAppRoleValue then Some (approle_new DefaultAppRoleId DefaultAppRoleValue)
       else map_option (\<lambda>p. approle_new (pm_id p) (pm_name p)) (map_of d k))"
  proof (cases "k = DefaultAppRoleValue")
    case True
    have "map_of (collect f (gm_range ord d) m0) k = map_of m0 k"
      by (rule map_of_collect_None) (auto simp: f_def True split: if_splits)
    then show ?thesis using True by (simp add: eq m0_def approle_default_role_def)
  next
    case False
    have "map_of (collect f (gm_range ord d) m0) k =
        Option.bind (map_of d k) (\<lambda>p. if gm_has m k then None else Some (approle_from_permission p))"
    proof (rule map_of_collect_range [OF assms(1) permissions_wf_gm [OF assms(2)],
          where g = "\<lambda>k p. if k = DefaultAppRoleValue \<or> gm_has m k then None
                           else Some (approle_from_permission p)", THEN trans])
      show "map_of m0 k = None" using False by (simp add: m0_def)
      show "f (k, v) = map_option (Pair k)
          (if k = DefaultAppRoleValue \<or> gm_has m k then None else Some (approle_from_permission v))"
        if "map_of d k = Some v" for k v
        using permissions_wfD [OF assms(2) that] by (auto simp: f_def)
    qed (use False in \<open>simp split: option.split\<close>)
    then show ?thesis using False
      by (cases "map_of d k") (auto simp: eq approle_from_permission_def)
  qed
qed

lemma approle_range_ok:
  assumes "iteration_order ord" "gm_wf m"
    "\<And>k e. map_of m k = Some e \<Longrightarrow> approle_complete e \<and> ar_value e = Some k"
    and "x \<in> set (gm_range ord m)"
  shows "\<exists>k e i. x = (k, e) \<and> map_of m k = Some e \<and> ar_value e = Some k \<and> ar_id e = Some i"
proof -
  obtain k e where x: "x = (k, e)" by force
  then have "map_of m k = Some e"
    using assms(4) gm_range_set [OF assms(1,2)] map_of_set [OF assms(2)] by simp
  then show ?thesis using assms(3) x by (auto simp: approle_complete_def)
qed

lemma approle_to_disable_spec:
  assumes "iteration_order ord" "gm_wf m"
    and "\<And>k e. map_of m k = Some e \<Longrightarrow> approle_complete e \<and> ar_value e = Some k"
  shows "\<exists>dis. approle_to_disable ord m d = Ok dis \<and> gm_wf dis \<and>
    (\<forall>k. map_of dis k = (if gm_has d k \<or> k = DefaultAppRoleValue then None
                         else map_option (ar_enabled_update (\<lambda>_. Some False)) (map_of m k)))"
proof -
  define g where "g = (\<lambda>(k, role :: app_role). if \<not> gm_has d k then Some (k, role\<lparr>ar_enabled := Some False\<rparr>) else None)"
  have "out_collect (\<lambda>(_, role). out_bind (deref (ar_value role)) (\<lambda>name.
          Ok (if \<not> gm_has d name then Some (name, role\<lparr>ar_enabled := Some False\<rparr>) else None)))
        (gm_range ord m) [] = Ok (collect g (gm_range ord m) [])"
    by (rule out_collect_Ok) (use approle_range_ok [OF assms] in \<open>fastforce simp: g_def\<close>)
  moreover have "map_of (collect g (gm_range ord m) []) k = Option.bind (map_of m k)
      (\<lambda>r. if gm_has d k then None else Some (r\<lparr>ar_enabled := Some False\<rparr>))" for k
    by (rule map_of_collect_range [OF assms(1,2)]) (auto simp: g_def)
  then have "map_of (collect g (gm_range ord m) []) k =
      (if gm_has d k then None else map_option (ar_enabled_update (\<lambda>_. Some False)) (map_of m k))" for k
    by (cases "map_of m k") auto
  ultimately show ?thesis
    by (auto simp: approle_to_disable_def)
qed

lemma approle_unmodified_spec:
  assumes "iteration_order ord" "gm_wf m"
    and "\<And>k e. map_of m k = Some e \<Longrightarrow> approle_complete e \<and> ar_value e = Some k"
  shows "\<exists>unm. approle_unmodified ord m c dis = Ok unm \<and> gm_wf unm \<and>
    (\<forall>k. map_of unm k = (if gm_has c k \<or> gm_has dis k then None
                         else map_option (\<lambda>e. approle_new (the (ar_id e)) k) (map_of m k)))"
proof -
  define g where "g = (\<lambda>(k, role :: app_role). if gm_has c k \<or> gm_has dis k then None
      else Some (k, approle_new (the (ar_id role)) k))"
  have "approle_unmodified ord m c dis = Ok (collect g (gm_range ord m) [])"
    unfolding approle_unmodified_def
    by (rule out_collect_Ok) (use approle_range_ok [OF assms] in \<open>fastforce simp: g_def\<close>)
  moreover have "map_of (collect g (gm_range ord m) []) k = Option.bind (map_of m k)
      (\<lambda>r. if gm_has c k \<or> gm_has dis k then None else Some (approle_new (the (ar_id r)) k))" for k
    by (rule map_of_collect_range [OF assms(1,2)]) (auto simp: g_def)
  then have "map_of (collect g (gm_range ord m) []) k = (if gm_has c k \<or> gm_has dis k then None
      else map_option (\<lambda>e. approle_new (the (ar_id e)) k) (map_of m k))" for k
    by (cases "map_of m k") auto
  ultimately show ?thesis by simp
qed

lemma approle_ensure_spec:
  assumes "\<And>e. e \<in> set es \<Longrightarrow> approle_complete e"
    and "\<And>e. e \<in> set es \<Longrightarrow> ar_value e = Some DefaultAppRoleValue \<Longrightarrow> ar_enabled e = Some True"
  shows "approle_ensure_default_enabled es = Ok es"
proof -
  have "approle_ensure_default_enabled es = Ok (map (\<lambda>r. r) es)"
    unfolding approle_ensure_default_enabled_def
  proof (rule out_map_Ok)
    fix r assume "r \<in> set es"
    then show "out_bind (deref (ar_value r)) (\<lambda>v.
       if v = DefaultAppRoleValue
       then out_bind (deref (ar_enabled r)) (\<lambda>e. Ok (if \<not> e then r\<lparr>ar_enabled := Some True\<rparr> else r))
       else Ok r) = Ok r"
      using assms(1) [of r] assms(2) [of r] by (auto simp: approle_complete_def)
  qed
  then show ?thesis by simp
qed

interpretation approles: described_permissions ar_value ar_id ar_enabled approle_complete
  approle_new "ar_enabled_update (\<lambda>_. Some False)" DefaultAppRoleValue DefaultAppRoleId
  approle_to_map approle_to_slice approle_to_create approle_to_disable approle_unmodified
  approle_ensure_default_enabled
  "\<lambda>ord d ex. out_bind (approles_describe_update ord d ex) (\<lambda>r. Ok (approle_get_result ord r))"
proof (unfold_locales, goal_cases)
  case (10 ex)
  then show ?case by (rule approle_to_map_spec)
next
  case (12 ord d m k)
  then show ?case by (rule approle_to_create_spec)
next
  case (13 ord m d)
  then show ?case by (rule approle_to_disable_spec)
next
  case (14 ord m c dis)
  then show ?case by (rule approle_unmodified_spec)
next
  case (15 es)
  then show ?case by (simp add: approle_ensure_spec)
next
  case (16 ord d ex)
  show ?case by (simp add: approles_describe_update_def Let_def out_bind_assoc)
qed (auto simp: approle_new_def approle_complete_def approle_to_slice_def)

end
