(* ===== verification/PermissionScopes.thy ===== *)
theory PermissionScopes
  imports PermissionDiff
begin

text \<open>
  pkg/azure/client/application/permissionscope: the OAuth2 permission scopes to create, disable and
  leave unmodified (permissionscopemap.go), the scopes themselves (permissionscope.go), the
  description of a creation and of an update (oauth2permissionscope.go) and its result (result.go).
\<close>

subsection \<open>permissionscope.go\<close>

definition scope_new :: "string \<Rightarrow> string \<Rightarrow> permission_scope" where
  "scope_new i name =
     \<lparr>ps_consent_description = Some name, ps_consent_display_name = Some name, ps_id = Some i,
      ps_enabled = Some True, ps_type = Some DefaultScopeType, ps_value = Some name\<rparr>"

definition scope_default_scope :: permission_scope where
  "scope_default_scope = scope_new DefaultPermissionScopeId DefaultPermissionScopeValue"

definition scope_ensure_admin_consent :: "permission_scope list \<Rightarrow> permission_scope list outcome" where
  "scope_ensure_admin_consent scopes =
     out_map (\<lambda>r. out_bind (deref (ps_type r)) (\<lambda>t.
       Ok (if t \<noteq> DefaultScopeType then r\<lparr>ps_type := Some DefaultScopeType\<rparr> else r))) scopes"

definition scope_ensure_default_enabled :: "permission_scope list \<Rightarrow> permission_scope list outcome" where
  "scope_ensure_default_enabled scopes =
     out_map (\<lambda>r. out_bind (deref (ps_value r)) (\<lambda>v.
       if v = DefaultPermissionScopeValue
       then out_bind (deref (ps_enabled r)) (\<lambda>e. Ok (if \<not> e then r\<lparr>ps_enabled := Some True\<rparr> else r))
       else Ok r)) scopes"

definition scope_from_permission :: "permission \<Rightarrow> permission_scope" where
  "scope_from_permission p = scope_new (pm_id p) (pm_name p)"

definition scope_remove_disabled :: "graph_application \<Rightarrow> permission_scope list outcome" where
  "scope_remove_disabled app =
     (case ga_api app of
        None \<Rightarrow> Ok []
      | Some api \<Rightarrow> out_filter (\<lambda>r. deref (ps_enabled r)) (api_scopes api))"

subsection \<open>permissionscopemap.go\<close>

definition scope_map_add :: "permission_scope \<Rightarrow> permission_scope gomap \<Rightarrow> permission_scope gomap outcome" where
  "scope_map_add scope m =
     out_bind (deref (ps_value scope)) (\<lambda>name. Ok (if gm_has m name then m else gm_put name scope m))"

definition scope_to_map :: "permission_scope list \<Rightarrow> permission_scope gomap outcome" where
  "scope_to_map scopes = out_fold scope_map_add scopes []"

definition scope_to_slice :: "map_order \<Rightarrow> permission_scope gomap \<Rightarrow> permission_scope list" where
  "scope_to_slice ord m = map snd (gm_range ord m)"

definition scope_to_create :: "map_order \<Rightarrow> permission_scope gomap \<Rightarrow> permissions \<Rightarrow> permission_scope gomap" where
  "scope_to_create ord m desired =
     collect (\<lambda>(_, scope).
         if pm_name scope = DefaultPermissionScopeValue then None
         else if \<not> gm_has m (pm_name scope) then Some (pm_name scope, scope_from_permission scope)
         else None)
       (gm_range ord desired)
       (if \<not> gm_has m DefaultPermissionScopeValue
        then gm_put DefaultPermissionScopeValue scope_default_scope [] else [])"

definition scope_to_disable ::
  "map_order \<Rightarrow> permission_scope gomap \<Rightarrow> permissions \<Rightarrow> permission_scope gomap outcome" where
  "scope_to_disable ord m desired =
     out_bind (out_collect (\<lambda>(_, scope). out_bind (deref (ps_value scope)) (\<lambda>name.
          Ok (if \<not> gm_has desired name then Some (name, scope\<lparr>ps_enabled := Some False\<rparr>) else None)))
        (gm_range ord m) [])
       (\<lambda>dis. Ok (gm_del DefaultPermissionScopeValue dis))"

definition scope_unmodified ::
  "map_order \<Rightarrow> permission_scope gomap \<Rightarrow> permission_scope gomap \<Rightarrow> permission_scope gomap \<Rightarrow> permission_scope gomap outcome" where
  "scope_unmodified ord m to_create to_disable =
     out_collect (\<lambda>(_, scope). out_bind (deref (ps_value scope)) (\<lambda>name.
         out_bind (deref (ps_id scope)) (\<lambda>i.
           Ok (if gm_has to_create name \<or> gm_has to_disable name then None
               else Some (name, scope_new i name)))))
       (gm_range ord m) []"

definition scope_to_permission_list ::
  "map_order \<Rightarrow> permission_scope gomap \<Rightarrow> permission list outcome" where
  "scope_to_permission_list ord m =
     out_map (\<lambda>(_, scope). permission_from_scope scope) (gm_range ord m)"

subsection \<open>result.go and oauth2permissionscope.go\<close>

datatype scope_result =
    ScopeCreate "permission_scope gomap"
  | ScopeUpdate "permission_scope gomap" "permission_scope gomap" "permission_scope gomap" "permission_scope list"

fun scope_get_result :: "map_order \<Rightarrow> scope_result \<Rightarrow> permission_scope list" where
  "scope_get_result ord (ScopeCreate to_create) = scope_to_slice ord to_create"
| "scope_get_result ord (ScopeUpdate to_create to_disable unm result) = result"

text \<open>\<open>Log\<close> evaluates the permission lists it prints, so it can dereference nil.\<close>

fun scope_log :: "map_order \<Rightarrow> scope_result \<Rightarrow> unit outcome" where
  "scope_log ord (ScopeCreate to_create) =
     out_bind (scope_to_permission_list ord to_create) (\<lambda>_. Ok ())"
| "scope_log ord (ScopeUpdate to_create to_disable unm result) =
     out_bind (scope_to_permission_list ord to_create) (\<lambda>_.
     out_bind (scope_to_permission_list ord to_disable) (\<lambda>_.
     out_bind (scope_to_permission_list ord unm) (\<lambda>_. Ok ())))"

definition scopes_describe_create :: "map_order \<Rightarrow> permissions \<Rightarrow> scope_result" where
  "scopes_describe_create ord desired = ScopeCreate (scope_to_create ord [] desired)"

definition scopes_describe_update ::
  "map_order \<Rightarrow> permissions \<Rightarrow> permission_scope list \<Rightarrow> scope_result outcome" where
  "scopes_describe_update ord desired existing =
     out_bind (scope_to_map existing) (\<lambda>existing_set.
     let to_create = scope_to_create ord existing_set desired in
     out_bind (scope_to_disable ord existing_set desired) (\<lambda>to_disable.
     out_bind (scope_unmodified ord existing_set to_create to_disable) (\<lambda>unm.
     let result = scope_to_slice ord unm @ scope_to_slice ord to_create
                    @ scope_to_slice ord to_disable in
     out_bind (scope_ensure_admin_consent result) (\<lambda>result.
     out_bind (scope_ensure_default_enabled result) (\<lambda>result.
     Ok (ScopeUpdate to_create to_disable unm result))))))"

subsection \<open>The laws of the interface\<close>

text \<open>A scope the Graph API returned: every pointer the code dereferences is set.\<close>

definition scope_complete :: "permission_scope \<Rightarrow> bool" where
  "scope_complete r \<longleftrightarrow> ps_id r \<noteq> None \<and> ps_value r \<noteq> None \<and> ps_enabled r \<noteq> None \<and> ps_type r \<noteq> None"

lemma scope_to_map_spec:
  assumes "\<And>r. r \<in> set ex \<Longrightarrow> scope_complete r"
  shows "\<exists>m. scope_to_map ex = Ok m \<and> gm_wf m \<and> (\<forall>k. map_of m k = find (\<lambda>r. ps_value r = Some k) ex)"
proof -
  have "\<exists>m'. out_fold scope_map_add ex m = Ok m' \<and> gm_wf m' \<and>
      (\<forall>k. map_of m' k = (case map_of m k of Some r \<Rightarrow> Some r | None \<Rightarrow> find (\<lambda>r. ps_value r = Some k) ex))"
    if "gm_wf m" for m
    using that assms
  proof (induction ex arbitrary: m)
    case (Cons r ex)
    obtain v where v: "ps_value r = Some v"
      using Cons.prems(2) [of r] by (auto simp: scope_complete_def)
    define m1 where "m1 = (if gm_has m v then m else gm_put v r m)"
    have "gm_wf m1" using Cons.prems(1) by (simp add: m1_def)
    then obtain m' where m': "out_fold scope_map_add ex m1 = Ok m'" "gm_wf m'"
      "\<forall>k. map_of m' k = (case map_of m1 k of Some r \<Rightarrow> Some r | None \<Rightarrow> find (\<lambda>r. ps_value r = Some k) ex)"
      using Cons.IH Cons.prems(2) by (metis list.set_intros(2))
    have "map_of m' k = (case map_of m k of Some r' \<Rightarrow> Some r'
        | None \<Rightarrow> find (\<lambda>r. ps_value r = Some k) (r # ex))" for k
      using m'(3) v by (auto simp: m1_def gm_has_def split: option.split)
    moreover have "scope_map_add r m = Ok m1" by (simp add: scope_map_add_def m1_def v)
    ultimately show ?case using m' by simp
  qed (auto split: option.split)
  from this [of "[]"] show ?thesis by (simp add: scope_to_map_def)
qed

lemma scope_to_create_spec:
  assumes "iteration_order ord" "permissions_wf d"
  shows "gm_wf (scope_to_create ord m d) \<and>
    map_of (scope_to_create ord m d) k =
      (if gm_has m k then None
       else if k = DefaultPermissionScopeValue then Some (scope_new DefaultPermissionScopeId DefaultPermissionScopeValue)
       else map_option (\<lambda>p. scope_new (pm_id p) (pm_name p)) (map_of d k))"
proof (intro conjI)
  show "gm_wf (scope_to_create ord m d)" by (simp add: scope_to_create_def)
  define f where "f = (\<lambda>(_ :: string, scope).
         if pm_name scope = DefaultPermissionScopeValue then None
         else if \<not> gm_has m (pm_name scope) then Some (pm_name scope, scope_from_permission scope)
         else None)"
  define m0 where "m0 = (if \<not> gm_has m DefaultPermissionScopeValue
        then gm_put DefaultPermissionScopeValue scope_default_scope [] else [])"
  have eq: "scope_to_create ord m d = collect f (gm_range ord d) m0"
    by (simp add: scope_to_create_def f_def m0_def)
  have range: "pm_name v = k'" if "(k', v) \<in> set (gm_range ord d)" for k' v
    using that gm_range_set [OF assms(1) permissions_wf_gm [OF assms(2)]] assms(2)
    by (auto simp: permissions_wf_def)
  show "map_of (scope_to_create ord m d) k = (if gm_has m k then None
       else if k = DefaultPermissionScopeValue then Some (scope_new DefaultPermissionScopeId DefaultPermissionScopeValue)
       else map_option (\<lambda>p. scope_new (pm_id p) (pm_name p)) (map_of d k))"
  proof (cases "k = DefaultPermissionScopeValue")
    case True
    have "map_of (collect f (gm_range ord d) m0) k = map_of m0 k"
      by (rule map_of_collect_None) (auto simp: f_def True split: if_splits)
    then show ?thesis using True by (simp add: eq m0_def scope_default_scope_def)
  next
    case False
    have "map_of (collect f (gm_range ord d) m0) k =
        Option.bind (map_of d k) (\<lambda>p. if gm_has m k then None else Some (scope_from_permission p))"
    proof (rule map_of_collect_range [OF assms(1) permissions_wf_gm [OF assms(2)],
          where g = "\<lambda>k p. if k = DefaultPermissionScopeValue \<or> gm_has m k then None
                           else Some (scope_from_permission p)", THEN trans])
      show "map_of m0 k = None" using False by (simp add: m0_def)
      show "f (k, v) = map_option (Pair k)
          (if k = DefaultPermissionScopeValue \<or> gm_has m k then None else Some (scope_from_permission v))"
        if "map_of d k = Some v" for k v
        using permissions_wfD [OF assms(2) that] by (auto simp: f_def)
    qed (use False in \<open>simp split: option.split\<close>)
    then show ?thesis using False
      by (cases "map_of d k") (auto simp: eq scope_from_permission_def)
  qed
qed

lemma scope_range_ok:
  assumes "iteration_order ord" "gm_wf m"
    "\<And>k e. map_of m k = Some e \<Longrightarrow> scope_complete e \<and> ps_value e = Some k"
    and "x \<in> set (gm_range ord m)"
  shows "\<exists>k e i. x = (k, e) \<and> map_of m k = Some e \<and> ps_value e = Some k \<and> ps_id e = Some i"
proof -
  obtain k e where x: "x = (k, e)" by force
  then have "map_of m k = Some e"
    using assms(4) gm_range_set [OF assms(1,2)] map_of_set [OF assms(2)] by simp
  then show ?thesis using assms(3) x by (auto simp: scope_complete_def)
qed

lemma scope_to_disable_spec:
  assumes "iteration_order ord" "gm_wf m"
    and "\<And>k e. map_of m k = Some e \<Longrightarrow> scope_complete e \<and> ps_value e = Some k"
  shows "\<exists>dis. scope_to_disable ord m d = Ok dis \<and> gm_wf dis \<and>
    (\<forall>k. map_of dis k = (if gm_has d k \<or> k = DefaultPermissionScopeValue then None
                         else map_option (ps_enabled_update (\<lambda>_. Some False)) (map_of m k)))"
proof -
  define g where "g = (\<lambda>(k, scope :: permission_scope). if \<not> gm_has d k then Some (k, scope\<lparr>ps_enabled := Some False\<rparr>) else None)"
  have "out_collect (\<lambda>(_, scope). out_bind (deref (ps_value scope)) (\<lambda>name.
          Ok (if \<not> gm_has d name then Some (name, scope\<lparr>ps_enabled := Some False\<rparr>) else None)))
        (gm_range ord m) [] = Ok (collect g (gm_range ord m) [])"
    by (rule out_collect_Ok) (use scope_range_ok [OF assms] in \<open>fastforce simp: g_def\<close>)
  moreover have "map_of (collect g (gm_range ord m) []) k = Option.bind (map_of m k)
      (\<lambda>r. if gm_has d k then None else Some (r\<lparr>ps_enabled := Some False\<rparr>))" for k
    by (rule map_of_collect_range [OF assms(1,2)]) (auto simp: g_def)
  then have "map_of (collect g (gm_range ord m) []) k =
      (if gm_has d k then None else map_option (ps_enabled_update (\<lambda>_. Some False)) (map_of m k))" for k
    by (cases "map_of m k") auto
  ultimately show ?thesis
    by (auto simp: scope_to_disable_def)
qed

lemma scope_unmodified_spec:
  assumes "iteration_order ord" "gm_wf m"
    and "\<And>k e. map_of m k = Some e \<Longrightarrow> scope_complete e \<and> ps_value e = Some k"
  shows "\<exists>unm. scope_unmodified ord m c dis = Ok unm \<and> gm_wf unm \<and>
    (\<forall>k. map_of unm k = (if gm_has c k \<or> gm_has dis k then None
                         else map_option (\<lambda>e. scope_new (the (ps_id e)) k) (map_of m k)))"
proof -
  define g where "g = (\<lambda>(k, scope :: permission_scope). if gm_has c k \<or> gm_has dis k then None
      else Some (k, scope_new (the (ps_id scope)) k))"
  have "scope_unmodified ord m c dis = Ok (collect g (gm_range ord m) [])"
    unfolding scope_unmodified_def
    by (rule out_collect_Ok) (use scope_range_ok [OF assms] in \<open>fastforce simp: g_def\<close>)
  moreover have "map_of (collect g (gm_range ord m) []) k = Option.bind (map_of m k)
      (\<lambda>r. if gm_has c k \<or> gm_has dis k then None else Some (scope_new (the (ps_id r)) k))" for k
    by (rule map_of_collect_range [OF assms(1,2)]) (auto simp: g_def)
  then have "map_of (collect g (gm_range ord m) []) k = (if gm_has c k \<or> gm_has dis k then None
      else map_option (\<lambda>e. scope_new (the (ps_id e)) k) (map_of m k))" for k
    by (cases "map_of m k") auto
  ultimately show ?thesis by simp
qed

lemma scope_ensure_admin_spec:
  assumes "\<And>e. e \<in> set es \<Longrightarrow> scope_complete e"
  shows "scope_ensure_admin_consent es = Ok (map (\<lambda>r. r\<lparr>ps_type := Some DefaultScopeType\<rparr>) es)"
  unfolding scope_ensure_admin_consent_def
proof (rule out_map_Ok)
  fix r assume "r \<in> set es"
  then obtain t where "ps_type r = Some t" using assms by (auto simp: scope_complete_def)
  then show "out_bind (deref (ps_type r)) (\<lambda>t.
       Ok (if t \<noteq> DefaultScopeType then r\<lparr>ps_type := Some DefaultScopeType\<rparr> else r)) =
     Ok (r\<lparr>ps_type := Some DefaultScopeType\<rparr>)"
    by (cases r) auto
qed

lemma scope_ensure_default_spec:
  assumes "\<And>e. e \<in> set es \<Longrightarrow> scope_complete e"
    and "\<And>e. e \<in> set es \<Longrightarrow> ps_value e = Some DefaultPermissionScopeValue \<Longrightarrow> ps_enabled e = Some True"
  shows "scope_ensure_default_enabled es = Ok es"
proof -
  have "scope_ensure_default_enabled es = Ok (map (\<lambda>r. r) es)"
    unfolding scope_ensure_default_enabled_def
  proof (rule out_map_Ok)
    fix r assume "r \<in> set es"
    then show "out_bind (deref (ps_value r)) (\<lambda>v.
       if v = DefaultPermissionScopeValue
       then out_bind (deref (ps_enabled r)) (\<lambda>e. Ok (if \<not> e then r\<lparr>ps_enabled := Some True\<rparr> else r))
       else Ok r) = Ok r"
      using assms(1) [of r] assms(2) [of r] by (auto simp: scope_complete_def)
  qed
  then show ?thesis by simp
qed

definition scope_finish :: "permission_scope list \<Rightarrow> permission_scope list outcome" where
  "scope_finish es = out_bind (scope_ensure_admin_consent es) scope_ensure_default_enabled"

lemma scope_finish_spec:
  assumes "\<And>e. e \<in> set es \<Longrightarrow> scope_complete e"
    and "\<And>e. e \<in> set es \<Longrightarrow> ps_value e = Some DefaultPermissionScopeValue \<Longrightarrow> ps_enabled e = Some True"
  shows "scope_finish es = Ok (map (\<lambda>r. r\<lparr>ps_type := Some DefaultScopeType\<rparr>) es)"
proof -
  let ?es = "map (\<lambda>r. r\<lparr>ps_type := Some DefaultScopeType\<rparr>) es"
  have "scope_ensure_default_enabled ?es = Ok ?es"
    by (rule scope_ensure_default_spec) (use assms in \<open>auto simp: scope_complete_def\<close>)
  then show ?thesis using assms(1) by (simp add: scope_finish_def scope_ensure_admin_spec)
qed

interpretation scopes: described_permissions ps_value ps_id ps_enabled scope_complete
  scope_new "ps_enabled_update (\<lambda>_. Some False)" DefaultPermissionScopeValue DefaultPermissionScopeId
  scope_to_map scope_to_slice scope_to_create scope_to_disable scope_unmodified
  scope_finish
  "\<lambda>ord d ex. out_bind (scopes_describe_update ord d ex) (\<lambda>r. Ok (scope_get_result ord r))"
proof (unfold_locales, goal_cases)
  case (10 ex)
  then show ?case by (rule scope_to_map_spec)
next
  case (12 ord d m k)
  then show ?case by (rule scope_to_create_spec)
next
  case (13 ord m d)
  then show ?case by (rule scope_to_disable_spec)
next
  case (14 ord m c dis)
  then show ?case by (rule scope_unmodified_spec)
next
  case (15 es)
  then show ?case by (auto simp: scope_finish_spec entry_view_def scope_complete_def)
next
  case (16 ord d ex)
  show ?case by (simp add: scopes_describe_update_def scope_finish_def Let_def out_bind_assoc)
qed (auto simp: scope_new_def scope_complete_def scope_to_slice_def)

end
