(* ===== verification/Effects.thy ===== *)
theory Effects
  imports GoStrings
begin

text \<open>
  Sequential programs with effects: a program of type \<open>('s, 'a) io\<close> maps a state to an outcome
  and the next state. The combinators are the control structures of the Go code: \<open>bnd\<close> is
  \<open>x, err := m(); if err != nil { return err }\<close>, \<open>wrap\<close> is the wrapping of a returned
  error, \<open>catch\<close> is a handler of an error, \<open>for_each\<close> and \<open>fold_io\<close> are loops that
  return at the first error, \<open>retry_loop\<close> and \<open>retry_on_conflict\<close> are the two retry
  libraries the source calls. A panic ends the whole program, as nothing under src/ recovers.
\<close>

type_synonym ('s, 'a) io = "'s \<Rightarrow> 'a outcome \<times> 's"

definition ret :: "'a \<Rightarrow> ('s, 'a) io" where
  "ret x = (\<lambda>s. (Ok x, s))"

definition fail :: "err \<Rightarrow> ('s, 'a) io" where
  "fail e = (\<lambda>s. (Err e, s))"

definition lift :: "'a outcome \<Rightarrow> ('s, 'a) io" where
  "lift r = (\<lambda>s. (r, s))"

definition bnd :: "('s, 'a) io \<Rightarrow> ('a \<Rightarrow> ('s, 'b) io) \<Rightarrow> ('s, 'b) io" where
  "bnd m f =
     (\<lambda>s. case m s of
        (Ok x, s') \<Rightarrow> f x s'
      | (Err e, s') \<Rightarrow> (Err e, s')
      | (Panic, s') \<Rightarrow> (Panic, s'))"

definition wrap :: "string \<Rightarrow> ('s, 'a) io \<Rightarrow> ('s, 'a) io" where
  "wrap msg m = (\<lambda>s. case m s of (r, s') \<Rightarrow> (out_wrap msg r, s'))"

definition catch :: "('s, 'a) io \<Rightarrow> (err \<Rightarrow> ('s, 'a) io) \<Rightarrow> ('s, 'a) io" where
  "catch m h =
     (\<lambda>s. case m s of
        (Ok x, s') \<Rightarrow> (Ok x, s')
      | (Err e, s') \<Rightarrow> h e s'
      | (Panic, s') \<Rightarrow> (Panic, s'))"

text \<open>\<open>attempt m\<close> hands the error, if any, to the code that follows.\<close>

definition attempt :: "('s, 'a) io \<Rightarrow> ('s, err + 'a) io" where
  "attempt m =
     (\<lambda>s. case m s of
        (Ok x, s') \<Rightarrow> (Ok (Inr x), s')
      | (Err e, s') \<Rightarrow> (Ok (Inl e), s')
      | (Panic, s') \<Rightarrow> (Panic, s'))"

text \<open>\<open>defer release\<close> before \<open>m\<close>: Go runs the release however \<open>m\<close> ends, a panic included.\<close>

definition deferred :: "('s, unit) io \<Rightarrow> ('s, 'a) io \<Rightarrow> ('s, 'a) io" where
  "deferred release m = (\<lambda>s. case m s of (r, s') \<Rightarrow> (r, snd (release s')))"

definition gets :: "('s \<Rightarrow> 'a) \<Rightarrow> ('s, 'a) io" where
  "gets f = (\<lambda>s. (Ok (f s), s))"

definition modify :: "('s \<Rightarrow> 's) \<Rightarrow> ('s, unit) io" where
  "modify f = (\<lambda>s. (Ok (), f s))"

primrec for_each :: "('x \<Rightarrow> ('s, unit) io) \<Rightarrow> 'x list \<Rightarrow> ('s, unit) io" where
  "for_each f [] = ret ()"
| "for_each f (x # xs) = bnd (f x) (\<lambda>_. for_each f xs)"

primrec fold_io :: "('x \<Rightarrow> 'a \<Rightarrow> ('s, 'a) io) \<Rightarrow> 'x list \<Rightarrow> 'a \<Rightarrow> ('s, 'a) io" where
  "fold_io f [] a = ret a"
| "fold_io f (x # xs) a = bnd (f x a) (fold_io f xs)"

text \<open>
  \<open>retry.Do\<close> of github.com/sethvargo/go-retry with a Fibonacci backoff and a maximum duration,
  for a function all of whose errors are retryable: after a failed attempt \<open>again\<close> waits for
  the next attempt (\<open>Ok True\<close>), reports that the duration has passed (\<open>Ok False\<close>), or fails
  because the context is done. Each wait takes at least the base delay, so the number of attempts
  is bounded by the maximum duration divided by the base delay; \<open>n\<close> is that bound.
\<close>

primrec retry_loop :: "('s, bool) io \<Rightarrow> nat \<Rightarrow> ('s, 'a) io \<Rightarrow> ('s, 'a) io" where
  "retry_loop again 0 m = m"
| "retry_loop again (Suc n) m =
     catch m (\<lambda>e. bnd again (\<lambda>more. if more then retry_loop again n m else fail e))"

text \<open>
  \<open>retry.RetryOnConflict\<close> of k8s.io/client-go: \<open>n\<close> further attempts as long as the error is
  a conflict.
\<close>

primrec retry_on_conflict :: "nat \<Rightarrow> ('s, 'a) io \<Rightarrow> ('s, 'a) io" where
  "retry_on_conflict 0 m = m"
| "retry_on_conflict (Suc n) m =
     catch m (\<lambda>e. if root_cause e = Conflict then retry_on_conflict n m else fail e)"

lemmas io_defs = ret_def fail_def lift_def bnd_def wrap_def catch_def attempt_def gets_def modify_def

subsection \<open>Inversion of successful runs\<close>

lemma ret_iff [simp]: "ret x s = (r, s') \<longleftrightarrow> r = Ok x \<and> s' = s"
  by (auto simp: ret_def)

lemma fail_iff [simp]: "fail e s = (r, s') \<longleftrightarrow> r = Err e \<and> s' = s"
  by (auto simp: fail_def)

lemma lift_iff [simp]: "lift x s = (r, s') \<longleftrightarrow> x = r \<and> s' = s"
  by (auto simp: lift_def)

lemma gets_iff [simp]: "gets f s = (r, s') \<longleftrightarrow> r = Ok (f s) \<and> s' = s"
  by (auto simp: gets_def)

lemma modify_iff [simp]: "modify f s = (r, s') \<longleftrightarrow> r = Ok () \<and> s' = f s"
  by (auto simp: modify_def)

lemma bnd_Ok_iff:
  "bnd m f s = (Ok y, s'') \<longleftrightarrow> (\<exists>x s'. m s = (Ok x, s') \<and> f x s' = (Ok y, s''))"
  by (auto simp: bnd_def split: prod.split outcome.split)

lemma bnd_OkE:
  assumes "bnd m f s = (Ok y, s'')"
  obtains x s' where "m s = (Ok x, s')" "f x s' = (Ok y, s'')"
  using assms bnd_Ok_iff [of m f s y s''] by blast

lemma bnd_unit_OkE:
  fixes m :: "('s, unit) io"
  assumes "bnd m f s = (Ok y, s'')"
  obtains s' where "m s = (Ok (), s')" "f () s' = (Ok y, s'')"
  using assms by (elim bnd_OkE) simp

lemma bnd_run_Ok [io_simps]: "m s = (Ok x, s') \<Longrightarrow> bnd m f s = f x s'"
  by (simp add: bnd_def)

lemma bnd_run_Err [io_simps]: "m s = (Err e, s') \<Longrightarrow> bnd m f s = (Err e, s')"
  by (simp add: bnd_def)

lemma bnd_run_Panic [io_simps]: "m s = (Panic, s') \<Longrightarrow> bnd m f s = (Panic, s')"
  by (simp add: bnd_def)

lemma bnd_cases:
  obtains (Ok) x s' where "m s = (Ok x, s')" "bnd m f s = f x s'"
  | (Err) e s' where "m s = (Err e, s')" "bnd m f s = (Err e, s')"
  | (Panic) s' where "m s = (Panic, s')" "bnd m f s = (Panic, s')"
proof -
  obtain r s' where rs: "m s = (r, s')"
    by (cases "m s")
  then show ?thesis
    using that by (cases r) (auto simp: bnd_def)
qed

lemma bnd_assoc: "bnd (bnd m f) g = bnd m (\<lambda>x. bnd (f x) g)"
  by (rule ext) (auto simp: bnd_def split: prod.split outcome.split)

lemma bnd_ret [simp]: "bnd (ret x) f = f x"
  by (rule ext) (simp add: bnd_def ret_def)

lemma bnd_fail [simp]: "bnd (fail e) f = fail e"
  by (rule ext) (simp add: bnd_def fail_def)

lemma bnd_lift_Ok [simp]: "bnd (lift (Ok x)) f = f x"
  by (rule ext) (simp add: bnd_def lift_def)

lemma wrap_Ok_iff [simp]: "wrap msg m s = (Ok x, s') \<longleftrightarrow> m s = (Ok x, s')"
  by (auto simp: wrap_def split: prod.split)

lemma wrap_Err_iff: "wrap msg m s = (Err e, s') \<longleftrightarrow> (\<exists>e0. m s = (Err e0, s') \<and> e = Wrapped msg e0)"
  by (cases "m s"; cases "fst (m s)") (auto simp: wrap_def)

lemma wrap_Panic_iff [simp]: "wrap msg m s = (Panic, s') \<longleftrightarrow> m s = (Panic, s')"
  by (cases "m s"; cases "fst (m s)") (auto simp: wrap_def)

lemma attempt_Ok_iff:
  "attempt m s = (Ok r, s') \<longleftrightarrow>
     (case r of Inr x \<Rightarrow> m s = (Ok x, s') | Inl e \<Rightarrow> m s = (Err e, s'))"
  by (cases "m s"; cases "fst (m s)") (auto simp: attempt_def split: sum.split)

lemma catch_Ok_iff:
  "catch m h s = (Ok x, s'') \<longleftrightarrow>
     m s = (Ok x, s'') \<or> (\<exists>e s'. m s = (Err e, s') \<and> h e s' = (Ok x, s''))"
  by (auto simp: catch_def split: prod.split outcome.split)

lemma for_each_append: "for_each f (xs @ ys) = bnd (for_each f xs) (\<lambda>_. for_each f ys)"
  by (induction xs) (auto simp: bnd_assoc)

lemma fold_io_invariant:
  assumes "\<And>x a s b s'. x \<in> set xs \<Longrightarrow> f x a s = (Ok b, s') \<Longrightarrow> P a \<Longrightarrow> P b"
    and "fold_io f xs a s = (Ok b, s')" "P a"
  shows "P b"
  using assms
proof (induction xs arbitrary: a s)
  case (Cons x xs)
  obtain c s1 where c: "f x a s = (Ok c, s1)" "fold_io f xs c s1 = (Ok b, s')"
    using Cons.prems(2) by (auto simp: bnd_Ok_iff)
  have "P c" using Cons.prems(1) [OF _ c(1) Cons.prems(3)] by simp
  then show ?case using Cons.IH [OF _ c(2)] Cons.prems(1) by (meson list.set_intros(2))
qed simp

subsection \<open>Relations that every step respects\<close>

text \<open>
  \<open>moves R m\<close>: whatever the outcome of \<open>m\<close>, its final state is related to its initial
  state. For a reflexive and transitive \<open>R\<close> the relation carries over from the steps of a
  program to the program; the locale collects one rule per control structure.
\<close>

definition moves :: "('s \<Rightarrow> 's \<Rightarrow> bool) \<Rightarrow> ('s, 'a) io \<Rightarrow> bool" where
  "moves R m \<longleftrightarrow> (\<forall>s. R s (snd (m s)))"

lemma movesD: "moves R m \<Longrightarrow> m s = (r, s') \<Longrightarrow> R s s'"
  unfolding moves_def by (metis snd_conv)

lemma movesI: "(\<And>s r s'. m s = (r, s') \<Longrightarrow> R s s') \<Longrightarrow> moves R m"
  unfolding moves_def by (metis prod.collapse)

locale step_relation =
  fixes R :: "'s \<Rightarrow> 's \<Rightarrow> bool"
  assumes refl: "R s s"
    and trans: "R s s' \<Longrightarrow> R s' s'' \<Longrightarrow> R s s''"
begin

lemma ret: "moves R (ret x)"
  by (rule movesI) (auto simp: refl)

lemma fail: "moves R (fail e)"
  by (rule movesI) (auto simp: refl)

lemma lift: "moves R (lift r)"
  by (rule movesI) (auto simp: refl)

lemma gets: "moves R (gets f)"
  by (rule movesI) (auto simp: refl)

lemma bnd:
  assumes "moves R m" "\<And>x. moves R (f x)"
  shows "moves R (bnd m f)"
proof (rule movesI)
  fix s r s'
  assume run: "bnd m f s = (r, s')"
  show "R s s'"
  proof (cases rule: bnd_cases [of m s f])
    case (Ok x s1)
    then show ?thesis
      using run movesD [OF assms(1)] movesD [OF assms(2)] trans by metis
  qed (use run movesD [OF assms(1)] in auto)
qed

text \<open>The variant that remembers where the value passed on came from.\<close>

lemma bnd_result:
  assumes "moves R m" "\<And>s x s'. m s = (Ok x, s') \<Longrightarrow> moves R (f x)"
  shows "moves R (bnd m f)"
proof (rule movesI)
  fix s r s'
  assume run: "bnd m f s = (r, s')"
  show "R s s'"
  proof (cases rule: bnd_cases [of m s f])
    case (Ok x s1)
    then show ?thesis
      using run movesD [OF assms(1)] movesD [OF assms(2)] trans by metis
  qed (use run movesD [OF assms(1)] in auto)
qed

lemma wrap: "moves R m \<Longrightarrow> moves R (wrap msg m)"
  by (simp add: moves_def wrap_def split: prod.split) (metis snd_conv)

lemma attempt: "moves R m \<Longrightarrow> moves R (attempt m)"
  by (rule movesI) (auto simp: attempt_def split: prod.splits outcome.splits dest: movesD)

lemma catch:
  assumes "moves R m" "\<And>e. moves R (h e)"
  shows "moves R (catch m h)"
proof (rule movesI)
  fix s r s'
  assume run: "catch m h s = (r, s')"
  obtain r0 s0 where m: "m s = (r0, s0)" by (cases "m s")
  show "R s s'"
  proof (cases r0)
    case (Err e)
    then have "h e s0 = (r, s')" using run m by (simp add: catch_def)
    then show ?thesis using movesD [OF assms(1) m] movesD [OF assms(2)] trans by metis
  qed (use run m movesD [OF assms(1)] in \<open>auto simp: catch_def\<close>)
qed

lemma deferred: "moves R release \<Longrightarrow> moves R m \<Longrightarrow> moves R (deferred release m)"
  unfolding moves_def deferred_def by (metis (mono_tags, lifting) case_prod_beta snd_conv trans)

lemma for_each: "(\<And>x. x \<in> set xs \<Longrightarrow> moves R (f x)) \<Longrightarrow> moves R (for_each f xs)"
  by (induction xs) (auto intro: bnd ret)

lemma fold_io: "(\<And>x a. x \<in> set xs \<Longrightarrow> moves R (f x a)) \<Longrightarrow> moves R (fold_io f xs a)"
  by (induction xs arbitrary: a) (auto intro: bnd ret)

lemma retry_loop: "moves R again \<Longrightarrow> moves R m \<Longrightarrow> moves R (retry_loop again n m)"
  by (induction n) (auto intro!: catch bnd fail)

lemma retry_on_conflict: "moves R m \<Longrightarrow> moves R (retry_on_conflict n m)"
  by (induction n) (auto intro!: catch fail)

lemmas rules = ret fail lift gets bnd wrap attempt catch deferred for_each fold_io retry_loop retry_on_conflict

end

subsection \<open>Evaluation\<close>

text \<open>
  The simplifier evaluates a program applied to a state with the rules \<open>runs\<close>. The
  congruences keep it from rewriting the continuations of a program before they are reached.
\<close>

lemma bnd_eval_cong: "s = s' \<Longrightarrow> bnd m f s = bnd m f s'"
  by simp

lemma wrap_eval_cong: "s = s' \<Longrightarrow> wrap msg m s = wrap msg m s'"
  by simp

lemma attempt_eval_cong: "s = s' \<Longrightarrow> attempt m s = attempt m s'"
  by simp

lemma catch_eval_cong: "s = s' \<Longrightarrow> catch m h s = catch m h s'"
  by simp

lemma deferred_eval_cong: "s = s' \<Longrightarrow> deferred release m s = deferred release m s'"
  by simp

lemmas eval_congs =
  bnd_eval_cong wrap_eval_cong attempt_eval_cong catch_eval_cong deferred_eval_cong prod.case_cong_weak
  outcome.case_cong_weak sum.case_cong_weak option.case_cong_weak list.case_cong_weak

lemmas effects_runs [runs] =
  ret_def [THEN fun_cong] fail_def [THEN fun_cong] lift_def [THEN fun_cong]
  gets_def [THEN fun_cong] modify_def [THEN fun_cong] bnd_def [THEN fun_cong]
  wrap_def [THEN fun_cong] attempt_def [THEN fun_cong] catch_def [THEN fun_cong] deferred_def [THEN fun_cong]
  for_each.simps [THEN fun_cong] fold_io.simps [THEN fun_cong]
  retry_loop.simps [THEN fun_cong] retry_on_conflict.simps [THEN fun_cong] Let_def

end
