(* ===== verification/Samples.thy ===== *)
theory Samples
  imports Types
begin

text \<open>
  Concrete values of the data types for the witnesses: a configuration, a resource, a registered
  application, its service principal and a secret. Nothing here models the program.
\<close>

definition quiet_config :: config where
  "quiet_config =
     \<lparr>cfg_azure =
        \<lparr>az_client_id = ''operator'', az_client_secret = ''secret'', az_google_enabled = False,
         az_google_project_id = [], az_delay = 10,
         az_features =
           \<lparr>feat_role_assignment_required = False, feat_claims_policies = False,
            feat_claims_policies_id = [], feat_cleanup_orphans = False,
            feat_security_attributes = False, feat_groups_assignment = False,
            feat_all_users_group_id = [], feat_group_claim_default = ''ApplicationGroup''\<rparr>,
         az_max_pages = 1000, az_grant_resource_id = ''graph'',
         az_tenant = \<lparr>tenant_id = ''tid'', tenant_name = ''tenant''\<rparr>\<rparr>,
      cfg_cluster_name = ''dev'', cfg_context_timeout = 300, cfg_max_concurrent = 10,
      cfg_sweep_interval = 300, cfg_rotation_max_age = 1000, cfg_rotation_cleanup = True,
      cfg_tenant_required = False, cfg_leader_election = \<lparr>le_enabled = False, le_namespace = []\<rparr>,
      cfg_metrics_addr = '':8080'', cfg_probes_addr = '':8081''\<rparr>"

lemma quiet_config_simps [simp]:
  "feat_role_assignment_required (az_features (cfg_azure quiet_config)) = False"
  "feat_claims_policies (az_features (cfg_azure quiet_config)) = False"
  "feat_claims_policies_id (az_features (cfg_azure quiet_config)) = []"
  "feat_cleanup_orphans (az_features (cfg_azure quiet_config)) = False"
  "feat_security_attributes (az_features (cfg_azure quiet_config)) = False"
  "feat_groups_assignment (az_features (cfg_azure quiet_config)) = False"
  "feat_all_users_group_id (az_features (cfg_azure quiet_config)) = []"
  "feat_group_claim_default (az_features (cfg_azure quiet_config)) = ''ApplicationGroup''"
  "tenant_id (az_tenant (cfg_azure quiet_config)) = ''tid''"
  "tenant_name (az_tenant (cfg_azure quiet_config)) = ''tenant''"
  "az_client_id (cfg_azure quiet_config) = ''operator''"
  "az_client_secret (cfg_azure quiet_config) = ''secret''"
  "az_google_enabled (cfg_azure quiet_config) = False"
  "az_google_project_id (cfg_azure quiet_config) = []"
  "az_delay (cfg_azure quiet_config) = 10"
  "az_max_pages (cfg_azure quiet_config) = 1000"
  "az_grant_resource_id (cfg_azure quiet_config) = ''graph''"
  "cfg_cluster_name quiet_config = ''dev''"
  "cfg_context_timeout quiet_config = 300"
  "cfg_max_concurrent quiet_config = 10"
  "cfg_leader_election quiet_config = \<lparr>le_enabled = False, le_namespace = []\<rparr>"
  "cfg_metrics_addr quiet_config = '':8080''"
  "cfg_probes_addr quiet_config = '':8081''"
  "cfg_sweep_interval quiet_config = 300"
  "cfg_rotation_max_age quiet_config = 1000"
  "cfg_rotation_cleanup quiet_config = True"
  "cfg_tenant_required quiet_config = False"
  by (simp_all add: quiet_config_def)

definition plain_spec :: app_spec where
  "plain_spec =
     \<lparr>spec_allow_all_users = None, spec_claims_groups = None, spec_group_membership_claims = None,
      spec_logout_url = [], spec_pre_authorized_applications = [], spec_reply_urls = [],
      spec_secret_key_prefix = [], spec_secret_name = ''azure-secret'',
      spec_single_page_application = None, spec_tenant = []\<rparr>"

lemma plain_spec_simps [simp]:
  "spec_allow_all_users plain_spec = None"
  "spec_claims_groups plain_spec = None"
  "spec_group_membership_claims plain_spec = None"
  "spec_logout_url plain_spec = []"
  "spec_pre_authorized_applications plain_spec = []"
  "spec_reply_urls plain_spec = []"
  "spec_secret_key_prefix plain_spec = []"
  "spec_secret_name plain_spec = ''azure-secret''"
  "spec_single_page_application plain_spec = None"
  "spec_tenant plain_spec = []"
  by (simp_all add: plain_spec_def)

definition blank_status :: app_status where
  "blank_status =
     \<lparr>status_client_id = [], status_object_id = [], status_sp_id = [],
      status_certificate_key_ids = [], status_password_key_ids = [], status_correlation_id = [],
      status_pre_authorized_apps = None, status_hash = [], status_secret_name = [],
      status_rotation_time = None, status_state = [], status_sync_time = None,
      status_tenant = [], status_tenant_name = []\<rparr>"

lemma blank_status_simps [simp]:
  "status_client_id blank_status = []"
  "status_object_id blank_status = []"
  "status_sp_id blank_status = []"
  "status_certificate_key_ids blank_status = []"
  "status_password_key_ids blank_status = []"
  "status_correlation_id blank_status = []"
  "status_pre_authorized_apps blank_status = None"
  "status_hash blank_status = []"
  "status_secret_name blank_status = []"
  "status_rotation_time blank_status = None"
  "status_state blank_status = []"
  "status_sync_time blank_status = None"
  "status_tenant blank_status = []"
  "status_tenant_name blank_status = []"
  by (simp_all add: blank_status_def)

definition plain_app :: azure_ad_application where
  "plain_app =
     \<lparr>app_name = ''app'', app_namespace = ''ns'', app_annotations = None, app_labels = None,
      app_finalizers = [''azure.nais.io/finalizer''], app_deletion_timestamp = None,
      app_spec = plain_spec, app_status = blank_status\<rparr>"

lemma plain_app_simps [simp]:
  "app_name plain_app = ''app''"
  "app_namespace plain_app = ''ns''"
  "app_annotations plain_app = None"
  "app_labels plain_app = None"
  "app_finalizers plain_app = [''azure.nais.io/finalizer'']"
  "app_deletion_timestamp plain_app = None"
  "app_spec plain_app = plain_spec"
  "app_status plain_app = blank_status"
  by (simp_all add: plain_app_def)

definition plain_registered :: graph_application where
  "plain_registered =
     zero_application\<lparr>ga_id := Some ''oid'', ga_app_id := Some ''cid'',
       ga_display_name := Some ''dev:ns:app'', ga_tags := [''azurerator_appreg''], ga_api := Some zero_api\<rparr>"

lemma plain_registered_simps [simp]:
  "ga_id plain_registered = Some ''oid''"
  "ga_app_id plain_registered = Some ''cid''"
  "ga_display_name plain_registered = Some ''dev:ns:app''"
  "ga_sign_in_audience plain_registered = None"
  "ga_tags plain_registered = [''azurerator_appreg'']"
  "ga_api plain_registered = Some zero_api"
  "ga_app_roles plain_registered = []"
  "ga_identifier_uris plain_registered = []"
  "ga_key_credentials plain_registered = []"
  "ga_password_credentials plain_registered = []"
  "ga_group_membership_claims plain_registered = None"
  "ga_optional_claims plain_registered = None"
  "ga_required_resource_access plain_registered = []"
  "ga_web plain_registered = None"
  "ga_spa plain_registered = None"
  by (simp_all add: plain_registered_def)

definition plain_principal :: service_principal where
  "plain_principal =
     \<lparr>sp_id = Some ''spid'', sp_app_id = Some ''cid'', sp_assignment_required = Some False, sp_tags = []\<rparr>"

lemma plain_principal_simps [simp]:
  "sp_id plain_principal = Some ''spid''"
  "sp_app_id plain_principal = Some ''cid''"
  "sp_assignment_required plain_principal = Some False"
  "sp_tags plain_principal = []"
  by (simp_all add: plain_principal_def)

definition plain_secret :: secret where
  "plain_secret =
     \<lparr>sec_name = ''azure-secret'', sec_namespace = ''ns'', sec_labels = [], sec_annotations = [],
      sec_data = [], sec_string_data = [], sec_owner = None\<rparr>"

lemma plain_secret_simps [simp]:
  "sec_name plain_secret = ''azure-secret''"
  "sec_namespace plain_secret = ''ns''"
  "sec_labels plain_secret = []"
  "sec_annotations plain_secret = []"
  "sec_data plain_secret = []"
  "sec_string_data plain_secret = []"
  "sec_owner plain_secret = None"
  by (simp_all add: plain_secret_def)

definition sample_key :: "string \<Rightarrow> json_web_key" where
  "sample_key k =
     \<lparr>jk_key = k, jk_key_id = ''kid'', jk_use = ''sig'', jk_algorithm = ''RS256'',
      jk_certificates = [''der''], jk_thumbprint_sha1 = [], jk_thumbprint_sha256 = []\<rparr>"

definition sample_credentials :: "string \<Rightarrow> credentials" where
  "sample_credentials k =
     \<lparr>cr_certificate = \<lparr>cert_key_id = ''cert-'' @ k,
        cert_jwk = \<lparr>jwk_private = sample_key k, jwk_public_pem = ''pem:der''\<rparr>\<rparr>,
      cr_password = \<lparr>pw_key_id = ''pw-'' @ k, pw_client_secret = ''secret-'' @ k\<rparr>\<rparr>"

definition sample_set :: credentials_set where
  "sample_set = \<lparr>set_current = sample_credentials ''1'', set_next = sample_credentials ''2''\<rparr>"

end
