(* ===== verification/Resources.thy ===== *)
theory Resources
  imports AppRoles
begin

text \<open>
  pkg/azure/resource (the principals an application grants access to) and
  pkg/azure/client/approleassignment (the difference between the assignments that exist in Azure AD
  and the ones the resource asks for).
\<close>

subsection \<open>resource.go\<close>

definition PrincipalTypeGroup :: string where "PrincipalTypeGroup = ''Group''"
definition PrincipalTypeServicePrincipal :: string where
  "PrincipalTypeServicePrincipal = ''ServicePrincipal''"
definition PrincipalTypeUser :: string where "PrincipalTypeUser = ''User''"

lemma principal_types_distinct [simp]:
  "PrincipalTypeGroup \<noteq> PrincipalTypeServicePrincipal"
  "PrincipalTypeServicePrincipal \<noteq> PrincipalTypeGroup"
  "PrincipalTypeGroup \<noteq> []" "PrincipalTypeServicePrincipal \<noteq> []"
  "[] \<noteq> PrincipalTypeGroup" "[] \<noteq> PrincipalTypeServicePrincipal"
  by (simp_all add: PrincipalTypeGroup_def PrincipalTypeServicePrincipal_def)

record resource =
  res_name :: string
  res_client_id :: client_id
  res_object_id :: object_id
  res_principal_type :: string
  res_rule :: inbound_rule

text \<open>The zero value of the struct.\<close>

definition zero_inbound_rule :: inbound_rule where
  "zero_inbound_rule =
     \<lparr>in_rule = \<lparr>rule_application = [], rule_namespace = [], rule_cluster = []\<rparr>, in_permissions = None\<rparr>"

definition zero_resource :: resource where
  "zero_resource = \<lparr>res_name = [], res_client_id = [], res_object_id = [], res_principal_type = [],
     res_rule = zero_inbound_rule\<rparr>"

definition to_pre_authorized_app ::
  "map_order \<Rightarrow> resource \<Rightarrow> permissions \<Rightarrow> pre_authorized_application" where
  "to_pre_authorized_app ord r actual =
     (let desired = DefaultPermissionScopeValue #
            (case in_permissions (res_rule r) of Some p \<Rightarrow> perm_scopes p | None \<Rightarrow> [])
      in \<lparr>pa_app_id = Some (res_client_id r),
          pa_permission_ids = permission_ids ord (permissions_filter actual desired)\<rparr>)"

definition to_app_role_assignment :: "resource \<Rightarrow> sp_id \<Rightarrow> permission \<Rightarrow> app_role_assignment" where
  "to_app_role_assignment r target p =
     \<lparr>ra_id = None, ra_role_id = Some (pm_id p), ra_principal_name = Some (res_name r),
      ra_principal_id = Some (res_object_id r), ra_principal_type = Some (res_principal_type r),
      ra_resource_id = Some target\<rparr>"

text \<open>The inner loop of \<open>FilterByRole\<close> over the roles of one resource.\<close>

fun filter_role_loop :: "permission \<Rightarrow> resource \<Rightarrow> string list \<Rightarrow> string list \<Rightarrow> resource list" where
  "filter_role_loop role re seen [] = []"
| "filter_role_loop role re seen (desired # roles) =
     (if desired = pm_name role \<and> desired \<notin> set seen
      then re # filter_role_loop role re (desired # seen) roles
      else filter_role_loop role re seen roles)"

definition resources_filter_by_role :: "resource list \<Rightarrow> permission \<Rightarrow> resource list" where
  "resources_filter_by_role rs role =
     concat (map (\<lambda>re. case in_permissions (res_rule re) of
                         None \<Rightarrow> []
                       | Some p \<Rightarrow> filter_role_loop role re [] (perm_roles p)) rs)"

definition resources_filter_by_principal_type :: "resource list \<Rightarrow> string \<Rightarrow> resource list" where
  "resources_filter_by_principal_type rs t = filter (\<lambda>re. res_principal_type re = t) rs"

definition extract_desired_assignees ::
  "resource list \<Rightarrow> string \<Rightarrow> permission \<Rightarrow> resource list" where
  "extract_desired_assignees rs t role =
     (if t = PrincipalTypeGroup \<and> pm_id role = DefaultGroupRoleId then rs
      else if t = PrincipalTypeServicePrincipal \<and> pm_name role = DefaultAppRoleValue then rs
      else resources_filter_by_role rs role)"

definition resources_has :: "resource list \<Rightarrow> resource \<Rightarrow> bool" where
  "resources_has rs other =
     list_ex (\<lambda>e. res_principal_type e = res_principal_type other \<and>
                  res_object_id e = res_object_id other) rs"

definition resources_add :: "resource \<Rightarrow> resource list \<Rightarrow> resource list" where
  "resources_add r rs = (if \<not> resources_has rs r then rs @ [r] else rs)"

definition resources_add_all :: "resource list \<Rightarrow> resource list \<Rightarrow> resource list" where
  "resources_add_all new rs = fold resources_add new rs"

lemma filter_role_loop_eq:
  "filter_role_loop role re seen roles =
     (if pm_name role \<in> set roles \<and> pm_name role \<notin> set seen then [re] else [])"
  by (induction role re seen roles rule: filter_role_loop.induct) auto

lemma resources_filter_by_role_eq:
  "resources_filter_by_role rs role =
     filter (\<lambda>re. \<exists>p. in_permissions (res_rule re) = Some p \<and> pm_name role \<in> set (perm_roles p)) rs"
  by (induction rs)
    (auto simp: resources_filter_by_role_def filter_role_loop_eq split: option.splits)

lemma resources_has_iff:
  "resources_has rs r \<longleftrightarrow>
     (res_principal_type r, res_object_id r) \<in> (\<lambda>e. (res_principal_type e, res_object_id e)) ` set rs"
  by (simp add: resources_has_def list_ex_iff image_iff) metis

text \<open>\<open>Add\<close> keeps the resources distinct by principal type and object ID.\<close>

lemma resources_add_all_keys:
  "(\<lambda>e. (res_principal_type e, res_object_id e)) ` set (resources_add_all new rs) =
   (\<lambda>e. (res_principal_type e, res_object_id e)) ` (set rs \<union> set new)"
  by (induction new arbitrary: rs)
    (auto simp: resources_add_all_def resources_add_def resources_has_iff image_Un)

lemma resources_add_all_subset: "set (resources_add_all new rs) \<subseteq> set rs \<union> set new"
proof (induction new arbitrary: rs)
  case (Cons a new)
  have "set (resources_add a rs) \<subseteq> insert a (set rs)"
    by (auto simp: resources_add_def)
  then show ?case using Cons.IH [of "resources_add a rs"] by (auto simp: resources_add_all_def)
qed (simp add: resources_add_all_def)

lemma resources_add_all_distinct:
  "distinct (map (\<lambda>e. (res_principal_type e, res_object_id e)) rs) \<Longrightarrow>
   distinct (map (\<lambda>e. (res_principal_type e, res_object_id e)) (resources_add_all new rs))"
  by (induction new arbitrary: rs)
    (auto simp: resources_add_all_def resources_add_def resources_has_iff)

subsection \<open>approleassignment.go and list.go\<close>

type_synonym app_role_assignment_key = "string \<times> sp_id \<times> sp_id"

definition to_assignment_key :: "app_role_assignment \<Rightarrow> app_role_assignment_key outcome" where
  "to_assignment_key a =
     out_bind (deref (ra_role_id a)) (\<lambda>r. out_bind (deref (ra_principal_id a)) (\<lambda>p.
     out_bind (deref (ra_resource_id a)) (\<lambda>t. Ok (r, p, t))))"

definition assignment_difference ::
  "app_role_assignment list \<Rightarrow> app_role_assignment list \<Rightarrow> app_role_assignment list outcome" where
  "assignment_difference a b =
     out_bind (out_map to_assignment_key b) (\<lambda>mb.
       out_filter (\<lambda>x. out_bind (to_assignment_key x) (\<lambda>key. Ok (key \<notin> set mb))) a)"

definition assignments_to_assign ::
  "app_role_assignment list \<Rightarrow> app_role_assignment list \<Rightarrow> app_role_assignment list outcome" where
  "assignments_to_assign existing desired = assignment_difference desired existing"

definition assignments_to_revoke ::
  "app_role_assignment list \<Rightarrow> app_role_assignment list \<Rightarrow> app_role_assignment list outcome" where
  "assignments_to_revoke existing desired = assignment_difference existing desired"

definition assignments_unmodified ::
  "app_role_assignment list \<Rightarrow> app_role_assignment list \<Rightarrow> app_role_assignment list \<Rightarrow>
   app_role_assignment list outcome" where
  "assignments_unmodified existing to_assign to_revoke =
     assignment_difference existing (to_assign @ to_revoke)"

definition to_app_role_assignments ::
  "resource list \<Rightarrow> sp_id \<Rightarrow> permission \<Rightarrow> app_role_assignment list" where
  "to_app_role_assignments rs target role = map (\<lambda>re. to_app_role_assignment re target role) rs"

definition assignments_has :: "app_role_assignment list \<Rightarrow> app_role_assignment \<Rightarrow> bool outcome" where
  "assignments_has l x =
     out_ex (\<lambda>a.
       out_bind (deref (ra_principal_id a)) (\<lambda>p. out_bind (deref (ra_principal_id x)) (\<lambda>p'.
       out_bind (deref (ra_role_id a)) (\<lambda>r. out_bind (deref (ra_role_id x)) (\<lambda>r'.
       out_bind (deref (ra_principal_type a)) (\<lambda>t. out_bind (deref (ra_principal_type x)) (\<lambda>t'.
       Ok (p = p' \<and> r = r' \<and> t = t')))))))) l"

definition assignments_has_resource :: "app_role_assignment list \<Rightarrow> resource \<Rightarrow> bool outcome" where
  "assignments_has_resource l re =
     out_ex (\<lambda>a. out_bind (deref (ra_principal_id a)) (\<lambda>p. out_bind (deref (ra_principal_type a)) (\<lambda>t.
       Ok (p = res_object_id re \<and> t = res_principal_type re)))) l"

definition assignments_filter_by_role_id ::
  "app_role_assignment list \<Rightarrow> string \<Rightarrow> app_role_assignment list outcome" where
  "assignments_filter_by_role_id l i = out_filter (\<lambda>a. out_bind (deref (ra_role_id a)) (\<lambda>r. Ok (r = i))) l"

definition assignments_filter_by_type ::
  "app_role_assignment list \<Rightarrow> string \<Rightarrow> app_role_assignment list outcome" where
  "assignments_filter_by_type l t =
     out_filter (\<lambda>a. out_bind (deref (ra_principal_type a)) (\<lambda>pt. Ok (pt = t))) l"

definition assignments_groups :: "app_role_assignment list \<Rightarrow> app_role_assignment list outcome" where
  "assignments_groups l = assignments_filter_by_type l PrincipalTypeGroup"

definition assignments_service_principals ::
  "app_role_assignment list \<Rightarrow> app_role_assignment list outcome" where
  "assignments_service_principals l = assignments_filter_by_type l PrincipalTypeServicePrincipal"

definition assignments_without_matching_role ::
  "app_role_assignment list \<Rightarrow> permissions \<Rightarrow> app_role_assignment list outcome" where
  "assignments_without_matching_role l roles =
     out_filter (\<lambda>a. out_bind (deref (ra_role_id a)) (\<lambda>r. Ok (\<not> has_role_id roles r))) l"

subsection \<open>Complete assignments\<close>

text \<open>Assignments the Graph API returned carry every field the code dereferences.\<close>

definition assignment_complete :: "app_role_assignment \<Rightarrow> bool" where
  "assignment_complete a \<longleftrightarrow> ra_role_id a \<noteq> None \<and> ra_principal_id a \<noteq> None \<and>
     ra_resource_id a \<noteq> None \<and> ra_principal_type a \<noteq> None \<and> ra_principal_name a \<noteq> None"

definition assignment_key :: "app_role_assignment \<Rightarrow> app_role_assignment_key" where
  "assignment_key a = (the (ra_role_id a), the (ra_principal_id a), the (ra_resource_id a))"

lemma to_assignment_key_Ok [simp]:
  "assignment_complete a \<Longrightarrow> to_assignment_key a = Ok (assignment_key a)"
  by (auto simp: to_assignment_key_def assignment_complete_def assignment_key_def)

lemma to_app_role_assignment_complete [simp]:
  "assignment_complete (to_app_role_assignment r target p)"
  by (simp add: assignment_complete_def to_app_role_assignment_def)

lemma to_app_role_assignments_complete [simp]:
  "a \<in> set (to_app_role_assignments rs target p) \<Longrightarrow> assignment_complete a"
  by (auto simp: to_app_role_assignments_def)

lemma assignment_key_to_app_role_assignment [simp]:
  "assignment_key (to_app_role_assignment r target p) = (pm_id p, res_object_id r, target)"
  by (simp add: assignment_key_def to_app_role_assignment_def)

lemma assignment_difference_Ok:
  assumes "\<And>x. x \<in> set a \<Longrightarrow> assignment_complete x" "\<And>x. x \<in> set b \<Longrightarrow> assignment_complete x"
  shows "assignment_difference a b = Ok (filter (\<lambda>x. assignment_key x \<notin> assignment_key ` set b) a)"
proof -
  have "out_map to_assignment_key b = Ok (map assignment_key b)"
    by (rule out_map_Ok) (simp add: assms(2))
  moreover have "out_filter (\<lambda>x. out_bind (to_assignment_key x)
        (\<lambda>key. Ok (key \<notin> set (map assignment_key b)))) a =
      Ok (filter (\<lambda>x. assignment_key x \<notin> set (map assignment_key b)) a)"
    by (rule out_filter_Ok) (simp add: assms(1))
  ultimately show ?thesis by (simp add: assignment_difference_def)
qed

lemma assignments_filter_by_role_id_Ok:
  "(\<And>x. x \<in> set l \<Longrightarrow> assignment_complete x) \<Longrightarrow>
   assignments_filter_by_role_id l i = Ok (filter (\<lambda>a. ra_role_id a = Some i) l)"
  unfolding assignments_filter_by_role_id_def
  by (rule out_filter_Ok) (fastforce simp: assignment_complete_def)

lemma assignments_filter_by_type_Ok:
  "(\<And>x. x \<in> set l \<Longrightarrow> assignment_complete x) \<Longrightarrow>
   assignments_filter_by_type l t = Ok (filter (\<lambda>a. ra_principal_type a = Some t) l)"
  unfolding assignments_filter_by_type_def
  by (rule out_filter_Ok) (fastforce simp: assignment_complete_def)

lemma assignments_without_matching_role_Ok:
  "(\<And>x. x \<in> set l \<Longrightarrow> assignment_complete x) \<Longrightarrow>
   assignments_without_matching_role l roles =
     Ok (filter (\<lambda>a. \<not> has_role_id roles (the (ra_role_id a))) l)"
  unfolding assignments_without_matching_role_def
  by (rule out_filter_Ok) (fastforce simp: assignment_complete_def)

lemma assignments_has_resource_Ok:
  "(\<And>x. x \<in> set l \<Longrightarrow> assignment_complete x) \<Longrightarrow>
   assignments_has_resource l re =
     Ok (\<exists>a \<in> set l. ra_principal_id a = Some (res_object_id re) \<and>
           ra_principal_type a = Some (res_principal_type re))"
  unfolding assignments_has_resource_def
  by (rule out_ex_Ok) (fastforce simp: assignment_complete_def)

subsection \<open>pkg/azure/result\<close>

datatype operation = OperationCreated | OperationUpdated | OperationNotModified

record pre_authorized_apps =
  paa_valid :: "resource list"
  paa_invalid :: "resource list"

record application_result =
  ares_client_id :: client_id
  ares_object_id :: object_id
  ares_sp_id :: sp_id
  ares_permissions :: permissions
  ares_pre_authorized_apps :: pre_authorized_apps
  ares_tenant :: string
  ares_result :: operation

definition is_not_modified :: "application_result \<Rightarrow> bool" where
  "is_not_modified r = (ares_result r = OperationNotModified)"

definition is_created :: "application_result \<Rightarrow> bool" where
  "is_created r = (ares_result r = OperationCreated)"

definition is_updated :: "application_result \<Rightarrow> bool" where
  "is_updated r = (ares_result r = OperationUpdated)"

definition is_modified :: "application_result \<Rightarrow> bool" where
  "is_modified r = (is_created r \<or> is_updated r)"

lemma is_modified_iff: "is_modified r \<longleftrightarrow> \<not> is_not_modified r"
  by (cases "ares_result r")
    (simp_all add: is_modified_def is_not_modified_def is_created_def is_updated_def)

end
