(* ===== verification/SecretData.thy ===== *)
theory SecretData
  imports Samples Resources
begin

text \<open>
  The secret handed to the application and what is read back from it: pkg/secrets/secrets.go
  (key names and content), pkg/secrets/extractors.go (key IDs in use, previous credentials),
  pkg/util/crypto/jwk.go (\<open>FromJwk\<close>, \<open>ToPrivateJwks\<close>) and pkg/transaction/secrets.

  The JSON and JWK codecs and the PEM encoding are third-party code: they are the fields of a
  \<open>codec\<close>.
\<close>

record codec =
  enc_jwk :: "json_web_key \<Rightarrow> err + string"
  enc_jwks :: "json_web_key list \<Rightarrow> err + string"
  enc_apps :: "(string \<times> client_id) list \<Rightarrow> err + string"
  dec_jwk :: "string \<Rightarrow> err + json_web_key"
  jose_public :: "json_web_key \<Rightarrow> json_web_key"
  pem_encode :: "string \<Rightarrow> string"

subsection \<open>Key names\<close>

record credential_keys =
  ck_certificate_key_id :: string
  ck_client_secret :: string
  ck_password_key_id :: string
  ck_jwks :: string
  ck_jwk :: string

record openid_config_keys =
  ok_issuer :: string
  ok_jwks_uri :: string
  ok_token_endpoint :: string

record secret_data_keys =
  sdk_client_id :: string
  sdk_current :: credential_keys
  sdk_next :: credential_keys
  sdk_pre_auth_apps :: string
  sdk_tenant_id :: string
  sdk_well_known_url :: string
  sdk_openid :: openid_config_keys

definition DefaultKeyPrefix :: string where
  "DefaultKeyPrefix = ''AZURE''"

definition secret_prefix :: "string \<Rightarrow> string" where
  "secret_prefix p = (if length p > 0 then to_upper (trim_suffix p ''_'') else DefaultKeyPrefix)"

text \<open>The variadic argument of \<open>NewSecretDataKeys\<close> is a list.\<close>

definition new_secret_data_keys :: "string list \<Rightarrow> secret_data_keys" where
  "new_secret_data_keys key_prefix =
     (let prefix = (case key_prefix of [] \<Rightarrow> DefaultKeyPrefix | p # _ \<Rightarrow> secret_prefix p) in
      \<lparr>sdk_client_id = prefix @ ''_APP_CLIENT_ID'',
       sdk_current =
         \<lparr>ck_certificate_key_id = prefix @ ''_APP_CERTIFICATE_KEY_ID'',
          ck_client_secret = prefix @ ''_APP_CLIENT_SECRET'',
          ck_password_key_id = prefix @ ''_APP_PASSWORD_KEY_ID'',
          ck_jwks = prefix @ ''_APP_JWKS'',
          ck_jwk = prefix @ ''_APP_JWK''\<rparr>,
       sdk_next =
         \<lparr>ck_certificate_key_id = prefix @ ''_APP_NEXT_CERTIFICATE_KEY_ID'',
          ck_client_secret = prefix @ ''_APP_NEXT_CLIENT_SECRET'',
          ck_password_key_id = prefix @ ''_APP_NEXT_PASSWORD_KEY_ID'',
          ck_jwks = [],
          ck_jwk = prefix @ ''_APP_NEXT_JWK''\<rparr>,
       sdk_pre_auth_apps = prefix @ ''_APP_PRE_AUTHORIZED_APPS'',
       sdk_tenant_id = prefix @ ''_APP_TENANT_ID'',
       sdk_well_known_url = prefix @ ''_APP_WELL_KNOWN_URL'',
       sdk_openid =
         \<lparr>ok_issuer = prefix @ ''_OPENID_CONFIG_ISSUER'',
          ok_jwks_uri = prefix @ ''_OPENID_CONFIG_JWKS_URI'',
          ok_token_endpoint = prefix @ ''_OPENID_CONFIG_TOKEN_ENDPOINT''\<rparr>\<rparr>)"

definition all_keys :: "secret_data_keys \<Rightarrow> string list" where
  "all_keys s =
     [sdk_client_id s,
      ck_certificate_key_id (sdk_current s),
      ck_client_secret (sdk_current s),
      ck_password_key_id (sdk_current s),
      ck_jwks (sdk_current s),
      ck_jwk (sdk_current s),
      ck_certificate_key_id (sdk_next s),
      ck_client_secret (sdk_next s),
      ck_password_key_id (sdk_next s),
      ck_jwk (sdk_next s),
      sdk_pre_auth_apps s,
      sdk_tenant_id s,
      sdk_well_known_url s,
      ok_issuer (sdk_openid s),
      ok_jwks_uri (sdk_openid s),
      ok_token_endpoint (sdk_openid s)]"

lemma all_keys_distinct: "distinct (all_keys (new_secret_data_keys ps))"
  by (simp add: all_keys_def new_secret_data_keys_def Let_def)

subsection \<open>Content of the secret\<close>

definition to_private_jwks :: "jwk \<Rightarrow> json_web_key list" where
  "to_private_jwks j = [jwk_private j]"

text \<open>\<open>FromJwk\<close> indexes the certificates of the public key: none is a panic.\<close>

definition from_jwk :: "codec \<Rightarrow> json_web_key \<Rightarrow> jwk outcome" where
  "from_jwk c k =
     (case jk_certificates (jose_public c k) of
        [] \<Rightarrow> Panic
      | der # _ \<Rightarrow> Ok \<lparr>jwk_private = k, jwk_public_pem = pem_encode c der\<rparr>)"

definition out_of_sum :: "err + 'a \<Rightarrow> 'a outcome" where
  "out_of_sum r = (case r of Inl e \<Rightarrow> Err e | Inr x \<Rightarrow> Ok x)"

lemma out_of_sum_Ok_iff [simp]: "out_of_sum r = Ok x \<longleftrightarrow> r = Inr x"
  by (auto simp: out_of_sum_def split: sum.split)

lemma out_of_sum_not_Panic [simp]: "out_of_sum r \<noteq> Panic"
  by (auto simp: out_of_sum_def split: sum.split)

text \<open>The JSON of a resource is its name and client ID.\<close>

definition resource_json :: "resource \<Rightarrow> string \<times> client_id" where
  "resource_json r = (res_name r, res_client_id r)"

definition secret_entries ::
  "application_result \<Rightarrow> credentials_set \<Rightarrow> openid_config \<Rightarrow> secret_data_keys \<Rightarrow>
   string \<Rightarrow> string \<Rightarrow> string \<Rightarrow> string \<Rightarrow> (string \<times> string) list" where
  "secret_entries app cs oid keys jwk next_jwk jwks apps =
     [(sdk_client_id keys, ares_client_id app),
      (ck_certificate_key_id (sdk_current keys), cert_key_id (cr_certificate (set_current cs))),
      (ck_client_secret (sdk_current keys), pw_client_secret (cr_password (set_current cs))),
      (ck_jwks (sdk_current keys), jwks),
      (ck_jwk (sdk_current keys), jwk),
      (ck_password_key_id (sdk_current keys), pw_key_id (cr_password (set_current cs))),
      (ck_client_secret (sdk_next keys), pw_client_secret (cr_password (set_next cs))),
      (ck_certificate_key_id (sdk_next keys), cert_key_id (cr_certificate (set_next cs))),
      (ck_jwk (sdk_next keys), next_jwk),
      (ck_password_key_id (sdk_next keys), pw_key_id (cr_password (set_next cs))),
      (sdk_pre_auth_apps keys, apps),
      (sdk_tenant_id keys, ares_tenant app),
      (sdk_well_known_url keys, oid_well_known oid),
      (ok_issuer (sdk_openid keys), oid_issuer oid),
      (ok_jwks_uri (sdk_openid keys), oid_jwks_uri oid),
      (ok_token_endpoint (sdk_openid keys), oid_token_endpoint oid)]"

definition secret_data ::
  "codec \<Rightarrow> application_result \<Rightarrow> credentials_set \<Rightarrow> openid_config \<Rightarrow> secret_data_keys \<Rightarrow>
   string gomap outcome" where
  "secret_data c app cs oid keys =
     out_bind (out_wrap ''marshalling private JWK''
       (out_of_sum (enc_jwk c (jwk_private (cert_jwk (cr_certificate (set_current cs)))))))
     (\<lambda>jwk. out_bind (out_wrap ''marshalling next private JWK''
       (out_of_sum (enc_jwk c (jwk_private (cert_jwk (cr_certificate (set_next cs)))))))
     (\<lambda>next_jwk. out_bind (out_wrap ''marshalling private JWKS''
       (out_of_sum (enc_jwks c (to_private_jwks (cert_jwk (cr_certificate (set_current cs)))))))
     (\<lambda>jwks. out_bind (out_wrap ''marshalling preauthorized apps''
       (out_of_sum (enc_apps c (map resource_json (paa_valid (ares_pre_authorized_apps app))))))
     (\<lambda>apps. Ok (fold (\<lambda>(k, v). gm_put k v) (secret_entries app cs oid keys jwk next_jwk jwks apps) [])))))"

subsection \<open>Reading it back\<close>

text \<open>\<open>string(sec.Data[k])\<close> is empty when the key is absent.\<close>

definition data_at :: "secret \<Rightarrow> string \<Rightarrow> string" where
  "data_at s k = (case map_of (sec_data s) k of None \<Rightarrow> [] | Some v \<Rightarrow> v)"

definition append_if_non_empty :: "string \<Rightarrow> string list \<Rightarrow> string list" where
  "append_if_non_empty i s = (if length i > 0 then s @ [i] else s)"

definition collect_ids :: "string \<Rightarrow> secret list \<Rightarrow> string list" where
  "collect_ids key secrets =
     remove_duplicates (fold (\<lambda>s. append_if_non_empty (data_at s key)) secrets [])"

definition get_key_ids :: "secret_lists \<Rightarrow> secret_data_keys \<Rightarrow> key_ids" where
  "get_key_ids l keys =
     \<lparr>kids_used =
        \<lparr>kid_certificate = collect_ids (ck_certificate_key_id (sdk_current keys)) (sl_used l),
         kid_password = collect_ids (ck_password_key_id (sdk_current keys)) (sl_used l)\<rparr>,
      kids_unused =
        \<lparr>kid_certificate = collect_ids (ck_certificate_key_id (sdk_current keys)) (sl_unused l),
         kid_password = collect_ids (ck_password_key_id (sdk_current keys)) (sl_unused l)\<rparr>\<rparr>"

definition is_valid_secret_data :: "string option \<Rightarrow> bool" where
  "is_valid_secret_data d = (case d of None \<Rightarrow> False | Some v \<Rightarrow> length v \<noteq> 0)"

text \<open>
  \<open>extractCredentials\<close> returns nil and false when one of the four entries is missing or empty;
  the result pair \<open>(set, valid)\<close> is an option here, as the pointer is nil exactly when the flag
  is false.
\<close>

definition extract_credentials ::
  "codec \<Rightarrow> secret \<Rightarrow> credential_keys \<Rightarrow> credentials option outcome" where
  "extract_credentials c s keys =
     (let d = map_of (sec_data s) in
      if \<not> is_valid_secret_data (d (ck_client_secret keys)) then Ok None
      else if \<not> is_valid_secret_data (d (ck_password_key_id keys)) then Ok None
      else if \<not> is_valid_secret_data (d (ck_jwk keys)) then Ok None
      else if \<not> is_valid_secret_data (d (ck_certificate_key_id keys)) then Ok None
      else out_bind (out_of_sum (dec_jwk c (data_at s (ck_jwk keys))))
        (\<lambda>k. out_bind (from_jwk c k)
        (\<lambda>j. Ok (Some
          \<lparr>cr_certificate = \<lparr>cert_key_id = data_at s (ck_certificate_key_id keys), cert_jwk = j\<rparr>,
           cr_password = \<lparr>pw_key_id = data_at s (ck_password_key_id keys),
                          pw_client_secret = data_at s (ck_client_secret keys)\<rparr>\<rparr>))))"

definition extract_credentials_set ::
  "codec \<Rightarrow> secret \<Rightarrow> secret_data_keys \<Rightarrow> credentials_set option outcome" where
  "extract_credentials_set c s keys =
     out_bind (out_wrap ''extracting current credentials set from secret''
                 (extract_credentials c s (sdk_current keys)))
     (\<lambda>cur. case cur of None \<Rightarrow> Ok None | Some cur \<Rightarrow>
        out_bind (out_wrap ''extracting next credentials set from secret''
                    (extract_credentials c s (sdk_next keys)))
        (\<lambda>nxt. case nxt of None \<Rightarrow> Ok None | Some nxt \<Rightarrow>
           Ok (Some \<lparr>set_current = cur, set_next = nxt\<rparr>)))"

definition get_previous_credentials_set ::
  "codec \<Rightarrow> secret_lists \<Rightarrow> secret_data_keys \<Rightarrow> string \<Rightarrow> credentials_set option outcome" where
  "get_previous_credentials_set c l keys secret_name =
     (if length secret_name = 0 then Ok None
      else case find (\<lambda>s. sec_name s = secret_name) (sl_unused l @ sl_used l) of
             None \<Rightarrow> Ok None
           | Some s \<Rightarrow> extract_credentials_set c s keys)"

subsection \<open>Secrets of a transaction (pkg/transaction/secrets)\<close>

record latest_credentials =
  latest_set :: "credentials_set option"
  latest_valid :: bool

record tx_secrets =
  txs_data_keys :: secret_data_keys
  txs_key_ids :: key_ids
  txs_latest :: latest_credentials
  txs_managed :: secret_lists

subsection \<open>Facts\<close>

lemma map_of_fold_put:
  "map_of (fold (\<lambda>(k, v). gm_put k v) es m) = map_of m ++ map_of (rev es)"
proof (induction es arbitrary: m)
  case (Cons e es)
  then show ?case by (cases e) (simp add: fun_upd_def map_add_def fun_eq_iff split: option.split)
qed simp

lemma gm_wf_fold_put: "gm_wf m \<Longrightarrow> gm_wf (fold (\<lambda>(k, v). gm_put k v) es m)"
  by (induction es arbitrary: m) auto

lemma map_of_rev_distinct: "distinct (map fst es) \<Longrightarrow> map_of (rev es) = map_of es"
proof
  fix k
  assume d: "distinct (map fst es)"
  have "map_of (rev es) k = Some v \<longleftrightarrow> map_of es k = Some v" for v
    using d by (simp add: map_of_eq_Some_iff rev_map [symmetric])
  then show "map_of (rev es) k = map_of es k" by (metis not_None_eq)
qed

lemma map_of_fold_put_distinct:
  "distinct (map fst es) \<Longrightarrow> map_of (fold (\<lambda>(k, v). gm_put k v) es []) = map_of es"
  by (simp add: map_of_fold_put map_of_rev_distinct)

lemma collect_ids_set:
  "set (collect_ids key ss) = {i. i \<noteq> [] \<and> (\<exists>s \<in> set ss. map_of (sec_data s) key = Some i)}"
proof -
  have "set (fold (\<lambda>s. append_if_non_empty (data_at s key)) ss acc) =
        set acc \<union> {i. i \<noteq> [] \<and> (\<exists>s \<in> set ss. map_of (sec_data s) key = Some i)}" for acc
    by (induction ss arbitrary: acc)
       (auto simp: append_if_non_empty_def data_at_def split: option.splits if_splits)
  then show ?thesis by (simp add: collect_ids_def)
qed

lemma secret_data_content:
  assumes "secret_data c app cs oid (new_secret_data_keys ps) = Ok d"
  obtains jwk next_jwk jwks apps where
    "enc_jwk c (jwk_private (cert_jwk (cr_certificate (set_current cs)))) = Inr jwk"
    "enc_jwk c (jwk_private (cert_jwk (cr_certificate (set_next cs)))) = Inr next_jwk"
    "enc_jwks c [jwk_private (cert_jwk (cr_certificate (set_current cs)))] = Inr jwks"
    "enc_apps c (map resource_json (paa_valid (ares_pre_authorized_apps app))) = Inr apps"
    "gm_wf d"
    "map_of d = map_of (secret_entries app cs oid (new_secret_data_keys ps) jwk next_jwk jwks apps)"
proof -
  obtain jwk next_jwk jwks apps where e:
    "enc_jwk c (jwk_private (cert_jwk (cr_certificate (set_current cs)))) = Inr jwk"
    "enc_jwk c (jwk_private (cert_jwk (cr_certificate (set_next cs)))) = Inr next_jwk"
    "enc_jwks c [jwk_private (cert_jwk (cr_certificate (set_current cs)))] = Inr jwks"
    "enc_apps c (map resource_json (paa_valid (ares_pre_authorized_apps app))) = Inr apps"
    "d = fold (\<lambda>(k, v). gm_put k v)
           (secret_entries app cs oid (new_secret_data_keys ps) jwk next_jwk jwks apps) []"
    using assms by (auto simp: secret_data_def out_bind_Ok_iff to_private_jwks_def)
  have "distinct (map fst (secret_entries app cs oid (new_secret_data_keys ps) jwk next_jwk jwks apps))"
    by (simp add: secret_entries_def new_secret_data_keys_def Let_def)
  then show ?thesis
    using that e by (simp add: map_of_fold_put_distinct gm_wf_fold_put)
qed

subsection \<open>Properties\<close>

text \<open>A codec and a result for the witnesses.\<close>

definition quiet_codec :: codec where
  "quiet_codec =
     \<lparr>enc_jwk = (\<lambda>k. Inr (''jwk:'' @ jk_key k)), enc_jwks = (\<lambda>ks. Inr ''jwks''),
      enc_apps = (\<lambda>l. Inr ''apps''),
      dec_jwk = (\<lambda>t. Inr (sample_key (drop 4 t))),
      jose_public = (\<lambda>k. k), pem_encode = (\<lambda>der. ''pem:'' @ der)\<rparr>"

definition sample_result :: application_result where
  "sample_result =
     \<lparr>ares_client_id = ''cid'', ares_object_id = ''oid'', ares_sp_id = ''spid'', ares_permissions = [],
      ares_pre_authorized_apps = \<lparr>paa_valid = [], paa_invalid = []\<rparr>, ares_tenant = ''tid'',
      ares_result = OperationCreated\<rparr>"

definition sample_openid :: openid_config where
  "sample_openid =
     \<lparr>oid_issuer = ''iss'', oid_token_endpoint = ''token'', oid_jwks_uri = ''jwks'', oid_well_known = ''wk''\<rparr>"

text \<open>It is enough that the entries written are among those of the secret read.\<close>

lemma secret_data_readable:
  assumes "secret_data c app cs oid (new_secret_data_keys ps) = Ok d"
    and "\<And>cr t. cr \<in> {set_current cs, set_next cs} \<Longrightarrow>
      enc_jwk c (jwk_private (cert_jwk (cr_certificate cr))) = Inr t \<Longrightarrow>
      t \<noteq> [] \<and> dec_jwk c t = Inr (jwk_private (cert_jwk (cr_certificate cr)))"
    and "\<And>cr. cr \<in> {set_current cs, set_next cs} \<Longrightarrow>
      from_jwk c (jwk_private (cert_jwk (cr_certificate cr))) = Ok (cert_jwk (cr_certificate cr)) \<and>
      cert_key_id (cr_certificate cr) \<noteq> [] \<and> pw_key_id (cr_password cr) \<noteq> [] \<and>
      pw_client_secret (cr_password cr) \<noteq> []"
    and "\<And>k v. map_of d k = Some v \<Longrightarrow> map_of (sec_data s) k = Some v"
  shows "extract_credentials_set c s (new_secret_data_keys ps) = Ok (Some cs)"
proof -
  let ?keys = "new_secret_data_keys ps"
  obtain jwk next_jwk jwks apps where e:
    "enc_jwk c (jwk_private (cert_jwk (cr_certificate (set_current cs)))) = Inr jwk"
    "enc_jwk c (jwk_private (cert_jwk (cr_certificate (set_next cs)))) = Inr next_jwk"
    "map_of d = map_of (secret_entries app cs oid ?keys jwk next_jwk jwks apps)"
    using secret_data_content [OF assms(1)] .
  have cur: "map_of d (ck_client_secret (sdk_current ?keys)) = Some (pw_client_secret (cr_password (set_current cs)))"
    "map_of d (ck_password_key_id (sdk_current ?keys)) = Some (pw_key_id (cr_password (set_current cs)))"
    "map_of d (ck_jwk (sdk_current ?keys)) = Some jwk"
    "map_of d (ck_certificate_key_id (sdk_current ?keys)) = Some (cert_key_id (cr_certificate (set_current cs)))"
    and nxt: "map_of d (ck_client_secret (sdk_next ?keys)) = Some (pw_client_secret (cr_password (set_next cs)))"
    "map_of d (ck_password_key_id (sdk_next ?keys)) = Some (pw_key_id (cr_password (set_next cs)))"
    "map_of d (ck_jwk (sdk_next ?keys)) = Some next_jwk"
    "map_of d (ck_certificate_key_id (sdk_next ?keys)) = Some (cert_key_id (cr_certificate (set_next cs)))"
    unfolding e(3) by (simp_all add: secret_entries_def new_secret_data_keys_def Let_def)
  show ?thesis
    using assms(2) [of "set_current cs" jwk] assms(2) [of "set_next cs" next_jwk] e(1,2)
      assms(3) [of "set_current cs"] assms(3) [of "set_next cs"]
    by (simp add: extract_credentials_set_def extract_credentials_def Let_def cur [THEN assms(4)] nxt [THEN assms(4)]
        is_valid_secret_data_def data_at_def out_of_sum_def)
qed

text \<open>What \<open>SecretData\<close> writes for a credential set is what \<open>extractCredentialsSetFromSecret\<close>
  reads back, provided the JWK codec decodes what it encoded, the PEM of the two keys is that of their
  certificates, and no key ID, client secret or encoded key is empty.\<close>

theorem secret_data_roundtrip:
  assumes "secret_data c app cs oid (new_secret_data_keys ps) = Ok d"
    and "\<And>cr t. cr \<in> {set_current cs, set_next cs} \<Longrightarrow>
      enc_jwk c (jwk_private (cert_jwk (cr_certificate cr))) = Inr t \<Longrightarrow>
      t \<noteq> [] \<and> dec_jwk c t = Inr (jwk_private (cert_jwk (cr_certificate cr)))"
    and "\<And>cr. cr \<in> {set_current cs, set_next cs} \<Longrightarrow>
      from_jwk c (jwk_private (cert_jwk (cr_certificate cr))) = Ok (cert_jwk (cr_certificate cr)) \<and>
      cert_key_id (cr_certificate cr) \<noteq> [] \<and> pw_key_id (cr_password cr) \<noteq> [] \<and>
      pw_client_secret (cr_password cr) \<noteq> []"
    and "sec_data s = d"
  shows "extract_credentials_set c s (new_secret_data_keys ps) = Ok (Some cs)"
proof (rule secret_data_readable [OF assms(1-3)])
  show "map_of d k = Some v \<Longrightarrow> map_of (sec_data s) k = Some v" for k v
    using assms(4) by simp
qed

lemma secret_data_roundtrip_witness:
  "\<exists>d. secret_data quiet_codec sample_result sample_set sample_openid (new_secret_data_keys [''azure'']) = Ok d \<and>
     extract_credentials_set quiet_codec (plain_secret\<lparr>sec_data := d\<rparr>) (new_secret_data_keys [''azure''])
       = Ok (Some sample_set)"
proof -
  obtain d where d: "secret_data quiet_codec sample_result sample_set sample_openid
      (new_secret_data_keys [''azure'']) = Ok d"
    by (simp add: secret_data_def quiet_codec_def out_of_sum_def)
  have "extract_credentials_set quiet_codec (plain_secret\<lparr>sec_data := d\<rparr>) (new_secret_data_keys [''azure''])
      = Ok (Some sample_set)"
    by (rule secret_data_roundtrip [OF d])
       (auto simp: quiet_codec_def sample_set_def sample_credentials_def sample_key_def from_jwk_def)
  then show ?thesis using d by blast
qed

text \<open>\<open>GetPreviousCredentialsSet\<close> only looks at secrets with the given name: without one, there is
  no previous set, whatever the other secrets in use contain.\<close>

theorem no_fallback_to_other_secrets:
  assumes "\<forall>s \<in> set (sl_unused l) \<union> set (sl_used l). sec_name s \<noteq> name"
  shows "get_previous_credentials_set c l keys name = Ok None"
proof -
  have "find (\<lambda>s. sec_name s = name) (sl_unused l @ sl_used l) = None"
    using assms by (auto simp: find_None_iff)
  then show ?thesis by (simp add: get_previous_credentials_set_def)
qed

lemma no_fallback_to_other_secrets_witness:
  "get_previous_credentials_set quiet_codec \<lparr>sl_used = [plain_secret], sl_unused = []\<rparr>
     (new_secret_data_keys [[]]) ''latest'' = Ok None"
  by (rule no_fallback_to_other_secrets) (simp add: plain_secret_def)

text \<open>The key IDs reported as used are the non-empty IDs of the current credentials in the used
  secrets, without duplicates; likewise for the unused ones.\<close>

theorem key_ids_of_secrets:
  "set (kid_certificate (kids_used (get_key_ids l keys))) =
     {i. i \<noteq> [] \<and> (\<exists>s \<in> set (sl_used l). map_of (sec_data s) (ck_certificate_key_id (sdk_current keys)) = Some i)} \<and>
   set (kid_password (kids_used (get_key_ids l keys))) =
     {i. i \<noteq> [] \<and> (\<exists>s \<in> set (sl_used l). map_of (sec_data s) (ck_password_key_id (sdk_current keys)) = Some i)} \<and>
   set (kid_certificate (kids_unused (get_key_ids l keys))) =
     {i. i \<noteq> [] \<and> (\<exists>s \<in> set (sl_unused l). map_of (sec_data s) (ck_certificate_key_id (sdk_current keys)) = Some i)} \<and>
   set (kid_password (kids_unused (get_key_ids l keys))) =
     {i. i \<noteq> [] \<and> (\<exists>s \<in> set (sl_unused l). map_of (sec_data s) (ck_password_key_id (sdk_current keys)) = Some i)} \<and>
   distinct (kid_certificate (kids_used (get_key_ids l keys))) \<and>
   distinct (kid_password (kids_used (get_key_ids l keys)))"
  unfolding get_key_ids_def collect_ids_set by (simp add: collect_ids_set) (simp add: collect_ids_def)

end
