(* ===== verification/Annotations.thy ===== *)
theory Annotations
  imports Types Samples
begin

text \<open>
  pkg/annotations (reading and editing the annotations of a resource), pkg/customresources
  (questions about a resource's annotations and status) and pkg/labels. A resource's annotations are
  a nil map (\<open>None\<close>) or a map; writing to a nil map panics in Go, reading and deleting do not.
\<close>

subsection \<open>annotations.go\<close>

definition PreserveKey :: string where "PreserveKey = ''azure.nais.io/preserve''"
definition ResynchronizeKey :: string where "ResynchronizeKey = ''azure.nais.io/resync''"
definition RotateKey :: string where "RotateKey = ''azure.nais.io/rotate''"
definition StakaterReloaderKey :: string where "StakaterReloaderKey = ''reloader.stakater.com/match''"

lemma annotation_keys_distinct [simp]:
  "ResynchronizeKey \<noteq> RotateKey" "RotateKey \<noteq> ResynchronizeKey"
  "PreserveKey \<noteq> RotateKey" "PreserveKey \<noteq> ResynchronizeKey"
  "RotateKey \<noteq> PreserveKey" "ResynchronizeKey \<noteq> PreserveKey"
  by (simp_all add: ResynchronizeKey_def RotateKey_def PreserveKey_def)

definition ann_lookup :: "string gomap option \<Rightarrow> string \<Rightarrow> string option" where
  "ann_lookup a k = (case a of None \<Rightarrow> None | Some m \<Rightarrow> map_of m k)"

definition set_annotation :: "string \<Rightarrow> string \<Rightarrow> azure_ad_application \<Rightarrow> azure_ad_application" where
  "set_annotation key v r =
     r\<lparr>app_annotations := Some (gm_put key v (case app_annotations r of None \<Rightarrow> [] | Some a \<Rightarrow> a))\<rparr>"

definition last_entry :: "string \<Rightarrow> string" where
  "last_entry s = (case last_index CHR '','' s of Some i \<Rightarrow> drop (i + 1) s | None \<Rightarrow> s)"

definition add_to_annotation ::
  "string \<Rightarrow> string \<Rightarrow> azure_ad_application \<Rightarrow> azure_ad_application" where
  "add_to_annotation key v r =
     (case app_annotations r of
        None \<Rightarrow> set_annotation key v r
      | Some a \<Rightarrow>
          (case map_of a key of
             None \<Rightarrow> r\<lparr>app_annotations := Some (gm_put key v a)\<rparr>
           | Some existing \<Rightarrow>
               if last_entry existing = v then r
               else r\<lparr>app_annotations := Some (gm_put key (str_join CHR '','' [existing, v]) a)\<rparr>))"

definition has_annotation :: "azure_ad_application \<Rightarrow> string \<Rightarrow> string option" where
  "has_annotation r key = ann_lookup (app_annotations r) key"

definition remove_annotation :: "string \<Rightarrow> azure_ad_application \<Rightarrow> azure_ad_application" where
  "remove_annotation key r =
     (case has_annotation r key of
        None \<Rightarrow> r
      | Some _ \<Rightarrow> r\<lparr>app_annotations := map_option (gm_del key) (app_annotations r)\<rparr>)"

definition remove_from_annotation :: "string \<Rightarrow> azure_ad_application \<Rightarrow> azure_ad_application" where
  "remove_from_annotation key r =
     (case has_annotation r key of
        None \<Rightarrow> r
      | Some existing \<Rightarrow>
          let vs = str_split CHR '','' existing in
          if length vs > 1
          then r\<lparr>app_annotations := map_option (gm_put key (str_join CHR '','' (tl vs))) (app_annotations r)\<rparr>
          else r\<lparr>app_annotations := map_option (gm_del key) (app_annotations r)\<rparr>)"

subsection \<open>azureadapplication.go\<close>

text \<open>\<open>hash\<close> is the library's \<open>Hash\<close> of the resource.\<close>

definition is_hash_changed ::
  "(azure_ad_application \<Rightarrow> string outcome) \<Rightarrow> azure_ad_application \<Rightarrow> bool outcome" where
  "is_hash_changed hash app =
     out_bind (out_wrap ''calculating application hash'' (hash app))
       (\<lambda>new_hash. Ok (status_hash (app_status app) \<noteq> new_hash))"

definition secret_name_changed :: "azure_ad_application \<Rightarrow> bool" where
  "secret_name_changed app = (status_secret_name (app_status app) \<noteq> spec_secret_name (app_spec app))"

definition has_expired_secrets :: "azure_ad_application \<Rightarrow> duration \<Rightarrow> time \<Rightarrow> bool" where
  "has_expired_secrets app max_age now =
     (case status_rotation_time (app_status app) of
        None \<Rightarrow> False
      | Some last_rotation \<Rightarrow> now - last_rotation \<ge> max_age)"

definition has_resynchronize_annotation :: "azure_ad_application \<Rightarrow> bool" where
  "has_resynchronize_annotation app = (has_annotation app ResynchronizeKey \<noteq> None)"

definition has_rotate_annotation :: "azure_ad_application \<Rightarrow> bool" where
  "has_rotate_annotation app = (has_annotation app RotateKey \<noteq> None)"

subsection \<open>accesspolicyrule.go and labels.go\<close>

text \<open>\<open>urn name namespace cluster\<close> is the library's \<open>UniformResourceName\<close>.\<close>

type_synonym resource_namer = "string \<Rightarrow> string \<Rightarrow> string \<Rightarrow> string"

definition get_unique_name :: "resource_namer \<Rightarrow> access_policy_rule \<Rightarrow> string" where
  "get_unique_name urn r = urn (rule_application r) (rule_namespace r) (rule_cluster r)"

definition AppLabelKey :: string where "AppLabelKey = ''app''"
definition TypeLabelKey :: string where "TypeLabelKey = ''type''"
definition TypeLabelValue :: string where "TypeLabelValue = ''azurerator.nais.io''"

definition resource_labels :: "azure_ad_application \<Rightarrow> string gomap" where
  "resource_labels app = [(AppLabelKey, app_name app), (TypeLabelKey, TypeLabelValue)]"

subsection \<open>What an annotation holds\<close>

text \<open>
  The specification: an annotation of comma-separated values is a queue. \<open>AddToAnnotation\<close>
  appends an element (unless it repeats the last one), \<open>RemoveFromAnnotation\<close> removes the first.
\<close>

definition ann_queue :: "azure_ad_application \<Rightarrow> string \<Rightarrow> string list" where
  "ann_queue r key = (case has_annotation r key of None \<Rightarrow> [] | Some v \<Rightarrow> str_split CHR '','' v)"

lemma last_entry_split: "last_entry s = last (str_split CHR '','' s)"
proof (cases "last_index CHR '','' s")
  case None
  then have "CHR '','' \<notin> set s" using last_index_None by metis
  then show ?thesis using None by (simp add: last_entry_def str_split_no_sep)
next
  case (Some i)
  from last_index_Some [OF Some]
  have i: "i < length s" "s ! i = CHR '',''" "CHR '','' \<notin> set (drop (Suc i) s)" by auto
  then have "s = take i s @ CHR '','' # drop (Suc i) s"
    by (metis id_take_nth_drop)
  then have "str_split CHR '','' s = str_split CHR '','' (take i s) @ [drop (Suc i) s]"
    using i(3) str_split_snoc str_split_no_sep by metis
  then show ?thesis using Some by (simp add: last_entry_def)
qed

lemma ann_queue_Nil_iff: "ann_queue r key = [] \<longleftrightarrow> has_annotation r key = None"
  by (auto simp: ann_queue_def split: option.split)

lemma ann_queue_add:
  assumes "CHR '','' \<notin> set v"
  shows "ann_queue (add_to_annotation key v r) key =
     (if ann_queue r key \<noteq> [] \<and> last (ann_queue r key) = v then ann_queue r key
      else ann_queue r key @ [v])"
  using assms
  by (auto simp: ann_queue_def add_to_annotation_def has_annotation_def ann_lookup_def
      set_annotation_def last_entry_split str_split_snoc str_split_no_sep split: option.split)

lemma ann_queue_remove: "ann_queue (remove_from_annotation key r) key = tl (ann_queue r key)"
proof (cases "has_annotation r key")
  case None
  then show ?thesis by (simp add: ann_queue_def remove_from_annotation_def)
next
  case (Some v)
  then obtain a where a: "app_annotations r = Some a" "map_of a key = Some v"
    by (auto simp: has_annotation_def ann_lookup_def split: option.splits)
  have "str_split CHR '','' (str_join CHR '','' (tl (str_split CHR '','' v))) = tl (str_split CHR '','' v)"
    if "length (str_split CHR '','' v) > 1"
  proof (rule str_split_join)
    show "tl (str_split CHR '','' v) \<noteq> []" using that by (cases "str_split CHR '','' v") auto
    fix s assume "s \<in> set (tl (str_split CHR '','' v))"
    then have "s \<in> set (str_split CHR '','' v)" by (metis list.set_sel(2) tl_Nil)
    then show "CHR '','' \<notin> set s" by (rule str_split_no_sep_parts)
  qed
  moreover have "tl (str_split CHR '','' v) = []" if "\<not> length (str_split CHR '','' v) > 1"
    using that by (cases "str_split CHR '','' v") auto
  ultimately show ?thesis
    using Some a
    by (auto simp: ann_queue_def remove_from_annotation_def has_annotation_def ann_lookup_def Let_def)
qed

text \<open>Editing one annotation leaves every other annotation and every other field alone.\<close>

lemma has_annotation_set [simp]:
  "has_annotation (set_annotation key v r) k = (if k = key then Some v else has_annotation r k)"
  by (auto simp: set_annotation_def has_annotation_def ann_lookup_def split: option.split)

lemma has_annotation_add_other [simp]:
  "k \<noteq> key \<Longrightarrow> has_annotation (add_to_annotation key v r) k = has_annotation r k"
  by (auto simp: add_to_annotation_def set_annotation_def has_annotation_def ann_lookup_def
      split: option.split)

lemma has_annotation_remove [simp]:
  "has_annotation (remove_annotation key r) k = (if k = key then None else has_annotation r k)"
  by (auto simp: remove_annotation_def has_annotation_def ann_lookup_def split: option.splits)

lemma has_annotation_remove_from_other [simp]:
  "k \<noteq> key \<Longrightarrow> has_annotation (remove_from_annotation key r) k = has_annotation r k"
  by (auto simp: remove_from_annotation_def has_annotation_def ann_lookup_def Let_def
      split: option.splits)

lemma annotation_ops_frame [simp]:
  "app_spec (set_annotation key v r) = app_spec r" "app_status (set_annotation key v r) = app_status r"
  "app_name (set_annotation key v r) = app_name r" "app_namespace (set_annotation key v r) = app_namespace r"
  "app_spec (add_to_annotation key v r) = app_spec r" "app_status (add_to_annotation key v r) = app_status r"
  "app_name (add_to_annotation key v r) = app_name r" "app_namespace (add_to_annotation key v r) = app_namespace r"
  "app_spec (remove_annotation key r) = app_spec r" "app_status (remove_annotation key r) = app_status r"
  "app_name (remove_annotation key r) = app_name r" "app_namespace (remove_annotation key r) = app_namespace r"
  "app_spec (remove_from_annotation key r) = app_spec r"
  "app_status (remove_from_annotation key r) = app_status r"
  "app_name (remove_from_annotation key r) = app_name r"
  "app_namespace (remove_from_annotation key r) = app_namespace r"
  by (auto simp: set_annotation_def add_to_annotation_def remove_annotation_def
      remove_from_annotation_def Let_def split: option.split)

subsection \<open>Properties\<close>

text \<open>C39: An annotation of comma-separated entries is a queue: \<open>AddToAnnotation\<close> appends an entry
  without a comma at the end, unless it repeats the last entry, and \<open>RemoveFromAnnotation\<close> removes
  the first entry; both leave every other annotation alone.\<close>

theorem annotation_is_a_queue:
  assumes "CHR '','' \<notin> set v"
  shows "ann_queue (add_to_annotation key v r) key =
      (if ann_queue r key \<noteq> [] \<and> last (ann_queue r key) = v then ann_queue r key
       else ann_queue r key @ [v]) \<and>
    ann_queue (remove_from_annotation key r) key = tl (ann_queue r key) \<and>
    (\<forall>k. k \<noteq> key \<longrightarrow> has_annotation (add_to_annotation key v r) k = has_annotation r k \<and>
       has_annotation (remove_from_annotation key r) k = has_annotation r k)"
  by (simp add: ann_queue_add [OF assms] ann_queue_remove)

lemma annotation_is_a_queue_witness:
  "ann_queue (add_to_annotation ''k'' ''b'' (plain_app\<lparr>app_annotations := Some [(''k'', ''a'')]\<rparr>)) ''k''
     = [''a'', ''b'']"
  using annotation_is_a_queue
    [of "''b''" "''k''" "plain_app\<lparr>app_annotations := Some [(''k'', ''a'')]\<rparr>"]
  by (simp add: ann_queue_def has_annotation_def ann_lookup_def)

end
