(* ===== verification/Transaction.thy ===== *)
theory Transaction
  imports SecretData Annotations
begin

text \<open>
  pkg/transaction: the options computed for one reconciliation and the value of a
  \<open>Transaction\<close>. The resource a transaction points to (\<open>Instance\<close>) is shared and mutated by
  the code, so it is part of the state of the programs (theory World) and not of this record;
  the context and the logger are left out.
\<close>

record azure_options =
  opt_azure_synchronize :: bool
  opt_cleanup_orphans :: bool

record secret_options =
  opt_secret_rotate :: bool
  opt_secret_valid :: bool
  opt_secret_cleanup :: bool

record process_options =
  opt_synchronize :: bool
  opt_azure :: azure_options
  opt_secret :: secret_options

record transaction_options =
  opt_tenant_ignore :: bool
  opt_process :: process_options

record transaction =
  tx_cluster_name :: string
  tx_exists_in_azure :: bool
  tx_options :: transaction_options
  tx_secrets :: tx_secrets
  tx_id :: string
  tx_urn :: string

definition is_not_addressed_to_tenant :: "azure_ad_application \<Rightarrow> string \<Rightarrow> bool \<Rightarrow> bool" where
  "is_not_addressed_to_tenant instance configured_tenant require_matching =
     (let tenant = spec_tenant (app_spec instance) in
      if length tenant > 0 then tenant \<noteq> configured_tenant else require_matching)"

text \<open>\<open>hash\<close> is the library's hash of a resource, \<open>now\<close> the time of the call.\<close>

definition process_opts ::
  "(azure_ad_application \<Rightarrow> string outcome) \<Rightarrow> time \<Rightarrow> azure_ad_application \<Rightarrow> config \<Rightarrow>
   tx_secrets \<Rightarrow> process_options outcome" where
  "process_opts hash now instance cfg secrets =
     out_bind (is_hash_changed hash instance) (\<lambda>hash_changed.
       let name_changed = secret_name_changed instance;
           has_resync = has_resynchronize_annotation instance;
           has_rotate = has_rotate_annotation instance;
           has_expired = has_expired_secrets instance (cfg_rotation_max_age cfg) now;
           tenant_unchanged =
             str_contains (status_tenant (app_status instance)) (tenant_id (az_tenant (cfg_azure cfg)));
           needs_synchronization =
             hash_changed \<or> name_changed \<or> has_expired \<or> has_resync \<or> has_rotate;
           needs_azure_synchronization = hash_changed \<or> has_resync;
           has_valid_secrets =
             \<not> has_expired \<and> tenant_unchanged \<and> latest_valid (txs_latest secrets)
               \<and> latest_set (txs_latest secrets) \<noteq> None;
           needs_rotation = name_changed \<or> has_rotate;
           needs_cleanup = \<not> needs_rotation \<and> cfg_rotation_cleanup cfg
       in Ok \<lparr>opt_synchronize = needs_synchronization,
              opt_azure =
                \<lparr>opt_azure_synchronize = needs_azure_synchronization,
                 opt_cleanup_orphans = feat_cleanup_orphans (az_features (cfg_azure cfg))\<rparr>,
              opt_secret =
                \<lparr>opt_secret_rotate = needs_rotation, opt_secret_valid = has_valid_secrets,
                 opt_secret_cleanup = needs_cleanup\<rparr>\<rparr>)"

definition tenant_ignore :: "azure_ad_application \<Rightarrow> config \<Rightarrow> bool" where
  "tenant_ignore instance cfg =
     is_not_addressed_to_tenant instance (tenant_name (az_tenant (cfg_azure cfg)))
       (cfg_tenant_required cfg)"

definition new_options ::
  "(azure_ad_application \<Rightarrow> string outcome) \<Rightarrow> time \<Rightarrow> azure_ad_application \<Rightarrow> config \<Rightarrow>
   tx_secrets \<Rightarrow> transaction_options outcome" where
  "new_options hash now instance cfg secrets =
     out_bind (process_opts hash now instance cfg secrets) (\<lambda>process.
       Ok \<lparr>opt_tenant_ignore = tenant_ignore instance cfg, opt_process = process\<rparr>)"

subsection \<open>Abbreviations and facts\<close>

abbreviation secret_opts :: "transaction \<Rightarrow> secret_options" where
  "secret_opts tx \<equiv> opt_secret (opt_process (tx_options tx))"

abbreviation latest_of :: "transaction \<Rightarrow> credentials_set option" where
  "latest_of tx \<equiv> latest_set (txs_latest (tx_secrets tx))"

text \<open>
  The invariant of a transaction that keeps the reconciler from dereferencing missing
  credentials: the option Valid is only set when there is a previous credential set.
\<close>

definition tx_credentials_ok :: "transaction \<Rightarrow> bool" where
  "tx_credentials_ok tx = (opt_secret_valid (secret_opts tx) \<longrightarrow> latest_of tx \<noteq> None)"

lemma process_opts_valid:
  "process_opts hash now i cfg secrets = Ok p \<Longrightarrow> opt_secret_valid (opt_secret p) \<Longrightarrow>
     latest_set (txs_latest secrets) \<noteq> None"
  by (auto simp: process_opts_def Let_def out_bind_Ok_iff)

lemma new_options_valid:
  "new_options hash now i cfg secrets = Ok opts \<Longrightarrow> opt_secret_valid (opt_secret (opt_process opts)) \<Longrightarrow>
     latest_set (txs_latest secrets) \<noteq> None"
  using process_opts_valid by (fastforce simp: new_options_def out_bind_Ok_iff)

lemma new_options_fields:
  assumes "new_options hash now i cfg secrets = Ok opts"
  shows "opt_tenant_ignore opts = tenant_ignore i cfg"
    and "opt_cleanup_orphans (opt_azure (opt_process opts)) = feat_cleanup_orphans (az_features (cfg_azure cfg))"
  using assms by (auto simp: new_options_def process_opts_def Let_def out_bind_Ok_iff)

lemma tenant_ignore_spec: "app_spec i = app_spec j \<Longrightarrow> tenant_ignore i cfg = tenant_ignore j cfg"
  by (simp add: tenant_ignore_def is_not_addressed_to_tenant_def)

end
