(* ===== verification/AppManifest.thy ===== *)
theory AppManifest
  imports Annotations
begin

text \<open>
  The parts of an application registration that are computed without calling Azure AD, from
  pkg/azure/client/application: identifier URIs, optional claims, group membership claims, redirect
  URIs and required resource access; the builder that assembles a registration and the Graph
  filters, from pkg/azure/util.
\<close>

subsection \<open>identifieruri.go\<close>

definition uri_client_id :: "client_id \<Rightarrow> string" where
  "uri_client_id i = ''api://'' @ i"

definition uri_human_readable :: "azure_ad_application \<Rightarrow> string \<Rightarrow> string" where
  "uri_human_readable app cluster =
     ''api://'' @ cluster @ ''.'' @ app_namespace app @ ''.'' @ app_name app"

definition default_uris :: "azure_ad_application \<Rightarrow> string \<Rightarrow> string list" where
  "default_uris app cluster =
     [uri_client_id (status_client_id (app_status app)), uri_human_readable app cluster]"

definition identifier_uris_create :: "azure_ad_application \<Rightarrow> string \<Rightarrow> string list" where
  "identifier_uris_create app cluster = default_uris app cluster"

text \<open>\<open>seen\<close> is looked up in the existing URIs, not in the ones already added.\<close>

definition identifier_uris_update ::
  "azure_ad_application \<Rightarrow> string list \<Rightarrow> string \<Rightarrow> string list" where
  "identifier_uris_update app existing cluster =
     fold (\<lambda>uri result. if uri \<in> set existing then result else result @ [uri])
       (default_uris app cluster) existing"

subsection \<open>optionalclaims.go\<close>

definition default_claims :: optional_claims where
  "default_claims =
     \<lparr>oc_access_token = [\<lparr>oc_essential = Some True, oc_name = Some ''idtyp''\<rparr>],
      oc_id_token = [\<lparr>oc_essential = Some True, oc_name = Some ''sid''\<rparr>],
      oc_saml2_token = []\<rparr>"

definition same_claim_name :: "optional_claim \<Rightarrow> optional_claim \<Rightarrow> bool" where
  "same_claim_name c d = (oc_name c \<noteq> None \<and> oc_name d \<noteq> None \<and> oc_name c = oc_name d)"

definition merge_one_claim :: "optional_claim \<Rightarrow> optional_claim list \<Rightarrow> optional_claim list" where
  "merge_one_claim override existing =
     (if list_ex (\<lambda>c. same_claim_name c override) existing
      then map (\<lambda>c. if same_claim_name c override then override else c) existing
      else existing @ [override])"

definition merge_claim_lists ::
  "optional_claim list \<Rightarrow> optional_claim list \<Rightarrow> optional_claim list" where
  "merge_claim_lists existing override = fold merge_one_claim override existing"

definition merge_claims :: "optional_claims \<Rightarrow> optional_claims \<Rightarrow> optional_claims" where
  "merge_claims existing override =
     (let r1 = (if oc_id_token override \<noteq> []
                then existing\<lparr>oc_id_token := merge_claim_lists (oc_id_token existing) (oc_id_token override)\<rparr>
                else existing);
          r2 = (if oc_access_token override \<noteq> []
                then r1\<lparr>oc_access_token := merge_claim_lists (oc_access_token r1) (oc_access_token override)\<rparr>
                else r1)
      in if oc_saml2_token override \<noteq> []
         then r2\<lparr>oc_saml2_token := merge_claim_lists (oc_saml2_token r2) (oc_saml2_token override)\<rparr>
         else r2)"

definition optional_claims_create :: optional_claims where
  "optional_claims_create = default_claims"

definition optional_claims_update :: "graph_application \<Rightarrow> optional_claims" where
  "optional_claims_update existing =
     (case ga_optional_claims existing of
        None \<Rightarrow> default_claims
      | Some claims \<Rightarrow> merge_claims claims default_claims)"

subsection \<open>groupmembershipclaim.go\<close>

definition ClaimAll :: string where "ClaimAll = ''All''"
definition ClaimDirectoryRole :: string where "ClaimDirectoryRole = ''DirectoryRole''"
definition ClaimSecurityGroup :: string where "ClaimSecurityGroup = ''SecurityGroup''"
definition ClaimApplicationGroup :: string where "ClaimApplicationGroup = ''ApplicationGroup''"
definition ClaimNone :: string where "ClaimNone = ''None''"

definition allowed_claims :: "string list" where
  "allowed_claims = [ClaimAll, ClaimDirectoryRole, ClaimSecurityGroup, ClaimApplicationGroup, ClaimNone]"

definition normalize_claim :: "string \<Rightarrow> string outcome" where
  "normalize_claim claim =
     (case find (\<lambda>valid. equal_fold claim valid) allowed_claims of
        Some valid \<Rightarrow> Ok valid
      | None \<Rightarrow> Err (Cause (Opaque ''invalid group membership claim'')))"

definition group_claim_from_spec :: "azure_ad_application \<Rightarrow> string outcome" where
  "group_claim_from_spec app =
     (case spec_group_membership_claims (app_spec app) of
        None \<Rightarrow> Ok []
      | Some c \<Rightarrow> normalize_claim c)"

definition group_claim_from_spec_or_default :: "azure_ad_application \<Rightarrow> string \<Rightarrow> string outcome" where
  "group_claim_from_spec_or_default app dflt =
     normalize_claim (case spec_group_membership_claims (app_spec app) of None \<Rightarrow> dflt | Some c \<Rightarrow> c)"

subsection \<open>redirecturi.go and requiredresourceaccess.go\<close>

text \<open>\<open>is_url\<close> is the library's \<open>govalidator.IsURL\<close>.\<close>

definition reply_urls_to_string_slice ::
  "(string \<Rightarrow> bool) \<Rightarrow> azure_ad_application \<Rightarrow> string list" where
  "reply_urls_to_string_slice is_url app =
     remove_duplicates (filter is_url (spec_reply_urls (app_spec app)))"

text \<open>
  The payload that replaces both lists of redirect URIs; unlike the ones of the library struct, its
  empty lists are serialised.
\<close>

record redirect_payload =
  rp_web :: "string list"
  rp_spa :: "string list"

definition is_single_page_application :: "azure_ad_application \<Rightarrow> bool" where
  "is_single_page_application app = (spec_single_page_application (app_spec app) = Some True)"

definition redirect_app :: "(string \<Rightarrow> bool) \<Rightarrow> azure_ad_application \<Rightarrow> redirect_payload" where
  "redirect_app is_url app =
     (let uris = reply_urls_to_string_slice is_url app in
      if is_single_page_application app then \<lparr>rp_web = [], rp_spa = uris\<rparr>
      else \<lparr>rp_web = uris, rp_spa = []\<rparr>)"

definition microsoft_graph_access :: required_resource_access where
  "microsoft_graph_access =
     \<lparr>rra_app_id = Some ''00000003-0000-0000-c000-000000000000'',
      rra_access =
        [\<lparr>rac_id = Some ''e1fe6dd8-ba31-4d61-89e7-88639da4683d'', rac_type = Some ''Scope''\<rparr>,
         \<lparr>rac_id = Some ''37f7f235-527c-4136-accd-4a02d197296e'', rac_type = Some ''Scope''\<rparr>,
         \<lparr>rac_id = Some ''bc024368-1153-4739-b217-4326f2e966d0'', rac_type = Some ''Scope''\<rparr>]\<rparr>"

subsection \<open>application_builder.go\<close>

definition with_keys :: "key_credential list \<Rightarrow> graph_application \<Rightarrow> graph_application" where
  "with_keys ks a = a\<lparr>ga_key_credentials := ks\<rparr>"

definition with_identifier_uris :: "string list \<Rightarrow> graph_application \<Rightarrow> graph_application" where
  "with_identifier_uris uris a = a\<lparr>ga_identifier_uris := uris\<rparr>"

definition with_resource_access ::
  "required_resource_access list \<Rightarrow> graph_application \<Rightarrow> graph_application" where
  "with_resource_access access a = a\<lparr>ga_required_resource_access := access\<rparr>"

definition with_group_membership_claims :: "string \<Rightarrow> graph_application \<Rightarrow> graph_application" where
  "with_group_membership_claims c a = a\<lparr>ga_group_membership_claims := Some c\<rparr>"

definition with_app_roles :: "app_role list \<Rightarrow> graph_application \<Rightarrow> graph_application" where
  "with_app_roles roles a = a\<lparr>ga_app_roles := roles\<rparr>"

definition zero_web :: web_application where
  "zero_web = \<lparr>web_logout_url = None, web_redirect_uris = [], web_id_token_issuance = None,
     web_access_token_issuance = None\<rparr>"

definition with_redirect_uris ::
  "string list \<Rightarrow> azure_ad_application \<Rightarrow> graph_application \<Rightarrow> graph_application" where
  "with_redirect_uris uris app a =
     (if is_single_page_application app
      then a\<lparr>ga_spa := Some \<lparr>spa_redirect_uris = uris\<rparr>\<rparr>
      else a\<lparr>ga_web := Some ((case ga_web a of None \<Rightarrow> zero_web | Some w \<Rightarrow> w)
               \<lparr>web_redirect_uris := uris\<rparr>)\<rparr>)"

definition with_permission_scopes :: "permission_scope list \<Rightarrow> graph_application \<Rightarrow> graph_application" where
  "with_permission_scopes scopes a =
     a\<lparr>ga_api := Some ((case ga_api a of None \<Rightarrow> zero_api | Some api \<Rightarrow> api)\<lparr>api_scopes := scopes\<rparr>)\<rparr>"

definition with_optional_claims :: "optional_claims \<Rightarrow> graph_application \<Rightarrow> graph_application" where
  "with_optional_claims c a = a\<lparr>ga_optional_claims := Some c\<rparr>"

subsection \<open>strings.go\<close>

text \<open>\<open>rfc3339\<close> is the formatting of an instant in UTC by Go's \<open>time\<close> package.\<close>

definition AzureratorPrefix :: string where "AzureratorPrefix = ''azurerator''"

definition filter_by_name :: "string \<Rightarrow> string" where
  "filter_by_name name = ''displayName eq '' @ [CHR 0x27] @ name @ [CHR 0x27]"

definition filter_by_app_id :: "string \<Rightarrow> string" where
  "filter_by_app_id i = ''appId eq '' @ [CHR 0x27] @ i @ [CHR 0x27]"

definition filter_by_client_id :: "string \<Rightarrow> string" where
  "filter_by_client_id i = ''clientId eq '' @ [CHR 0x27] @ i @ [CHR 0x27]"

definition display_name :: "(time \<Rightarrow> string) \<Rightarrow> time \<Rightarrow> string" where
  "display_name rfc3339 t = AzureratorPrefix @ ''-'' @ rfc3339 t"

lemma display_name_managed [simp]: "has_prefix (display_name rfc3339 t) AzureratorPrefix"
  by (simp add: display_name_def has_prefix_def)

lemma filters_distinct [simp]:
  "filter_by_name n \<noteq> filter_by_app_id i" "filter_by_app_id i \<noteq> filter_by_name n"
  by (simp_all add: filter_by_name_def filter_by_app_id_def)

lemma filter_by_app_id_inj [simp]: "filter_by_app_id i = filter_by_app_id j \<longleftrightarrow> i = j"
  by (simp add: filter_by_app_id_def)

lemma filter_by_name_inj [simp]: "filter_by_name i = filter_by_name j \<longleftrightarrow> i = j"
  by (simp add: filter_by_name_def)

subsection \<open>Facts about the manifest\<close>

lemma identifier_uris_update_eq:
  "identifier_uris_update app existing cluster =
     existing @ filter (\<lambda>u. u \<notin> set existing) (default_uris app cluster)"
  by (simp add: identifier_uris_update_def default_uris_def)

lemma allowed_claims_simps:
  "allowed_claims = [''All'', ''DirectoryRole'', ''SecurityGroup'', ''ApplicationGroup'', ''None'']"
  by (simp add: allowed_claims_def ClaimAll_def ClaimDirectoryRole_def ClaimSecurityGroup_def
      ClaimApplicationGroup_def ClaimNone_def)

lemma merge_one_claim_names:
  "same_claim_name c ov \<Longrightarrow> c \<in> set (merge_one_claim ov existing) \<Longrightarrow> c = ov"
  by (auto simp: merge_one_claim_def same_claim_name_def list_ex_iff split: if_splits)

lemma merge_one_claim_in [simp]: "ov \<in> set (merge_one_claim ov existing)"
  by (force simp: merge_one_claim_def list_ex_iff image_iff)

lemma merge_one_claim_others:
  "\<not> same_claim_name c ov \<Longrightarrow> c \<noteq> ov \<Longrightarrow> c \<in> set (merge_one_claim ov existing) \<longleftrightarrow> c \<in> set existing"
  by (auto simp: merge_one_claim_def)

end
