(* ===== verification/World.thy ===== *)
theory World
  imports Effects Transaction AppManifest Permissions
begin

text \<open>
  The world the operator runs in. Everything outside src/ (the Graph API, the Kubernetes API, the
  caches, the clock, the random sources, the codecs) is an argument \<open>env\<close>: each reply may
  depend on the whole history of requests, so that an arbitrary remote service, concurrent actors
  included, is some \<open>env\<close>. The state of a program is the history (newest first), in which every
  request is recorded with whether it succeeded, and the resource the transaction points to.
  Log lines and metric counters are not recorded.
\<close>

subsection \<open>Requests\<close>

text \<open>
  The bodies sent with PATCH to an application: an \<open>msgraph.Application\<close> (empty fields are
  omitted from the JSON), or one of the structs that serialise an empty list or a single field.
\<close>

datatype app_patch =
    PatchFields graph_application
  | PatchRedirectUris redirect_payload
  | PatchKeyCredentials "key_credential list"
  | PatchAcceptMappedClaims bool
  | PatchPreAuthorized "pre_authorized_application list"

datatype security_attributes = SecurityAttributes string string \<comment> \<open>OData type, ManagedBy\<close>

datatype graph_request =
    ListApplications string int
  | AddApplication graph_application
  | PatchApplication object_id app_patch
  | DeleteApplication object_id
  | ListApplicationOwners object_id int
  | AddApplicationOwner object_id string
  | AddPassword object_id password_credential
  | RemovePassword object_id "string option"
  | ListServicePrincipals string int
  | GetServicePrincipalById sp_id
  | AddServicePrincipal service_principal
  | UpdateServicePrincipal sp_id service_principal
  | PatchSecurityAttributes sp_id security_attributes
  | ListServicePrincipalOwners sp_id int
  | AddServicePrincipalOwner sp_id string
  | ListAssignments sp_id int
  | AddAssignment sp_id app_role_assignment
  | DeleteAssignment sp_id string
  | ListPolicies sp_id
  | AssignPolicy sp_id string
  | RemovePolicy sp_id string
  | ListGrants string int
  | AddGrant permission_grant
  | GetGroup object_id

text \<open>
  The types and reasons of Kubernetes events; the strings behind the reasons are constants of
  the liberator library (\<open>e_reason\<close> below) except the last two.
\<close>

datatype event_type = Normal | Warning

datatype event_reason =
    CreatedInAzure
  | UpdatedInAzure
  | RotatedInAzure
  | DeletedInAzure
  | FailedSynchronization
  | Retrying
  | Synchronized
  | FailedStatusUpdate
  | AccessPolicyAssigned
  | AccessPolicySkipped

datatype kube_request =
    GetResource string string \<comment> \<open>namespace, name\<close>
  | ListResources
  | UpdateResource azure_ad_application
  | UpdateResourceStatus azure_ad_application
  | ListSecrets string string "string gomap" \<comment> \<open>namespace, application, labels\<close>
  | GetSecret string string
  | CreateSecret secret
  | UpdateSecret secret
  | DeleteSecret secret
  | RecordEvent event_type event_reason string

text \<open>The certificate template the code fills in, with the fields of \<open>x509.Certificate\<close> it sets.\<close>

datatype key_usage = KeyUsageDigitalSignature
datatype ext_key_usage = ExtKeyUsageClientAuth

record x509_template =
  ct_serial_number :: int
  ct_country :: "string list"
  ct_province :: "string list"
  ct_locality :: "string list"
  ct_organization :: "string list"
  ct_organizational_unit :: "string list"
  ct_common_name :: string
  ct_not_before :: time
  ct_not_after :: time
  ct_key_usage :: key_usage
  ct_ext_key_usage :: "ext_key_usage list"
  ct_basic_constraints_valid :: bool

datatype runtime_request =
    SpawnProduceEvent application_result
  | LockAppsync
  | UnlockAppsync
  | Now
  | Sleep duration
  | DrawUuids
  | GenerateRsaKey
  | CreateCertificate x509_template string \<comment> \<open>template and parent, key\<close>
  | ParseCertificate string
  | RetryWait duration duration \<comment> \<open>base delay, maximum duration\<close>

datatype cache_request =
    GetManaged client_id
  | SetManaged client_id bool "duration option" \<comment> \<open>with the expiration, if any\<close>
  | GetClientId sp_id
  | SetClientId sp_id client_id
  | GetServicePrincipalId client_id
  | SetServicePrincipalId client_id sp_id
  | GetCachedGroup object_id
  | SetCachedGroup object_id graph_group duration
  | GetResolved string
  | SetResolved string client_id bool duration

datatype request =
    Graph graph_request
  | Kube kube_request
  | Runtime runtime_request
  | Cache cache_request

type_synonym event = "request \<times> bool"
type_synonym history = "event list"

record state =
  trace :: history
  inst :: azure_ad_application

type_synonym 'a prog = "(state, 'a) io"

text \<open>An HTTP response: the status code and the result of reading the body.\<close>

record http_response =
  http_status :: int
  http_body :: "err + string"

subsection \<open>The environment\<close>

text \<open>Configuration and pure functions of libraries.\<close>

record library =
  e_config :: config
  e_openid :: openid_config
  e_codec :: codec
  e_urn :: resource_namer
  e_hash :: "azure_ad_application \<Rightarrow> string outcome"
  e_reason :: "event_reason \<Rightarrow> string"
  e_correlation_key :: string
  e_is_url :: "string \<Rightarrow> bool"
  e_rfc3339 :: "time \<Rightarrow> string"
  e_next_year :: "time \<Rightarrow> time"
  e_order :: map_order
  e_sha1 :: "string \<Rightarrow> string"
  e_sha256 :: "string \<Rightarrow> string"
  e_base64 :: "string \<Rightarrow> string"
  e_set_owner :: "azure_ad_application \<Rightarrow> secret \<Rightarrow> err + secret"
  e_new_request :: "object_id \<Rightarrow> err + unit"
  e_dec_group :: "string \<Rightarrow> err + graph_group option"
  e_dec_error :: "string \<Rightarrow> bool"
  e_dump :: "string list \<Rightarrow> string"

text \<open>The replies, by the type of the reply.\<close>

record env = library +
  e_unit :: "history \<Rightarrow> request \<Rightarrow> err + unit"
  e_applications :: "history \<Rightarrow> request \<Rightarrow> err + graph_application list"
  e_application :: "history \<Rightarrow> request \<Rightarrow> err + graph_application"
  e_service_principals :: "history \<Rightarrow> request \<Rightarrow> err + service_principal list"
  e_service_principal :: "history \<Rightarrow> request \<Rightarrow> err + service_principal"
  e_password :: "history \<Rightarrow> request \<Rightarrow> err + password_credential"
  e_assignments :: "history \<Rightarrow> request \<Rightarrow> err + app_role_assignment list"
  e_ids :: "history \<Rightarrow> request \<Rightarrow> err + string option list"
  e_response :: "history \<Rightarrow> request \<Rightarrow> err + http_response"
  e_resource :: "history \<Rightarrow> request \<Rightarrow> err + azure_ad_application"
  e_resources :: "history \<Rightarrow> request \<Rightarrow> err + azure_ad_application list"
  e_secret_lists :: "history \<Rightarrow> request \<Rightarrow> err + secret_lists"
  e_secret :: "history \<Rightarrow> request \<Rightarrow> err + secret"
  e_time :: "history \<Rightarrow> time"
  e_uuids :: "history \<Rightarrow> nat \<Rightarrow> string"
  e_string :: "history \<Rightarrow> request \<Rightarrow> err + string"
  e_again :: "history \<Rightarrow> request \<Rightarrow> err + bool"
  e_cached_bool :: "history \<Rightarrow> request \<Rightarrow> bool option"
  e_cached_string :: "history \<Rightarrow> request \<Rightarrow> string option"
  e_cached_group :: "history \<Rightarrow> request \<Rightarrow> graph_group option"
  e_cached_resolved :: "history \<Rightarrow> request \<Rightarrow> (client_id \<times> bool) option"

text \<open>One request: the reply is looked up in the history and the request is recorded.\<close>

definition call :: "request \<Rightarrow> (history \<Rightarrow> request \<Rightarrow> err + 'a) \<Rightarrow> 'a prog" where
  "call req reply =
     (\<lambda>s. case reply (trace s) req of
        Inl e \<Rightarrow> (Err e, s\<lparr>trace := (req, False) # trace s\<rparr>)
      | Inr x \<Rightarrow> (Ok x, s\<lparr>trace := (req, True) # trace s\<rparr>))"

text \<open>A request that cannot fail.\<close>

definition ask :: "request \<Rightarrow> (history \<Rightarrow> request \<Rightarrow> 'a) \<Rightarrow> 'a prog" where
  "ask req reply = (\<lambda>s. (Ok (reply (trace s) req), s\<lparr>trace := (req, True) # trace s\<rparr>))"

definition notify :: "request \<Rightarrow> unit prog" where
  "notify req = ask req (\<lambda>_ _. ())"

definition now :: "env \<Rightarrow> time prog" where
  "now env = ask (Runtime Now) (\<lambda>h _. e_time env h)"

definition draw_uuids :: "env \<Rightarrow> (nat \<Rightarrow> string) prog" where
  "draw_uuids env = ask (Runtime DrawUuids) (\<lambda>h _. e_uuids env h)"

definition instance_of :: "azure_ad_application prog" where
  "instance_of = gets inst"

definition set_status :: "(app_status \<Rightarrow> app_status) \<Rightarrow> unit prog" where
  "set_status f = modify (\<lambda>s. s\<lparr>inst := (inst s)\<lparr>app_status := f (app_status (inst s))\<rparr>\<rparr>)"

text \<open>\<open>tx.Instance.GetObjectId()\<close> and the like.\<close>

definition object_id_of :: "object_id prog" where
  "object_id_of = gets (\<lambda>s. status_object_id (app_status (inst s)))"

definition client_id_of :: "client_id prog" where
  "client_id_of = gets (\<lambda>s. status_client_id (app_status (inst s)))"

definition sp_id_of :: "sp_id prog" where
  "sp_id_of = gets (\<lambda>s. status_sp_id (app_status (inst s)))"

abbreviation azure_cfg :: "env \<Rightarrow> azure_config" where
  "azure_cfg env \<equiv> cfg_azure (e_config env)"

abbreviation features :: "env \<Rightarrow> azure_features" where
  "features env \<equiv> az_features (azure_cfg env)"

abbreviation max_pages :: "env \<Rightarrow> int" where
  "max_pages env \<equiv> az_max_pages (azure_cfg env)"

abbreviation second :: duration where
  "second \<equiv> 1000000000"

abbreviation minute :: duration where
  "minute \<equiv> 60 * second"

subsection \<open>Retries (pkg/retry)\<close>

definition fibonacci :: "duration \<Rightarrow> duration" where
  "fibonacci base = (if base \<le> 0 then 1 * second else base)"

text \<open>
  \<open>Fibonacci(base).WithMaxDuration(timeout).Do(ctx, m)\<close>. The delays grow from the base delay, so
  there are at most \<open>timeout div base\<close> of them (the timeouts used are multiples of the base).
\<close>

definition retry_do :: "env \<Rightarrow> duration \<Rightarrow> duration \<Rightarrow> 'a prog \<Rightarrow> 'a prog" where
  "retry_do env base timeout m =
     retry_loop (call (Runtime (RetryWait (fibonacci base) timeout)) (e_again env))
       (nat (timeout div fibonacci base)) m"

subsection \<open>Requests a program sends\<close>

text \<open>
  \<open>emits Q\<close> relates a state to one whose history is longer by requests that satisfy \<open>Q\<close>.
  It is a step relation: the rules of the locale hold for it.
\<close>

definition emits_rel :: "(event \<Rightarrow> bool) \<Rightarrow> state \<Rightarrow> state \<Rightarrow> bool" where
  "emits_rel Q s s' \<longleftrightarrow> (\<exists>new. trace s' = new @ trace s \<and> (\<forall>e \<in> set new. Q e))"

abbreviation emits :: "(event \<Rightarrow> bool) \<Rightarrow> 'a prog \<Rightarrow> bool" where
  "emits Q m \<equiv> moves (emits_rel Q) m"

interpretation emits: step_relation "emits_rel Q" for Q
proof
  show "emits_rel Q s s" for s by (simp add: emits_rel_def)
  show "emits_rel Q s s' \<Longrightarrow> emits_rel Q s' s'' \<Longrightarrow> emits_rel Q s s''" for s s' s''
    by (auto simp: emits_rel_def)
qed

text \<open>The programs that change nothing of the instance but its status.\<close>

definition frame_rel :: "state \<Rightarrow> state \<Rightarrow> bool" where
  "frame_rel s s' \<longleftrightarrow>
     app_name (inst s') = app_name (inst s) \<and> app_namespace (inst s') = app_namespace (inst s) \<and>
     app_spec (inst s') = app_spec (inst s) \<and> app_labels (inst s') = app_labels (inst s) \<and>
     app_annotations (inst s') = app_annotations (inst s) \<and>
     app_finalizers (inst s') = app_finalizers (inst s) \<and>
     app_deletion_timestamp (inst s') = app_deletion_timestamp (inst s)"

interpretation frame: step_relation frame_rel
  by unfold_locales (auto simp: frame_rel_def)

text \<open>The programs that leave the instance alone.\<close>

definition same_inst :: "state \<Rightarrow> state \<Rightarrow> bool" where
  "same_inst s s' \<longleftrightarrow> inst s' = inst s"

interpretation same_inst: step_relation same_inst
  by unfold_locales (auto simp: same_inst_def)

lemma emits_call: "(\<And>ok. Q (req, ok)) \<Longrightarrow> emits Q (call req reply)"
  by (rule movesI) (auto simp: call_def emits_rel_def split: sum.splits)

lemma emits_ask: "Q (req, True) \<Longrightarrow> emits Q (ask req reply)"
  by (rule movesI) (auto simp: ask_def emits_rel_def)

lemma emits_notify: "Q (req, True) \<Longrightarrow> emits Q (notify req)"
  by (simp add: notify_def emits_ask)

lemma emits_now: "Q (Runtime Now, True) \<Longrightarrow> emits Q (now env)"
  by (simp add: now_def emits_ask)

lemma emits_draw_uuids: "Q (Runtime DrawUuids, True) \<Longrightarrow> emits Q (draw_uuids env)"
  by (simp add: draw_uuids_def emits_ask)

lemma emits_instance_of: "emits Q instance_of"
  by (simp add: instance_of_def emits.gets)

lemma emits_set_status: "emits Q (set_status f)"
  by (rule movesI) (auto simp: set_status_def emits_rel_def)

lemma emits_ids: "emits Q object_id_of" "emits Q client_id_of" "emits Q sp_id_of"
  by (simp_all add: object_id_of_def client_id_of_def sp_id_of_def emits.gets)

lemma emits_retry_do:
  "(\<And>b ok. Q (Runtime (RetryWait b timeout), ok)) \<Longrightarrow> emits Q m \<Longrightarrow> emits Q (retry_do env base timeout m)"
  unfolding retry_do_def by (intro emits.retry_loop emits_call) simp

lemmas emits_intros =
  emits_retry_do emits.rules emits_call emits_ask emits_notify emits_now emits_draw_uuids emits_instance_of
  emits_set_status emits_ids

lemma emits_mono: "emits Q m \<Longrightarrow> (\<And>e. Q e \<Longrightarrow> Q' e) \<Longrightarrow> emits Q' m"
  unfolding moves_def emits_rel_def by meson

lemma emits_lifted: "(\<And>x. r = Ok x \<Longrightarrow> emits Q (f x)) \<Longrightarrow> emits Q (bnd (lift r) f)"
  unfolding moves_def by (cases r) (auto simp: bnd_def lift_def emits_rel_def)

lemma emits_new:
  "emits Q m \<Longrightarrow> m s = (r, s') \<Longrightarrow> e \<in> set (trace s') \<Longrightarrow> e \<in> set (trace s) \<or> Q e"
  using movesD [of "emits_rel Q" m s r s'] by (auto simp: emits_rel_def)

lemma same_inst_call: "moves same_inst (call req reply)"
  by (rule movesI) (auto simp: call_def same_inst_def split: sum.splits)

lemma same_inst_ask: "moves same_inst (ask req reply)"
  by (rule movesI) (auto simp: ask_def same_inst_def)

lemma same_inst_basic:
  "moves same_inst (notify req)" "moves same_inst (now env)" "moves same_inst (draw_uuids env)"
  "moves same_inst instance_of" "moves same_inst object_id_of" "moves same_inst client_id_of"
  "moves same_inst sp_id_of"
  by (simp_all add: notify_def now_def draw_uuids_def instance_of_def object_id_of_def
      client_id_of_def sp_id_of_def same_inst_ask same_inst.gets)

lemma same_inst_retry_do: "moves same_inst m \<Longrightarrow> moves same_inst (retry_do env base timeout m)"
  unfolding retry_do_def by (intro same_inst.retry_loop same_inst_call)

lemmas same_inst_intros = same_inst_retry_do same_inst.rules same_inst_call same_inst_ask same_inst_basic

lemma frame_of_same_inst: "moves same_inst m \<Longrightarrow> moves frame_rel m"
  by (auto simp: moves_def same_inst_def frame_rel_def)

lemma frame_set_status: "moves frame_rel (set_status f)"
  by (rule movesI) (auto simp: set_status_def frame_rel_def)

subsection \<open>Running single steps\<close>

lemma call_Ok_iff:
  "call req reply s = (Ok x, s') \<longleftrightarrow>
     reply (trace s) req = Inr x \<and> s' = s\<lparr>trace := (req, True) # trace s\<rparr>"
  by (auto simp: call_def split: sum.split)

lemma call_Err_iff:
  "call req reply s = (Err e, s') \<longleftrightarrow>
     reply (trace s) req = Inl e \<and> s' = s\<lparr>trace := (req, False) # trace s\<rparr>"
  by (auto simp: call_def split: sum.split)

lemma call_not_Panic [simp]: "call req reply s \<noteq> (Panic, s')"
  by (auto simp: call_def split: sum.split)

lemma ask_iff: "ask req reply s = (r, s') \<longleftrightarrow>
     r = Ok (reply (trace s) req) \<and> s' = s\<lparr>trace := (req, True) # trace s\<rparr>"
  by (auto simp: ask_def)

lemma notify_iff: "notify req s = (r, s') \<longleftrightarrow> r = Ok () \<and> s' = s\<lparr>trace := (req, True) # trace s\<rparr>"
  by (auto simp: notify_def ask_def)

lemma now_iff: "now env s = (r, s') \<longleftrightarrow>
     r = Ok (e_time env (trace s)) \<and> s' = s\<lparr>trace := (Runtime Now, True) # trace s\<rparr>"
  by (auto simp: now_def ask_def)

lemma set_status_iff: "set_status f s = (r, s') \<longleftrightarrow>
     r = Ok () \<and> s' = s\<lparr>inst := (inst s)\<lparr>app_status := f (app_status (inst s))\<rparr>\<rparr>"
  by (auto simp: set_status_def)

lemma ids_iff:
  "instance_of s = (r1, s') \<longleftrightarrow> r1 = Ok (inst s) \<and> s' = s"
  "object_id_of s = (r, s') \<longleftrightarrow> r = Ok (status_object_id (app_status (inst s))) \<and> s' = s"
  "client_id_of s = (r, s') \<longleftrightarrow> r = Ok (status_client_id (app_status (inst s))) \<and> s' = s"
  "sp_id_of s = (r, s') \<longleftrightarrow> r = Ok (status_sp_id (app_status (inst s))) \<and> s' = s"
  by (auto simp: instance_of_def object_id_of_def client_id_of_def sp_id_of_def)

lemmas run_simps = call_Ok_iff ask_iff notify_iff now_iff set_status_iff ids_iff

subsection \<open>Loops whose successful iterations send known requests\<close>

lemma for_each_appends:
  assumes "\<And>x s s'. x \<in> set xs \<Longrightarrow> f x s = (Ok (), s') \<Longrightarrow> trace s' = ev x @ trace s"
    and "for_each f xs s = (Ok (), s')"
  shows "trace s' = concat (map ev (rev xs)) @ trace s"
  using assms
proof (induction xs arbitrary: s)
  case (Cons x xs)
  obtain s1 where s1: "f x s = (Ok (), s1)" "for_each f xs s1 = (Ok (), s')"
    using Cons.prems(2) by (auto simp: bnd_Ok_iff)
  have "trace s' = concat (map ev (rev xs)) @ trace s1"
    by (rule Cons.IH) (use Cons.prems(1) s1(2) in auto)
  then show ?case using Cons.prems(1) [of x s s1] s1(1) by simp
qed simp

lemma call_trace: "call req reply s = (Ok x, s') \<Longrightarrow> trace s' = [(req, True)] @ trace s"
  by (simp add: call_Ok_iff)

subsection \<open>Evaluation\<close>

lemmas world_runs [runs] =
  retry_do_def [THEN fun_cong]
  call_def [THEN fun_cong] ask_def [THEN fun_cong] notify_def [THEN fun_cong]
  now_def [THEN fun_cong] draw_uuids_def [THEN fun_cong] instance_of_def [THEN fun_cong]
  set_status_def [THEN fun_cong] object_id_of_def [THEN fun_cong] client_id_of_def [THEN fun_cong]
  sp_id_of_def [THEN fun_cong]

end
