(* ===== verification/Scenario.thy ===== *)
theory Scenario
  imports World Samples
begin

text \<open>
  A concrete world for the witnesses: an environment in which every list is empty, every write
  succeeds and every library function is a simple total one, a transaction and a start state. Witnesses override the replies they need. Nothing here models the program.
\<close>

definition quiet_library :: library where
  "quiet_library =
     \<lparr>e_config = quiet_config,
      e_openid = sample_openid,
      e_codec = quiet_codec,
      e_urn = (\<lambda>name namespace cluster. cluster @ '':'' @ namespace @ '':'' @ name),
      e_hash = (\<lambda>i. Ok ''hash''), e_reason = (\<lambda>_. ''reason''),
      e_correlation_key = ''nais.io/deploymentCorrelationID'', e_is_url = (\<lambda>_. True),
      e_rfc3339 = (\<lambda>_. ''2024-01-01T00:00:00Z''), e_next_year = (\<lambda>t. t + 365), e_order = (\<lambda>ks. ks),
      e_sha1 = (\<lambda>x. x), e_sha256 = (\<lambda>x. x), e_base64 = (\<lambda>x. x),
      e_set_owner = (\<lambda>i s. Inr (s\<lparr>sec_owner := Some (''AzureAdApplication'', app_name i)\<rparr>)),
      e_new_request = (\<lambda>_. Inr ()), e_dec_group = (\<lambda>_. Inr None), e_dec_error = (\<lambda>_. True),
      e_dump = concat\<rparr>"

definition not_found :: err where
  "not_found = Cause NotFound"

definition quiet_env :: env where
  "quiet_env =
     library.extend quiet_library
     \<lparr>e_unit = (\<lambda>_ _. Inr ()), e_applications = (\<lambda>_ _. Inr []),
      e_application = (\<lambda>_ _. Inr plain_registered),
      e_service_principals = (\<lambda>_ _. Inr [plain_principal]),
      e_service_principal = (\<lambda>_ _. Inr plain_principal),
      e_password = (\<lambda>h _. Inr \<lparr>pc_key_id = Some ''pw'', pc_display_name = Some ''azurerator'',
        pc_start = Some 0, pc_end = Some 365, pc_secret = Some ''hunter2''\<rparr>),
      e_assignments = (\<lambda>_ _. Inr []), e_ids = (\<lambda>_ _. Inr []),
      e_response = (\<lambda>_ _. Inr \<lparr>http_status = 404, http_body = Inr []\<rparr>),
      e_resource = (\<lambda>_ _. Inr plain_app), e_resources = (\<lambda>_ _. Inr []),
      e_secret_lists = (\<lambda>_ _. Inr \<lparr>sl_used = [], sl_unused = []\<rparr>),
      e_secret = (\<lambda>_ _. Inl not_found), e_time = (\<lambda>_. 100), e_uuids = (\<lambda>_ _. ''uuid''),
      e_string = (\<lambda>_ _. Inr ''key''), e_again = (\<lambda>_ _. Inr True),
      e_cached_bool = (\<lambda>_ _. None), e_cached_string = (\<lambda>_ _. None),
      e_cached_group = (\<lambda>_ _. None), e_cached_resolved = (\<lambda>_ _. None)\<rparr>"

definition plain_tx :: transaction where
  "plain_tx =
     \<lparr>tx_cluster_name = ''dev'', tx_exists_in_azure = True,
      tx_options =
        \<lparr>opt_tenant_ignore = False,
         opt_process =
           \<lparr>opt_synchronize = True,
            opt_azure = \<lparr>opt_azure_synchronize = True, opt_cleanup_orphans = False\<rparr>,
            opt_secret = \<lparr>opt_secret_rotate = False, opt_secret_valid = False, opt_secret_cleanup = True\<rparr>\<rparr>\<rparr>,
      tx_secrets =
        \<lparr>txs_data_keys = new_secret_data_keys [[]],
         txs_key_ids = \<lparr>kids_used = \<lparr>kid_certificate = [], kid_password = []\<rparr>,
                        kids_unused = \<lparr>kid_certificate = [], kid_password = []\<rparr>\<rparr>,
         txs_latest = \<lparr>latest_set = None, latest_valid = False\<rparr>,
         txs_managed = \<lparr>sl_used = [], sl_unused = []\<rparr>\<rparr>,
      tx_id = ''corr'', tx_urn = ''dev:ns:app''\<rparr>"

lemma plain_tx_simps [simp]:
  "tx_cluster_name plain_tx = ''dev''"
  "tx_exists_in_azure plain_tx = True"
  "tx_options plain_tx = \<lparr>opt_tenant_ignore = False, opt_process = \<lparr>opt_synchronize = True, opt_azure = \<lparr>opt_azure_synchronize = True, opt_cleanup_orphans = False\<rparr>, opt_secret = \<lparr>opt_secret_rotate = False, opt_secret_valid = False, opt_secret_cleanup = True\<rparr>\<rparr>\<rparr>"
  "tx_secrets plain_tx = \<lparr>txs_data_keys = new_secret_data_keys [[]], txs_key_ids = \<lparr>kids_used = \<lparr>kid_certificate = [], kid_password = []\<rparr>, kids_unused = \<lparr>kid_certificate = [], kid_password = []\<rparr>\<rparr>, txs_latest = \<lparr>latest_set = None, latest_valid = False\<rparr>, txs_managed = \<lparr>sl_used = [], sl_unused = []\<rparr>\<rparr>"
  "tx_id plain_tx = ''corr''"
  "tx_urn plain_tx = ''dev:ns:app''"
  by (simp_all add: plain_tx_def)

definition start_state :: state where
  "start_state = \<lparr>trace = [], inst = plain_app\<rparr>"

lemma start_state_simps [simp]:
  "trace start_state = []"
  "inst start_state = plain_app"
  by (simp_all add: start_state_def)

lemmas quiet_defs =
  quiet_env_def quiet_library_def library.defs quiet_config_def quiet_codec_def sample_openid_def

lemma quiet_env_simps [simp]:
  "e_config quiet_env = quiet_config"
  "e_openid quiet_env = sample_openid"
  "e_codec quiet_env = quiet_codec"
  "e_urn quiet_env = (\<lambda>name namespace cluster. cluster @ '':'' @ namespace @ '':'' @ name)"
  "e_hash quiet_env = (\<lambda>i. Ok ''hash'')"
  "e_reason quiet_env = (\<lambda>_. ''reason'')"
  "e_correlation_key quiet_env = ''nais.io/deploymentCorrelationID''"
  "e_is_url quiet_env = (\<lambda>_. True)"
  "e_rfc3339 quiet_env = (\<lambda>_. ''2024-01-01T00:00:00Z'')"
  "e_next_year quiet_env = (\<lambda>t. t + 365)"
  "e_order quiet_env = (\<lambda>ks. ks)"
  "e_sha1 quiet_env = (\<lambda>x. x)"
  "e_sha256 quiet_env = (\<lambda>x. x)"
  "e_base64 quiet_env = (\<lambda>x. x)"
  "e_set_owner quiet_env = (\<lambda>i s. Inr (s\<lparr>sec_owner := Some (''AzureAdApplication'', app_name i)\<rparr>))"
  "e_new_request quiet_env = (\<lambda>_. Inr ())"
  "e_dec_group quiet_env = (\<lambda>_. Inr None)"
  "e_dec_error quiet_env = (\<lambda>_. True)"
  "e_dump quiet_env = concat"
  "e_unit quiet_env = (\<lambda>_ _. Inr ())"
  "e_applications quiet_env = (\<lambda>_ _. Inr [])"
  "e_application quiet_env = (\<lambda>_ _. Inr plain_registered)"
  "e_service_principals quiet_env = (\<lambda>_ _. Inr [plain_principal])"
  "e_service_principal quiet_env = (\<lambda>_ _. Inr plain_principal)"
  "e_password quiet_env = (\<lambda>h _. Inr \<lparr>pc_key_id = Some ''pw'', pc_display_name = Some ''azurerator'', pc_start = Some 0, pc_end = Some 365, pc_secret = Some ''hunter2''\<rparr>)"
  "e_assignments quiet_env = (\<lambda>_ _. Inr [])"
  "e_ids quiet_env = (\<lambda>_ _. Inr [])"
  "e_response quiet_env = (\<lambda>_ _. Inr \<lparr>http_status = 404, http_body = Inr []\<rparr>)"
  "e_resource quiet_env = (\<lambda>_ _. Inr plain_app)"
  "e_resources quiet_env = (\<lambda>_ _. Inr [])"
  "e_secret_lists quiet_env = (\<lambda>_ _. Inr \<lparr>sl_used = [], sl_unused = []\<rparr>)"
  "e_secret quiet_env = (\<lambda>_ _. Inl not_found)"
  "e_time quiet_env = (\<lambda>_. 100)"
  "e_uuids quiet_env = (\<lambda>_ _. ''uuid'')"
  "e_string quiet_env = (\<lambda>_ _. Inr ''key'')"
  "e_again quiet_env = (\<lambda>_ _. Inr True)"
  "e_cached_bool quiet_env = (\<lambda>_ _. None)"
  "e_cached_string quiet_env = (\<lambda>_ _. None)"
  "e_cached_group quiet_env = (\<lambda>_ _. None)"
  "e_cached_resolved quiet_env = (\<lambda>_ _. None)"
  by (simp_all add: quiet_env_def quiet_library_def library.defs)

lemma iteration_order_quiet [simp]: "iteration_order (e_order quiet_env)"
  by (simp add: iteration_order_id)

end
