(* ===== verification/AppClient.thy ===== *)
theory AppClient
  imports AppRoles PermissionScopes Scenario
begin

text \<open>
  The client of the Graph \<open>applications\<close> resource: pkg/azure/client/application/application.go
  with the operations of identifieruri.go and redirecturi.go that send requests, and the owners
  of applications and service principals (application/owners/owners.go,
  serviceprincipal/owners.go, directoryobject/owner.go).

  The contexts that error messages print (names, identifiers) are left out of the wrapping text.
\<close>

subsection \<open>application.go\<close>

definition IntegratedAppTag :: string where
  "IntegratedAppTag = ''WindowsAzureActiveDirectoryIntegratedApp''"

definition IaCAppTag :: string where
  "IaCAppTag = ''azurerator_appreg''"

definition LegacyIaCAppTag :: string where
  "LegacyIaCAppTag = ''iac_appreg''"

text \<open>The cached answer wins; otherwise the tags decide and the answer is cached.\<close>

definition is_managed :: "env \<Rightarrow> graph_application \<Rightarrow> bool prog" where
  "is_managed env app =
     bnd (lift (deref (ga_app_id app))) (\<lambda>i.
     bnd (ask (Cache (GetManaged i)) (e_cached_bool env)) (\<lambda>cached.
     case cached of
       Some v \<Rightarrow> ret v
     | None \<Rightarrow>
         if list_ex (\<lambda>t. t = IaCAppTag \<or> t = LegacyIaCAppTag) (ga_tags app)
         then bnd (notify (Cache (SetManaged i True None))) (\<lambda>_. ret True)
         else bnd (notify (Cache (SetManaged i False (Some (15 * minute))))) (\<lambda>_. ret False)))"

definition map_filters_to_filter :: "string list \<Rightarrow> string" where
  "map_filters_to_filter filters = (if length filters > 0 then str_join CHR '' '' filters else [])"

lemma map_filters_single [simp]: "map_filters_to_filter [f] = f"
  by (simp add: map_filters_to_filter_def)

definition get_all :: "env \<Rightarrow> string list \<Rightarrow> graph_application list prog" where
  "get_all env filters =
     bnd (wrap ''failed to get list applications''
            (call (Graph (ListApplications (map_filters_to_filter filters) (max_pages env)))
              (e_applications env)))
     (\<lambda>apps. bnd (for_each (\<lambda>app. bnd (is_managed env app) (\<lambda>_. ret ())) apps)
     (\<lambda>_. ret apps))"

text \<open>\<open>None\<close> is the result \<open>nil, false, nil\<close>.\<close>

definition exists_by_filter :: "env \<Rightarrow> string \<Rightarrow> graph_application option prog" where
  "exists_by_filter env f =
     bnd (get_all env [f]) (\<lambda>apps.
       case apps of
         [] \<Rightarrow> ret None
       | [app] \<Rightarrow> ret (Some app)
       | _ \<Rightarrow> fail (Cause (Opaque ''found more than one matching azure application'')))"

definition get_single_by_filter_or_error :: "env \<Rightarrow> string \<Rightarrow> graph_application prog" where
  "get_single_by_filter_or_error env f =
     bnd (get_all env [f]) (\<lambda>apps.
       case apps of
         [] \<Rightarrow> fail (Cause (Opaque ''no matching azure applications found''))
       | [app] \<Rightarrow> ret app
       | _ \<Rightarrow> fail (Cause (Opaque ''found more than one matching azure application'')))"

definition application_get_by_name :: "env \<Rightarrow> string \<Rightarrow> graph_application prog" where
  "application_get_by_name env name =
     wrap ''fetching application with name'' (get_single_by_filter_or_error env (filter_by_name name))"

definition application_get_by_client_id :: "env \<Rightarrow> client_id \<Rightarrow> graph_application prog" where
  "application_get_by_client_id env i =
     wrap ''fetching application with clientId'' (get_single_by_filter_or_error env (filter_by_app_id i))"

definition application_get :: "env \<Rightarrow> transaction \<Rightarrow> graph_application prog" where
  "application_get env tx = application_get_by_name env (tx_urn tx)"

definition application_exists :: "env \<Rightarrow> transaction \<Rightarrow> graph_application option prog" where
  "application_exists env tx = exists_by_filter env (filter_by_name (tx_urn tx))"

definition application_delete :: "env \<Rightarrow> transaction \<Rightarrow> unit prog" where
  "application_delete env tx =
     bnd object_id_of (\<lambda>oid.
       wrap ''failed to delete application'' (call (Graph (DeleteApplication oid)) (e_unit env)))"

definition application_patch :: "env \<Rightarrow> object_id \<Rightarrow> app_patch \<Rightarrow> unit prog" where
  "application_patch env oid p =
     wrap ''failed to update web application'' (call (Graph (PatchApplication oid p)) (e_unit env))"

definition default_template :: "transaction \<Rightarrow> azure_ad_application \<Rightarrow> graph_application" where
  "default_template tx i =
     zero_application
       \<lparr>ga_display_name := Some (tx_urn tx),
        ga_sign_in_audience := Some ''AzureADMyOrg'',
        ga_tags := [IaCAppTag, IntegratedAppTag],
        ga_api := Some (zero_api\<lparr>api_token_version := Some 2\<rparr>),
        ga_web := Some (zero_web
          \<lparr>web_logout_url := Some (spec_logout_url (app_spec i)),
           web_id_token_issuance := Some False,
           web_access_token_issuance := Some False\<rparr>)\<rparr>"

definition application_register :: "env \<Rightarrow> transaction \<Rightarrow> graph_application prog" where
  "application_register env tx =
     bnd instance_of (\<lambda>i.
     bnd (draw_uuids env) (\<lambda>fresh.
     let desired = generate_desired fresh i;
         roles = approles_describe_create (e_order env) desired;
         scopes = scopes_describe_create (e_order env) desired;
         redirect_uris = reply_urls_to_string_slice (e_is_url env) i in
     bnd (lift (approle_log (e_order env) roles)) (\<lambda>_.
     bnd (lift (scope_log (e_order env) scopes)) (\<lambda>_.
     bnd (lift (group_claim_from_spec_or_default i (feat_group_claim_default (features env)))) (\<lambda>claim.
     let req =
       with_resource_access [microsoft_graph_access]
         (with_redirect_uris redirect_uris i
           (with_permission_scopes (scope_get_result (e_order env) scopes)
             (with_optional_claims optional_claims_create
               (with_group_membership_claims claim
                 (with_app_roles (approle_get_result (e_order env) roles)
                   (default_template tx i)))))) in
     wrap ''registering application'' (call (Graph (AddApplication req)) (e_application env)))))))"

text \<open>
  The group membership claim is set when the application has none; otherwise only a claim in the
  spec overrides it.
\<close>

definition update_group_claim ::
  "env \<Rightarrow> azure_ad_application \<Rightarrow> graph_application \<Rightarrow> graph_application \<Rightarrow> graph_application outcome" where
  "update_group_claim env i actual app =
     (if ga_group_membership_claims actual = None
      then out_bind (group_claim_from_spec_or_default i (feat_group_claim_default (features env)))
             (\<lambda>c. Ok (with_group_membership_claims c app))
      else out_bind (group_claim_from_spec i)
             (\<lambda>c. Ok (if c \<noteq> [] then with_group_membership_claims c app else app)))"

definition application_update :: "env \<Rightarrow> transaction \<Rightarrow> graph_application prog" where
  "application_update env tx =
     bnd instance_of (\<lambda>i.
     bnd (application_get_by_client_id env (status_client_id (app_status i))) (\<lambda>actual.
     bnd (draw_uuids env) (\<lambda>fresh.
     bnd (lift (generate_desired_preserve_existing fresh i actual)) (\<lambda>desired.
     bnd (lift (approles_describe_update (e_order env) desired (ga_app_roles actual))) (\<lambda>roles.
     bnd (lift (approle_log (e_order env) roles)) (\<lambda>_.
     bnd (lift (deref (ga_api actual))) (\<lambda>api.
     bnd (lift (scopes_describe_update (e_order env) desired (api_scopes api))) (\<lambda>scopes.
     bnd (lift (scope_log (e_order env) scopes)) (\<lambda>_.
     let uris = identifier_uris_update i (ga_identifier_uris actual) (tx_cluster_name tx);
         base =
           with_permission_scopes (scope_get_result (e_order env) scopes)
             (with_optional_claims (optional_claims_update actual)
               (with_identifier_uris uris
                 (with_app_roles (approle_get_result (e_order env) roles)
                   (default_template tx i)))) in
     bnd (lift (update_group_claim env i actual base)) (\<lambda>app.
     bnd (application_patch env (status_object_id (app_status i)) (PatchFields app)) (\<lambda>_.
     ret app)))))))))))"

definition remove_disabled_permissions :: "env \<Rightarrow> transaction \<Rightarrow> graph_application \<Rightarrow> unit prog" where
  "remove_disabled_permissions env tx app =
     bnd object_id_of (\<lambda>oid.
     bnd (lift (scope_remove_disabled app)) (\<lambda>scopes.
     bnd (lift (approle_remove_disabled app)) (\<lambda>roles.
     let patched = with_app_roles roles (with_permission_scopes scopes zero_application) in
     wrap ''removing disabled permissions'' (application_patch env oid (PatchFields patched)))))"

definition enable_accept_mapped_claims :: "env \<Rightarrow> transaction \<Rightarrow> graph_application \<Rightarrow> unit prog" where
  "enable_accept_mapped_claims env tx app =
     (case ga_api app of
        Some api \<Rightarrow>
          if api_accept_mapped_claims api = Some True then ret ()
          else bnd object_id_of (\<lambda>oid. application_patch env oid (PatchAcceptMappedClaims True))
      | None \<Rightarrow> bnd object_id_of (\<lambda>oid. application_patch env oid (PatchAcceptMappedClaims True)))"

subsection \<open>identifieruri.go and redirecturi.go\<close>

definition identifier_uri_set :: "env \<Rightarrow> transaction \<Rightarrow> string list \<Rightarrow> unit prog" where
  "identifier_uri_set env tx uris =
     bnd object_id_of (\<lambda>oid.
       wrap ''failed to add application identifier URI''
         (application_patch env oid (PatchFields (with_identifier_uris uris zero_application))))"

definition redirect_uri_update :: "env \<Rightarrow> transaction \<Rightarrow> unit prog" where
  "redirect_uri_update env tx =
     bnd instance_of (\<lambda>i.
       application_patch env (status_object_id (app_status i))
         (PatchRedirectUris (redirect_app (e_is_url env) i)))"

subsection \<open>Owners\<close>

definition to_owner_payload :: "sp_id \<Rightarrow> string" where
  "to_owner_payload i = ''https://graph.microsoft.com/v1.0/directoryObjects/'' @ i"

definition contains_owner :: "string option list \<Rightarrow> sp_id \<Rightarrow> bool" where
  "contains_owner owners i = list_ex (\<lambda>obj. obj \<noteq> None \<and> obj = Some i) owners"

definition application_owners_get :: "env \<Rightarrow> transaction \<Rightarrow> string option list prog" where
  "application_owners_get env tx =
     bnd object_id_of (\<lambda>oid.
       wrap ''listing owners for application''
         (call (Graph (ListApplicationOwners oid (max_pages env))) (e_ids env)))"

definition application_owners_add :: "env \<Rightarrow> transaction \<Rightarrow> sp_id \<Rightarrow> unit prog" where
  "application_owners_add env tx owner =
     bnd object_id_of (\<lambda>oid.
       wrap ''adding owner to application''
         (call (Graph (AddApplicationOwner oid (to_owner_payload owner))) (e_unit env)))"

definition application_owners_process :: "env \<Rightarrow> transaction \<Rightarrow> sp_id \<Rightarrow> unit prog" where
  "application_owners_process env tx owner =
     bnd (application_owners_get env tx) (\<lambda>existing.
       if contains_owner existing owner then ret () else application_owners_add env tx owner)"

definition sp_owners_get :: "env \<Rightarrow> transaction \<Rightarrow> string option list prog" where
  "sp_owners_get env tx =
     bnd sp_id_of (\<lambda>i.
       wrap ''listing owners for service principal''
         (call (Graph (ListServicePrincipalOwners i (max_pages env))) (e_ids env)))"

definition sp_owners_add :: "env \<Rightarrow> transaction \<Rightarrow> sp_id \<Rightarrow> unit prog" where
  "sp_owners_add env tx owner =
     bnd sp_id_of (\<lambda>i.
       wrap ''adding owner to service principal''
         (call (Graph (AddServicePrincipalOwner i (to_owner_payload owner))) (e_unit env)))"

definition sp_owners_process :: "env \<Rightarrow> transaction \<Rightarrow> sp_id \<Rightarrow> unit prog" where
  "sp_owners_process env tx owner =
     bnd (sp_owners_get env tx) (\<lambda>existing.
       if contains_owner existing owner then ret () else sp_owners_add env tx owner)"

subsection \<open>The requests of the reading operations\<close>

text \<open>
  \<open>harmless\<close>: a request that changes nothing outside the process and leaves its mutex alone.
  Everything the reading operations send is harmless.
\<close>

fun harmless :: "request \<Rightarrow> bool" where
  "harmless (Graph g) =
     (case g of
        ListApplications _ _ \<Rightarrow> True | ListApplicationOwners _ _ \<Rightarrow> True
      | ListServicePrincipals _ _ \<Rightarrow> True | GetServicePrincipalById _ \<Rightarrow> True
      | ListServicePrincipalOwners _ _ \<Rightarrow> True | ListAssignments _ _ \<Rightarrow> True
      | ListPolicies _ \<Rightarrow> True | ListGrants _ _ \<Rightarrow> True | GetGroup _ \<Rightarrow> True
      | _ \<Rightarrow> False)"
| "harmless (Kube k) =
     (case k of
        GetResource _ _ \<Rightarrow> True | ListResources \<Rightarrow> True | ListSecrets _ _ _ \<Rightarrow> True
      | GetSecret _ _ \<Rightarrow> True | _ \<Rightarrow> False)"
| "harmless (Runtime r) =
     (case r of SpawnProduceEvent _ \<Rightarrow> False | LockAppsync \<Rightarrow> False | UnlockAppsync \<Rightarrow> False | _ \<Rightarrow> True)"
| "harmless (Cache c) = True"

abbreviation reads :: "event \<Rightarrow> bool" where
  "reads e \<equiv> harmless (fst e)"

lemma is_managed_reads [emits_rules]: "emits reads (is_managed env app)"
  unfolding is_managed_def by (intro emits_intros) (auto split: option.split intro!: emits_intros)

lemma get_all_reads [emits_rules]: "emits reads (get_all env fs)"
  unfolding get_all_def by (intro emits_intros emits_rules) simp_all

lemma exists_by_filter_reads [emits_rules]: "emits reads (exists_by_filter env f)"
  unfolding exists_by_filter_def
  by (intro emits_intros emits_rules) (auto split: list.split intro: emits_intros)

lemma get_single_reads [emits_rules]: "emits reads (get_single_by_filter_or_error env f)"
  unfolding get_single_by_filter_or_error_def
  by (intro emits_intros emits_rules) (auto split: list.split intro: emits_intros)

lemma application_get_reads [emits_rules]:
  "emits reads (application_get_by_name env name)" "emits reads (application_get env tx)"
  "emits reads (application_get_by_client_id env i)" "emits reads (application_exists env tx)"
  unfolding application_get_by_name_def application_get_def application_get_by_client_id_def
    application_exists_def by (intro emits_intros emits_rules)+

lemma owners_get_reads [emits_rules]:
  "emits reads (application_owners_get env tx)" "emits reads (sp_owners_get env tx)"
  unfolding application_owners_get_def sp_owners_get_def by (intro emits_intros; simp)+

lemma is_managed_same [emits_rules]: "moves same_inst (is_managed env app)"
  unfolding is_managed_def
  by (intro same_inst_intros) (auto split: option.split intro!: same_inst_intros)

lemma get_all_same [emits_rules]: "moves same_inst (get_all env fs)"
  unfolding get_all_def by (intro same_inst_intros emits_rules)

lemma exists_by_filter_same [emits_rules]: "moves same_inst (exists_by_filter env f)"
  unfolding exists_by_filter_def
  by (intro same_inst_intros emits_rules) (auto split: list.split intro: same_inst_intros)

lemma get_single_same [emits_rules]: "moves same_inst (get_single_by_filter_or_error env f)"
  unfolding get_single_by_filter_or_error_def
  by (intro same_inst_intros emits_rules) (auto split: list.split intro: same_inst_intros)

lemma application_get_same [emits_rules]:
  "moves same_inst (application_get_by_name env name)" "moves same_inst (application_get env tx)"
  "moves same_inst (application_get_by_client_id env i)" "moves same_inst (application_exists env tx)"
  unfolding application_get_by_name_def application_get_def application_get_by_client_id_def
    application_exists_def by (intro same_inst_intros emits_rules)+

lemma application_patch_emits:
  "(\<And>ok. Q (Graph (PatchApplication oid p), ok)) \<Longrightarrow> emits Q (application_patch env oid p)"
  unfolding application_patch_def by (intro emits_intros)

lemma application_patch_same [emits_rules]: "moves same_inst (application_patch env oid p)"
  unfolding application_patch_def by (intro same_inst_intros)

subsection \<open>Evaluation\<close>

lemmas appClient_runs [runs] =
  is_managed_def [THEN fun_cong] get_all_def [THEN fun_cong] exists_by_filter_def [THEN fun_cong]
    get_single_by_filter_or_error_def [THEN fun_cong] application_get_by_name_def [THEN fun_cong]
    application_get_by_client_id_def [THEN fun_cong] application_get_def [THEN fun_cong]
    application_exists_def [THEN fun_cong] application_delete_def [THEN fun_cong]
    application_patch_def [THEN fun_cong] application_register_def [THEN fun_cong]
    application_update_def [THEN fun_cong] remove_disabled_permissions_def [THEN fun_cong]
    enable_accept_mapped_claims_def [THEN fun_cong] identifier_uri_set_def [THEN fun_cong]
    redirect_uri_update_def [THEN fun_cong] application_owners_get_def [THEN fun_cong]
    application_owners_add_def [THEN fun_cong] application_owners_process_def [THEN fun_cong]
    sp_owners_get_def [THEN fun_cong] sp_owners_add_def [THEN fun_cong]
    sp_owners_process_def [THEN fun_cong]

end
