(* ===== verification/Credentials.thy ===== *)
theory Credentials
  imports AppClient
begin

text \<open>
  The credentials of an application: key material (pkg/util/crypto), key credentials
  (pkg/azure/client/keycredential/keycredential.go), password credentials
  (pkg/azure/client/passwordcredential/passwordcredential.go) and the client that combines them
  (pkg/azure/client/credentials.go).

  Both kinds of credentials follow the same revocation rule, stated once as the locale
  \<open>revocation\<close>: credentials in use (referenced by a used secret, or in the latest credential set)
  and the newest one are kept; when none was created by the operator, all are kept.
\<close>

subsection \<open>Key material (pkg/util/crypto)\<close>

text \<open>\<open>NewRSAKeyPair\<close>: the private key; the public key is derived from it.\<close>

definition new_rsa_key_pair :: "env \<Rightarrow> string prog" where
  "new_rsa_key_pair env =
     wrap ''failed to generate RSA keypair'' (call (Runtime GenerateRsaKey) (e_string env))"

definition certificate_template :: "env \<Rightarrow> azure_ad_application \<Rightarrow> string \<Rightarrow> x509_template prog" where
  "certificate_template env i cluster =
     bnd (now env) (\<lambda>not_before.
     ret \<lparr>ct_serial_number = 1, ct_country = [''NO''], ct_province = [''Oslo''], ct_locality = [''Oslo''],
          ct_organization = [''NAV (Arbeids- og velferdsdirektoratet''],
          ct_organizational_unit = [''NAV IT''],
          ct_common_name =
            app_name i @ ''.'' @ app_namespace i @ ''.'' @ cluster @ ''.azurerator.nais.io'',
          ct_not_before = not_before, ct_not_after = e_next_year env not_before,
          ct_key_usage = KeyUsageDigitalSignature, ct_ext_key_usage = [ExtKeyUsageClientAuth],
          ct_basic_constraints_valid = True\<rparr>)"

text \<open>A certificate is given by its raw bytes, of which the code uses nothing else.\<close>

definition generate_certificate :: "env \<Rightarrow> x509_template \<Rightarrow> string \<Rightarrow> string prog" where
  "generate_certificate env t key =
     bnd (wrap ''failed to generate the certificate for key''
       (call (Runtime (CreateCertificate t key)) (e_string env))) (\<lambda>der.
     wrap ''failed to parse certificate from DER data''
       (call (Runtime (ParseCertificate der)) (e_string env)))"

definition generate_jwk :: "env \<Rightarrow> azure_ad_application \<Rightarrow> string \<Rightarrow> jwk prog" where
  "generate_jwk env i cluster =
     bnd (new_rsa_key_pair env) (\<lambda>key.
     bnd (certificate_template env i cluster) (\<lambda>t.
     bnd (generate_certificate env t key) (\<lambda>der.
     lift (from_jwk (e_codec env)
       \<lparr>jk_key = key, jk_key_id = e_base64 env (e_sha1 env der), jk_use = ''sig'',
        jk_algorithm = ''RS256'', jk_certificates = [der],
        jk_thumbprint_sha1 = e_sha1 env der, jk_thumbprint_sha256 = e_sha256 env der\<rparr>))))"

subsection \<open>The revocation rule\<close>

text \<open>
  The loop that finds the newest credential: \<open>newest\<close> is the start of the newest one so far and
  \<open>idx\<close> its index. A credential without a start panics unless it is compared with no start.
\<close>

fun newest_index :: "('c \<Rightarrow> time option) \<Rightarrow> nat \<Rightarrow> 'c list \<Rightarrow> time option \<Rightarrow> nat \<Rightarrow> nat outcome" where
  "newest_index start i [] newest idx = Ok idx"
| "newest_index start i (c # cs) newest idx =
     (case newest of
        None \<Rightarrow> newest_index start (Suc i) cs (start c) i
      | Some t \<Rightarrow> out_bind (deref (start c)) (\<lambda>t'.
          if t' > t then newest_index start (Suc i) cs (Some t') i
          else newest_index start (Suc i) cs newest idx))"

definition has_managed_key :: "('c \<Rightarrow> string option) \<Rightarrow> 'c list \<Rightarrow> bool" where
  "has_managed_key name cs =
     list_ex (\<lambda>c. case name c of None \<Rightarrow> False | Some n \<Rightarrow> has_prefix n AzureratorPrefix) cs"

definition has_matching_key_id :: "string list \<Rightarrow> string option \<Rightarrow> bool outcome" where
  "has_matching_key_id ids key_id = out_bind (deref key_id) (\<lambda>i. Ok (i \<in> set ids))"

text \<open>The second loop: the credentials in use or newest, or the others.\<close>

definition select_credentials ::
  "('c \<Rightarrow> string option) \<Rightarrow> bool \<Rightarrow> string list \<Rightarrow> nat \<Rightarrow> 'c list \<Rightarrow> 'c list outcome" where
  "select_credentials key_id keep ids newest cs =
     out_bind (out_filter (\<lambda>(i, c). out_bind (has_matching_key_id ids (key_id c)) (\<lambda>m.
         Ok ((m \<or> i = newest) = keep))) (enumerate 0 cs))
       (\<lambda>ics. Ok (map snd ics))"

definition latest_outcome :: "transaction \<Rightarrow> credentials_set outcome" where
  "latest_outcome tx = deref (latest_of tx)"

subsection \<open>keycredential.go\<close>

definition key_ids_in_use :: "transaction \<Rightarrow> string list outcome" where
  "key_ids_in_use tx =
     out_bind (latest_outcome tx) (\<lambda>l.
       Ok (remove_duplicates (kid_certificate (kids_used (txs_key_ids (tx_secrets tx)))
         @ [cert_key_id (cr_certificate (set_current l)), cert_key_id (cr_certificate (set_next l))])))"

definition keep_keys :: "string list \<Rightarrow> key_credential list \<Rightarrow> key_credential list outcome" where
  "keep_keys ids cs =
     out_bind (newest_index kc_start 0 cs None 0) (\<lambda>newest.
       if \<not> has_managed_key kc_display_name cs then Ok cs
       else select_credentials kc_key_id True ids newest cs)"

definition filter_revoked_keys :: "env \<Rightarrow> transaction \<Rightarrow> key_credential list prog" where
  "filter_revoked_keys env tx =
     bnd (lift (key_ids_in_use tx)) (\<lambda>ids.
     bnd (application_get env tx) (\<lambda>app.
     lift (keep_keys ids (ga_key_credentials app))))"

definition to_key_credential :: "env \<Rightarrow> jwk \<Rightarrow> key_credential prog" where
  "to_key_credential env j =
     bnd (draw_uuids env) (\<lambda>fresh.
     bnd (now env) (\<lambda>t.
     ret \<lparr>kc_key_id = Some (fresh 0), kc_display_name = Some (display_name (e_rfc3339 env) t),
          kc_start = None, kc_end = None, kc_type = Some ''AsymmetricX509Cert'',
          kc_usage = Some ''Verify'', kc_key = Some (jwk_public_pem j)\<rparr>))"

definition key_credential_new :: "env \<Rightarrow> transaction \<Rightarrow> (key_credential \<times> jwk) prog" where
  "key_credential_new env tx =
     bnd instance_of (\<lambda>i.
     bnd (wrap ''failed to generate JWK pair for application'' (generate_jwk env i (tx_cluster_name tx))) (\<lambda>j.
     bnd (to_key_credential env j) (\<lambda>kc. ret (kc, j))))"

definition key_credential_add :: "env \<Rightarrow> transaction \<Rightarrow> added_key_credential_set prog" where
  "key_credential_add env tx =
     bnd (application_get env tx) (\<lambda>app.
     bnd (key_credential_new env tx) (\<lambda>(cur, cur_jwk).
     bnd (key_credential_new env tx) (\<lambda>(nxt, nxt_jwk).
     bnd object_id_of (\<lambda>oid.
     bnd (wrap ''updating application with keycredential set''
            (application_patch env oid
              (PatchFields (with_keys (ga_key_credentials app @ [cur, nxt]) zero_application)))) (\<lambda>_.
     ret \<lparr>akcs_current = \<lparr>akc_key_credential = cur, akc_jwk = cur_jwk\<rparr>,
          akcs_next = \<lparr>akc_key_credential = nxt, akc_jwk = nxt_jwk\<rparr>\<rparr>)))))"

text \<open>One iteration of the loop of \<open>DeleteExpired\<close>: the clock is read for every credential.\<close>

definition keep_unexpired :: "env \<Rightarrow> key_credential \<Rightarrow> key_credential list \<Rightarrow> key_credential list prog" where
  "keep_unexpired env c desired =
     bnd (now env) (\<lambda>t.
     bnd (lift (deref (kc_end c))) (\<lambda>e.
     ret (if e > t then desired @ [c] else desired)))"

definition key_credential_delete_expired :: "env \<Rightarrow> transaction \<Rightarrow> unit prog" where
  "key_credential_delete_expired env tx =
     bnd (application_get env tx) (\<lambda>app.
     bnd (fold_io (keep_unexpired env) (ga_key_credentials app) []) (\<lambda>desired.
     bnd object_id_of (\<lambda>oid.
     application_patch env oid (PatchKeyCredentials desired))))"

definition key_credential_delete_unused :: "env \<Rightarrow> transaction \<Rightarrow> unit prog" where
  "key_credential_delete_unused env tx =
     bnd (filter_revoked_keys env tx) (\<lambda>keys.
     bnd object_id_of (\<lambda>oid.
     wrap ''updating application with keycredential''
       (application_patch env oid (PatchFields (with_keys keys zero_application)))))"

definition key_credential_rotate :: "env \<Rightarrow> transaction \<Rightarrow> (key_credential \<times> jwk) prog" where
  "key_credential_rotate env tx =
     bnd (filter_revoked_keys env tx) (\<lambda>keys.
     bnd (key_credential_new env tx) (\<lambda>(kc, j).
     bnd object_id_of (\<lambda>oid.
     bnd (wrap ''updating application with keycredential''
            (application_patch env oid (PatchFields (with_keys (keys @ [kc]) zero_application)))) (\<lambda>_.
     ret (kc, j)))))"

definition key_credential_purge :: "env \<Rightarrow> transaction \<Rightarrow> unit prog" where
  "key_credential_purge env tx =
     bnd object_id_of (\<lambda>oid. application_patch env oid (PatchKeyCredentials []))"

text \<open>
  The loop of \<open>Validate\<close>, for both kinds of credentials: \<open>cur\<close> and \<open>nxt\<close> are the key IDs
  looked for; the accumulator is the pair of flags.
\<close>

definition validate_step ::
  "env \<Rightarrow> ('c \<Rightarrow> time option) \<Rightarrow> ('c \<Rightarrow> string option) \<Rightarrow> string \<Rightarrow> string \<Rightarrow> 'c \<Rightarrow> bool \<times> bool \<Rightarrow>
   (bool \<times> bool) prog" where
  "validate_step env expiry key_id cur nxt c acc =
     bnd (now env) (\<lambda>t.
     bnd (lift (deref (expiry c))) (\<lambda>e.
     bnd (lift (deref (key_id c))) (\<lambda>i.
     ret (fst acc \<or> (i = cur \<and> e > t), snd acc \<or> (i = nxt \<and> e > t)))))"

definition key_credential_validate :: "env \<Rightarrow> transaction \<Rightarrow> credentials_set \<Rightarrow> bool prog" where
  "key_credential_validate env tx existing =
     bnd (application_get env tx) (\<lambda>app.
     bnd (fold_io (validate_step env kc_end kc_key_id
            (cert_key_id (cr_certificate (set_current existing)))
            (cert_key_id (cr_certificate (set_next existing)))) (ga_key_credentials app) (False, False))
     (\<lambda>(c, n). ret (c \<and> n)))"

subsection \<open>passwordcredential.go\<close>

definition password_ids_in_use :: "transaction \<Rightarrow> string list outcome" where
  "password_ids_in_use tx =
     out_bind (latest_outcome tx) (\<lambda>l.
       Ok (remove_duplicates (kid_password (kids_used (txs_key_ids (tx_secrets tx)))
         @ [pw_key_id (cr_password (set_current l)), pw_key_id (cr_password (set_next l))])))"

definition revocation_candidates :: "string list \<Rightarrow> password_credential list \<Rightarrow> password_credential list outcome" where
  "revocation_candidates ids cs =
     out_bind (newest_index pc_start 0 cs None 0) (\<lambda>newest.
       if \<not> has_managed_key pc_display_name cs then Ok []
       else select_credentials pc_key_id False ids newest cs)"

definition delay :: "env \<Rightarrow> unit prog" where
  "delay env = notify (Runtime (Sleep (az_delay (azure_cfg env))))"

text \<open>An error of the request is logged, with the key ID, and ignored.\<close>

definition password_remove :: "env \<Rightarrow> object_id \<Rightarrow> string option \<Rightarrow> unit prog" where
  "password_remove env i key_id =
     bnd (delay env) (\<lambda>_.
     bnd (attempt (call (Graph (RemovePassword i key_id)) (e_unit env))) (\<lambda>r.
     case r of
       Inl e \<Rightarrow> bnd (lift (deref key_id)) (\<lambda>_. ret ())
     | Inr _ \<Rightarrow> ret ()))"

definition to_add_request :: "env \<Rightarrow> password_credential prog" where
  "to_add_request env =
     bnd (now env) (\<lambda>start.
     bnd (draw_uuids env) (\<lambda>fresh.
     bnd (now env) (\<lambda>t.
     ret \<lparr>pc_key_id = Some (fresh 0), pc_display_name = Some (display_name (e_rfc3339 env) t),
          pc_start = Some start, pc_end = Some (e_next_year env start), pc_secret = None\<rparr>)))"

definition password_add :: "env \<Rightarrow> transaction \<Rightarrow> password_credential prog" where
  "password_add env tx =
     bnd object_id_of (\<lambda>oid.
     bnd (to_add_request env) (\<lambda>req.
     wrap ''adding password credentials for application''
       (call (Graph (AddPassword oid req)) (e_password env))))"

definition remove_if_expired :: "env \<Rightarrow> graph_application \<Rightarrow> password_credential \<Rightarrow> unit prog" where
  "remove_if_expired env app c =
     bnd (now env) (\<lambda>t.
     bnd (lift (deref (pc_end c))) (\<lambda>e.
     if e < t then bnd (lift (deref (ga_id app))) (\<lambda>i. password_remove env i (pc_key_id c))
     else ret ()))"

definition password_delete_expired :: "env \<Rightarrow> transaction \<Rightarrow> unit prog" where
  "password_delete_expired env tx =
     bnd (application_get env tx) (\<lambda>app.
     for_each (remove_if_expired env app) (ga_password_credentials app))"

definition remove_passwords :: "env \<Rightarrow> graph_application \<Rightarrow> password_credential list \<Rightarrow> unit prog" where
  "remove_passwords env app =
     for_each (\<lambda>c. bnd (lift (deref (ga_id app))) (\<lambda>i. password_remove env i (pc_key_id c)))"

definition password_delete_unused :: "env \<Rightarrow> transaction \<Rightarrow> unit prog" where
  "password_delete_unused env tx =
     bnd (application_get env tx) (\<lambda>app.
     bnd (lift (password_ids_in_use tx)) (\<lambda>ids.
     bnd (lift (revocation_candidates ids (ga_password_credentials app))) (\<lambda>revoked.
     remove_passwords env app revoked)))"

definition password_rotate :: "env \<Rightarrow> transaction \<Rightarrow> password_credential prog" where
  "password_rotate env tx =
     bnd (application_get env tx) (\<lambda>app.
     bnd (lift (password_ids_in_use tx)) (\<lambda>ids.
     bnd (lift (revocation_candidates ids (ga_password_credentials app))) (\<lambda>revoked.
     bnd (remove_passwords env app revoked) (\<lambda>_.
     bnd (delay env) (\<lambda>_.
     password_add env tx)))))"

definition password_purge :: "env \<Rightarrow> transaction \<Rightarrow> unit prog" where
  "password_purge env tx =
     bnd (application_get env tx) (\<lambda>app.
     remove_passwords env app (ga_password_credentials app))"

definition password_validate :: "env \<Rightarrow> transaction \<Rightarrow> credentials_set \<Rightarrow> bool prog" where
  "password_validate env tx existing =
     bnd (application_get env tx) (\<lambda>app.
     bnd (fold_io (validate_step env pc_end pc_key_id
            (pw_key_id (cr_password (set_current existing)))
            (pw_key_id (cr_password (set_next existing)))) (ga_password_credentials app) (False, False))
     (\<lambda>(c, n). ret (c \<and> n)))"

subsection \<open>Evaluation\<close>

lemmas credentials_runs [runs] =
  new_rsa_key_pair_def [THEN fun_cong] certificate_template_def [THEN fun_cong]
    generate_certificate_def [THEN fun_cong] generate_jwk_def [THEN fun_cong]
    filter_revoked_keys_def [THEN fun_cong] to_key_credential_def [THEN fun_cong]
    key_credential_new_def [THEN fun_cong] key_credential_add_def [THEN fun_cong]
    keep_unexpired_def [THEN fun_cong] key_credential_delete_expired_def [THEN fun_cong]
    key_credential_delete_unused_def [THEN fun_cong] key_credential_rotate_def [THEN fun_cong]
    key_credential_purge_def [THEN fun_cong] validate_step_def [THEN fun_cong]
    key_credential_validate_def [THEN fun_cong] delay_def [THEN fun_cong]
    password_remove_def [THEN fun_cong] to_add_request_def [THEN fun_cong]
    password_add_def [THEN fun_cong] remove_if_expired_def [THEN fun_cong]
    password_delete_expired_def [THEN fun_cong] remove_passwords_def [THEN fun_cong]
    password_delete_unused_def [THEN fun_cong] password_rotate_def [THEN fun_cong]
    password_purge_def [THEN fun_cong] password_validate_def [THEN fun_cong]

end
