(* ===== verification/CredentialsClient.thy ===== *)
theory CredentialsClient
  imports Credentials
begin

text \<open>
  The combined credentials client of pkg/azure/client/credentials.go, the locale of the
  revocation rule with its interpretations for key and password credentials, and the requests
  the operations send.
\<close>

subsection \<open>credentials.go\<close>

definition credentials_add :: "env \<Rightarrow> transaction \<Rightarrow> credentials_set prog" where
  "credentials_add env tx =
     bnd (delay env) (\<lambda>_.
     bnd (wrap ''adding current password credential'' (password_add env tx)) (\<lambda>cur_pw.
     bnd (delay env) (\<lambda>_.
     bnd (wrap ''adding next password credential'' (password_add env tx)) (\<lambda>next_pw.
     bnd (delay env) (\<lambda>_.
     bnd (wrap ''adding key credential set'' (key_credential_add env tx)) (\<lambda>keys.
     bnd (lift (deref (kc_key_id (akc_key_credential (akcs_current keys))))) (\<lambda>cur_key_id.
     bnd (lift (deref (pc_key_id cur_pw))) (\<lambda>cur_pw_id.
     bnd (lift (deref (pc_secret cur_pw))) (\<lambda>cur_secret.
     bnd (lift (deref (kc_key_id (akc_key_credential (akcs_next keys))))) (\<lambda>next_key_id.
     bnd (lift (deref (pc_key_id next_pw))) (\<lambda>next_pw_id.
     bnd (lift (deref (pc_secret next_pw))) (\<lambda>next_secret.
     ret \<lparr>set_current =
            \<lparr>cr_certificate = \<lparr>cert_key_id = cur_key_id, cert_jwk = akc_jwk (akcs_current keys)\<rparr>,
             cr_password = \<lparr>pw_key_id = cur_pw_id, pw_client_secret = cur_secret\<rparr>\<rparr>,
          set_next =
            \<lparr>cr_certificate = \<lparr>cert_key_id = next_key_id, cert_jwk = akc_jwk (akcs_next keys)\<rparr>,
             cr_password = \<lparr>pw_key_id = next_pw_id, pw_client_secret = next_secret\<rparr>\<rparr>\<rparr>))))))))))))"

definition credentials_delete_expired :: "env \<Rightarrow> transaction \<Rightarrow> unit prog" where
  "credentials_delete_expired env tx =
     bnd (wrap ''deleting expired key credentials'' (key_credential_delete_expired env tx)) (\<lambda>_.
     wrap ''deleting expired password credentials'' (password_delete_expired env tx))"

definition credentials_delete_unused :: "env \<Rightarrow> transaction \<Rightarrow> unit prog" where
  "credentials_delete_unused env tx =
     bnd (wrap ''deleting unused key credentials'' (key_credential_delete_unused env tx)) (\<lambda>_.
     wrap ''deleting unused password credentials'' (password_delete_unused env tx))"

definition credentials_purge :: "env \<Rightarrow> transaction \<Rightarrow> unit prog" where
  "credentials_purge env tx =
     bnd (wrap ''purging password credentials'' (password_purge env tx)) (\<lambda>_.
     wrap ''purging key credentials'' (key_credential_purge env tx))"

definition credentials_rotate :: "env \<Rightarrow> transaction \<Rightarrow> credentials_set prog" where
  "credentials_rotate env tx =
     bnd (delay env) (\<lambda>_.
     bnd (wrap ''rotating password credential'' (password_rotate env tx)) (\<lambda>next_pw.
     bnd (delay env) (\<lambda>_.
     bnd (wrap ''rotating key credential'' (key_credential_rotate env tx)) (\<lambda>(next_key, next_jwk).
     bnd (lift (latest_outcome tx)) (\<lambda>latest.
     bnd (lift (deref (kc_key_id next_key))) (\<lambda>next_key_id.
     bnd (lift (deref (pc_key_id next_pw))) (\<lambda>next_pw_id.
     bnd (lift (deref (pc_secret next_pw))) (\<lambda>next_secret.
     ret \<lparr>set_current = set_next latest,
          set_next =
            \<lparr>cr_certificate = \<lparr>cert_key_id = next_key_id, cert_jwk = next_jwk\<rparr>,
             cr_password = \<lparr>pw_key_id = next_pw_id, pw_client_secret = next_secret\<rparr>\<rparr>\<rparr>))))))))"

definition credentials_validate :: "env \<Rightarrow> transaction \<Rightarrow> credentials_set \<Rightarrow> bool prog" where
  "credentials_validate env tx existing =
     bnd (wrap ''validating password credentials'' (password_validate env tx existing)) (\<lambda>pws.
     bnd (wrap ''validating key credentials'' (key_credential_validate env tx existing)) (\<lambda>keys.
     ret (pws \<and> keys)))"

subsection \<open>The newest credential\<close>

lemma newest_index_Some:
  assumes "\<forall>c \<in> set cs. start c \<noteq> None"
  shows "\<exists>n. newest_index start i cs (Some t) idx = Ok n \<and>
    (n = idx \<and> (\<forall>c \<in> set cs. the (start c) \<le> t) \<or>
     (\<exists>k < length cs. n = i + k \<and> t < the (start (cs ! k)) \<and>
        (\<forall>c \<in> set cs. the (start c) \<le> the (start (cs ! k)))))"
  using assms
proof (induction cs arbitrary: i t idx)
  case (Cons c cs)
  obtain t' where t': "start c = Some t'" using Cons.prems by auto
  show ?case
  proof (cases "t' > t")
    case True
    obtain n where n: "newest_index start (Suc i) cs (Some t') i = Ok n"
      "n = i \<and> (\<forall>c \<in> set cs. the (start c) \<le> t') \<or>
       (\<exists>k < length cs. n = Suc i + k \<and> t' < the (start (cs ! k)) \<and>
          (\<forall>c \<in> set cs. the (start c) \<le> the (start (cs ! k))))"
      using Cons.IH [of "Suc i" t' i] Cons.prems by auto
    from n(2) show ?thesis
    proof
      assume "n = i \<and> (\<forall>c \<in> set cs. the (start c) \<le> t')"
      then show ?thesis using n(1) True t' by (intro exI [of _ n]) (auto intro!: exI [of _ 0])
    next
      assume "\<exists>k < length cs. n = Suc i + k \<and> t' < the (start (cs ! k)) \<and>
          (\<forall>c \<in> set cs. the (start c) \<le> the (start (cs ! k)))"
      then obtain k where "k < length cs" "n = Suc i + k" "t' < the (start (cs ! k))"
        "\<forall>c \<in> set cs. the (start c) \<le> the (start (cs ! k))" by blast
      then show ?thesis
        using n(1) True t' by (intro exI [of _ n]) (auto intro!: exI [of _ "Suc k"])
    qed
  next
    case False
    obtain n where n: "newest_index start (Suc i) cs (Some t) idx = Ok n"
      "n = idx \<and> (\<forall>c \<in> set cs. the (start c) \<le> t) \<or>
       (\<exists>k < length cs. n = Suc i + k \<and> t < the (start (cs ! k)) \<and>
          (\<forall>c \<in> set cs. the (start c) \<le> the (start (cs ! k))))"
      using Cons.IH [of "Suc i" t idx] Cons.prems by auto
    from n(2) show ?thesis
    proof
      assume "n = idx \<and> (\<forall>c \<in> set cs. the (start c) \<le> t)"
      then show ?thesis using n(1) False t' by (intro exI [of _ n]) auto
    next
      assume "\<exists>k < length cs. n = Suc i + k \<and> t < the (start (cs ! k)) \<and>
          (\<forall>c \<in> set cs. the (start c) \<le> the (start (cs ! k)))"
      then obtain k where "k < length cs" "n = Suc i + k" "t < the (start (cs ! k))"
        "\<forall>c \<in> set cs. the (start c) \<le> the (start (cs ! k))" by blast
      then show ?thesis
        using n(1) False t' by (intro exI [of _ n]) (auto intro!: exI [of _ "Suc k"])
    qed
  qed
qed simp

text \<open>Credentials as the Graph API lists them: identified by their key ID, and with a start.\<close>

definition listed_credentials ::
  "('c \<Rightarrow> string option) \<Rightarrow> ('c \<Rightarrow> time option) \<Rightarrow> 'c list \<Rightarrow> bool" where
  "listed_credentials key_id start cs \<longleftrightarrow>
     (\<forall>c \<in> set cs. key_id c \<noteq> None \<and> start c \<noteq> None) \<and> distinct (map key_id cs)"

lemma newest_index_listed:
  assumes "listed_credentials key_id start cs" "cs \<noteq> []"
  obtains n where "newest_index start 0 cs None 0 = Ok n" "n < length cs"
    "\<forall>c \<in> set cs. the (start c) \<le> the (start (cs ! n))"
proof -
  obtain c cs' where cs: "cs = c # cs'" using assms(2) by (cases cs) auto
  obtain t where t: "start c = Some t" using assms(1) cs by (auto simp: listed_credentials_def)
  have s: "\<forall>c \<in> set cs'. start c \<noteq> None" using assms(1) cs by (auto simp: listed_credentials_def)
  from newest_index_Some [OF s, of "Suc 0" t 0]
  obtain n where n: "newest_index start (Suc 0) cs' (Some t) 0 = Ok n"
    "n = 0 \<and> (\<forall>c \<in> set cs'. the (start c) \<le> t) \<or>
     (\<exists>k < length cs'. n = Suc 0 + k \<and> t < the (start (cs' ! k)) \<and>
        (\<forall>c \<in> set cs'. the (start c) \<le> the (start (cs' ! k))))" by blast
  then show ?thesis
    using that [of n] cs t by auto
qed

text \<open>A credential of a list such that no other one of the list starts later.\<close>

definition newest_of :: "('c \<Rightarrow> time option) \<Rightarrow> 'c list \<Rightarrow> 'c \<Rightarrow> bool" where
  "newest_of start cs c \<longleftrightarrow> c \<in> set cs \<and>
     (\<forall>c' \<in> set cs. \<forall>t t'. start c' = Some t \<longrightarrow> start c = Some t' \<longrightarrow> t \<le> t')"

lemma newest_of_exists:
  assumes "cs \<noteq> []"
  obtains c where "newest_of start cs c"
proof (cases "\<exists>c \<in> set cs. start c = None")
  case False
  let ?c = "arg_min_list (\<lambda>c. - the (start c)) cs"
  have in_cs: "?c \<in> set cs" by (rule arg_min_list_in [OF assms])
  have "the (start c) \<le> the (start ?c)" if "c \<in> set cs" for c
  proof -
    have "- the (start ?c) = Min ((\<lambda>c. - the (start c)) ` set cs)"
      by (rule f_arg_min_list_f [OF assms])
    also have "\<dots> \<le> - the (start c)" using that by simp
    finally show ?thesis by simp
  qed
  with in_cs have "newest_of start cs ?c" unfolding newest_of_def by (metis option.sel)
  then show ?thesis by (rule that)
next
  case True
  then obtain c where "c \<in> set cs" "start c = None" by blast
  then show ?thesis by (intro that [of c]) (simp add: newest_of_def)
qed

text \<open>The index that the loops of the clients compute is the one of a newest credential.\<close>

lemma newest_index_accumulates:
  assumes "newest_index start i cs newest idx = Ok n"
  shows "\<exists>v. (v = newest \<and> n = idx \<or> (\<exists>j < length cs. n = i + j \<and> v = start (cs ! j))) \<and>
    (\<forall>t. newest = Some t \<longrightarrow> (\<exists>t'. v = Some t' \<and> t \<le> t')) \<and>
    (\<forall>c \<in> set cs. \<forall>t t'. start c = Some t \<longrightarrow> v = Some t' \<longrightarrow> t \<le> t')"
  using assms
proof (induction cs arbitrary: i newest idx)
  case (Cons c cs)
  define acc where "acc = (case (newest, start c) of (Some t, Some t') \<Rightarrow> if t < t' then (start c, i) else (newest, idx)
    | _ \<Rightarrow> (start c, i))"
  have run: "newest_index start (Suc i) cs (fst acc) (snd acc) = Ok n" and c: "newest = None \<or> start c \<noteq> None"
    using Cons.prems by (auto simp: acc_def out_bind_Ok_iff split: option.splits if_splits)
  from Cons.IH [OF run] obtain v where v:
    "v = fst acc \<and> n = snd acc \<or> (\<exists>j < length cs. n = Suc i + j \<and> v = start (cs ! j))"
    "\<forall>t. fst acc = Some t \<longrightarrow> (\<exists>t'. v = Some t' \<and> t \<le> t')"
    "\<forall>c \<in> set cs. \<forall>t t'. start c = Some t \<longrightarrow> v = Some t' \<longrightarrow> t \<le> t'" by blast
  have pos: "v = newest \<and> n = idx \<or> (\<exists>j < length (c # cs). n = i + j \<and> v = start ((c # cs) ! j))"
    using v(1)
  proof
    assume "v = fst acc \<and> n = snd acc"
    then show ?thesis by (auto simp: acc_def split: option.splits if_splits)
  next
    assume "\<exists>j < length cs. n = Suc i + j \<and> v = start (cs ! j)"
    then obtain j where "j < length cs" "n = Suc i + j" "v = start (cs ! j)" by blast
    then show ?thesis by (intro disjI2 exI [of _ "Suc j"]) simp
  qed
  have "\<forall>t. newest = Some t \<longrightarrow> (\<exists>t'. v = Some t' \<and> t \<le> t')" "\<forall>t t'. start c = Some t \<longrightarrow> v = Some t' \<longrightarrow> t \<le> t'"
    using v(2) c by (auto simp: acc_def split: option.splits if_splits)
  then show ?case using pos v(3) by (intro exI [of _ v]) simp
qed auto

lemma newest_index_newest:
  assumes "newest_index start 0 cs None 0 = Ok n" "cs \<noteq> []"
  shows "n < length cs \<and> newest_of start cs (cs ! n)"
proof -
  obtain c cs' where cs: "cs = c # cs'" using assms(2) by (cases cs) auto
  from newest_index_accumulates [of start "Suc 0" cs' "start c" 0 n] assms(1) cs obtain v where v:
    "v = start c \<and> n = 0 \<or> (\<exists>j < length cs'. n = Suc 0 + j \<and> v = start (cs' ! j))"
    "\<forall>t. start c = Some t \<longrightarrow> (\<exists>t'. v = Some t' \<and> t \<le> t')"
    "\<forall>c \<in> set cs'. \<forall>t t'. start c = Some t \<longrightarrow> v = Some t' \<longrightarrow> t \<le> t'" by auto
  then have n: "n < length cs" "start (cs ! n) = v" using cs by auto
  moreover have "\<forall>c' \<in> set cs. \<forall>t t'. start c' = Some t \<longrightarrow> v = Some t' \<longrightarrow> t \<le> t'"
    using v(2,3) cs by auto
  ultimately show ?thesis by (simp add: newest_of_def)
qed

subsection \<open>The revocation rule as an interface\<close>

text \<open>
  \<open>kept ids cs\<close> are the credentials of \<open>cs\<close> that remain after revoking the unused ones, when
  the key IDs in use are \<open>ids\<close>.
\<close>

locale revocation =
  fixes key_id :: "'c \<Rightarrow> string option"
    and start :: "'c \<Rightarrow> time option"
    and name :: "'c \<Rightarrow> string option"
    and kept :: "string list \<Rightarrow> 'c list \<Rightarrow> 'c list outcome"
  assumes unmanaged:
      "listed_credentials key_id start cs \<Longrightarrow> \<not> has_managed_key name cs \<Longrightarrow> kept ids cs = Ok cs"
    and managed:
      "listed_credentials key_id start cs \<Longrightarrow> has_managed_key name cs \<Longrightarrow>
       newest_index start 0 cs None 0 = Ok n \<Longrightarrow>
       kept ids cs = Ok (filter (\<lambda>c. the (key_id c) \<in> set ids \<or> c = cs ! n) cs)"
begin

lemma managed_nonempty: "has_managed_key name cs \<Longrightarrow> cs \<noteq> []"
  by (auto simp: has_managed_key_def)

text \<open>The rule in one statement: revocation never fails, keeps the order, keeps what is in use.\<close>

lemma rule:
  assumes "listed_credentials key_id start cs"
  obtains keep where "kept ids cs = Ok (filter keep cs)"
    and "\<And>c i. c \<in> set cs \<Longrightarrow> key_id c = Some i \<Longrightarrow> i \<in> set ids \<Longrightarrow> keep c"
    and "cs \<noteq> [] \<Longrightarrow> \<exists>c \<in> set cs. keep c \<and> (\<forall>c' \<in> set cs. the (start c') \<le> the (start c))"
    and "\<And>c c'. keep c \<Longrightarrow> keep c' \<Longrightarrow> has_managed_key name cs \<Longrightarrow> the (key_id c) \<notin> set ids \<Longrightarrow>
           the (key_id c') \<notin> set ids \<Longrightarrow> c = c'"
proof (cases "has_managed_key name cs")
  case True
  obtain n where n: "newest_index start 0 cs None 0 = Ok n" "n < length cs"
    "\<forall>c \<in> set cs. the (start c) \<le> the (start (cs ! n))"
    using newest_index_listed [OF assms managed_nonempty [OF True]] .
  show ?thesis
    by (rule that [OF managed [OF assms True n(1)]]) (use n in auto)
next
  case False
  have ex: "\<exists>c \<in> set cs. \<forall>c' \<in> set cs. the (start c') \<le> the (start c)" if "cs \<noteq> []"
    using newest_index_listed [OF assms that] by (metis nth_mem)
  show ?thesis
    by (rule that [of "\<lambda>_. True"]) (use unmanaged [OF assms False] ex False in auto)
qed

lemma keeps_in_use:
  assumes "listed_credentials key_id start cs" "kept ids cs = Ok ks"
    and "c \<in> set cs" "key_id c = Some i" "i \<in> set ids"
  shows "c \<in> set ks"
proof -
  obtain keep where "kept ids cs = Ok (filter keep cs)"
    "\<And>c i. c \<in> set cs \<Longrightarrow> key_id c = Some i \<Longrightarrow> i \<in> set ids \<Longrightarrow> keep c"
    by (rule rule [OF assms(1), of ids]) blast
  then show ?thesis using assms(2-5) by auto
qed

lemma keeps_newest:
  assumes "listed_credentials key_id start cs" "kept ids cs = Ok ks" "cs \<noteq> []"
  shows "\<exists>c \<in> set ks. \<forall>c' \<in> set cs. the (start c') \<le> the (start c)"
proof -
  obtain keep where "kept ids cs = Ok (filter keep cs)"
    "\<exists>c \<in> set cs. keep c \<and> (\<forall>c' \<in> set cs. the (start c') \<le> the (start c))"
    by (rule rule [OF assms(1), of ids]) (use assms(3) in blast)
  then show ?thesis using assms(2) by auto
qed

lemma keeps_subset:
  assumes "listed_credentials key_id start cs" "kept ids cs = Ok ks"
  shows "set ks \<subseteq> set cs"
  using rule [OF assms(1), of ids] assms(2) by (metis filter_is_subset outcome.inject(1))

end

subsection \<open>Both kinds of credentials implement it\<close>

lemma enumerate_pick:
  assumes "distinct xs" "n < length xs"
  shows "map snd (filter (\<lambda>(i, c). Q c (i = n)) (enumerate 0 xs)) = filter (\<lambda>c. Q c (c = xs ! n)) xs"
proof -
  have "filter (\<lambda>(i, c). Q c (i = n)) (enumerate 0 xs)
      = filter (\<lambda>ic. Q (snd ic) (snd ic = xs ! n)) (enumerate 0 xs)"
  proof (rule filter_cong [OF refl])
    fix ic assume "ic \<in> set (enumerate 0 xs)"
    then have "fst ic = n \<longleftrightarrow> snd ic = xs ! n"
      using assms nth_eq_iff_index_eq [OF assms(1), of "fst ic" n]
      unfolding in_set_enumerate_eq by auto
    then show "(case ic of (i, c) \<Rightarrow> Q c (i = n)) = Q (snd ic) (snd ic = xs ! n)"
      by (simp add: case_prod_unfold)
  qed
  moreover have "map snd (filter (\<lambda>ic. Q (snd ic) (snd ic = xs ! n)) (enumerate 0 xs))
      = filter (\<lambda>c. Q c (c = xs ! n)) (map snd (enumerate 0 xs))"
    by (simp only: filter_map comp_def)
  ultimately show ?thesis by simp
qed

lemma select_credentials_listed:
  assumes "listed_credentials key_id start cs" "n < length cs"
  shows "select_credentials key_id keep ids n cs =
    Ok (filter (\<lambda>c. (the (key_id c) \<in> set ids \<or> c = cs ! n) = keep) cs)"
proof -
  have d: "distinct cs" using assms(1) by (simp add: listed_credentials_def distinct_map)
  have "out_filter (\<lambda>(i, c). out_bind (has_matching_key_id ids (key_id c)) (\<lambda>m.
         Ok ((m \<or> i = n) = keep))) (enumerate 0 cs) =
      Ok (filter (\<lambda>(i, c). (the (key_id c) \<in> set ids \<or> i = n) = keep) (enumerate 0 cs))"
  proof (rule out_filter_Ok)
    fix x assume "x \<in> set (enumerate 0 cs)"
    then have "snd x \<in> set cs" by (metis image_eqI list.set_map map_snd_enumerate)
    then obtain i where "key_id (snd x) = Some i"
      using assms(1) by (auto simp: listed_credentials_def)
    then show "(case x of (i, c) \<Rightarrow> out_bind (has_matching_key_id ids (key_id c)) (\<lambda>m.
         Ok ((m \<or> i = n) = keep))) =
       Ok (case x of (i, c) \<Rightarrow> (the (key_id c) \<in> set ids \<or> i = n) = keep)"
      by (simp add: case_prod_unfold has_matching_key_id_def)
  qed
  then show ?thesis
    unfolding select_credentials_def
    by (simp add: enumerate_pick [OF d assms(2), of "\<lambda>c b. (the (key_id c) \<in> set ids \<or> b) = keep"])
qed

text \<open>What remains of the passwords when the candidates are removed.\<close>

definition remaining_passwords ::
  "string list \<Rightarrow> password_credential list \<Rightarrow> password_credential list outcome" where
  "remaining_passwords ids cs =
     out_bind (revocation_candidates ids cs) (\<lambda>revoked. Ok (filter (\<lambda>c. c \<notin> set revoked) cs))"

lemma managed_newest:
  assumes "listed_credentials key_id start cs" "has_managed_key name cs"
    and "newest_index start 0 cs None 0 = Ok n"
  shows "n < length cs"
proof -
  have "cs \<noteq> []" using assms(2) by (auto simp: has_managed_key_def)
  then show ?thesis using newest_index_listed [OF assms(1)] assms(3) by (metis outcome.inject(1))
qed

lemma newest_index_defined:
  "listed_credentials key_id start cs \<Longrightarrow> \<exists>n. newest_index start 0 cs None 0 = Ok n"
  by (cases "cs = []") (auto elim: newest_index_listed)

interpretation key_revocation: revocation kc_key_id kc_start kc_display_name keep_keys
proof (unfold_locales, goal_cases)
  case (1 cs ids)
  then show ?case using newest_index_defined [OF 1(1)] by (auto simp: keep_keys_def)
next
  case (2 cs n ids)
  then show ?case
    by (simp add: keep_keys_def select_credentials_listed [OF 2(1) managed_newest [OF 2]])
qed

interpretation password_revocation: revocation pc_key_id pc_start pc_display_name remaining_passwords
proof (unfold_locales, goal_cases)
  case (1 cs ids)
  then show ?case
    using newest_index_defined [OF 1(1)] by (auto simp: remaining_passwords_def revocation_candidates_def)
next
  case (2 cs n ids)
  have "revocation_candidates ids cs =
      Ok (filter (\<lambda>c. \<not> (the (pc_key_id c) \<in> set ids \<or> c = cs ! n)) cs)"
    using 2 by (simp add: revocation_candidates_def select_credentials_listed [OF 2(1) managed_newest [OF 2]])
  then show ?case
    unfolding remaining_passwords_def by (auto intro: filter_cong)
qed

subsection \<open>Requests\<close>

text \<open>
  The operations on credentials only send reading requests, patch the key credentials of the
  application, and add or remove passwords; \<open>unused k\<close> bounds the passwords removed.
\<close>

fun credential_request :: "(string option \<Rightarrow> bool) \<Rightarrow> event \<Rightarrow> bool" where
  "credential_request unused (Graph (PatchApplication i (PatchFields a)), ok) =
     (\<exists>ks. a = with_keys ks zero_application)"
| "credential_request unused (Graph (PatchApplication i (PatchKeyCredentials ks)), ok) = True"
| "credential_request unused (Graph (AddPassword i c), ok) = True"
| "credential_request unused (Graph (RemovePassword i k), ok) = unused k"
| "credential_request unused (r, ok) = harmless r"

lemma credential_request_reads: "reads e \<Longrightarrow> credential_request unused e"
  by (cases "(unused, e)" rule: credential_request.cases) auto

lemma delay_emits: "emits (credential_request unused) (delay env)"
  unfolding delay_def by (intro emits_notify) simp

lemma application_get_credential: "emits (credential_request unused) (application_get env tx)"
  by (rule emits_mono [OF application_get_reads(2)]) (rule credential_request_reads)

lemma patch_keys_emits:
  "emits (credential_request unused) (application_patch env oid (PatchFields (with_keys ks zero_application)))"
  "emits (credential_request unused) (application_patch env oid (PatchKeyCredentials ks))"
  by (rule application_patch_emits; auto)+

lemma key_credential_new_emits: "emits (credential_request unused) (key_credential_new env tx)"
  unfolding key_credential_new_def generate_jwk_def new_rsa_key_pair_def certificate_template_def
    generate_certificate_def to_key_credential_def
  by (auto intro!: emits_intros)

lemma filter_revoked_keys_emits: "emits (credential_request unused) (filter_revoked_keys env tx)"
  unfolding filter_revoked_keys_def by (intro emits_intros application_get_credential)

lemma key_credential_emits:
  "emits (credential_request unused) (key_credential_add env tx)"
  "emits (credential_request unused) (key_credential_delete_expired env tx)"
  "emits (credential_request unused) (key_credential_delete_unused env tx)"
  "emits (credential_request unused) (key_credential_rotate env tx)"
  "emits (credential_request unused) (key_credential_purge env tx)"
  "emits (credential_request unused) (key_credential_validate env tx existing)"
  unfolding key_credential_add_def key_credential_delete_expired_def keep_unexpired_def
    key_credential_delete_unused_def key_credential_rotate_def key_credential_purge_def
    key_credential_validate_def validate_step_def
  by (auto intro!: emits_intros application_get_credential patch_keys_emits key_credential_new_emits
      filter_revoked_keys_emits split: prod.split)

lemma password_remove_emits: "unused k \<Longrightarrow> emits (credential_request unused) (password_remove env i k)"
  unfolding password_remove_def by (auto intro!: emits_intros delay_emits split: sum.split)

lemma password_add_emits: "emits (credential_request unused) (password_add env tx)"
  unfolding password_add_def to_add_request_def by (auto intro!: emits_intros)

lemma remove_passwords_emits:
  "(\<And>c. c \<in> set cs \<Longrightarrow> unused (pc_key_id c)) \<Longrightarrow>
     emits (credential_request unused) (remove_passwords env app cs)"
  unfolding remove_passwords_def by (intro emits_intros password_remove_emits)

lemma password_unrestricted_emits:
  "emits (credential_request (\<lambda>_. True)) (password_delete_expired env tx)"
  "emits (credential_request (\<lambda>_. True)) (password_purge env tx)"
  unfolding password_delete_expired_def remove_if_expired_def password_purge_def
  by (auto intro!: emits_intros application_get_credential password_remove_emits remove_passwords_emits)

lemma password_validate_emits: "emits (credential_request unused) (password_validate env tx existing)"
  unfolding password_validate_def validate_step_def
  by (auto intro!: emits_intros application_get_credential split: prod.split)

text \<open>The key IDs of passwords in use: those of used secrets and of the latest credential set.\<close>

definition protected_passwords :: "transaction \<Rightarrow> string set" where
  "protected_passwords tx =
     set (kid_password (kids_used (txs_key_ids (tx_secrets tx)))) \<union>
     (case latest_of tx of None \<Rightarrow> {}
      | Some l \<Rightarrow> {pw_key_id (cr_password (set_current l)), pw_key_id (cr_password (set_next l))})"

definition protected_keys :: "transaction \<Rightarrow> string set" where
  "protected_keys tx =
     set (kid_certificate (kids_used (txs_key_ids (tx_secrets tx)))) \<union>
     (case latest_of tx of None \<Rightarrow> {}
      | Some l \<Rightarrow> {cert_key_id (cr_certificate (set_current l)), cert_key_id (cr_certificate (set_next l))})"

abbreviation unprotected :: "transaction \<Rightarrow> string option \<Rightarrow> bool" where
  "unprotected tx k \<equiv> k \<notin> Some ` protected_passwords tx"

lemma password_ids_protected: "password_ids_in_use tx = Ok ids \<Longrightarrow> set ids = protected_passwords tx"
  by (auto simp: password_ids_in_use_def latest_outcome_def out_bind_Ok_iff protected_passwords_def)

lemma key_ids_protected: "key_ids_in_use tx = Ok ids \<Longrightarrow> set ids = protected_keys tx"
  by (auto simp: key_ids_in_use_def latest_outcome_def out_bind_Ok_iff protected_keys_def)

lemma candidates_unused:
  assumes "revocation_candidates ids cs = Ok revoked" "c \<in> set revoked"
  shows "pc_key_id c \<notin> Some ` set ids"
proof -
  obtain n ics where f: "out_filter (\<lambda>(i, c). out_bind (has_matching_key_id ids (pc_key_id c)) (\<lambda>m.
         Ok ((m \<or> i = n) = False))) (enumerate 0 cs) = Ok ics" "revoked = map snd ics"
    using assms by (auto simp: revocation_candidates_def select_credentials_def out_bind_Ok_iff
        split: if_splits)
  show ?thesis
    using out_filter_subset [OF f(1)] f(2) assms(2)
    by (fastforce simp: has_matching_key_id_def out_bind_Ok_iff)
qed

lemma revoke_unused_passwords_emits:
  assumes "\<And>u. emits (credential_request (unprotected tx)) (rest u)"
  shows "emits (credential_request (unprotected tx))
     (bnd (lift (password_ids_in_use tx)) (\<lambda>ids.
      bnd (lift (revocation_candidates ids cs)) (\<lambda>revoked.
      bnd (remove_passwords env app revoked) rest)))"
proof (cases "password_ids_in_use tx")
  case (Ok ids)
  show ?thesis
  proof (cases "revocation_candidates ids cs")
    case (Ok revoked)
    have "emits (credential_request (unprotected tx)) (bnd (remove_passwords env app revoked) rest)"
      by (intro emits.bnd remove_passwords_emits assms)
         (use candidates_unused [OF Ok] password_ids_protected [OF \<open>password_ids_in_use tx = Ok ids\<close>] in simp)
    then show ?thesis using Ok \<open>password_ids_in_use tx = Ok ids\<close> by simp
  qed (use Ok in \<open>auto simp: bnd_def lift_def emits_rel_def moves_def\<close>)
qed (auto simp: bnd_def lift_def emits_rel_def moves_def)

lemma password_rotate_emits: "emits (credential_request (unprotected tx)) (password_rotate env tx)"
  unfolding password_rotate_def
  by (intro emits.bnd application_get_credential revoke_unused_passwords_emits delay_emits
      password_add_emits)

lemma bnd_unit_right: "bnd m (\<lambda>_. ret ()) = m"
  by (rule ext) (auto simp: bnd_def ret_def split: prod.split outcome.split)

lemma password_delete_unused_emits:
  "emits (credential_request (unprotected tx)) (password_delete_unused env tx)"
  unfolding password_delete_unused_def
  by (rule emits.bnd, rule application_get_credential,
      rule revoke_unused_passwords_emits [where rest = "\<lambda>_. ret ()", OF emits.ret, unfolded bnd_unit_right])

lemma credentials_emits:
  "emits (credential_request (unprotected tx)) (credentials_rotate env tx)"
  "emits (credential_request (unprotected tx)) (credentials_delete_unused env tx)"
  "emits (credential_request unused) (credentials_add env tx)"
  "emits (credential_request unused) (credentials_validate env tx existing)"
  "emits (credential_request (\<lambda>_. True)) (credentials_delete_expired env tx)"
  "emits (credential_request (\<lambda>_. True)) (credentials_purge env tx)"
  unfolding credentials_rotate_def credentials_delete_unused_def credentials_add_def
    credentials_validate_def credentials_delete_expired_def credentials_purge_def
  by (auto intro!: emits.bnd emits.wrap emits.lift emits.ret delay_emits key_credential_emits
      password_rotate_emits password_delete_unused_emits password_add_emits password_validate_emits
      password_unrestricted_emits split: prod.split)

subsection \<open>The instance is left alone\<close>

lemma key_credential_new_same: "moves same_inst (key_credential_new env tx)"
  unfolding key_credential_new_def generate_jwk_def new_rsa_key_pair_def certificate_template_def
    generate_certificate_def to_key_credential_def
  by (auto intro!: same_inst_intros)

lemma delay_same: "moves same_inst (delay env)"
  unfolding delay_def by (intro same_inst_intros)

lemma password_add_same: "moves same_inst (password_add env tx)"
  unfolding password_add_def to_add_request_def by (auto intro!: same_inst_intros)

lemma password_rotate_same: "moves same_inst (password_rotate env tx)"
  unfolding password_rotate_def remove_passwords_def password_remove_def
  by (auto intro!: same_inst_intros delay_same password_add_same emits_rules split: sum.split)

lemma credentials_same [emits_rules]:
  "moves same_inst (credentials_rotate env tx)"
  "moves same_inst (credentials_delete_unused env tx)"
  "moves same_inst (credentials_add env tx)"
  "moves same_inst (credentials_validate env tx existing)"
  "moves same_inst (credentials_delete_expired env tx)"
  "moves same_inst (credentials_purge env tx)"
proof -
  note new = key_credential_new_same
  note del = delay_same
  note add = password_add_same
  have rem: "moves same_inst (password_remove env i k)" for i k
    unfolding password_remove_def by (auto intro!: same_inst_intros del split: sum.split)
  have fil: "moves same_inst (filter_revoked_keys env tx)"
    unfolding filter_revoked_keys_def by (intro same_inst_intros emits_rules)
  show "moves same_inst (credentials_rotate env tx)"
    unfolding credentials_rotate_def password_rotate_def key_credential_rotate_def remove_passwords_def
    by (auto intro!: same_inst_intros new del rem add fil emits_rules split: prod.split)
  show "moves same_inst (credentials_delete_unused env tx)"
    unfolding credentials_delete_unused_def password_delete_unused_def key_credential_delete_unused_def
      remove_passwords_def
    by (auto intro!: same_inst_intros rem fil emits_rules)
  show "moves same_inst (credentials_add env tx)"
    unfolding credentials_add_def key_credential_add_def
    by (auto intro!: same_inst_intros new del add emits_rules split: prod.split)
  show "moves same_inst (credentials_validate env tx existing)"
    unfolding credentials_validate_def password_validate_def key_credential_validate_def validate_step_def
    by (auto intro!: same_inst_intros emits_rules split: prod.split)
  show "moves same_inst (credentials_delete_expired env tx)"
    unfolding credentials_delete_expired_def key_credential_delete_expired_def keep_unexpired_def
      password_delete_expired_def remove_if_expired_def
    by (auto intro!: same_inst_intros rem emits_rules)
  show "moves same_inst (credentials_purge env tx)"
    unfolding credentials_purge_def password_purge_def key_credential_purge_def remove_passwords_def
    by (auto intro!: same_inst_intros rem emits_rules)
qed

subsection \<open>Evaluation\<close>

lemmas credentialsClient_runs [runs] =
  credentials_add_def [THEN fun_cong] credentials_delete_expired_def [THEN fun_cong]
    credentials_delete_unused_def [THEN fun_cong] credentials_purge_def [THEN fun_cong]
    credentials_rotate_def [THEN fun_cong] credentials_validate_def [THEN fun_cong]

end
