(* ===== verification/CredentialProperties.thy ===== *)
theory CredentialProperties
  imports CredentialsClient
begin

text \<open>
  What the operations on the credentials of an application achieve: which credentials are
  revoked, kept, added and accepted. The laws of the locale \<open>revocation\<close> carry the proofs.
\<close>

subsection \<open>A directory that lists one application\<close>

text \<open>\<open>lists_only env app\<close>: Graph answers every listing of applications with \<open>app\<close>.\<close>

definition lists_only :: "env \<Rightarrow> graph_application \<Rightarrow> bool" where
  "lists_only env app \<longleftrightarrow> (\<forall>h q. e_applications env h q = Inr [app]) \<and> ga_app_id app \<noteq> None"

text \<open>A program that leaves the instance alone only adds requests to the history.\<close>

lemma runs_reading:
  assumes "emits Q m" "moves same_inst m" "m s = (r, s')"
  obtains n where "s' = s\<lparr>trace := n @ trace s\<rparr>" "\<forall>e \<in> set n. Q e"
proof -
  obtain n where "trace s' = n @ trace s" "\<forall>e \<in> set n. Q e"
    using movesD [OF assms(1,3)] by (auto simp: emits_rel_def)
  moreover have "inst s' = inst s" using movesD [OF assms(2,3)] by (simp add: same_inst_def)
  ultimately show ?thesis using that by (cases s, cases s') auto
qed

lemma is_managed_runs:
  assumes "ga_app_id app = Some i"
  shows "\<exists>b n. is_managed env app s = (Ok b, s\<lparr>trace := n @ trace s\<rparr>) \<and> (\<forall>e \<in> set n. reads e)"
proof -
  obtain r s' where run: "is_managed env app s = (r, s')" by (cases "is_managed env app s")
  moreover have "\<exists>b. r = Ok b"
    using run assms
    by (auto simp: is_managed_def bnd_def ask_def notify_def ret_def lift_def split: option.splits if_splits)
  ultimately show ?thesis by (metis runs_reading [OF is_managed_reads is_managed_same])
qed

lemma application_get_runs:
  assumes "lists_only env app"
  obtains n where "application_get env tx s = (Ok app, s\<lparr>trace := n @ trace s\<rparr>)" "\<forall>e \<in> set n. reads e"
proof -
  obtain i where i: "ga_app_id app = Some i" using assms by (auto simp: lists_only_def)
  define f where "f = filter_by_name (tx_urn tx)"
  define q where "q = Graph (ListApplications f (max_pages env))"
  obtain b n where n: "is_managed env app (s\<lparr>trace := (q, True) # trace s\<rparr>) =
      (Ok b, s\<lparr>trace := n @ (q, True) # trace s\<rparr>)" "\<forall>e \<in> set n. reads e"
    using is_managed_runs [OF i, of env "s\<lparr>trace := (q, True) # trace s\<rparr>"] by auto
  have "call q (e_applications env) s = (Ok [app], s\<lparr>trace := (q, True) # trace s\<rparr>)"
    using assms by (simp add: call_def lists_only_def)
  then have "get_all env [f] s = (Ok [app], s\<lparr>trace := n @ (q, True) # trace s\<rparr>)"
    using n(1) by (simp add: get_all_def q_def [symmetric] bnd_run_Ok)
  then have "application_get env tx s = (Ok app, s\<lparr>trace := (n @ [(q, True)]) @ trace s\<rparr>)"
    by (simp add: application_get_def application_get_by_name_def get_single_by_filter_or_error_def
        f_def bnd_run_Ok)
  then show ?thesis using n(2) that [of "n @ [(q, True)]"] by (auto simp: q_def)
qed

lemma filter_revoked_keys_Ok:
  assumes "filter_revoked_keys env tx s = (Ok ks, s1)"
    and "lists_only env app"
    and "listed_credentials kc_key_id kc_start (ga_key_credentials app)"
  shows "set ks \<subseteq> set (ga_key_credentials app)"
    and "\<And>c i. c \<in> set (ga_key_credentials app) \<Longrightarrow> kc_key_id c = Some i \<Longrightarrow> i \<in> protected_keys tx \<Longrightarrow> c \<in> set ks"
    and "ga_key_credentials app \<noteq> [] \<Longrightarrow>
      \<exists>c \<in> set ks. \<forall>c' \<in> set (ga_key_credentials app). the (kc_start c') \<le> the (kc_start c)"
    and "inst s1 = inst s"
proof -
  from application_get_runs [OF assms(2)] obtain n where
    g: "application_get env tx s = (Ok app, s\<lparr>trace := n @ trace s\<rparr>)" .
  obtain ids where ids: "key_ids_in_use tx = Ok ids" "keep_keys ids (ga_key_credentials app) = Ok ks"
    and s1: "s1 = s\<lparr>trace := n @ trace s\<rparr>"
    using assms(1) g by (auto simp: filter_revoked_keys_def bnd_Ok_iff)
  show "set ks \<subseteq> set (ga_key_credentials app)"
    by (rule key_revocation.keeps_subset [OF assms(3) ids(2)])
  show "\<And>c i. c \<in> set (ga_key_credentials app) \<Longrightarrow> kc_key_id c = Some i \<Longrightarrow> i \<in> protected_keys tx \<Longrightarrow> c \<in> set ks"
    using key_revocation.keeps_in_use [OF assms(3) ids(2)] key_ids_protected [OF ids(1)] by blast
  show "ga_key_credentials app \<noteq> [] \<Longrightarrow>
      \<exists>c \<in> set ks. \<forall>c' \<in> set (ga_key_credentials app). the (kc_start c') \<le> the (kc_start c)"
    by (rule key_revocation.keeps_newest [OF assms(3) ids(2)])
  show "inst s1 = inst s" using s1 by simp
qed

lemma patch_Ok:
  "application_patch env oid p s = (Ok x, s') \<Longrightarrow> s' = s\<lparr>trace := (Graph (PatchApplication oid p), True) # trace s\<rparr>"
  by (simp add: application_patch_def call_Ok_iff)

subsection \<open>Removing passwords\<close>

text \<open>The removals of passwords and the patches of applications in a part of the history.\<close>

fun removal_of :: "event \<Rightarrow> (object_id \<times> string option) option" where
  "removal_of (Graph (RemovePassword j k), ok) = Some (j, k)"
| "removal_of e = None"

fun patch_of :: "event \<Rightarrow> (object_id \<times> app_patch) option" where
  "patch_of (Graph (PatchApplication j p), ok) = Some (j, p)"
| "patch_of e = None"

definition removals :: "history \<Rightarrow> (object_id \<times> string option) set" where
  "removals n = set (List.map_filter removal_of n)"

definition patches :: "history \<Rightarrow> (object_id \<times> app_patch) set" where
  "patches n = set (List.map_filter patch_of n)"

lemma removals_simps [simp]:
  "removals [] = {}" "removals (n @ n') = removals n \<union> removals n'"
  "removals (e # n) = (case removal_of e of None \<Rightarrow> {} | Some r \<Rightarrow> {r}) \<union> removals n"
  by (auto simp: removals_def List.map_filter_def split: option.split)

lemma patches_simps [simp]:
  "patches [] = {}" "patches (n @ n') = patches n \<union> patches n'"
  "patches (e # n) = (case patch_of e of None \<Rightarrow> {} | Some r \<Rightarrow> {r}) \<union> patches n"
  by (auto simp: patches_def List.map_filter_def split: option.split)

lemma reads_nothing:
  assumes "\<forall>e \<in> set n. reads e"
  shows "removals n = {}" "patches n = {}"
proof -
  have "removal_of e = None" "patch_of e = None" if "reads e" for e
    using that by (cases e rule: removal_of.cases, auto, cases e rule: patch_of.cases, auto)
  then show "removals n = {}" "patches n = {}" using assms by (induction n) auto
qed

lemma password_remove_runs:
  obtains n where "password_remove env i (Some k) s = (Ok (), s\<lparr>trace := n @ trace s\<rparr>)"
    "removals n = {(i, Some k)}" "patches n = {}"
proof -
  define q where "q = (Runtime (Sleep (az_delay (azure_cfg env))), True)"
  have d: "delay env s = (Ok (), s\<lparr>trace := q # trace s\<rparr>)"
    by (simp add: delay_def notify_def ask_def q_def)
  show ?thesis
  proof (cases "e_unit env (q # trace s) (Graph (RemovePassword i (Some k)))")
    case (Inl e)
    then show ?thesis
      by (intro that [of "[(Graph (RemovePassword i (Some k)), False), q]"])
         (auto simp: password_remove_def d bnd_run_Ok attempt_def call_def q_def ret_def)
  next
    case (Inr u)
    then show ?thesis
      by (intro that [of "[(Graph (RemovePassword i (Some k)), True), q]"])
         (auto simp: password_remove_def d bnd_run_Ok attempt_def call_def q_def ret_def)
  qed
qed

lemma remove_passwords_runs:
  assumes "ga_id app = Some i" "\<forall>c \<in> set cs. pc_key_id c \<noteq> None"
  shows "\<exists>n. remove_passwords env app cs s = (Ok (), s\<lparr>trace := n @ trace s\<rparr>) \<and>
    removals n = {i} \<times> pc_key_id ` set cs"
  using assms(2)
proof (induction cs arbitrary: s)
  case Nil
  show ?case by (rule exI [of _ "[]"]) (auto simp: remove_passwords_def ret_def)
next
  case (Cons c cs)
  obtain k where k: "pc_key_id c = Some k" using Cons.prems by auto
  obtain n1 where n1: "password_remove env i (Some k) s = (Ok (), s\<lparr>trace := n1 @ trace s\<rparr>)"
    "removals n1 = {(i, Some k)}"
    by (rule password_remove_runs)
  have "\<forall>c \<in> set cs. pc_key_id c \<noteq> None" using Cons.prems by simp
  from Cons.IH [OF this, of "s\<lparr>trace := n1 @ trace s\<rparr>"] obtain n2 where
    n2: "remove_passwords env app cs (s\<lparr>trace := n1 @ trace s\<rparr>) = (Ok (), s\<lparr>trace := n2 @ n1 @ trace s\<rparr>)"
    "removals n2 = {i} \<times> pc_key_id ` set cs" by auto
  have "remove_passwords env app (c # cs) s = (Ok (), s\<lparr>trace := (n2 @ n1) @ trace s\<rparr>)"
    using n1(1) n2(1) k assms(1) by (simp add: remove_passwords_def bnd_run_Ok)
  then show ?case using n1(2) n2(2) k by (intro exI [of _ "n2 @ n1"]) auto
qed

subsection \<open>Looking for two key IDs\<close>

lemma validate_fold:
  assumes "\<forall>h. e_time env h = t" "\<forall>c \<in> set cs. expiry c \<noteq> None \<and> key_id c \<noteq> None"
  shows "\<exists>n. fold_io (validate_step env expiry key_id cur nxt) cs acc s =
    (Ok (fst acc \<or> (\<exists>c \<in> set cs. key_id c = Some cur \<and> the (expiry c) > t),
         snd acc \<or> (\<exists>c \<in> set cs. key_id c = Some nxt \<and> the (expiry c) > t)), s\<lparr>trace := n @ trace s\<rparr>)"
  using assms(2)
proof (induction cs arbitrary: acc s)
  case Nil
  show ?case by (rule exI [of _ "[]"]) (simp add: ret_def)
next
  case (Cons c cs)
  obtain e i where c: "expiry c = Some e" "key_id c = Some i" using Cons.prems by auto
  let ?s1 = "s\<lparr>trace := (Runtime Now, True) # trace s\<rparr>"
  let ?acc = "(fst acc \<or> (i = cur \<and> e > t), snd acc \<or> (i = nxt \<and> e > t))"
  have step: "validate_step env expiry key_id cur nxt c acc s = (Ok ?acc, ?s1)"
    using assms(1) c by (simp add: validate_step_def now_def ask_def bnd_run_Ok ret_def)
  have "\<forall>c \<in> set cs. expiry c \<noteq> None \<and> key_id c \<noteq> None" using Cons.prems by simp
  from Cons.IH [OF this, of ?acc ?s1] obtain n where
    "fold_io (validate_step env expiry key_id cur nxt) cs ?acc ?s1 =
    (Ok (fst ?acc \<or> (\<exists>c \<in> set cs. key_id c = Some cur \<and> the (expiry c) > t),
         snd ?acc \<or> (\<exists>c \<in> set cs. key_id c = Some nxt \<and> the (expiry c) > t)),
     s\<lparr>trace := (n @ [(Runtime Now, True)]) @ trace s\<rparr>)" by auto
  then show ?case
    using step c by (intro exI [of _ "n @ [(Runtime Now, True)]"]) (auto simp: bnd_run_Ok)
qed

subsection \<open>Removing what has expired\<close>

lemma keep_unexpired_fold:
  assumes "\<forall>h. e_time env h = t" "\<forall>c \<in> set cs. kc_end c \<noteq> None"
  shows "\<exists>n. fold_io (keep_unexpired env) cs acc s =
    (Ok (acc @ filter (\<lambda>c. the (kc_end c) > t) cs), s\<lparr>trace := n @ trace s\<rparr>) \<and> (\<forall>e \<in> set n. reads e)"
  using assms(2)
proof (induction cs arbitrary: acc s)
  case Nil
  show ?case by (rule exI [of _ "[]"]) (simp add: ret_def)
next
  case (Cons c cs)
  obtain e where c: "kc_end c = Some e" using Cons.prems by auto
  let ?s1 = "s\<lparr>trace := (Runtime Now, True) # trace s\<rparr>"
  let ?acc = "if e > t then acc @ [c] else acc"
  have step: "keep_unexpired env c acc s = (Ok ?acc, ?s1)"
    using assms(1) c by (simp add: keep_unexpired_def now_def ask_def bnd_run_Ok ret_def)
  have "\<forall>c \<in> set cs. kc_end c \<noteq> None" using Cons.prems by simp
  from Cons.IH [OF this, of ?acc ?s1] obtain n where
    "fold_io (keep_unexpired env) cs ?acc ?s1 = (Ok (?acc @ filter (\<lambda>c. the (kc_end c) > t) cs),
      s\<lparr>trace := (n @ [(Runtime Now, True)]) @ trace s\<rparr>)" "\<forall>e \<in> set n. reads e" by auto
  then show ?case
    using step c by (intro exI [of _ "n @ [(Runtime Now, True)]"]) (auto simp: bnd_run_Ok)
qed

lemma remove_expired_loop:
  assumes "\<forall>h. e_time env h = t" "ga_id app = Some i"
    and "\<forall>c \<in> set cs. pc_end c \<noteq> None \<and> pc_key_id c \<noteq> None"
  shows "\<exists>n. for_each (remove_if_expired env app) cs s = (Ok (), s\<lparr>trace := n @ trace s\<rparr>) \<and>
    removals n =
      {i} \<times> pc_key_id ` {c \<in> set cs. the (pc_end c) < t} \<and> patches n = {}"
  using assms(3)
proof (induction cs arbitrary: s)
  case Nil
  show ?case by (rule exI [of _ "[]"]) (auto simp: ret_def)
next
  case (Cons c cs)
  obtain e k where c: "pc_end c = Some e" "pc_key_id c = Some k" using Cons.prems by auto
  let ?s1 = "s\<lparr>trace := (Runtime Now, True) # trace s\<rparr>"
  obtain n1 where n1: "remove_if_expired env app c s = (Ok (), s\<lparr>trace := n1 @ trace s\<rparr>)"
    "removals n1 = (if e < t then {(i, Some k)} else {})" "patches n1 = {}"
  proof (cases "e < t")
    case True
    obtain n where "password_remove env i (Some k) ?s1 = (Ok (), ?s1\<lparr>trace := n @ trace ?s1\<rparr>)"
      "removals n = {(i, Some k)}" "patches n = {}"
      by (rule password_remove_runs)
    then show ?thesis
      using that [of "n @ [(Runtime Now, True)]"] c assms(1,2) True
      by (simp add: remove_if_expired_def now_def ask_def bnd_run_Ok)
  next
    case False
    then show ?thesis
      using that [of "[(Runtime Now, True)]"] c assms(1,2)
      by (simp add: remove_if_expired_def now_def ask_def bnd_run_Ok ret_def)
  qed
  have "\<forall>c \<in> set cs. pc_end c \<noteq> None \<and> pc_key_id c \<noteq> None" using Cons.prems by simp
  from Cons.IH [OF this, of "s\<lparr>trace := n1 @ trace s\<rparr>"] obtain n2 where
    n2: "for_each (remove_if_expired env app) cs (s\<lparr>trace := n1 @ trace s\<rparr>) =
      (Ok (), s\<lparr>trace := n2 @ n1 @ trace s\<rparr>)"
    "removals n2 =
      {i} \<times> pc_key_id ` {c \<in> set cs. the (pc_end c) < t}" "patches n2 = {}" by auto
  have "for_each (remove_if_expired env app) (c # cs) s = (Ok (), s\<lparr>trace := (n2 @ n1) @ trace s\<rparr>)"
    using n1(1) n2(1) by (simp add: bnd_run_Ok)
  moreover have "{c' \<in> set (c # cs). the (pc_end c') < t} =
      (if e < t then {c} else {}) \<union> {c \<in> set cs. the (pc_end c) < t}" using c by auto
  ultimately show ?case using n1(2,3) n2(2,3) c by (intro exI [of _ "n2 @ n1"]) auto
qed

subsection \<open>A concrete application\<close>

definition sample_password :: "string \<Rightarrow> time \<Rightarrow> password_credential" where
  "sample_password k t =
     \<lparr>pc_key_id = Some k, pc_display_name = Some ''azurerator-2024'', pc_start = Some t,
      pc_end = Some (t + 95), pc_secret = None\<rparr>"

definition sample_certificate :: "string \<Rightarrow> time \<Rightarrow> key_credential" where
  "sample_certificate k t =
     \<lparr>kc_key_id = Some k, kc_display_name = Some ''azurerator-2024'', kc_start = Some t,
      kc_end = Some (t + 95), kc_type = None, kc_usage = None, kc_key = None\<rparr>"

definition sample_app :: graph_application where
  "sample_app = plain_registered
     \<lparr>ga_password_credentials :=
        [sample_password ''old'' 3, sample_password ''pw-1'' 10, sample_password ''pw-2'' 20,
         sample_password ''new'' 30],
      ga_key_credentials :=
        [sample_certificate ''old'' 3, sample_certificate ''cert-1'' 10, sample_certificate ''cert-2'' 20]\<rparr>"

definition sample_env :: env where
  "sample_env = quiet_env\<lparr>e_applications := (\<lambda>_ _. Inr [sample_app])\<rparr>"

definition sample_tx :: transaction where
  "sample_tx = plain_tx\<lparr>tx_secrets := (tx_secrets plain_tx)
     \<lparr>txs_latest := \<lparr>latest_set = Some sample_set, latest_valid = True\<rparr>\<rparr>\<rparr>"

definition bare_env :: env where
  "bare_env = quiet_env\<lparr>e_applications := (\<lambda>_ _. Inr [plain_registered])\<rparr>"

lemmas sample_evals =
  bare_env_def sample_env_def sample_app_def sample_tx_def sample_password_def sample_certificate_def
  sample_set_def sample_credentials_def latest_outcome_def password_ids_in_use_def
  revocation_candidates_def has_managed_key_def key_ids_in_use_def keep_keys_def
  select_credentials_def has_matching_key_id_def has_prefix_def AzureratorPrefix_def
  remove_duplicates_def from_jwk_def quiet_codec_def

lemma bare_lists: "lists_only bare_env plain_registered"
  by (simp add: lists_only_def bare_env_def plain_registered_def)

lemma sample_protected: "protected_passwords sample_tx = {''pw-1'', ''pw-2''}"
  by (simp add: protected_passwords_def sample_tx_def plain_tx_def sample_set_def sample_credentials_def)

lemma sample_facts:
  "lists_only sample_env sample_app" "ga_id sample_app = Some ''oid''" "latest_of sample_tx = Some sample_set"
  "\<forall>h. e_time sample_env h = 100" "\<forall>h q. e_unit sample_env h q = Inr ()"
  by (simp_all add: lists_only_def sample_env_def sample_app_def plain_registered_def sample_tx_def)

lemma sample_listed:
  "listed_credentials pc_key_id pc_start (ga_password_credentials sample_app)"
  "listed_credentials kc_key_id kc_start (ga_key_credentials sample_app)"
  "has_managed_key pc_display_name (ga_password_credentials sample_app)"
  "\<forall>c \<in> set (ga_password_credentials sample_app). pc_end c \<noteq> None \<and> pc_key_id c \<noteq> None"
  "\<forall>c \<in> set (ga_key_credentials sample_app). kc_end c \<noteq> None \<and> kc_key_id c \<noteq> None"
  by (simp_all add: listed_credentials_def sample_app_def sample_password_def sample_certificate_def
      has_managed_key_def has_prefix_def AzureratorPrefix_def)

subsection \<open>Properties\<close>

text \<open>
  Rotating the credentials and deleting the unused ones never send a removal of a password
  whose key ID is in use, that is referenced by a secret in use or in the latest credential set.
\<close>

theorem passwords_in_use_never_removed:
  assumes "credentials_rotate env tx s = (r, s') \<or> credentials_delete_unused env tx s = (r', s')"
    and "(Graph (RemovePassword oid k), ok) \<in> set (trace s')"
    and "(Graph (RemovePassword oid k), ok) \<notin> set (trace s)"
  shows "k \<notin> Some ` protected_passwords tx"
  using assms(1)
proof
  assume "credentials_rotate env tx s = (r, s')"
  from emits_new [OF credentials_emits(1) this assms(2)] show ?thesis using assms(3) by simp
next
  assume "credentials_delete_unused env tx s = (r', s')"
  from emits_new [OF credentials_emits(2) this assms(2)] show ?thesis using assms(3) by simp
qed

lemma passwords_in_use_never_removed_witness:
  "\<exists>e \<in> set (trace (snd (credentials_delete_unused sample_env sample_tx start_state))).
     removal_of e \<noteq> None \<and> removal_of e \<noteq> Some (''oid'', Some ''pw-1'')"
proof -
  let ?run = "credentials_delete_unused sample_env sample_tx start_state"
  have "list_ex (\<lambda>e. removal_of e \<noteq> None) (trace (snd ?run))"
    by (simp add: runs sample_evals cong: eval_congs)
  then obtain e where e: "e \<in> set (trace (snd ?run))" "removal_of e \<noteq> None" by (auto simp: list_ex_iff)
  then obtain j k ok where r: "e = (Graph (RemovePassword j k), ok)" by (cases e rule: removal_of.cases) auto
  have "k \<notin> Some ` protected_passwords sample_tx"
    by (rule passwords_in_use_never_removed [of sample_env sample_tx start_state "Panic" "snd ?run" "fst ?run" j k ok])
       (use e(1) r in \<open>auto simp: start_state_def\<close>)
  then have "k \<noteq> Some ''pw-1''"
    by (simp add: protected_passwords_def sample_facts sample_set_def sample_credentials_def)
  then show ?thesis using r by (intro bexI [OF _ e(1)]) simp
qed

lemma unused_removed:
  assumes "lists_only env app" "ga_id app = Some oid" "latest_of tx \<noteq> None"
    and "listed_credentials pc_key_id pc_start (ga_password_credentials app)"
  shows "\<exists>n newest. password_delete_unused env tx s = (Ok (), s\<lparr>trace := n @ trace s\<rparr>) \<and>
    (ga_password_credentials app \<noteq> [] \<longrightarrow> newest_of pc_start (ga_password_credentials app) newest) \<and>
    removals n = (if has_managed_key pc_display_name (ga_password_credentials app)
      then {oid} \<times> {k. \<exists>c \<in> set (ga_password_credentials app). k = pc_key_id c \<and>
        the k \<notin> protected_passwords tx \<and> c \<noteq> newest}
      else {})"
proof -
  let ?cs = "ga_password_credentials app"
  obtain ids where ids: "password_ids_in_use tx = Ok ids"
    using assms(3) by (auto simp: password_ids_in_use_def latest_outcome_def)
  have "\<exists>k. newest_index pc_start 0 ?cs None 0 = Ok k"
    by (rule case_split [of "?cs = []"], simp) (blast elim: newest_index_listed [OF assms(4)])
  then obtain k where k: "newest_index pc_start 0 ?cs None 0 = Ok k" ..
  note newest = newest_index_newest [OF k]
  define revoked where "revoked = (if has_managed_key pc_display_name ?cs
     then filter (\<lambda>c. \<not> (the (pc_key_id c) \<in> protected_passwords tx \<or> c = ?cs ! k)) ?cs else [])"
  have candidates: "revocation_candidates ids ?cs = Ok revoked"
    using select_credentials_listed [OF assms(4) managed_newest [OF assms(4) _ k]] password_ids_protected [OF ids] k
    by (simp add: revocation_candidates_def revoked_def)
  from application_get_runs [OF assms(1)] obtain n1 where
    n1: "application_get env tx s = (Ok app, s\<lparr>trace := n1 @ trace s\<rparr>)" "\<forall>e \<in> set n1. reads e" .
  have "\<forall>c \<in> set revoked. pc_key_id c \<noteq> None"
    using assms(4) by (simp add: listed_credentials_def revoked_def)
  from remove_passwords_runs [OF assms(2) this, of env "s\<lparr>trace := n1 @ trace s\<rparr>"]
  obtain n2 where n2: "remove_passwords env app revoked
      (s\<lparr>trace := n1 @ trace s\<rparr>) = (Ok (), s\<lparr>trace := (n2 @ n1) @ trace s\<rparr>)"
    "removals n2 = {oid} \<times> pc_key_id ` set revoked" by auto
  have "removals (n2 @ n1) = removals n2" using reads_nothing(1) [OF n1(2)] by simp
  moreover have "password_delete_unused env tx s = (Ok (), s\<lparr>trace := (n2 @ n1) @ trace s\<rparr>)"
    using n1(1) n2(1) ids candidates by (simp add: password_delete_unused_def bnd_run_Ok)
  ultimately show ?thesis
    using n2(2) newest by (intro exI [of _ "n2 @ n1"] exI [of _ "?cs ! k"]) (auto simp: revoked_def)
qed

text \<open>
  C10: deleting the unused passwords succeeds whatever Graph answers to the removals, and sends
  removals exactly for the listed passwords that are neither in use nor the newest one, the one with
  the latest start; it sends none when the operator created none of the listed passwords.
\<close>

theorem unused_passwords_removed:
  assumes "lists_only env app" "ga_id app = Some oid" "latest_of tx \<noteq> None"
    and "listed_credentials pc_key_id pc_start (ga_password_credentials app)"
  shows "\<exists>n newest. password_delete_unused env tx s = (Ok (), s\<lparr>trace := n @ trace s\<rparr>) \<and>
    (ga_password_credentials app \<noteq> [] \<longrightarrow> newest \<in> set (ga_password_credentials app) \<and>
      (\<forall>c \<in> set (ga_password_credentials app). the (pc_start c) \<le> the (pc_start newest))) \<and>
    removals n = (if has_managed_key pc_display_name (ga_password_credentials app)
      then {oid} \<times> {k. \<exists>c \<in> set (ga_password_credentials app). k = pc_key_id c \<and>
        the k \<notin> protected_passwords tx \<and> c \<noteq> newest}
      else {})"
proof -
  have "\<forall>c \<in> set (ga_password_credentials app). pc_start c \<noteq> None"
    using assms(4) by (simp add: listed_credentials_def)
  then have "newest_of pc_start (ga_password_credentials app) newest \<Longrightarrow>
    newest \<in> set (ga_password_credentials app) \<and>
    (\<forall>c \<in> set (ga_password_credentials app). the (pc_start c) \<le> the (pc_start newest))" for newest
    by (auto simp: newest_of_def)
  then show ?thesis using unused_removed [OF assms] by blast
qed

lemma unused_passwords_removed_witness:
  "\<exists>n. password_delete_unused sample_env sample_tx start_state = (Ok (), start_state\<lparr>trace := n\<rparr>) \<and>
     (''oid'', Some ''old'') \<in> removals n \<and> (''oid'', Some ''new'') \<notin> removals n"
proof -
  have "latest_of sample_tx \<noteq> None" by (simp add: sample_facts)
  have cs: "ga_password_credentials sample_app = [sample_password ''old'' 3, sample_password ''pw-1'' 10,
     sample_password ''pw-2'' 20, sample_password ''new'' 30]" by (simp add: sample_app_def)
  from unused_passwords_removed [OF sample_facts(1,2) \<open>latest_of sample_tx \<noteq> None\<close> sample_listed(1), of start_state]
  obtain n newest where n: "password_delete_unused sample_env sample_tx start_state =
      (Ok (), start_state\<lparr>trace := n @ trace start_state\<rparr>)"
    "newest \<in> set (ga_password_credentials sample_app)"
    "\<forall>c \<in> set (ga_password_credentials sample_app). the (pc_start c) \<le> the (pc_start newest)"
    "removals n = {''oid''} \<times> {k. \<exists>c \<in> set (ga_password_credentials sample_app). k = pc_key_id c \<and>
       the k \<notin> protected_passwords sample_tx \<and> c \<noteq> newest}"
    using sample_listed(3) cs by auto
  have "newest = sample_password ''new'' 30" using n(2,3) by (auto simp: cs sample_password_def)
  then have "(''oid'', Some ''old'') \<in> removals n" "(''oid'', Some ''new'') \<notin> removals n"
    unfolding n(4) sample_protected by (simp_all add: cs sample_password_def)
  then show ?thesis using n(1) by (auto simp: start_state_def)
qed

text \<open>
  C11: when unused key credentials are deleted, and when the credentials are rotated, the key
  credentials sent to Graph contain every listed one that is in use and a newest one, and apart
  from the one created by the rotation only listed ones.
\<close>

theorem keys_in_use_kept:
  assumes "lists_only env app" "listed_credentials kc_key_id kc_start (ga_key_credentials app)"
    and "key_credential_delete_unused env tx s = (Ok (), s') \<and> new = [] \<or>
         key_credential_rotate env tx s = (Ok (kc, j), s') \<and> new = [kc]"
  shows "\<exists>ks earlier.
    trace s' = (Graph (PatchApplication (status_object_id (app_status (inst s)))
      (PatchFields (with_keys (ks @ new) zero_application))), True) # earlier \<and>
    set ks \<subseteq> set (ga_key_credentials app) \<and>
    (\<forall>c \<in> set (ga_key_credentials app). kc_key_id c \<in> Some ` protected_keys tx \<longrightarrow> c \<in> set ks) \<and>
    (ga_key_credentials app \<noteq> [] \<longrightarrow>
      (\<exists>c \<in> set ks. \<forall>c' \<in> set (ga_key_credentials app). the (kc_start c') \<le> the (kc_start c)))"
proof -
  obtain ks s1 s2 where f: "filter_revoked_keys env tx s = (Ok ks, s1)" and i: "inst s2 = inst s1"
    and p: "application_patch env (status_object_id (app_status (inst s2)))
      (PatchFields (with_keys (ks @ new) zero_application)) s2 = (Ok (), s')"
    using assms(3)
  proof
    assume "key_credential_delete_unused env tx s = (Ok (), s') \<and> new = []"
    then show ?thesis
      using that by (auto simp: key_credential_delete_unused_def bnd_Ok_iff run_simps)
  next
    assume "key_credential_rotate env tx s = (Ok (kc, j), s') \<and> new = [kc]"
    then obtain s1 s2 ks where "filter_revoked_keys env tx s = (Ok ks, s1)"
      "key_credential_new env tx s1 = (Ok (kc, j), s2)"
      "application_patch env (status_object_id (app_status (inst s2)))
        (PatchFields (with_keys (ks @ new) zero_application)) s2 = (Ok (), s')"
      by (auto simp: key_credential_rotate_def bnd_Ok_iff run_simps)
    moreover from this(2) have "inst s2 = inst s1"
      using movesD [OF key_credential_new_same] by (simp add: same_inst_def)
    ultimately show ?thesis using that by blast
  qed
  note kept = filter_revoked_keys_Ok [OF f assms(1,2)]
  show ?thesis
    using patch_Ok [OF p] i kept by (intro exI [of _ ks] exI [of _ "trace s2"]) auto
qed

lemma keys_in_use_kept_witness:
  "\<exists>ks earlier. trace (snd (key_credential_delete_unused sample_env sample_tx start_state)) =
     (Graph (PatchApplication [] (PatchFields (with_keys ks zero_application))), True) # earlier \<and>
     sample_certificate ''cert-1'' 10 \<in> set ks"
proof -
  let ?run = "key_credential_delete_unused sample_env sample_tx start_state"
  have "fst ?run = Ok ()" by (simp add: runs sample_evals cong: eval_congs)
  then have run: "?run = (Ok (), snd ?run)" by (metis prod.collapse)
  have c: "sample_certificate ''cert-1'' 10 \<in> set (ga_key_credentials sample_app)"
    "kc_key_id (sample_certificate ''cert-1'' 10) \<in> Some ` protected_keys sample_tx"
    by (simp_all add: sample_app_def sample_certificate_def protected_keys_def sample_facts sample_set_def
        sample_credentials_def)
  have "\<exists>ks earlier. trace (snd ?run) =
     (Graph (PatchApplication (status_object_id (app_status (inst start_state)))
       (PatchFields (with_keys (ks @ []) zero_application))), True) # earlier \<and>
     sample_certificate ''cert-1'' 10 \<in> set ks"
    using keys_in_use_kept [OF sample_facts(1) sample_listed(2), of sample_tx start_state "snd ?run" "[]"]
      run c by blast
  then show ?thesis by (simp add: start_state_def plain_app_def blank_status_def)
qed

text \<open>
  Adding credentials sends the listed key credentials, all of them, followed by the two new
  ones, whose key IDs are those of the set that is returned.
\<close>

theorem add_keeps_existing_keys:
  assumes "lists_only env app" "credentials_add env tx s = (Ok cs, s')"
  shows "\<exists>cur nxt earlier.
    trace s' = (Graph (PatchApplication (status_object_id (app_status (inst s)))
      (PatchFields (with_keys (ga_key_credentials app @ [cur, nxt]) zero_application))), True) # earlier \<and>
    kc_key_id cur = Some (cert_key_id (cr_certificate (set_current cs))) \<and>
    kc_key_id nxt = Some (cert_key_id (cr_certificate (set_next cs)))"
proof -
  obtain keys s1 where k: "key_credential_add env tx s1 = (Ok keys, s')" and i: "inst s1 = inst s"
    and cs: "kc_key_id (akc_key_credential (akcs_current keys)) = Some (cert_key_id (cr_certificate (set_current cs)))"
      "kc_key_id (akc_key_credential (akcs_next keys)) = Some (cert_key_id (cr_certificate (set_next cs)))"
  proof -
    obtain s2 s3 s4 s5 s1 pw1 pw2 keys where steps: "delay env s = (Ok (), s2)"
      "password_add env tx s2 = (Ok pw1, s3)" "delay env s3 = (Ok (), s4)"
      "password_add env tx s4 = (Ok pw2, s5)" "delay env s5 = (Ok (), s1)"
      and k: "key_credential_add env tx s1 = (Ok keys, s')"
      and cs: "kc_key_id (akc_key_credential (akcs_current keys)) = Some (cert_key_id (cr_certificate (set_current cs)))"
      "kc_key_id (akc_key_credential (akcs_next keys)) = Some (cert_key_id (cr_certificate (set_next cs)))"
      using assms(2) by (auto simp: credentials_add_def bnd_Ok_iff)
    have "inst s1 = inst s"
      using steps movesD [OF delay_same] movesD [OF password_add_same] unfolding same_inst_def by metis
    then show ?thesis using that k cs by blast
  qed
  from application_get_runs [OF assms(1)] obtain n where
    g: "application_get env tx s1 = (Ok app, s1\<lparr>trace := n @ trace s1\<rparr>)" .
  obtain cur cur_jwk nxt nxt_jwk s2 s3 where
    n1: "key_credential_new env tx (s1\<lparr>trace := n @ trace s1\<rparr>) = (Ok (cur, cur_jwk), s2)"
    and n2: "key_credential_new env tx s2 = (Ok (nxt, nxt_jwk), s3)"
    and p: "application_patch env (status_object_id (app_status (inst s3)))
      (PatchFields (with_keys (ga_key_credentials app @ [cur, nxt]) zero_application)) s3 = (Ok (), s')"
    and keys: "akc_key_credential (akcs_current keys) = cur" "akc_key_credential (akcs_next keys) = nxt"
    using k g by (auto simp: key_credential_add_def bnd_Ok_iff run_simps)
  have "inst s3 = inst s1"
    using movesD [OF key_credential_new_same n1] movesD [OF key_credential_new_same n2]
    by (simp add: same_inst_def)
  then show ?thesis
    using patch_Ok [OF p] i cs keys by (intro exI [of _ cur] exI [of _ nxt] exI [of _ "trace s3"]) auto
qed

lemma add_keeps_existing_keys_witness:
  "\<exists>cur nxt earlier. trace (snd (credentials_add bare_env sample_tx start_state)) =
     (Graph (PatchApplication [] (PatchFields (with_keys
       ([cur, nxt]) zero_application))), True) # earlier"
proof -
  let ?run = "credentials_add bare_env sample_tx start_state"
  have "is_ok (fst ?run)" by (simp add: runs sample_evals cong: eval_congs)
  then obtain cs where "?run = (Ok cs, snd ?run)" by (cases ?run; cases "fst ?run") auto
  from add_keeps_existing_keys [OF bare_lists this]
  show ?thesis by (auto simp: plain_registered_def zero_application_def start_state_def plain_app_def blank_status_def)
qed

text \<open>
  C9: after a rotation the current credentials are the next credentials of the latest set, and
  the next password is one that Graph created on a request of the rotation, with the key ID and
  the secret that Graph returned.
\<close>

theorem rotation_promotes_next:
  assumes "credentials_rotate env tx s = (Ok cs, s')" "latest_of tx = Some latest"
  shows "set_current cs = set_next latest \<and>
    (\<exists>h req pw. (Graph (AddPassword (status_object_id (app_status (inst s))) req), True) \<in> set (trace s') \<and>
       e_password env h (Graph (AddPassword (status_object_id (app_status (inst s))) req)) = Inr pw \<and>
       pc_key_id pw = Some (pw_key_id (cr_password (set_next cs))) \<and>
       pc_secret pw = Some (pw_client_secret (cr_password (set_next cs))))"
proof -
  obtain s1 s2 s3 pw key where steps: "delay env s = (Ok (), s1)"
    "password_rotate env tx s1 = (Ok pw, s2)" "delay env s2 = (Ok (), s3)"
    and k: "key_credential_rotate env tx s3 = (Ok key, s')"
    and cs: "set_current cs = set_next latest"
      "pc_key_id pw = Some (pw_key_id (cr_password (set_next cs)))"
      "pc_secret pw = Some (pw_client_secret (cr_password (set_next cs)))"
    using assms by (auto simp: credentials_rotate_def latest_outcome_def bnd_Ok_iff split: prod.splits)
  obtain s4 where pre: "password_add env tx s4 = (Ok pw, s2)"
    using steps(2) by (auto simp: password_rotate_def bnd_Ok_iff)
  have "inst s1 = inst s" "inst s2 = inst s1" "inst s2 = inst s4"
    using movesD [OF delay_same steps(1)] movesD [OF password_rotate_same steps(2)]
      movesD [OF password_add_same pre] by (simp_all add: same_inst_def)
  then have "inst s4 = inst s" by simp
  then obtain h req where add: "e_password env h (Graph (AddPassword (status_object_id (app_status (inst s))) req)) = Inr pw"
    "(Graph (AddPassword (status_object_id (app_status (inst s))) req), True) \<in> set (trace s2)"
    using pre by (auto simp: password_add_def to_add_request_def bnd_Ok_iff run_simps)
  have em: "emits (\<lambda>_. True) (delay env)" "emits (\<lambda>_. True) (key_credential_rotate env tx)"
    by (rule emits_mono [OF delay_emits], simp) (rule emits_mono [OF key_credential_emits(4)], simp)
  then have "set (trace s2) \<subseteq> set (trace s')"
    using movesD [OF em(1) steps(3)] movesD [OF em(2) k]
    by (auto simp: emits_rel_def)
  then show ?thesis using add cs by blast
qed

lemma rotation_promotes_next_witness:
  "\<exists>cs s'. credentials_rotate bare_env sample_tx start_state = (Ok cs, s') \<and>
     set_current cs = sample_credentials ''2''"
proof -
  let ?run = "credentials_rotate bare_env sample_tx start_state"
  have "is_ok (fst ?run)" by (simp add: runs sample_evals cong: eval_congs)
  then obtain cs where run: "?run = (Ok cs, snd ?run)" by (cases ?run; cases "fst ?run") auto
  from rotation_promotes_next [OF run sample_facts(3)] have "set_current cs = set_next sample_set" by simp
  then show ?thesis using run by (auto simp: sample_set_def)
qed

text \<open>
  C12: while the clock stands still, validating a set of credentials succeeds exactly when Graph lists
  unexpired passwords and unexpired key credentials with the key IDs of its current and its next
  credentials.
\<close>

theorem validation_is_exact:
  assumes "lists_only env app" "\<forall>h. e_time env h = t"
    and "\<forall>c \<in> set (ga_password_credentials app). pc_end c \<noteq> None \<and> pc_key_id c \<noteq> None"
    and "\<forall>c \<in> set (ga_key_credentials app). kc_end c \<noteq> None \<and> kc_key_id c \<noteq> None"
  shows "fst (credentials_validate env tx cs s) = Ok
    (\<forall>cr \<in> {set_current cs, set_next cs}.
       (\<exists>c \<in> set (ga_password_credentials app).
          pc_key_id c = Some (pw_key_id (cr_password cr)) \<and> the (pc_end c) > t) \<and>
       (\<exists>c \<in> set (ga_key_credentials app).
          kc_key_id c = Some (cert_key_id (cr_certificate cr)) \<and> the (kc_end c) > t))"
proof -
  from application_get_runs [OF assms(1)] obtain n1 where
    "application_get env tx s = (Ok app, s\<lparr>trace := n1 @ trace s\<rparr>)" .
  moreover obtain n2 where "fold_io (validate_step env pc_end pc_key_id (pw_key_id (cr_password (set_current cs)))
      (pw_key_id (cr_password (set_next cs)))) (ga_password_credentials app) (False, False)
      (s\<lparr>trace := n1 @ trace s\<rparr>) =
    (Ok (\<exists>c \<in> set (ga_password_credentials app). pc_key_id c = Some (pw_key_id (cr_password (set_current cs))) \<and>
           the (pc_end c) > t,
         \<exists>c \<in> set (ga_password_credentials app). pc_key_id c = Some (pw_key_id (cr_password (set_next cs))) \<and>
           the (pc_end c) > t), s\<lparr>trace := n2 @ n1 @ trace s\<rparr>)"
    using validate_fold [OF assms(2,3), of "pw_key_id (cr_password (set_current cs))"
      "pw_key_id (cr_password (set_next cs))" "(False, False)" "s\<lparr>trace := n1 @ trace s\<rparr>"] by auto
  ultimately have p: "\<exists>s1. password_validate env tx cs s =
    (Ok (\<forall>cr \<in> {set_current cs, set_next cs}. \<exists>c \<in> set (ga_password_credentials app).
          pc_key_id c = Some (pw_key_id (cr_password cr)) \<and> the (pc_end c) > t), s1)"
    by (simp add: password_validate_def bnd_run_Ok ret_def)
  have k: "\<exists>s2. key_credential_validate env tx cs s1 =
    (Ok (\<forall>cr \<in> {set_current cs, set_next cs}. \<exists>c \<in> set (ga_key_credentials app).
          kc_key_id c = Some (cert_key_id (cr_certificate cr)) \<and> the (kc_end c) > t), s2)" for s1
  proof -
    from application_get_runs [OF assms(1)] obtain n1 where
      "application_get env tx s1 = (Ok app, s1\<lparr>trace := n1 @ trace s1\<rparr>)" .
    then show ?thesis
      using validate_fold [OF assms(2,4), of "cert_key_id (cr_certificate (set_current cs))"
        "cert_key_id (cr_certificate (set_next cs))" "(False, False)" "s1\<lparr>trace := n1 @ trace s1\<rparr>"]
      by (auto simp: key_credential_validate_def bnd_run_Ok ret_def)
  qed
  from p obtain s1 where s1: "password_validate env tx cs s =
    (Ok (\<forall>cr \<in> {set_current cs, set_next cs}. \<exists>c \<in> set (ga_password_credentials app).
          pc_key_id c = Some (pw_key_id (cr_password cr)) \<and> the (pc_end c) > t), s1)" ..
  from k [of s1] obtain s2 where "key_credential_validate env tx cs s1 =
    (Ok (\<forall>cr \<in> {set_current cs, set_next cs}. \<exists>c \<in> set (ga_key_credentials app).
          kc_key_id c = Some (cert_key_id (cr_certificate cr)) \<and> the (kc_end c) > t), s2)" ..
  then have "credentials_validate env tx cs s =
    (Ok ((\<forall>cr \<in> {set_current cs, set_next cs}. \<exists>c \<in> set (ga_password_credentials app).
          pc_key_id c = Some (pw_key_id (cr_password cr)) \<and> the (pc_end c) > t) \<and>
       (\<forall>cr \<in> {set_current cs, set_next cs}. \<exists>c \<in> set (ga_key_credentials app).
          kc_key_id c = Some (cert_key_id (cr_certificate cr)) \<and> the (kc_end c) > t)), s2)"
    using s1 unfolding credentials_validate_def wrap_def by (simp only: bnd_run_Ok ret_def)
       (simp add: bnd_def)
  then show ?thesis by auto
qed

lemma validation_is_exact_witness:
  "fst (credentials_validate sample_env sample_tx sample_set start_state) = Ok True"
  by (subst validation_is_exact [OF sample_facts(1,4) sample_listed(4,5)])
     (simp add: sample_app_def sample_password_def sample_certificate_def sample_set_def sample_credentials_def)

text \<open>
  C13: while the clock stands still and Graph accepts the requests, deleting expired credentials
  sends exactly the key credentials that end later than now, and removals exactly of the
  passwords that ended before now.
\<close>

theorem expired_credentials_removed:
  assumes "lists_only env app" "\<forall>h. e_time env h = t" "\<forall>h q. e_unit env h q = Inr ()"
    and "ga_id app = Some oid"
    and "\<forall>c \<in> set (ga_password_credentials app). pc_end c \<noteq> None \<and> pc_key_id c \<noteq> None"
    and "\<forall>c \<in> set (ga_key_credentials app). kc_end c \<noteq> None"
  shows "\<exists>n. credentials_delete_expired env tx s = (Ok (), s\<lparr>trace := n @ trace s\<rparr>) \<and>
    patches n =
      {(status_object_id (app_status (inst s)),
        PatchKeyCredentials (filter (\<lambda>c. the (kc_end c) > t) (ga_key_credentials app)))} \<and>
    removals n =
      {oid} \<times> pc_key_id ` {c \<in> set (ga_password_credentials app). the (pc_end c) < t}"
proof -
  from application_get_runs [OF assms(1)] obtain n1 where
    n1: "application_get env tx s = (Ok app, s\<lparr>trace := n1 @ trace s\<rparr>)" "\<forall>e \<in> set n1. reads e" .
  obtain n2 where n2: "fold_io (keep_unexpired env) (ga_key_credentials app) [] (s\<lparr>trace := n1 @ trace s\<rparr>) =
      (Ok (filter (\<lambda>c. the (kc_end c) > t) (ga_key_credentials app)), s\<lparr>trace := n2 @ n1 @ trace s\<rparr>)"
    "\<forall>e \<in> set n2. reads e"
    using keep_unexpired_fold [OF assms(2,6), of "[]" "s\<lparr>trace := n1 @ trace s\<rparr>"] by auto
  define q where "q = (Graph (PatchApplication (status_object_id (app_status (inst s)))
    (PatchKeyCredentials (filter (\<lambda>c. the (kc_end c) > t) (ga_key_credentials app)))), True)"
  have keys: "key_credential_delete_expired env tx s = (Ok (), s\<lparr>trace := (q # n2 @ n1) @ trace s\<rparr>)"
    using n1 n2 assms(3)
    by (simp add: key_credential_delete_expired_def bnd_run_Ok object_id_of_def gets_def
        application_patch_def call_def q_def)
  from application_get_runs [OF assms(1)] obtain n3 where
    n3: "application_get env tx (s\<lparr>trace := (q # n2 @ n1) @ trace s\<rparr>) =
      (Ok app, s\<lparr>trace := n3 @ (q # n2 @ n1) @ trace s\<rparr>)" "\<forall>e \<in> set n3. reads e"
    by (rule application_get_runs [OF assms(1), where tx = tx and s = "s\<lparr>trace := (q # n2 @ n1) @ trace s\<rparr>"]) simp
  obtain n4 where n4: "for_each (remove_if_expired env app) (ga_password_credentials app)
      (s\<lparr>trace := n3 @ (q # n2 @ n1) @ trace s\<rparr>) =
      (Ok (), s\<lparr>trace := n4 @ n3 @ (q # n2 @ n1) @ trace s\<rparr>)"
    "removals n4 = {oid} \<times> pc_key_id ` {c \<in> set (ga_password_credentials app). the (pc_end c) < t}" "patches n4 = {}"
    using remove_expired_loop [OF assms(2,4,5), of "s\<lparr>trace := n3 @ (q # n2 @ n1) @ trace s\<rparr>"] by auto
  have "credentials_delete_expired env tx s = (Ok (), s\<lparr>trace := (n4 @ n3 @ q # n2 @ n1) @ trace s\<rparr>)"
    using keys n3(1) n4(1)
    by (simp add: credentials_delete_expired_def password_delete_expired_def bnd_run_Ok)
  moreover have "removals (n4 @ n3 @ q # n2 @ n1) = removals n4"
    "patches (n4 @ n3 @ q # n2 @ n1) = patches n4 \<union> patches [q]"
    using n1(2) n2(2) n3(2) by (simp_all add: reads_nothing q_def)
  ultimately show ?thesis
    using n4(2,3) by (intro exI [of _ "n4 @ n3 @ q # n2 @ n1"]) (simp add: q_def)
qed

lemma expired_credentials_removed_witness:
  "\<exists>n. credentials_delete_expired sample_env sample_tx start_state = (Ok (), start_state\<lparr>trace := n\<rparr>) \<and>
     removals n = {(''oid'', Some ''old'')}"
proof -
  have keys: "\<forall>c \<in> set (ga_key_credentials sample_app). kc_end c \<noteq> None" using sample_listed(5) by simp
  have "ga_password_credentials sample_app = [sample_password ''old'' 3, sample_password ''pw-1'' 10,
     sample_password ''pw-2'' 20, sample_password ''new'' 30]" by (simp add: sample_app_def)
  then have "{c \<in> set (ga_password_credentials sample_app). the (pc_end c) < 100} = {sample_password ''old'' 3}"
    unfolding set_eq_iff by (simp add: sample_password_def) fastforce
  then have r: "{''oid''} \<times> pc_key_id ` {c \<in> set (ga_password_credentials sample_app). the (pc_end c) < 100} =
      {(''oid'', Some ''old'')}" by (simp add: sample_password_def)
  from expired_credentials_removed [OF sample_facts(1,4,5,2) sample_listed(4) keys, of sample_tx start_state]
  show ?thesis unfolding r by (auto simp: start_state_def)
qed

end
