(* ===== verification/ServicePrincipals.thy ===== *)
theory ServicePrincipals
  imports AppClient
begin

text \<open>
  The client of the Graph \<open>servicePrincipals\<close> resource
  (pkg/azure/client/serviceprincipal/serviceprincipal.go), the claims-mapping policies of a
  service principal (policies.go) and the permission grants
  (pkg/azure/client/oauth2permissiongrant/oauth2permissiongrant.go).
\<close>

subsection \<open>serviceprincipal.go\<close>

definition TagHideApp :: string where
  "TagHideApp = ''HideApp''"

definition sp_get_client_id :: "env \<Rightarrow> sp_id \<Rightarrow> client_id prog" where
  "sp_get_client_id env i =
     bnd (ask (Cache (GetClientId i)) (e_cached_string env)) (\<lambda>cached.
     case cached of
       Some v \<Rightarrow> ret v
     | None \<Rightarrow>
         bnd (wrap ''fetching service principal with id''
                (call (Graph (GetServicePrincipalById i)) (e_service_principal env))) (\<lambda>sp.
         bnd (lift (deref (sp_app_id sp))) (\<lambda>client_id.
         bnd (notify (Cache (SetClientId i client_id))) (\<lambda>_.
         ret client_id))))"

text \<open>\<open>None\<close> is the result \<open>false, msgraph.ServicePrincipal{}, nil\<close>.\<close>

definition sp_exists :: "env \<Rightarrow> client_id \<Rightarrow> service_principal option prog" where
  "sp_exists env i =
     bnd (wrap ''failed to lookup service principal''
            (call (Graph (ListServicePrincipals (filter_by_app_id i) (max_pages env)))
              (e_service_principals env))) (\<lambda>sps.
     case sps of
       [] \<Rightarrow> ret None
     | sp # _ \<Rightarrow>
         bnd (lift (deref (sp_id sp))) (\<lambda>spid.
         bnd (lift (deref (sp_app_id sp))) (\<lambda>client_id.
         bnd (notify (Cache (SetClientId spid client_id))) (\<lambda>_.
         ret (Some sp)))))"

definition sp_get_id_by_client_id :: "env \<Rightarrow> client_id \<Rightarrow> sp_id prog" where
  "sp_get_id_by_client_id env i =
     bnd (ask (Cache (GetServicePrincipalId i)) (e_cached_string env)) (\<lambda>cached.
     case cached of
       Some v \<Rightarrow> ret v
     | None \<Rightarrow>
         bnd (sp_exists env i) (\<lambda>found.
         case found of
           None \<Rightarrow> fail (Cause (Opaque ''service principal with client id not found''))
         | Some sp \<Rightarrow>
             bnd (lift (deref (sp_id sp))) (\<lambda>spid.
             bnd (notify (Cache (SetServicePrincipalId i spid))) (\<lambda>_.
             ret spid))))"

definition sp_register :: "env \<Rightarrow> transaction \<Rightarrow> service_principal prog" where
  "sp_register env tx =
     bnd client_id_of (\<lambda>client_id.
     let request =
       \<lparr>sp_id = None, sp_app_id = Some client_id,
        sp_assignment_required = Some (feat_role_assignment_required (features env)),
        sp_tags = [TagHideApp]\<rparr> in
     wrap ''failed to register service principal''
       (call (Graph (AddServicePrincipal request)) (e_service_principal env)))"

definition sp_update :: "env \<Rightarrow> transaction \<Rightarrow> service_principal \<Rightarrow> unit prog" where
  "sp_update env tx request =
     bnd sp_id_of (\<lambda>i.
       wrap ''updating service principal''
         (call (Graph (UpdateServicePrincipal i request)) (e_unit env)))"

definition set_app_role_assignment :: "env \<Rightarrow> transaction \<Rightarrow> bool \<Rightarrow> unit prog" where
  "set_app_role_assignment env tx required =
     bnd client_id_of (\<lambda>client_id.
     bnd (sp_exists env client_id) (\<lambda>found.
     case found of
       None \<Rightarrow> fail (Cause (Opaque ''service principal not found or unexpected response data''))
     | Some sp \<Rightarrow>
         (case sp_assignment_required sp of
            None \<Rightarrow> fail (Cause (Opaque ''service principal not found or unexpected response data''))
          | Some actual \<Rightarrow>
              if actual = required \<and> TagHideApp \<in> set (sp_tags sp) then ret ()
              else wrap ''setting approleassignment requirement for service principal''
                     (sp_update env tx
                       \<lparr>sp_id = None, sp_app_id = None, sp_assignment_required = Some required,
                        sp_tags = [TagHideApp]\<rparr>))))"

definition set_app_role_assignment_required :: "env \<Rightarrow> transaction \<Rightarrow> unit prog" where
  "set_app_role_assignment_required env tx = set_app_role_assignment env tx True"

definition set_app_role_assignment_not_required :: "env \<Rightarrow> transaction \<Rightarrow> unit prog" where
  "set_app_role_assignment_not_required env tx = set_app_role_assignment env tx False"

definition set_security_attributes :: "env \<Rightarrow> transaction \<Rightarrow> unit prog" where
  "set_security_attributes env tx =
     bnd sp_id_of (\<lambda>i.
       call (Graph (PatchSecurityAttributes i
              (SecurityAttributes ''#Microsoft.DirectoryServices.CustomSecurityAttributeValue'' ''NAIS'')))
         (e_unit env))"

subsection \<open>policies.go\<close>

definition claims_mapping_policy_body :: "string \<Rightarrow> string" where
  "claims_mapping_policy_body i =
     ''https://graph.microsoft.com/v1.0/policies/claimsMappingPolicies/'' @ i"

definition policy_id :: "string option \<Rightarrow> string option" where
  "policy_id p = (case p of Some i \<Rightarrow> if i \<noteq> [] then Some i else None | None \<Rightarrow> None)"

definition assign_policy :: "env \<Rightarrow> string \<Rightarrow> sp_id \<Rightarrow> unit prog" where
  "assign_policy env desired i =
     call (Graph (AssignPolicy i (claims_mapping_policy_body desired))) (e_unit env)"

definition get_assigned_policies :: "env \<Rightarrow> sp_id \<Rightarrow> string option list prog" where
  "get_assigned_policies env i = call (Graph (ListPolicies i)) (e_ids env)"

definition remove_policy :: "env \<Rightarrow> string \<Rightarrow> sp_id \<Rightarrow> unit prog" where
  "remove_policy env assigned i = call (Graph (RemovePolicy i assigned)) (e_unit env)"

text \<open>The loop over the assigned policies and the assignment after it.\<close>

fun policies_loop :: "env \<Rightarrow> string \<Rightarrow> sp_id \<Rightarrow> string option list \<Rightarrow> unit prog" where
  "policies_loop env desired i [] =
     wrap ''claims-mapping-policies: assigning'' (assign_policy env desired i)"
| "policies_loop env desired i (p # ps) =
     (case policy_id p of
        None \<Rightarrow> policies_loop env desired i ps
      | Some assigned \<Rightarrow>
          if assigned = desired then ret ()
          else bnd (wrap ''claims-mapping-policies: removing'' (remove_policy env assigned i))
                 (\<lambda>_. policies_loop env desired i ps))"

definition policies_process :: "env \<Rightarrow> transaction \<Rightarrow> string \<Rightarrow> unit prog" where
  "policies_process env tx desired =
     (if desired = [] then ret ()
      else bnd sp_id_of (\<lambda>i.
        if length i = 0
        then fail (Cause (Opaque ''claims-mapping-policies: service principal ID is not set''))
        else bnd (wrap ''claims-mapping-policies: fetching existing policies''
                    (get_assigned_policies env i))
               (policies_loop env desired i)))"

subsection \<open>oauth2permissiongrant.go\<close>

definition to_grant :: "env \<Rightarrow> sp_id \<Rightarrow> permission_grant" where
  "to_grant env i =
     \<lparr>gr_client_id = Some i, gr_consent_type = Some ''AllPrincipals'',
      gr_resource_id = Some (az_grant_resource_id (azure_cfg env)),
      gr_scope = Some ''openid User.Read GroupMember.Read.All''\<rparr>"

definition grant_exists :: "env \<Rightarrow> transaction \<Rightarrow> bool prog" where
  "grant_exists env tx =
     bnd sp_id_of (\<lambda>i.
     bnd (wrap ''looking up oauth2 permission grants''
            (call (Graph (ListGrants (filter_by_client_id i) (max_pages env))) (e_ids env)))
     (\<lambda>grants. ret (length grants > 0)))"

definition grant_process :: "env \<Rightarrow> transaction \<Rightarrow> unit prog" where
  "grant_process env tx =
     bnd (grant_exists env tx) (\<lambda>found.
       if found then ret ()
       else bnd sp_id_of (\<lambda>i.
         wrap ''registering oauth2 permission grants''
           (call (Graph (AddGrant (to_grant env i))) (e_unit env))))"

subsection \<open>Requests\<close>

lemma sp_reads [emits_rules]:
  "emits reads (sp_get_client_id env i)"
  "emits reads (sp_exists env i)"
  "emits reads (sp_get_id_by_client_id env i)"
  "emits reads (get_assigned_policies env i)"
  "emits reads (grant_exists env tx)"
proof -
  show ex: "emits reads (sp_exists env i)" for i
    unfolding sp_exists_def
    by (intro emits_intros) (auto split: list.split intro!: emits_intros)
  show "emits reads (sp_get_client_id env i)"
    unfolding sp_get_client_id_def
    by (intro emits_intros) (auto split: option.split intro!: emits_intros)
  show "emits reads (sp_get_id_by_client_id env i)"
    unfolding sp_get_id_by_client_id_def
    by (intro emits_intros) (auto split: option.split intro!: emits_intros ex)
  show "emits reads (get_assigned_policies env i)"
    unfolding get_assigned_policies_def by (intro emits_intros) simp
  show "emits reads (grant_exists env tx)"
    unfolding grant_exists_def by (intro emits_intros) simp
qed

lemma sp_same [emits_rules]:
  "moves same_inst (sp_exists env i)"
  "moves same_inst (sp_get_client_id env i)"
  "moves same_inst (sp_get_id_by_client_id env i)"
  "moves same_inst (sp_register env tx)"
  "moves same_inst (sp_update env tx sp)"
  "moves same_inst (set_app_role_assignment env tx b)"
  "moves same_inst (set_security_attributes env tx)"
  "moves same_inst (policies_loop env desired i ps)"
  "moves same_inst (policies_process env tx desired)"
  "moves same_inst (grant_process env tx)"
proof -
  show ex: "moves same_inst (sp_exists env i)" for i
    unfolding sp_exists_def
    by (intro same_inst_intros) (auto split: list.split intro!: same_inst_intros)
  show "moves same_inst (sp_get_client_id env i)"
    unfolding sp_get_client_id_def
    by (intro same_inst_intros) (auto split: option.split intro!: same_inst_intros)
  show "moves same_inst (sp_get_id_by_client_id env i)"
    unfolding sp_get_id_by_client_id_def
    by (intro same_inst_intros) (auto split: option.split intro!: same_inst_intros ex)
  show "moves same_inst (sp_register env tx)"
    unfolding sp_register_def Let_def by (intro same_inst_intros)
  show up: "moves same_inst (sp_update env tx sp)" for sp
    unfolding sp_update_def by (intro same_inst_intros)
  show "moves same_inst (set_app_role_assignment env tx b)"
    unfolding set_app_role_assignment_def
    by (intro same_inst_intros ex) (auto split: option.split intro!: same_inst_intros up)
  show "moves same_inst (set_security_attributes env tx)"
    unfolding set_security_attributes_def by (intro same_inst_intros)
  show lp: "moves same_inst (policies_loop env desired i ps)" for i ps
    by (induction ps)
       (auto simp: assign_policy_def remove_policy_def split: option.split intro!: same_inst_intros)
  show "moves same_inst (policies_process env tx desired)"
    unfolding policies_process_def get_assigned_policies_def
    by (auto intro!: same_inst_intros lp)
  show "moves same_inst (grant_process env tx)"
    unfolding grant_process_def grant_exists_def by (auto intro!: same_inst_intros)
qed

subsection \<open>Evaluation\<close>

lemmas servicePrincipals_runs [runs] =
  sp_get_client_id_def [THEN fun_cong] sp_exists_def [THEN fun_cong]
    sp_get_id_by_client_id_def [THEN fun_cong] sp_register_def [THEN fun_cong]
    sp_update_def [THEN fun_cong] set_app_role_assignment_def [THEN fun_cong]
    set_app_role_assignment_required_def [THEN fun_cong]
    set_app_role_assignment_not_required_def [THEN fun_cong]
    set_security_attributes_def [THEN fun_cong] assign_policy_def [THEN fun_cong]
    get_assigned_policies_def [THEN fun_cong] remove_policy_def [THEN fun_cong]
    policies_loop.simps [THEN fun_cong] policies_process_def [THEN fun_cong]
    grant_exists_def [THEN fun_cong] grant_process_def [THEN fun_cong]

end
