(* ===== verification/Assignments.thy ===== *)
theory Assignments
  imports ServicePrincipals
begin

text \<open>
  The app role assignments of a target service principal:
  pkg/azure/client/serviceprincipal/approleassignments.go. The main result is what a successful
  run of \<open>processFor\<close> requests: the assignments to add and to delete are such that the existing
  ones become exactly the desired ones.
\<close>

definition assignments_get_all :: "env \<Rightarrow> sp_id \<Rightarrow> app_role_assignment list prog" where
  "assignments_get_all env target =
     wrap ''looking up AppRole assignments for service principal''
       (call (Graph (ListAssignments target (max_pages env))) (e_assignments env))"

definition assignments_get_all_groups :: "env \<Rightarrow> sp_id \<Rightarrow> app_role_assignment list prog" where
  "assignments_get_all_groups env target =
     bnd (assignments_get_all env target) (\<lambda>l. lift (assignments_groups l))"

text \<open>Whether the application behind an assigned service principal is managed.\<close>

definition assignee_is_managed :: "env \<Rightarrow> app_role_assignment \<Rightarrow> bool prog" where
  "assignee_is_managed env a =
     bnd (lift (deref (ra_principal_id a))) (\<lambda>pid.
     bnd (sp_get_client_id env pid) (\<lambda>client_id.
     bnd (ask (Cache (GetManaged client_id)) (e_cached_bool env)) (\<lambda>cached.
     case cached of
       Some v \<Rightarrow> ret v
     | None \<Rightarrow> bnd (application_get_by_client_id env client_id) (is_managed env))))"

text \<open>The debug message of an assignment that is preserved dereferences three of its fields.\<close>

definition keep_if_managed ::
  "env \<Rightarrow> app_role_assignment \<Rightarrow> app_role_assignment list \<Rightarrow> app_role_assignment list prog" where
  "keep_if_managed env a filtered =
     bnd (assignee_is_managed env a) (\<lambda>managed.
       if managed then ret (filtered @ [a])
       else bnd (lift (deref (ra_principal_name a))) (\<lambda>_.
            bnd (lift (deref (ra_principal_id a))) (\<lambda>_.
            bnd (lift (deref (ra_role_id a))) (\<lambda>_. ret filtered))))"

definition assignments_get_all_service_principals ::
  "env \<Rightarrow> sp_id \<Rightarrow> app_role_assignment list prog" where
  "assignments_get_all_service_principals env target =
     bnd (assignments_get_all env target) (\<lambda>l.
     bnd (lift (assignments_service_principals l)) (\<lambda>sps.
     fold_io (keep_if_managed env) sps []))"

definition fetch_existing :: "env \<Rightarrow> sp_id \<Rightarrow> string \<Rightarrow> app_role_assignment list prog" where
  "fetch_existing env target principal_type =
     (if principal_type = PrincipalTypeGroup then assignments_get_all_groups env target
      else if principal_type = PrincipalTypeServicePrincipal
           then assignments_get_all_service_principals env target
      else fail (Cause (Opaque ''not a supported principal type'')))"

definition log_and_do :: "app_role_assignment \<Rightarrow> unit prog \<Rightarrow> unit prog" where
  "log_and_do a body =
     bnd (lift (deref (ra_principal_name a))) (\<lambda>_.
     bnd (lift (deref (ra_principal_id a))) (\<lambda>_.
     bnd (lift (deref (ra_principal_type a))) (\<lambda>_.
     bnd (lift (deref (ra_role_id a))) (\<lambda>_.
     wrap ''processing AppRole assignment'' body))))"

definition assign_for :: "env \<Rightarrow> sp_id \<Rightarrow> app_role_assignment list \<Rightarrow> unit prog" where
  "assign_for env target =
     for_each (\<lambda>a. log_and_do a (call (Graph (AddAssignment target a)) (e_unit env)))"

definition revoke_for :: "env \<Rightarrow> sp_id \<Rightarrow> app_role_assignment list \<Rightarrow> unit prog" where
  "revoke_for env target =
     for_each (\<lambda>a. log_and_do a
       (bnd (lift (deref (ra_id a))) (\<lambda>i. call (Graph (DeleteAssignment target i)) (e_unit env))))"

definition log_unmodified :: "app_role_assignment list \<Rightarrow> unit prog" where
  "log_unmodified = for_each (\<lambda>a. log_and_do a (ret ()))"

text \<open>One iteration of the loop over the enabled roles.\<close>

definition process_role ::
  "env \<Rightarrow> sp_id \<Rightarrow> app_role_assignment list \<Rightarrow> resource list \<Rightarrow> string \<Rightarrow> permission \<Rightarrow> unit prog" where
  "process_role env target existing assignees principal_type role =
     bnd (lift (assignments_filter_by_role_id existing (pm_id role))) (\<lambda>by_role.
     let desired = to_app_role_assignments
           (extract_desired_assignees assignees principal_type role) target role in
     bnd (lift (assignments_to_assign by_role desired)) (\<lambda>to_assign.
     bnd (lift (assignments_to_revoke by_role desired)) (\<lambda>to_revoke.
     bnd (lift (assignments_unmodified by_role to_assign to_revoke)) (\<lambda>unmodified.
     bnd (wrap ''assigning desired approleassignments for role'' (assign_for env target to_assign)) (\<lambda>_.
     bnd (wrap ''revoking non-desired approleassignments for role'' (revoke_for env target to_revoke)) (\<lambda>_.
     log_unmodified unmodified))))))"

definition process_enabled_roles ::
  "env \<Rightarrow> sp_id \<Rightarrow> app_role_assignment list \<Rightarrow> permissions \<Rightarrow> resource list \<Rightarrow> string \<Rightarrow> unit prog" where
  "process_enabled_roles env target existing roles assignees principal_type =
     for_each (\<lambda>(_, role). process_role env target existing assignees principal_type role)
       (gm_range (e_order env) (permissions_enabled (e_order env) roles))"

definition revoke_for_disabled_roles ::
  "env \<Rightarrow> sp_id \<Rightarrow> app_role_assignment list \<Rightarrow> permissions \<Rightarrow> unit prog" where
  "revoke_for_disabled_roles env target existing roles =
     for_each (\<lambda>(_, role).
         bnd (lift (assignments_filter_by_role_id existing (pm_id role))) (\<lambda>l.
         wrap ''revoking assignments for non-desired/disabled role'' (revoke_for env target l)))
       (gm_range (e_order env) (permissions_disabled (e_order env) roles))"

definition revoke_without_matching_role ::
  "env \<Rightarrow> sp_id \<Rightarrow> app_role_assignment list \<Rightarrow> permissions \<Rightarrow> unit prog" where
  "revoke_without_matching_role env target existing roles =
     bnd (lift (assignments_without_matching_role existing roles)) (\<lambda>to_revoke.
       if length to_revoke > 0
       then wrap ''revoking assignments for non-existing roles'' (revoke_for env target to_revoke)
       else ret ())"

definition process_for ::
  "env \<Rightarrow> sp_id \<Rightarrow> resource list \<Rightarrow> string \<Rightarrow> permissions \<Rightarrow> unit prog" where
  "process_for env target assignees principal_type roles =
     bnd (wrap ''looking up existing AppRole assignments'' (fetch_existing env target principal_type)) (\<lambda>existing.
     let assignees' = resources_filter_by_principal_type assignees principal_type in
     bnd (process_enabled_roles env target existing roles assignees' principal_type) (\<lambda>_.
     bnd (revoke_for_disabled_roles env target existing roles) (\<lambda>_.
     revoke_without_matching_role env target existing roles)))"

definition process_for_groups :: "env \<Rightarrow> sp_id \<Rightarrow> resource list \<Rightarrow> permissions \<Rightarrow> unit prog" where
  "process_for_groups env target assignees roles =
     process_for env target assignees PrincipalTypeGroup roles"

definition process_for_service_principals ::
  "env \<Rightarrow> sp_id \<Rightarrow> resource list \<Rightarrow> permissions \<Rightarrow> unit prog" where
  "process_for_service_principals env target assignees roles =
     process_for env target assignees PrincipalTypeServicePrincipal roles"

subsection \<open>What a successful run requests\<close>

lemma log_and_do_Ok:
  "log_and_do a body s = (Ok (), s') \<Longrightarrow> body s = (Ok (), s')"
  by (auto simp: log_and_do_def bnd_Ok_iff)

lemma assign_for_trace:
  assumes "assign_for env target l s = (Ok (), s')"
  shows "trace s' = map (\<lambda>a. (Graph (AddAssignment target a), True)) (rev l) @ trace s"
proof -
  have "trace s' = concat (map (\<lambda>a. [(Graph (AddAssignment target a), True)]) (rev l)) @ trace s"
    using assms unfolding assign_for_def
    by (rule for_each_appends [rotated]) (auto dest!: log_and_do_Ok simp: call_Ok_iff)
  then show ?thesis by (simp add: concat_map_singleton)
qed

lemma revoke_for_trace:
  assumes "revoke_for env target l s = (Ok (), s')"
  shows "trace s' =
    map (\<lambda>a. (Graph (DeleteAssignment target (the (ra_id a))), True)) (rev l) @ trace s"
proof -
  have "trace s' = concat (map (\<lambda>a. [(Graph (DeleteAssignment target (the (ra_id a))), True)]) (rev l))
      @ trace s"
    using assms unfolding revoke_for_def
    by (rule for_each_appends [rotated])
       (auto dest!: log_and_do_Ok simp: bnd_Ok_iff call_Ok_iff)
  then show ?thesis by (simp add: concat_map_singleton)
qed

lemma log_unmodified_trace: "log_unmodified l s = (Ok (), s') \<Longrightarrow> trace s' = trace s"
  unfolding log_unmodified_def
  by (drule for_each_appends [rotated, of _ _ _ _ "\<lambda>_. []"]) (auto dest!: log_and_do_Ok)

text \<open>
  Assignments as the Graph API lists them for a target: every field is present and the resource
  is the target.
\<close>

definition listed_for :: "sp_id \<Rightarrow> app_role_assignment list \<Rightarrow> bool" where
  "listed_for target l \<longleftrightarrow>
     (\<forall>a \<in> set l. assignment_complete a \<and> ra_id a \<noteq> None \<and> ra_resource_id a = Some target)"

abbreviation add_event :: "sp_id \<Rightarrow> app_role_assignment \<Rightarrow> event" where
  "add_event target a \<equiv> (Graph (AddAssignment target a), True)"

abbreviation delete_event :: "sp_id \<Rightarrow> app_role_assignment \<Rightarrow> event" where
  "delete_event target a \<equiv> (Graph (DeleteAssignment target (the (ra_id a))), True)"

text \<open>The desired assignments of one role, and of all enabled roles.\<close>

definition desired_for :: "sp_id \<Rightarrow> resource list \<Rightarrow> string \<Rightarrow> permission \<Rightarrow> app_role_assignment list" where
  "desired_for target assignees t role =
     to_app_role_assignments (extract_desired_assignees assignees t role) target role"

definition desired_keys :: "sp_id \<Rightarrow> resource list \<Rightarrow> string \<Rightarrow> permissions \<Rightarrow> app_role_assignment_key set" where
  "desired_keys target assignees t roles =
     assignment_key ` {a. \<exists>k role. map_of roles k = Some role \<and> pm_enabled role \<and>
        a \<in> set (desired_for target assignees t role)}"

definition role_events ::
  "sp_id \<Rightarrow> app_role_assignment list \<Rightarrow> resource list \<Rightarrow> string \<Rightarrow> permission \<Rightarrow> event list" where
  "role_events target existing assignees t role =
     (let by_role = filter (\<lambda>a. ra_role_id a = Some (pm_id role)) existing;
          desired = desired_for target assignees t role;
          missing = filter (\<lambda>x. assignment_key x \<notin> assignment_key ` set by_role) desired;
          excess = filter (\<lambda>x. assignment_key x \<notin> assignment_key ` set desired) by_role
      in map (delete_event target) (rev excess) @ map (add_event target) (rev missing))"

lemma process_role_trace:
  assumes "listed_for target existing"
    and "process_role env target existing assignees t role s = (Ok (), s')"
  shows "trace s' = role_events target existing assignees t role @ trace s"
proof -
  let ?by = "filter (\<lambda>a. ra_role_id a = Some (pm_id role)) existing"
  let ?des = "desired_for target assignees t role"
  let ?missing = "filter (\<lambda>x. assignment_key x \<notin> assignment_key ` set ?by) ?des"
  let ?excess = "filter (\<lambda>x. assignment_key x \<notin> assignment_key ` set ?des) ?by"
  have c: "\<And>x. x \<in> set existing \<Longrightarrow> assignment_complete x"
    using assms(1) by (simp add: listed_for_def)
  have d: "\<And>x. x \<in> set ?des \<Longrightarrow> assignment_complete x"
    by (simp add: desired_for_def)
  have 1: "assignments_to_assign ?by ?des = Ok ?missing"
    unfolding assignments_to_assign_def by (rule assignment_difference_Ok) (use c d in auto)
  have 2: "assignments_to_revoke ?by ?des = Ok ?excess"
    unfolding assignments_to_revoke_def by (rule assignment_difference_Ok) (use c d in auto)
  have 3: "\<exists>u. assignments_unmodified ?by ?missing ?excess = Ok u"
    unfolding assignments_unmodified_def
    by (rule exI, rule assignment_difference_Ok) (use c d in auto)
  then obtain u where u: "assignments_unmodified ?by ?missing ?excess = Ok u" by blast
  have "bnd (wrap ''assigning desired approleassignments for role'' (assign_for env target ?missing)) (\<lambda>_.
      bnd (wrap ''revoking non-desired approleassignments for role'' (revoke_for env target ?excess)) (\<lambda>_.
      log_unmodified u)) s = (Ok (), s')"
    using assms(2)
    by (simp only: process_role_def Let_def assignments_filter_by_role_id_Ok [OF c]
        desired_for_def [symmetric] bnd_lift_Ok 1 2 u)
  then obtain s1 s2 where
    "assign_for env target ?missing s = (Ok (), s1)"
    "revoke_for env target ?excess s1 = (Ok (), s2)"
    "log_unmodified u s2 = (Ok (), s')"
    by (elim bnd_unit_OkE) (simp only: wrap_Ok_iff)
  then show ?thesis
    unfolding role_events_def Let_def
    by (simp only: append_assoc assign_for_trace revoke_for_trace log_unmodified_trace)
qed

lemma process_enabled_roles_trace:
  assumes "listed_for target existing"
    and "process_enabled_roles env target existing roles assignees t s = (Ok (), s')"
  shows "trace s' = concat (map (\<lambda>(_, role). role_events target existing assignees t role)
      (rev (gm_range (e_order env) (permissions_enabled (e_order env) roles)))) @ trace s"
  using assms(2) unfolding process_enabled_roles_def
  by (rule for_each_appends [rotated]) (auto dest: process_role_trace [OF assms(1)])

lemma revoke_for_disabled_roles_trace:
  assumes "listed_for target existing"
    and "revoke_for_disabled_roles env target existing roles s = (Ok (), s')"
  shows "trace s' = concat (map (\<lambda>(_, role).
        map (delete_event target) (rev (filter (\<lambda>a. ra_role_id a = Some (pm_id role)) existing)))
      (rev (gm_range (e_order env) (permissions_disabled (e_order env) roles)))) @ trace s"
  using assms(2) unfolding revoke_for_disabled_roles_def
proof (rule for_each_appends [rotated])
  have c: "\<And>x. x \<in> set existing \<Longrightarrow> assignment_complete x"
    using assms(1) by (simp add: listed_for_def)
  fix x :: "string \<times> permission" and s s'
  assume "(case x of (_, role) \<Rightarrow>
      bnd (lift (assignments_filter_by_role_id existing (pm_id role)))
        (\<lambda>l. wrap ''revoking assignments for non-desired/disabled role'' (revoke_for env target l)))
      s = (Ok (), s')"
  then show "trace s' = (case x of (_, role) \<Rightarrow>
      map (delete_event target) (rev (filter (\<lambda>a. ra_role_id a = Some (pm_id role)) existing))) @ trace s"
    by (cases x) (auto simp: assignments_filter_by_role_id_Ok [OF c] dest: revoke_for_trace)
qed

lemma revoke_without_matching_role_trace:
  assumes "listed_for target existing"
    and "revoke_without_matching_role env target existing roles s = (Ok (), s')"
  shows "trace s' = map (delete_event target)
      (rev (filter (\<lambda>a. \<not> has_role_id roles (the (ra_role_id a))) existing)) @ trace s"
proof -
  have c: "\<And>x. x \<in> set existing \<Longrightarrow> assignment_complete x"
    using assms(1) by (simp add: listed_for_def)
  let ?l = "filter (\<lambda>a. \<not> has_role_id roles (the (ra_role_id a))) existing"
  have run: "(if length ?l > 0
      then wrap ''revoking assignments for non-existing roles'' (revoke_for env target ?l)
      else ret ()) s = (Ok (), s')"
    using assms(2)
    by (simp only: revoke_without_matching_role_def assignments_without_matching_role_Ok [OF c] bnd_lift_Ok)
  show ?thesis
  proof (cases "length ?l > 0")
    case True
    then show ?thesis using run revoke_for_trace [of env target ?l s s'] by simp
  next
    case False
    then have "?l = []" by blast
    then show ?thesis using run by (simp only: ) simp
  qed
qed

text \<open>Role IDs identify the roles of a permission set.\<close>

definition unique_ids :: "permissions \<Rightarrow> bool" where
  "unique_ids p \<longleftrightarrow> inj_on (\<lambda>k. map_option pm_id (map_of p k)) (gm_keys p)"

lemma unique_idsD:
  "unique_ids p \<Longrightarrow> map_of p k = Some v \<Longrightarrow> map_of p k' = Some v' \<Longrightarrow> pm_id v = pm_id v' \<Longrightarrow> v' = v"
  unfolding unique_ids_def inj_on_def gm_keys_dom by (metis domI option.simps(9) option.inject)

lemma desired_for_key:
  "a \<in> set (desired_for target assignees t role) \<Longrightarrow>
     \<exists>re :: resource. assignment_key a = (pm_id role, res_object_id re, target)"
proof -
  assume "a \<in> set (desired_for target assignees t role)"
  then obtain re where "a = to_app_role_assignment re target role"
    by (auto simp: desired_for_def to_app_role_assignments_def)
  then have "assignment_key a = (pm_id role, res_object_id re, target)" by simp
  then show ?thesis by blast
qed

text \<open>The requests that follow the listing, and which assignments they add and delete.\<close>

definition process_events ::
  "map_order \<Rightarrow> sp_id \<Rightarrow> app_role_assignment list \<Rightarrow> resource list \<Rightarrow> string \<Rightarrow> permissions \<Rightarrow> event list" where
  "process_events ord target existing assignees t roles =
     map (delete_event target) (rev (filter (\<lambda>a. \<not> has_role_id roles (the (ra_role_id a))) existing)) @
     concat (map (\<lambda>(_, role).
        map (delete_event target) (rev (filter (\<lambda>a. ra_role_id a = Some (pm_id role)) existing)))
      (rev (gm_range ord (permissions_disabled ord roles)))) @
     concat (map (\<lambda>(_, role). role_events target existing assignees t role)
      (rev (gm_range ord (permissions_enabled ord roles))))"

lemma process_for_trace:
  assumes "fetch_existing env target t s = (Ok existing, s1)"
    and "listed_for target existing"
    and "process_for env target assignees t roles s = (Ok (), s')"
  shows "trace s' = process_events (e_order env) target existing
    (resources_filter_by_principal_type assignees t) t roles @ trace s1"
proof -
  have fetch: "wrap ''looking up existing AppRole assignments'' (fetch_existing env target t) s
      = (Ok existing, s1)"
    using assms(1) by simp
  obtain s2 s3 where
    "process_enabled_roles env target existing roles (resources_filter_by_principal_type assignees t) t s1
      = (Ok (), s2)"
    "revoke_for_disabled_roles env target existing roles s2 = (Ok (), s3)"
    "revoke_without_matching_role env target existing roles s3 = (Ok (), s')"
    using assms(3)
    unfolding process_for_def Let_def bnd_run_Ok [where m = "wrap _ (fetch_existing env target t)", OF fetch]
    by (elim bnd_unit_OkE)
  then show ?thesis
    unfolding process_events_def
    by (simp only: append_assoc process_enabled_roles_trace [OF assms(2)]
        revoke_for_disabled_roles_trace [OF assms(2)] revoke_without_matching_role_trace [OF assms(2)])
qed

lemma range_selected:
  assumes "iteration_order ord" "permissions_wf roles"
  shows "(k, r) \<in> set (gm_range ord (permissions_enabled ord roles)) \<longleftrightarrow>
           map_of roles k = Some r \<and> pm_enabled r"
    and "(k, r) \<in> set (gm_range ord (permissions_disabled ord roles)) \<longleftrightarrow>
           map_of roles k = Some r \<and> \<not> pm_enabled r"
proof -
  have wf: "gm_wf (permissions_enabled ord roles)" "gm_wf (permissions_disabled ord roles)"
    using permissions_wf_enabled permissions_wf_disabled by (auto simp: permissions_wf_def)
  show "(k, r) \<in> set (gm_range ord (permissions_enabled ord roles)) \<longleftrightarrow>
           map_of roles k = Some r \<and> pm_enabled r"
    unfolding gm_range_set [OF assms(1) wf(1)] map_of_set [OF wf(1)] map_of_permissions_enabled [OF assms]
    by (auto split: option.split if_splits)
  show "(k, r) \<in> set (gm_range ord (permissions_disabled ord roles)) \<longleftrightarrow>
           map_of roles k = Some r \<and> \<not> pm_enabled r"
    unfolding gm_range_set [OF assms(1) wf(2)] map_of_set [OF wf(2)] map_of_permissions_disabled [OF assms]
    by (auto split: option.split if_splits)
qed

lemma role_events_iff:
  "e \<in> set (role_events target existing assignees t role) \<longleftrightarrow>
     (\<exists>a \<in> set existing. ra_role_id a = Some (pm_id role) \<and>
        assignment_key a \<notin> assignment_key ` set (desired_for target assignees t role) \<and>
        e = delete_event target a) \<or>
     (\<exists>a \<in> set (desired_for target assignees t role).
        assignment_key a \<notin> assignment_key ` set (filter (\<lambda>a. ra_role_id a = Some (pm_id role)) existing) \<and>
        e = add_event target a)"
  unfolding role_events_def Let_def set_append set_map set_rev set_filter by blast

lemma concat_map_pair_iff:
  "e \<in> set (concat (map (\<lambda>(_, r). f r) (rev xs))) \<longleftrightarrow> (\<exists>k r. (k, r) \<in> set xs \<and> e \<in> set (f r))"
  by (induction xs) auto

lemma process_events_iff:
  assumes "iteration_order ord" "permissions_wf roles"
  shows "e \<in> set (process_events ord target existing assignees t roles) \<longleftrightarrow>
     (\<exists>a \<in> set existing. \<not> has_role_id roles (the (ra_role_id a)) \<and> e = delete_event target a) \<or>
     (\<exists>k r. map_of roles k = Some r \<and> \<not> pm_enabled r \<and>
        (\<exists>a \<in> set existing. ra_role_id a = Some (pm_id r) \<and> e = delete_event target a)) \<or>
     (\<exists>k r. map_of roles k = Some r \<and> pm_enabled r \<and> e \<in> set (role_events target existing assignees t r))"
  unfolding process_events_def set_append Un_iff concat_map_pair_iff range_selected [OF assms]
    set_map set_rev set_filter
  by blast

lemma image_filter_diff: "f ` {a. P a \<and> f a \<notin> K} = f ` {a. P a} - K"
  by blast

lemma process_events_added:
  assumes "iteration_order ord" "permissions_wf roles" "listed_for target existing"
  shows "assignment_key ` {a. add_event target a \<in> set (process_events ord target existing assignees t roles)}
     = desired_keys target assignees t roles - assignment_key ` set existing"
proof -
  have 1: "add_event target a \<in> set (process_events ord target existing assignees t roles) \<longleftrightarrow>
      (\<exists>k r. map_of roles k = Some r \<and> pm_enabled r \<and> a \<in> set (desired_for target assignees t r) \<and>
        assignment_key a \<notin> assignment_key ` set (filter (\<lambda>a. ra_role_id a = Some (pm_id r)) existing))" for a
    unfolding process_events_iff [OF assms(1,2)] role_events_iff by simp
  have 2: "assignment_key a \<in> assignment_key ` set (filter (\<lambda>a. ra_role_id a = Some (pm_id r)) existing)
      \<longleftrightarrow> assignment_key a \<in> assignment_key ` set existing"
    if "a \<in> set (desired_for target assignees t r)" for a r
  proof -
    have "ra_role_id b = Some (pm_id r)" if b: "b \<in> set existing" "assignment_key b = assignment_key a" for b
    proof -
      have "the (ra_role_id b) = pm_id r"
        using b(2) desired_for_key [OF \<open>a \<in> _\<close>] by (auto simp: assignment_key_def)
      moreover have "ra_role_id b \<noteq> None"
        using b(1) assms(3) by (auto simp: listed_for_def assignment_complete_def)
      ultimately show ?thesis by auto
    qed
    then show ?thesis by (simp add: image_iff) metis
  qed
  have "add_event target a \<in> set (process_events ord target existing assignees t roles) \<longleftrightarrow>
      (\<exists>k r. map_of roles k = Some r \<and> pm_enabled r \<and> a \<in> set (desired_for target assignees t r)) \<and>
        assignment_key a \<notin> assignment_key ` set existing" for a
    unfolding 1 using 2 by meson
  then show ?thesis unfolding desired_keys_def by (simp only: image_filter_diff)
qed

lemma process_events_deleted_iff:
  assumes "iteration_order ord" "permissions_wf roles" "listed_for target existing"
  shows "(Graph (DeleteAssignment target i), True)
      \<in> set (process_events ord target existing assignees t roles) \<longleftrightarrow>
    (\<exists>a \<in> set existing. ra_id a = Some i \<and>
       (\<not> has_role_id roles (the (ra_role_id a)) \<or>
        (\<exists>k r. map_of roles k = Some r \<and> ra_role_id a = Some (pm_id r) \<and>
          (pm_enabled r \<longrightarrow> assignment_key a \<notin> assignment_key ` set (desired_for target assignees t r)))))"
    (is "?L \<longleftrightarrow> ?R")
proof -
  have i: "\<And>a. a \<in> set existing \<Longrightarrow> the (ra_id a) = i \<longleftrightarrow> ra_id a = Some i"
    using assms(3) by (auto simp: listed_for_def)
  have "?L \<longleftrightarrow>
      (\<exists>a \<in> set existing. the (ra_id a) = i \<and> \<not> has_role_id roles (the (ra_role_id a))) \<or>
      (\<exists>k r. map_of roles k = Some r \<and> \<not> pm_enabled r \<and>
        (\<exists>a \<in> set existing. the (ra_id a) = i \<and> ra_role_id a = Some (pm_id r))) \<or>
      (\<exists>k r. map_of roles k = Some r \<and> pm_enabled r \<and>
        (\<exists>a \<in> set existing. the (ra_id a) = i \<and> ra_role_id a = Some (pm_id r) \<and>
           assignment_key a \<notin> assignment_key ` set (desired_for target assignees t r)))"
    unfolding process_events_iff [OF assms(1,2)] role_events_iff by simp blast
  then show ?thesis using i by blast
qed

lemma desired_keys_role:
  assumes "unique_ids roles" "map_of roles k = Some r" "ra_role_id a = Some (pm_id r)"
  shows "assignment_key a \<in> desired_keys target assignees t roles \<longleftrightarrow>
    pm_enabled r \<and> assignment_key a \<in> assignment_key ` set (desired_for target assignees t r)"
proof
  assume "assignment_key a \<in> desired_keys target assignees t roles"
  then obtain b k' r' where b: "assignment_key a = assignment_key b" "map_of roles k' = Some r'"
    "pm_enabled r'" "b \<in> set (desired_for target assignees t r')"
    by (auto simp: desired_keys_def)
  then have "pm_id r' = pm_id r"
    using desired_for_key [OF b(4)] assms(3) by (auto simp: assignment_key_def)
  then have "r' = r" using unique_idsD [OF assms(1,2) b(2)] by simp
  then show "pm_enabled r \<and> assignment_key a \<in> assignment_key ` set (desired_for target assignees t r)"
    using b by auto
qed (use assms(2) in \<open>auto simp: desired_keys_def\<close>)

lemma process_events_deleted:
  assumes "iteration_order ord" "permissions_wf roles" "listed_for target existing" "unique_ids roles"
  shows "{i. (Graph (DeleteAssignment target i), True)
        \<in> set (process_events ord target existing assignees t roles)} =
    {i. \<exists>a \<in> set existing. ra_id a = Some i \<and> assignment_key a \<notin> desired_keys target assignees t roles}"
proof -
  have "(\<not> has_role_id roles (the (ra_role_id a)) \<or>
        (\<exists>k r. map_of roles k = Some r \<and> ra_role_id a = Some (pm_id r) \<and>
          (pm_enabled r \<longrightarrow> assignment_key a \<notin> assignment_key ` set (desired_for target assignees t r))))
      \<longleftrightarrow> assignment_key a \<notin> desired_keys target assignees t roles"
    if a: "a \<in> set existing" for a
  proof (cases "has_role_id roles (the (ra_role_id a))")
    case True
    then obtain k r where "map_of roles k = Some r" "ra_role_id a = Some (pm_id r)"
      using assms(2,3) a
      by (auto simp: has_role_id_iff permissions_wf_def listed_for_def assignment_complete_def)
    then show ?thesis using True desired_keys_role [OF assms(4)] by blast
  next
    case False
    then have "assignment_key a \<notin> desired_keys target assignees t roles"
      using assms(2) desired_for_key
      by (fastforce simp: desired_keys_def has_role_id_iff permissions_wf_def assignment_key_def)
    then show ?thesis using False by simp
  qed
  then show ?thesis
    unfolding process_events_deleted_iff [OF assms(1-3)] by blast
qed

subsection \<open>Requests\<close>

fun touches_assignments :: "sp_id \<Rightarrow> event \<Rightarrow> bool" where
  "touches_assignments target (Graph (AddAssignment t a), ok) = (t = target)"
| "touches_assignments target (Graph (DeleteAssignment t i), ok) = (t = target)"
| "touches_assignments target (r, ok) = harmless r"

lemma touches_assignments_reads: "reads e \<Longrightarrow> touches_assignments target e"
  by (cases "(target, e)" rule: touches_assignments.cases) auto

lemma fetch_reads [emits_rules]:
  "emits reads (assignments_get_all env target)"
  "emits reads (assignments_get_all_groups env target)"
  "emits reads (assignee_is_managed env a)"
  "emits reads (keep_if_managed env a l)"
  "emits reads (assignments_get_all_service_principals env target)"
  "emits reads (fetch_existing env target t)"
proof -
  show all: "emits reads (assignments_get_all env target)"
    unfolding assignments_get_all_def by (intro emits_intros) simp
  show gr: "emits reads (assignments_get_all_groups env target)"
    unfolding assignments_get_all_groups_def by (intro emits_intros all)
  show man: "emits reads (assignee_is_managed env a)" for a
    unfolding assignee_is_managed_def
    by (intro emits_intros emits_rules) (auto split: option.split intro!: emits_intros emits_rules)
  show keep: "emits reads (keep_if_managed env a l)" for a l
    unfolding keep_if_managed_def by (auto intro!: emits_intros man)
  show sps: "emits reads (assignments_get_all_service_principals env target)"
    unfolding assignments_get_all_service_principals_def by (intro emits_intros all keep)
  show "emits reads (fetch_existing env target t)"
    unfolding fetch_existing_def by (auto intro!: emits_intros gr sps)
qed

lemma log_and_do_emits: "emits Q body \<Longrightarrow> emits Q (log_and_do a body)"
  unfolding log_and_do_def by (intro emits_intros)

lemma assign_for_emits: "emits (touches_assignments target) (assign_for env target l)"
  unfolding assign_for_def by (intro emits_intros log_and_do_emits) simp

lemma revoke_for_emits: "emits (touches_assignments target) (revoke_for env target l)"
  unfolding revoke_for_def by (intro emits_intros log_and_do_emits) simp

lemma log_unmodified_emits: "emits Q (log_unmodified l)"
  unfolding log_unmodified_def by (intro emits_intros log_and_do_emits)

lemma process_for_emits:
  "emits (touches_assignments target) (process_for env target assignees t roles)"
  unfolding process_for_def process_enabled_roles_def process_role_def
    revoke_for_disabled_roles_def revoke_without_matching_role_def Let_def
  by (auto intro!: emits_intros assign_for_emits revoke_for_emits log_unmodified_emits
      emits_mono [OF fetch_reads(6)] touches_assignments_reads split: prod.split)

lemma log_and_do_same: "moves same_inst body \<Longrightarrow> moves same_inst (log_and_do a body)"
  unfolding log_and_do_def by (intro same_inst_intros)

lemma fetch_existing_same [emits_rules]: "moves same_inst (fetch_existing env target t)"
  unfolding fetch_existing_def assignments_get_all_groups_def assignments_get_all_def
    assignments_get_all_service_principals_def keep_if_managed_def assignee_is_managed_def
  by (auto intro!: same_inst_intros emits_rules split: option.split)

lemma process_for_same [emits_rules]: "moves same_inst (process_for env target assignees t roles)"
  unfolding process_for_def process_enabled_roles_def process_role_def assign_for_def revoke_for_def
    log_unmodified_def revoke_for_disabled_roles_def revoke_without_matching_role_def Let_def
  by (auto intro!: same_inst_intros log_and_do_same emits_rules split: prod.split)

subsection \<open>What is fetched\<close>

text \<open>Only assignments that the target lists for the principal type are ever considered.\<close>

lemma fetch_existing_listed:
  assumes "fetch_existing env target t s = (Ok existing, s1)"
  obtains l where "e_assignments env (trace s) (Graph (ListAssignments target (max_pages env))) = Inr l"
    "set existing \<subseteq> {a \<in> set l. ra_principal_type a = Some t}"
proof -
  have filtered: "set ys \<subseteq> {a \<in> set l. ra_principal_type a = Some t}"
    if "assignments_filter_by_type l t = Ok ys" for l ys
    using out_filter_subset [OF that [unfolded assignments_filter_by_type_def]]
    by (auto simp: out_bind_Ok_iff)
  show ?thesis
  proof (cases "t = PrincipalTypeGroup")
    case True
    then show ?thesis
      using assms that filtered
      by (auto simp: fetch_existing_def assignments_get_all_groups_def assignments_get_all_def
          bnd_Ok_iff call_Ok_iff assignments_groups_def)
  next
    case False
    then have t: "t = PrincipalTypeServicePrincipal"
      using assms by (auto simp: fetch_existing_def split: if_splits)
    obtain l sps s2 where l: "e_assignments env (trace s) (Graph (ListAssignments target (max_pages env))) = Inr l"
      "assignments_service_principals l = Ok sps"
      "fold_io (keep_if_managed env) sps [] s2 = (Ok existing, s1)"
      using assms t
      by (auto simp: fetch_existing_def assignments_get_all_service_principals_def
          assignments_get_all_def bnd_Ok_iff call_Ok_iff)
    have "set existing \<subseteq> set sps"
      using l(3)
      by (rule fold_io_invariant [where P = "\<lambda>l. set l \<subseteq> set sps", rotated])
         (auto simp: keep_if_managed_def bnd_Ok_iff split: if_splits)
    then show ?thesis
      using that [OF l(1)] filtered [OF l(2) [unfolded assignments_service_principals_def t [symmetric]]]
      by blast
  qed
qed

subsection \<open>Evaluation\<close>

lemmas assignments_runs [runs] =
  assignments_get_all_def [THEN fun_cong] assignments_get_all_groups_def [THEN fun_cong]
    assignee_is_managed_def [THEN fun_cong] keep_if_managed_def [THEN fun_cong]
    assignments_get_all_service_principals_def [THEN fun_cong] fetch_existing_def [THEN fun_cong]
    log_and_do_def [THEN fun_cong] assign_for_def [THEN fun_cong] revoke_for_def [THEN fun_cong]
    log_unmodified_def [THEN fun_cong] process_role_def [THEN fun_cong]
    process_enabled_roles_def [THEN fun_cong] revoke_for_disabled_roles_def [THEN fun_cong]
    revoke_without_matching_role_def [THEN fun_cong] process_for_def [THEN fun_cong]
    process_for_groups_def [THEN fun_cong] process_for_service_principals_def [THEN fun_cong]

end
