(* ===== verification/AzureGroups.thy ===== *)
theory AzureGroups
  imports Assignments
begin

text \<open>
  The assignment of groups to an application: pkg/azure/client/group/group.go. A group is looked
  up in the cache, then with a GET request whose response is decoded here as the code does.
\<close>

definition cacheExpiration :: duration where
  "cacheExpiration = 24 * 60 * minute"

text \<open>
  The Boolean result and the pointer of \<open>decodeJsonResponseForGetRequest\<close> as one option: a JSON
  \<open>null\<close> leaves the pointer nil, which the caller treats like a group that does not exist.
\<close>

definition decode_group_response :: "env \<Rightarrow> http_response \<Rightarrow> graph_group option outcome" where
  "decode_group_response env res =
     (if http_status res = 200 \<or> http_status res = 201
      then out_bind (out_of_sum (http_body res)) (\<lambda>b. out_of_sum (e_dec_group env b))
      else if http_status res = 204 \<or> http_status res = 404 then Ok None
      else let b = (case http_body res of Inl _ \<Rightarrow> [] | Inr b \<Rightarrow> b) in
        if e_dec_error env b then Err (Cause (Opaque ''error response''))
        else Err (Cause (Opaque b)))"

definition group_get_by_id :: "env \<Rightarrow> object_id \<Rightarrow> graph_group option prog" where
  "group_get_by_id env i =
     (if length i = 0 then ret None
      else bnd (ask (Cache (GetCachedGroup i)) (e_cached_group env)) (\<lambda>cached.
        case cached of
          Some g \<Rightarrow> ret (Some g)
        | None \<Rightarrow>
            bnd (wrap ''to json request'' (lift (out_of_sum (e_new_request env i)))) (\<lambda>_.
            bnd (wrap ''performing http request'' (call (Graph (GetGroup i)) (e_response env))) (\<lambda>res.
            if http_status res = 400
            then bnd (wrap ''reading server response'' (lift (out_of_sum (http_body res))))
                   (\<lambda>body. fail (Wrapped body (Cause BadRequest)))
            else bnd (wrap ''decoding json response'' (lift (decode_group_response env res))) (\<lambda>g.
              case g of
                None \<Rightarrow> ret None
              | Some g \<Rightarrow>
                  if gg_id g = None \<or> gg_display_name g = None then ret None
                  else bnd (notify (Cache (SetCachedGroup i g cacheExpiration))) (\<lambda>_.
                       ret (Some g)))))))"

definition group_to_resource :: "graph_group \<Rightarrow> resource outcome" where
  "group_to_resource g =
     out_bind (deref (gg_display_name g)) (\<lambda>name.
     out_bind (deref (gg_id g)) (\<lambda>i.
     Ok \<lparr>res_name = name, res_client_id = [], res_object_id = i,
         res_principal_type = PrincipalTypeGroup, res_rule = zero_inbound_rule\<rparr>))"

text \<open>
  One claim: groups the API rejects with 400 and groups that do not exist are skipped; the
  accumulator is the list of resources and the claims seen.
\<close>

definition add_claim_group ::
  "env \<Rightarrow> object_id \<Rightarrow> resource list \<times> object_id list \<Rightarrow> (resource list \<times> object_id list) prog" where
  "add_claim_group env i acc =
     bnd (attempt (group_get_by_id env i)) (\<lambda>r.
       case r of
         Inl e \<Rightarrow> if root_cause e = BadRequest then ret acc else fail (Wrapped ''getting group'' e)
       | Inr None \<Rightarrow> ret acc
       | Inr (Some g) \<Rightarrow>
           if i \<notin> set (snd acc)
           then bnd (lift (group_to_resource g)) (\<lambda>re. ret (fst acc @ [re], i # snd acc))
           else ret acc)"

definition groups_from_claims :: "env \<Rightarrow> resource list prog" where
  "groups_from_claims env =
     bnd instance_of (\<lambda>i.
       case spec_claims_groups (app_spec i) of
         None \<Rightarrow> ret []
       | Some [] \<Rightarrow> ret []
       | Some claims \<Rightarrow>
           bnd (fold_io (add_claim_group env) claims ([], [])) (\<lambda>acc. ret (fst acc)))"

definition add_all_users_group ::
  "env \<Rightarrow> object_id \<Rightarrow> resource list \<Rightarrow> resource list prog" where
  "add_all_users_group env i groups =
     bnd (wrap ''getting group'' (group_get_by_id env i)) (\<lambda>r.
       case r of
         None \<Rightarrow> fail (Cause (Opaque ''group does not exist''))
       | Some g \<Rightarrow> bnd (lift (group_to_resource g)) (\<lambda>re. ret (groups @ [re])))"

text \<open>\<open>make\<close> with a length fills the slice with zero resources before the groups are appended.\<close>

definition all_users_groups :: "env \<Rightarrow> resource list prog" where
  "all_users_groups env =
     (let ids = feat_all_users_group_id (features env) in
      fold_io (add_all_users_group env) ids (replicate (length ids) zero_resource))"

definition get_groups :: "env \<Rightarrow> resource list prog" where
  "get_groups env =
     bnd (wrap ''mapping group claims to resources'' (groups_from_claims env)) (\<lambda>groups.
       if length (feat_all_users_group_id (features env)) = 0
            \<or> \<not> feat_role_assignment_required (features env)
       then ret groups
       else bnd instance_of (\<lambda>i.
         if spec_allow_all_users (app_spec i) = Some True
         then bnd (wrap ''mapping all-users group to resources'' (all_users_groups env))
                (\<lambda>all. ret (resources_add_all all groups))
         else ret groups))"

definition group_roles :: "permissions outcome" where
  "group_roles =
     out_bind (permission_from_app_role approle_default_group_role) (\<lambda>p. Ok (permissions_add p []))"

definition groups_process :: "env \<Rightarrow> transaction \<Rightarrow> unit prog" where
  "groups_process env tx =
     bnd sp_id_of (\<lambda>i.
     bnd (get_groups env) (\<lambda>groups.
     bnd (lift group_roles) (\<lambda>roles.
     wrap ''updating app roles for groups'' (process_for_groups env i groups roles))))"

subsection \<open>Requests\<close>

lemma group_reads [emits_rules]:
  "emits reads (group_get_by_id env i)"
  "emits reads (groups_from_claims env)"
  "emits reads (all_users_groups env)"
  "emits reads (get_groups env)"
proof -
  show g: "emits reads (group_get_by_id env i)" for i
    unfolding group_get_by_id_def by (auto intro!: emits_intros split: option.split)
  show c: "emits reads (groups_from_claims env)"
    unfolding groups_from_claims_def add_claim_group_def
    by (auto intro!: emits_intros g split: option.split list.split sum.split)
  show a: "emits reads (all_users_groups env)"
    unfolding all_users_groups_def add_all_users_group_def Let_def
    by (auto intro!: emits_intros g split: option.split)
  show "emits reads (get_groups env)"
    unfolding get_groups_def by (auto intro!: emits_intros c a)
qed

lemma group_same [emits_rules]:
  "moves same_inst (group_get_by_id env i)"
  "moves same_inst (get_groups env)"
  "moves same_inst (groups_process env tx)"
proof -
  show g: "moves same_inst (group_get_by_id env i)" for i
    unfolding group_get_by_id_def by (auto intro!: same_inst_intros split: option.split)
  show gg: "moves same_inst (get_groups env)"
    unfolding get_groups_def groups_from_claims_def add_claim_group_def all_users_groups_def
      add_all_users_group_def Let_def
    by (auto intro!: same_inst_intros g split: option.split list.split sum.split)
  show "moves same_inst (groups_process env tx)"
    unfolding groups_process_def process_for_groups_def by (auto intro!: same_inst_intros gg emits_rules)
qed

subsection \<open>The groups that are assigned\<close>

lemma group_roles_eq:
  "group_roles = Ok [(DefaultGroupRoleValue,
     \<lparr>pm_name = DefaultGroupRoleValue, pm_id = DefaultGroupRoleId, pm_enabled = True\<rparr>)]"
  by (simp add: group_roles_def approle_default_group_role_def approle_new_def
      permission_from_app_role_def permission_new_def permissions_add_def gm_put_def gm_has_def)

lemma group_to_resource_Ok:
  "group_to_resource g = Ok re \<Longrightarrow>
     res_principal_type re = PrincipalTypeGroup \<and> gg_id g = Some (res_object_id re)"
  by (auto simp: group_to_resource_def out_bind_Ok_iff)

lemma add_claim_group_Ok:
  assumes "add_claim_group env i acc s = (Ok acc', s')"
  shows "acc' = acc \<or> (\<exists>re. res_principal_type re = PrincipalTypeGroup \<and> fst acc' = fst acc @ [re])"
proof -
  obtain r s1 where r: "attempt (group_get_by_id env i) s = (Ok r, s1)"
    and rest: "(case r of
         Inl e \<Rightarrow> if root_cause e = BadRequest then ret acc else fail (Wrapped ''getting group'' e)
       | Inr None \<Rightarrow> ret acc
       | Inr (Some g) \<Rightarrow>
           if i \<notin> set (snd acc)
           then bnd (lift (group_to_resource g)) (\<lambda>re. ret (fst acc @ [re], i # snd acc))
           else ret acc) s1 = (Ok acc', s')"
    using assms unfolding add_claim_group_def by (elim bnd_OkE)
  show ?thesis
  proof (cases r)
    case (Inl e)
    then show ?thesis using rest by (auto split: if_splits)
  next
    case (Inr g)
    then show ?thesis
      using rest by (cases g) (auto simp: bnd_Ok_iff dest: group_to_resource_Ok split: if_splits)
  qed
qed

lemma groups_from_claims_type:
  assumes "groups_from_claims env s = (Ok groups, s')"
  shows "\<forall>re \<in> set groups. res_principal_type re = PrincipalTypeGroup"
proof -
  have inv: "\<forall>re \<in> set (fst acc'). res_principal_type re = PrincipalTypeGroup"
    if "fold_io (add_claim_group env) claims ([], []) s1 = (Ok acc', s2)" for claims acc' s1 s2
    using that
    by (rule fold_io_invariant [where P = "\<lambda>acc. \<forall>re \<in> set (fst acc).
          res_principal_type re = PrincipalTypeGroup", rotated])
       (fastforce dest: add_claim_group_Ok)+
  obtain i :: azure_ad_application and s1 where i: "(case spec_claims_groups (app_spec i) of
         None \<Rightarrow> ret []
       | Some [] \<Rightarrow> ret []
       | Some claims \<Rightarrow>
           bnd (fold_io (add_claim_group env) claims ([], [])) (\<lambda>acc. ret (fst acc))) s1
      = (Ok groups, s')"
    using assms unfolding groups_from_claims_def by (elim bnd_OkE)
  show ?thesis
  proof (cases "spec_claims_groups (app_spec i) = None \<or> spec_claims_groups (app_spec i) = Some []")
    case True
    then show ?thesis using i by auto
  next
    case False
    then obtain c cs where c: "spec_claims_groups (app_spec i) = Some (c # cs)"
      by (metis list.exhaust not_None_eq)
    have "bnd (fold_io (add_claim_group env) (c # cs) ([], [])) (\<lambda>acc. ret (fst acc)) s1
        = (Ok groups, s')"
      using i by (simp only: c option.case list.case)
    then obtain acc s2 where "fold_io (add_claim_group env) (c # cs) ([], []) s1 = (Ok acc, s2)"
      "groups = fst acc"
      by (elim bnd_OkE) (simp only: ret_iff outcome.inject)
    then show ?thesis using inv by metis
  qed
qed

lemma add_all_users_group_Ok:
  "add_all_users_group env i groups s = (Ok groups', s') \<Longrightarrow>
     \<exists>re. res_principal_type re = PrincipalTypeGroup \<and> groups' = groups @ [re]"
  unfolding add_all_users_group_def
  by (elim bnd_OkE, simp split: option.splits, elim bnd_OkE) (auto dest: group_to_resource_Ok)

text \<open>
  The padding of \<open>getAllUsersGroups\<close> never reaches the API: the padded resources have no
  principal type.
\<close>

lemma all_users_groups_type:
  assumes "all_users_groups env s = (Ok groups, s')"
  shows "\<forall>re \<in> set groups. res_principal_type re = PrincipalTypeGroup \<or> re = zero_resource"
  using assms unfolding all_users_groups_def Let_def
  by (rule fold_io_invariant [where P = "\<lambda>l. \<forall>re \<in> set l.
        res_principal_type re = PrincipalTypeGroup \<or> re = zero_resource", rotated])
     (fastforce dest: add_all_users_group_Ok)+

lemma get_groups_type:
  assumes "get_groups env s = (Ok groups, s')"
  shows "\<forall>re \<in> set groups. res_principal_type re = PrincipalTypeGroup \<or> re = zero_resource"
proof -
  obtain claims s1 where c: "groups_from_claims env s = (Ok claims, s1)"
    and rest: "(if length (feat_all_users_group_id (features env)) = 0
            \<or> \<not> feat_role_assignment_required (features env)
       then ret claims
       else bnd instance_of (\<lambda>i.
         if spec_allow_all_users (app_spec i) = Some True
         then bnd (wrap ''mapping all-users group to resources'' (all_users_groups env))
                (\<lambda>all. ret (resources_add_all all claims))
         else ret claims)) s1 = (Ok groups, s')"
    using assms unfolding get_groups_def by (elim bnd_OkE) (simp only: wrap_Ok_iff)
  have "groups = claims \<or> (\<exists>all s2 s3. all_users_groups env s2 = (Ok all, s3) \<and>
      groups = resources_add_all all claims)"
    using rest by (auto simp: bnd_Ok_iff split: if_splits)
  then show ?thesis
    using groups_from_claims_type [OF c] all_users_groups_type resources_add_all_subset by blast
qed

subsection \<open>Evaluation\<close>

lemmas azureGroups_runs [runs] =
  group_get_by_id_def [THEN fun_cong] add_claim_group_def [THEN fun_cong]
    groups_from_claims_def [THEN fun_cong] add_all_users_group_def [THEN fun_cong]
    all_users_groups_def [THEN fun_cong] get_groups_def [THEN fun_cong]
    groups_process_def [THEN fun_cong]

end
