(* ===== verification/PreAuth.thy ===== *)
theory PreAuth
  imports AzureGroups
begin

text \<open>
  Pre-authorized applications: pkg/azure/client/preauthorizedapp/preauthorizedapp.go and list.go.
  The main results: the desired applications are split into the ones that exist in Azure AD and
  the others, the application itself is always among the first, and the list sent to the Graph
  API consists of the desired ones and of the existing unmanaged ones.
\<close>

subsection \<open>list.go\<close>

definition pre_auth_has_resource :: "pre_authorized_application list \<Rightarrow> resource \<Rightarrow> bool outcome" where
  "pre_auth_has_resource l re =
     out_ex (\<lambda>app. out_bind (deref (pa_app_id app)) (\<lambda>i. Ok (i = res_client_id re))) l"

subsection \<open>preauthorizedapp.go\<close>

definition invalid_resource :: "env \<Rightarrow> inbound_rule \<Rightarrow> resource" where
  "invalid_resource env app =
     \<lparr>res_name = get_unique_name (e_urn env) (in_rule app), res_client_id = [], res_object_id = [],
      res_principal_type = PrincipalTypeServicePrincipal, res_rule = app\<rparr>"

definition self_resource :: "transaction \<Rightarrow> azure_ad_application \<Rightarrow> resource" where
  "self_resource tx i =
     \<lparr>res_name = tx_urn tx, res_client_id = status_client_id (app_status i),
      res_object_id = status_sp_id (app_status i),
      res_principal_type = PrincipalTypeServicePrincipal,
      res_rule = \<lparr>in_rule = \<lparr>rule_application = app_name i, rule_namespace = app_namespace i,
                             rule_cluster = tx_cluster_name tx\<rparr>,
                  in_permissions = None\<rparr>\<rparr>"

definition ensure_fields_are_set ::
  "transaction \<Rightarrow> azure_ad_application \<Rightarrow> inbound_rule \<Rightarrow> inbound_rule" where
  "ensure_fields_are_set tx i rule =
     (let r = in_rule rule;
          r1 = (if length (rule_cluster r) = 0 then r\<lparr>rule_cluster := tx_cluster_name tx\<rparr> else r);
          r2 = (if length (rule_namespace r1) = 0 then r1\<lparr>rule_namespace := app_namespace i\<rparr> else r1)
      in rule\<lparr>in_rule := r2\<rparr>)"

definition pre_auth_exists :: "env \<Rightarrow> inbound_rule \<Rightarrow> graph_application option prog" where
  "pre_auth_exists env app =
     exists_by_filter env (filter_by_name (get_unique_name (e_urn env) (in_rule app)))"

text \<open>The flag tells whether the resource exists in Azure AD.\<close>

definition map_to_resource :: "env \<Rightarrow> inbound_rule \<Rightarrow> (resource \<times> bool) prog" where
  "map_to_resource env app =
     bnd (pre_auth_exists env app) (\<lambda>found.
     case found of
       None \<Rightarrow> ret (invalid_resource env app, False)
     | Some a \<Rightarrow>
         bnd (lift (deref (ga_app_id a))) (\<lambda>client_id.
         bnd (sp_exists env client_id) (\<lambda>found_sp.
         case found_sp of
           None \<Rightarrow> ret (invalid_resource env app, False)
         | Some sp \<Rightarrow>
             bnd (lift (deref (ga_display_name a))) (\<lambda>name.
             bnd (lift (deref (sp_id sp))) (\<lambda>oid.
             ret (\<lparr>res_name = name, res_client_id = client_id, res_object_id = oid,
                   res_principal_type = PrincipalTypeServicePrincipal, res_rule = app\<rparr>, True))))))"

text \<open>The accumulator of the loop: the names seen, the valid and the invalid resources.\<close>

type_synonym desired_acc = "string list \<times> resource list \<times> resource list"

definition add_desired ::
  "env \<Rightarrow> transaction \<Rightarrow> azure_ad_application \<Rightarrow> inbound_rule \<Rightarrow> desired_acc \<Rightarrow> desired_acc prog" where
  "add_desired env tx i app acc =
     (case acc of (seen, valid, invalid) \<Rightarrow>
      bnd (wrap ''looking up existence of PreAuthorizedApp''
             (map_to_resource env (ensure_fields_are_set tx i app))) (\<lambda>(res, found).
        if \<not> found then ret (seen, valid, invalid @ [res])
        else if res_name res \<notin> set seen then ret (res_name res # seen, valid @ [res], invalid)
        else ret (seen, valid, invalid)))"

definition map_desired_pre_authorized_apps :: "env \<Rightarrow> transaction \<Rightarrow> pre_authorized_apps prog" where
  "map_desired_pre_authorized_apps env tx =
     bnd instance_of (\<lambda>i.
     bnd (fold_io (add_desired env tx i) (spec_pre_authorized_applications (app_spec i)) ([], [], []))
     (\<lambda>(seen, valid, invalid).
       ret \<lparr>paa_valid = (if tx_urn tx \<notin> set seen then valid @ [self_resource tx i] else valid),
            paa_invalid = invalid\<rparr>))"

text \<open>
  One existing pre-authorized application: kept if it is not desired, exists, and is not managed
  by the operator.
\<close>

definition keep_unmanaged ::
  "env \<Rightarrow> client_id list \<Rightarrow> pre_authorized_application \<Rightarrow> pre_authorized_application list \<Rightarrow>
   pre_authorized_application list prog" where
  "keep_unmanaged env added existing apps =
     bnd (lift (deref (pa_app_id existing))) (\<lambda>client_id.
     if client_id \<in> set added then ret apps
     else bnd (ask (Cache (GetManaged client_id)) (e_cached_bool env)) (\<lambda>cached.
       if cached = Some True then ret apps
       else bnd (wrap ''checking existence for pre-authorized app''
                   (exists_by_filter env (filter_by_app_id client_id))) (\<lambda>found.
         case found of
           None \<Rightarrow> ret apps
         | Some app \<Rightarrow>
             bnd (is_managed env app) (\<lambda>managed.
               if managed then ret apps
               else bnd (lift (deref (ga_display_name app))) (\<lambda>_. ret (apps @ [existing]))))))"

definition patch_pre_authorized_applications ::
  "env \<Rightarrow> transaction \<Rightarrow> resource list \<Rightarrow> permissions \<Rightarrow> unit prog" where
  "patch_pre_authorized_applications env tx resources perms =
     (let apps = map (\<lambda>r. to_pre_authorized_app (e_order env) r perms) resources;
          added = map res_client_id resources in
      bnd (application_get env tx) (\<lambda>app.
      bnd (lift (deref (ga_api app))) (\<lambda>api.
      bnd (fold_io (keep_unmanaged env added) (api_pre_authorized api) apps) (\<lambda>apps'.
      bnd object_id_of (\<lambda>oid.
      application_patch env oid (PatchPreAuthorized apps'))))))"

definition pre_auth_process :: "env \<Rightarrow> transaction \<Rightarrow> permissions \<Rightarrow> pre_authorized_apps prog" where
  "pre_auth_process env tx perms =
     bnd sp_id_of (\<lambda>i.
     bnd (wrap ''mapping preauthorizedapps to resources'' (map_desired_pre_authorized_apps env tx)) (\<lambda>apps.
     bnd (wrap ''patching preauthorizedapps for application''
            (patch_pre_authorized_applications env tx (paa_valid apps) perms)) (\<lambda>_.
     bnd (wrap ''updating approle assignments for service principals''
            (process_for_service_principals env i (paa_valid apps) perms)) (\<lambda>_.
     ret apps))))"

text \<open>The loop of \<open>Get\<close> splits the valid resources by whether both lists have them.\<close>

definition split_assigned ::
  "pre_authorized_application list \<Rightarrow> app_role_assignment list \<Rightarrow> resource \<Rightarrow>
   resource list \<times> resource list \<Rightarrow> (resource list \<times> resource list) outcome" where
  "split_assigned actual all re acc =
     (case acc of (assigned, unassigned) \<Rightarrow>
      out_bind (pre_auth_has_resource actual re) (\<lambda>in_app.
      out_bind (if in_app then assignments_has_resource all re else Ok False) (\<lambda>both.
      Ok (if both then (assigned @ [re], unassigned) else (assigned, unassigned @ [re])))))"

definition pre_auth_get :: "env \<Rightarrow> transaction \<Rightarrow> pre_authorized_apps prog" where
  "pre_auth_get env tx =
     bnd (map_desired_pre_authorized_apps env tx) (\<lambda>desired.
     bnd (application_get env tx) (\<lambda>app.
     bnd (lift (deref (ga_api app))) (\<lambda>api.
     bnd sp_id_of (\<lambda>i.
     bnd (assignments_get_all_service_principals env i) (\<lambda>all.
     bnd (lift (out_fold (split_assigned (api_pre_authorized api) all) (paa_valid desired)
                 ([], paa_invalid desired))) (\<lambda>(assigned, unassigned).
     ret \<lparr>paa_valid = assigned, paa_invalid = unassigned\<rparr>))))))"

subsection \<open>Requests\<close>

lemma pre_auth_reads [emits_rules]:
  "emits reads (map_desired_pre_authorized_apps env tx)"
  "emits reads (keep_unmanaged env added existing apps)"
  "emits reads (pre_auth_get env tx)"
proof -
  have m: "emits reads (map_to_resource env app)" for app
    unfolding map_to_resource_def pre_auth_exists_def
    by (auto intro!: emits_intros emits_rules split: option.split)
  show d: "emits reads (map_desired_pre_authorized_apps env tx)"
    unfolding map_desired_pre_authorized_apps_def add_desired_def
    by (auto intro!: emits_intros m split: prod.split)
  show "emits reads (keep_unmanaged env added existing apps)"
    unfolding keep_unmanaged_def by (auto intro!: emits_intros emits_rules split: option.split)
  show "emits reads (pre_auth_get env tx)"
    unfolding pre_auth_get_def by (auto intro!: emits_intros emits_rules d split: prod.split)
qed

lemma pre_auth_same [emits_rules]:
  "moves same_inst (map_desired_pre_authorized_apps env tx)"
  "moves same_inst (patch_pre_authorized_applications env tx rs perms)"
  "moves same_inst (pre_auth_process env tx perms)"
  "moves same_inst (pre_auth_get env tx)"
proof -
  have m: "moves same_inst (map_to_resource env app)" for app
    unfolding map_to_resource_def pre_auth_exists_def
    by (auto intro!: same_inst_intros emits_rules split: option.split)
  show d: "moves same_inst (map_desired_pre_authorized_apps env tx)"
    unfolding map_desired_pre_authorized_apps_def add_desired_def
    by (auto intro!: same_inst_intros m split: prod.split)
  have "moves same_inst (keep_unmanaged env added existing apps)" for added existing apps
    unfolding keep_unmanaged_def by (auto intro!: same_inst_intros emits_rules split: option.split)
  then show p: "moves same_inst (patch_pre_authorized_applications env tx rs perms)" for rs
    unfolding patch_pre_authorized_applications_def Let_def
    by (auto intro!: same_inst_intros emits_rules)
  show "moves same_inst (pre_auth_process env tx perms)"
    unfolding pre_auth_process_def process_for_service_principals_def
    by (auto intro!: same_inst_intros emits_rules d p)
  have "moves same_inst (assignments_get_all_service_principals env i)" for i
    using fetch_existing_same [of env i PrincipalTypeServicePrincipal] by (simp add: fetch_existing_def)
  then show "moves same_inst (pre_auth_get env tx)"
    unfolding pre_auth_get_def by (auto intro!: same_inst_intros emits_rules d split: prod.split)
qed

subsection \<open>The split into valid and invalid applications\<close>

lemma map_to_resource_Ok:
  assumes "map_to_resource env app s = (Ok (re, found), s')"
  shows "res_rule re = app" "res_principal_type re = PrincipalTypeServicePrincipal"
    "\<not> found \<Longrightarrow> re = invalid_resource env app"
  using assms
  by (auto simp: map_to_resource_def bnd_Ok_iff invalid_resource_def split: option.splits)

text \<open>
  The invariant of the loop: the valid resources have distinct names, the names seen are theirs,
  and every application of the spec is accounted for.
\<close>

definition desired_inv ::
  "env \<Rightarrow> transaction \<Rightarrow> azure_ad_application \<Rightarrow> inbound_rule list \<Rightarrow> desired_acc \<Rightarrow> bool" where
  "desired_inv env tx i apps acc \<longleftrightarrow>
     (case acc of (seen, valid, invalid) \<Rightarrow>
        set seen = res_name ` set valid \<and> distinct (map res_name valid) \<and>
        (\<forall>re \<in> set valid. res_principal_type re = PrincipalTypeServicePrincipal \<and>
           res_rule re \<in> ensure_fields_are_set tx i ` set apps) \<and>
        (\<forall>re \<in> set invalid. \<exists>app \<in> set apps.
           re = invalid_resource env (ensure_fields_are_set tx i app)))"

lemma add_desired_inv:
  assumes "app \<in> set apps" "add_desired env tx i app acc s = (Ok acc', s')" "desired_inv env tx i apps acc"
  shows "desired_inv env tx i apps acc'"
proof -
  obtain seen valid invalid where acc: "acc = (seen, valid, invalid)" by (cases acc)
  obtain re found s1 where m: "map_to_resource env (ensure_fields_are_set tx i app) s = (Ok (re, found), s1)"
    and rest: "(if \<not> found then ret (seen, valid, invalid @ [re])
        else if res_name re \<notin> set seen then ret (res_name re # seen, valid @ [re], invalid)
        else ret (seen, valid, invalid)) s1 = (Ok acc', s')"
    using assms(2) unfolding add_desired_def acc prod.case
    by (elim bnd_OkE) (auto simp: wrap_Ok_iff split: prod.splits)
  show ?thesis
    using rest assms(1,3) map_to_resource_Ok [OF m]
    by (auto simp: desired_inv_def acc split: if_splits)
qed

lemma map_desired_spec:
  assumes "map_desired_pre_authorized_apps env tx s = (Ok apps, s')"
  shows "distinct (map res_name (paa_valid apps))"
    and "tx_urn tx \<in> res_name ` set (paa_valid apps)"
    and "\<forall>re \<in> set (paa_valid apps). res_principal_type re = PrincipalTypeServicePrincipal"
    and "\<forall>re \<in> set (paa_valid apps). re = self_resource tx (inst s) \<or>
      res_rule re \<in> ensure_fields_are_set tx (inst s) `
        set (spec_pre_authorized_applications (app_spec (inst s)))"
    and "\<forall>re \<in> set (paa_invalid apps). \<exists>app \<in> set (spec_pre_authorized_applications (app_spec (inst s))).
      re = invalid_resource env (ensure_fields_are_set tx (inst s) app)"
proof -
  let ?apps = "spec_pre_authorized_applications (app_spec (inst s))"
  obtain acc s1 where f: "fold_io (add_desired env tx (inst s)) ?apps ([], [], []) s = (Ok acc, s1)"
    and r: "(case acc of (seen, valid, invalid) \<Rightarrow>
       ret \<lparr>paa_valid = (if tx_urn tx \<notin> set seen then valid @ [self_resource tx (inst s)] else valid),
            paa_invalid = invalid\<rparr>) s1 = (Ok apps, s')"
    using assms unfolding map_desired_pre_authorized_apps_def by (auto simp: bnd_Ok_iff ids_iff)
  have "desired_inv env tx (inst s) ?apps acc"
    by (rule fold_io_invariant [where P = "desired_inv env tx (inst s) ?apps", OF _ f])
      (erule (2) add_desired_inv, simp add: desired_inv_def)
  then show "distinct (map res_name (paa_valid apps))"
    "tx_urn tx \<in> res_name ` set (paa_valid apps)"
    "\<forall>re \<in> set (paa_valid apps). res_principal_type re = PrincipalTypeServicePrincipal"
    "\<forall>re \<in> set (paa_valid apps). re = self_resource tx (inst s) \<or>
      res_rule re \<in> ensure_fields_are_set tx (inst s) ` set ?apps"
    "\<forall>re \<in> set (paa_invalid apps). \<exists>app \<in> set ?apps.
      re = invalid_resource env (ensure_fields_are_set tx (inst s) app)"
    using r by (auto simp: desired_inv_def self_resource_def split: if_splits)
qed

subsection \<open>Evaluation\<close>

lemmas preAuth_runs [runs] =
  pre_auth_exists_def [THEN fun_cong] map_to_resource_def [THEN fun_cong]
    add_desired_def [THEN fun_cong] map_desired_pre_authorized_apps_def [THEN fun_cong]
    keep_unmanaged_def [THEN fun_cong] patch_pre_authorized_applications_def [THEN fun_cong]
    pre_auth_process_def [THEN fun_cong] pre_auth_get_def [THEN fun_cong]

end
