(* ===== verification/AzureClient.thy ===== *)
theory AzureClient
  imports PreAuth CredentialsClient
begin

text \<open>
  The client the reconcilers call: pkg/azure/client/client.go, with the retries of pkg/retry and
  \<open>UpdateWithApplicationIDs\<close> and \<open>UpdateWithServicePrincipalID\<close> of
  pkg/transaction/transaction.go.
\<close>

definition RetryInitialDelay :: duration where
  "RetryInitialDelay = 1 * second"

definition RetryMaximumDuration :: duration where
  "RetryMaximumDuration = 30 * second"

definition do_retry :: "env \<Rightarrow> 'a prog \<Rightarrow> 'a prog" where
  "do_retry env m = retry_do env RetryInitialDelay RetryMaximumDuration m"

definition update_with_application_ids :: "graph_application \<Rightarrow> unit prog" where
  "update_with_application_ids app =
     bnd (lift (deref (ga_app_id app))) (\<lambda>client_id.
     bnd (set_status (\<lambda>st. st\<lparr>status_client_id := client_id\<rparr>)) (\<lambda>_.
     bnd (lift (deref (ga_id app))) (\<lambda>oid.
     set_status (\<lambda>st. st\<lparr>status_object_id := oid\<rparr>))))"

definition update_with_service_principal_id :: "service_principal \<Rightarrow> unit prog" where
  "update_with_service_principal_id sp =
     bnd (lift (deref (sp_id sp))) (\<lambda>i.
     set_status (\<lambda>st. st\<lparr>status_sp_id := i\<rparr>))"

record process_result =
  pr_pre_authorized_apps :: pre_authorized_apps
  pr_permissions :: permissions

definition client_process :: "env \<Rightarrow> transaction \<Rightarrow> graph_application \<Rightarrow> process_result prog" where
  "client_process env tx app =
     bnd (wrap ''processing oauth2 permission grants'' (grant_process env tx)) (\<lambda>_.
     bnd (wrap ''fetching authenticated service principal id''
            (sp_get_id_by_client_id env (az_client_id (azure_cfg env)))) (\<lambda>owner.
     bnd (wrap ''processing application owners'' (application_owners_process env tx owner)) (\<lambda>_.
     bnd (wrap ''processing service principal owners'' (sp_owners_process env tx owner)) (\<lambda>_.
     bnd (lift (extract_permissions app)) (\<lambda>perms.
     bnd (wrap ''processing preauthorized apps'' (pre_auth_process env tx perms)) (\<lambda>apps.
     bnd (if feat_claims_policies (features env)
          then bnd (wrap ''enabling acceptMappedClaims for application''
                      (enable_accept_mapped_claims env tx app)) (\<lambda>_.
               wrap ''processing service principal policies''
                 (policies_process env tx (feat_claims_policies_id (features env))))
          else ret ()) (\<lambda>_.
     bnd (if feat_groups_assignment (features env)
          then wrap ''processing groups to service principal'' (groups_process env tx)
          else ret ()) (\<lambda>_.
     bnd (if feat_role_assignment_required (features env)
          then wrap ''enabling requirement for approle assignments''
                 (set_app_role_assignment_required env tx)
          else ret ()) (\<lambda>_.
     bnd (if feat_security_attributes (features env)
          then wrap ''setting security attributes for service principal''
                 (set_security_attributes env tx)
          else ret ()) (\<lambda>_.
     ret \<lparr>pr_pre_authorized_apps = apps, pr_permissions = perms\<rparr>))))))))))"

definition client_create :: "env \<Rightarrow> transaction \<Rightarrow> application_result prog" where
  "client_create env tx =
     bnd (wrap ''registering application resource'' (application_register env tx)) (\<lambda>app.
     bnd (update_with_application_ids app) (\<lambda>_.
     bnd (wrap ''registering service principal for application'' (do_retry env (sp_register env tx))) (\<lambda>sp.
     bnd (update_with_service_principal_id sp) (\<lambda>_.
     bnd instance_of (\<lambda>i.
     let uris = identifier_uris_create i (tx_cluster_name tx) in
     bnd (wrap ''setting identifier URIs for application''
            (do_retry env (identifier_uri_set env tx uris))) (\<lambda>_.
     bnd (do_retry env (client_process env tx app)) (\<lambda>res.
     bnd (lift (deref (ga_app_id app))) (\<lambda>client_id.
     bnd (lift (deref (ga_id app))) (\<lambda>oid.
     bnd (lift (deref (sp_id sp))) (\<lambda>spid.
     ret \<lparr>ares_client_id = client_id, ares_object_id = oid, ares_sp_id = spid,
          ares_permissions = pr_permissions res,
          ares_pre_authorized_apps = pr_pre_authorized_apps res,
          ares_tenant = tenant_id (az_tenant (azure_cfg env)),
          ares_result = OperationCreated\<rparr>))))))))))"

definition client_exists :: "env \<Rightarrow> transaction \<Rightarrow> graph_application option prog" where
  "client_exists env tx = application_exists env tx"

definition client_get :: "env \<Rightarrow> transaction \<Rightarrow> graph_application prog" where
  "client_get env tx = application_get env tx"

definition client_delete :: "env \<Rightarrow> transaction \<Rightarrow> unit prog" where
  "client_delete env tx =
     bnd (client_exists env tx) (\<lambda>found.
       if found \<noteq> None then application_delete env tx
       else fail (Cause (Opaque ''application does not exist'')))"

definition get_service_principal :: "env \<Rightarrow> transaction \<Rightarrow> service_principal prog" where
  "get_service_principal env tx =
     bnd client_id_of (\<lambda>client_id.
     bnd (wrap ''looking up existence of service principal'' (sp_exists env client_id)) (\<lambda>found.
     case found of
       Some sp \<Rightarrow> ret sp
     | None \<Rightarrow> wrap ''registering service principal that did not exist'' (sp_register env tx)))"

definition get_pre_authorized_apps :: "env \<Rightarrow> transaction \<Rightarrow> pre_authorized_apps prog" where
  "get_pre_authorized_apps env tx = pre_auth_get env tx"

definition pre_authorized_app_client_id ::
  "env \<Rightarrow> access_policy_rule \<Rightarrow> (client_id \<times> bool) prog" where
  "pre_authorized_app_client_id env rule =
     bnd (exists_by_filter env (filter_by_name (get_unique_name (e_urn env) rule))) (\<lambda>found.
     case found of
       None \<Rightarrow> ret ([], False)
     | Some app \<Rightarrow>
         (case ga_app_id app of
            None \<Rightarrow> ret ([], False)
          | Some i \<Rightarrow>
              if length i = 0 then ret ([], False)
              else bnd (sp_exists env i) (\<lambda>found_sp.
                if found_sp = None then ret ([], False) else ret (i, True))))"

definition client_update :: "env \<Rightarrow> transaction \<Rightarrow> application_result prog" where
  "client_update env tx =
     bnd client_id_of (\<lambda>client_id.
     bnd object_id_of (\<lambda>oid.
     bnd sp_id_of (\<lambda>spid.
     bnd (wrap ''updating application resource'' (application_update env tx)) (\<lambda>app.
     bnd (wrap ''updating redirect URIs'' (redirect_uri_update env tx)) (\<lambda>_.
     bnd (client_process env tx app) (\<lambda>res.
     bnd (remove_disabled_permissions env tx app) (\<lambda>_.
     ret \<lparr>ares_client_id = client_id, ares_object_id = oid, ares_sp_id = spid,
          ares_permissions = pr_permissions res,
          ares_pre_authorized_apps = pr_pre_authorized_apps res,
          ares_tenant = tenant_id (az_tenant (azure_cfg env)),
          ares_result = OperationUpdated\<rparr>)))))))"

subsection \<open>Requests\<close>

text \<open>
  Registering and updating an application never delete it, never touch Kubernetes and leave its
  credentials alone (an empty list of keys is omitted from a patch); only a registration sends
  \<open>AddApplication\<close>.
\<close>

fun keeps_keys :: "app_patch \<Rightarrow> bool" where
  "keeps_keys (PatchFields a) = (ga_key_credentials a = [])"
| "keeps_keys (PatchKeyCredentials ks) = False"
| "keeps_keys p = True"

fun maintains :: "event \<Rightarrow> bool" where
  "maintains (Graph (DeleteApplication i), ok) = False"
| "maintains (Graph (AddApplication a), ok) = False"
| "maintains (Graph (AddPassword i c), ok) = False"
| "maintains (Graph (RemovePassword i k), ok) = False"
| "maintains (Graph (PatchApplication i p), ok) = keeps_keys p"
| "maintains (Graph g, ok) = True"
| "maintains (Cache c, ok) = True"
| "maintains (r, ok) = harmless r"

lemma maintains_reads: "reads e \<Longrightarrow> maintains e"
  by (cases e rule: maintains.cases) auto

lemma maintains_assignments: "touches_assignments t e \<Longrightarrow> maintains e"
  by (cases "(t, e)" rule: touches_assignments.cases; cases e rule: maintains.cases) auto

lemma maintains_assignments_process: "emits maintains (process_for env t assignees ty roles)"
  by (rule emits_mono [OF process_for_emits maintains_assignments])

lemma maintains_of_reads: "emits reads m \<Longrightarrow> emits maintains m"
  by (erule emits_mono) (rule maintains_reads)

lemma maintains_patch: "keeps_keys p \<Longrightarrow> emits maintains (application_patch env oid p)"
  by (rule application_patch_emits) simp

lemma manifest_keeps_keys [simp]:
  "ga_key_credentials zero_application = []" "ga_key_credentials (default_template tx i) = []"
  "ga_key_credentials (with_identifier_uris us a) = ga_key_credentials a"
  "ga_key_credentials (with_app_roles rs a) = ga_key_credentials a"
  "ga_key_credentials (with_permission_scopes ss a) = ga_key_credentials a"
  "ga_key_credentials (with_optional_claims oc a) = ga_key_credentials a"
  "ga_key_credentials (with_group_membership_claims c a) = ga_key_credentials a"
  by (simp_all add: zero_application_def default_template_def with_identifier_uris_def with_app_roles_def
      with_permission_scopes_def with_optional_claims_def with_group_membership_claims_def)

lemma update_group_claim_keeps_keys:
  "update_group_claim env i actual app = Ok app' \<Longrightarrow> ga_key_credentials app' = ga_key_credentials app"
  by (auto simp: update_group_claim_def out_bind_Ok_iff split: if_splits)

lemma process_parts_emits:
  "emits maintains (grant_process env tx)"
  "emits maintains (application_owners_process env tx owner)"
  "emits maintains (sp_owners_process env tx owner)"
  "emits maintains (enable_accept_mapped_claims env tx app)"
  "emits maintains (policies_process env tx p)"
  "emits maintains (groups_process env tx)"
  "emits maintains (set_app_role_assignment_required env tx)"
  "emits maintains (set_security_attributes env tx)"
  "emits maintains (pre_auth_process env tx perms)"
proof -
  show "emits maintains (grant_process env tx)"
    unfolding grant_process_def
    by (auto intro!: emits_intros maintains_of_reads [OF sp_reads(5)])
  show "emits maintains (application_owners_process env tx owner)"
    unfolding application_owners_process_def application_owners_add_def
    by (auto intro!: emits_intros maintains_of_reads [OF owners_get_reads(1)])
  show "emits maintains (sp_owners_process env tx owner)"
    unfolding sp_owners_process_def sp_owners_add_def
    by (auto intro!: emits_intros maintains_of_reads [OF owners_get_reads(2)])
  show "emits maintains (enable_accept_mapped_claims env tx app)"
    unfolding enable_accept_mapped_claims_def
    by (auto intro!: emits_intros maintains_patch split: option.split)
  have "emits maintains (policies_loop env d i ps)" for d i ps
    by (induction ps)
       (auto simp: assign_policy_def remove_policy_def intro!: emits_intros split: option.split)
  then show "emits maintains (policies_process env tx p)"
    unfolding policies_process_def
    by (auto intro!: emits_intros maintains_of_reads [OF sp_reads(4)])
  show "emits maintains (groups_process env tx)"
    unfolding groups_process_def process_for_groups_def
    by (auto intro!: emits_intros maintains_of_reads [OF group_reads(4)] maintains_assignments_process)
  show "emits maintains (set_app_role_assignment_required env tx)"
    unfolding set_app_role_assignment_required_def set_app_role_assignment_def sp_update_def
    by (auto intro!: emits_intros maintains_of_reads [OF sp_reads(2)] split: option.split)
  show "emits maintains (set_security_attributes env tx)"
    unfolding set_security_attributes_def by (auto intro!: emits_intros)
  have "emits maintains (patch_pre_authorized_applications env tx rs perms)" for rs
    unfolding patch_pre_authorized_applications_def Let_def
    by (auto intro!: emits_intros maintains_patch maintains_of_reads [OF application_get_reads(2)]
        maintains_of_reads [OF pre_auth_reads(2)])
  then show "emits maintains (pre_auth_process env tx perms)"
    unfolding pre_auth_process_def process_for_service_principals_def
    by (auto intro!: emits_intros maintains_assignments_process maintains_of_reads [OF pre_auth_reads(1)])
qed

lemma client_process_emits: "emits maintains (client_process env tx app)"
  unfolding client_process_def
  by (auto intro!: emits_intros process_parts_emits maintains_of_reads [OF sp_reads(3)])

lemma client_update_emits: "emits maintains (client_update env tx)"
proof -
  have "emits maintains (application_update env tx)"
    unfolding application_update_def Let_def
    by (intro emits.bnd emits.ret emits.lift emits_instance_of emits_draw_uuids emits_lifted maintains_patch
        maintains_of_reads [OF application_get_reads(3)]) (auto dest: update_group_claim_keeps_keys)
  moreover have "emits maintains (redirect_uri_update env tx)"
    unfolding redirect_uri_update_def by (auto intro!: emits_intros maintains_patch)
  moreover have "emits maintains (remove_disabled_permissions env tx app)" for app
    unfolding remove_disabled_permissions_def Let_def by (auto intro!: emits_intros maintains_patch)
  ultimately show ?thesis
    unfolding client_update_def by (auto intro!: emits_intros client_process_emits)
qed

fun registers :: "event \<Rightarrow> bool" where
  "registers (Graph (AddApplication a), ok) = True"
| "registers e = maintains e"

lemma registers_maintains: "maintains e \<Longrightarrow> registers e"
  by (cases e rule: registers.cases) auto

lemma do_retry_emits:
  "(\<And>b ok. Q (Runtime (RetryWait b RetryMaximumDuration), ok)) \<Longrightarrow> emits Q m \<Longrightarrow>
     emits Q (do_retry env m)"
  unfolding do_retry_def by (intro emits_intros) auto

lemma sp_register_emits: "emits maintains (sp_register env tx)"
  unfolding sp_register_def Let_def by (auto intro!: emits_intros)

lemma client_create_emits: "emits registers (client_create env tx)"
proof -
  have up: "emits registers (update_with_application_ids app)" for app
    unfolding update_with_application_ids_def by (auto intro!: emits_intros)
  have sp: "emits registers (update_with_service_principal_id sp)" for sp
    unfolding update_with_service_principal_id_def by (auto intro!: emits_intros)
  have reg: "emits registers (application_register env tx)"
    unfolding application_register_def Let_def by (auto intro!: emits_intros)
  have uri: "emits registers (identifier_uri_set env tx uris)" for uris
    unfolding identifier_uri_set_def by (auto intro!: emits_intros application_patch_emits)
  show ?thesis
    unfolding client_create_def Let_def
    by (auto intro!: emits_intros up sp reg uri do_retry_emits
        emits_mono [OF sp_register_emits] emits_mono [OF client_process_emits] registers_maintains)
qed

lemma get_service_principal_emits: "emits maintains (get_service_principal env tx)"
  unfolding get_service_principal_def
  by (auto intro!: emits_intros maintains_of_reads [OF sp_reads(2)] sp_register_emits split: option.split)

lemma pre_authorized_app_client_id_reads [emits_rules]:
  "emits reads (pre_authorized_app_client_id env rule)"
  unfolding pre_authorized_app_client_id_def
  by (auto intro!: emits_intros emits_rules split: option.split)

subsection \<open>What happens to the instance\<close>

lemma client_process_same [emits_rules]: "moves same_inst (client_process env tx app)"
  unfolding client_process_def application_owners_process_def sp_owners_process_def
    application_owners_get_def sp_owners_get_def application_owners_add_def sp_owners_add_def
    enable_accept_mapped_claims_def set_app_role_assignment_required_def
  by (auto intro!: same_inst_intros emits_rules split: option.split)

lemma client_update_same [emits_rules]: "moves same_inst (client_update env tx)"
  unfolding client_update_def application_update_def redirect_uri_update_def
    remove_disabled_permissions_def Let_def
  by (auto intro!: same_inst_intros emits_rules)

lemma client_delete_same [emits_rules]: "moves same_inst (client_delete env tx)"
  unfolding client_delete_def client_exists_def application_delete_def
  by (auto intro!: same_inst_intros emits_rules)

lemma client_create_frame: "moves frame_rel (client_create env tx)"
proof -
  have reg: "moves same_inst (application_register env tx)"
    unfolding application_register_def Let_def by (auto intro!: same_inst_intros)
  have sp: "moves same_inst (do_retry env (sp_register env tx))"
    unfolding do_retry_def by (intro same_inst_intros emits_rules)
  have uri: "moves same_inst (do_retry env (identifier_uri_set env tx uris))" for uris
    unfolding do_retry_def identifier_uri_set_def by (intro same_inst_intros emits_rules)
  have pro: "moves same_inst (do_retry env (client_process env tx app))" for app
    unfolding do_retry_def by (intro same_inst_intros emits_rules)
  show ?thesis
    unfolding client_create_def update_with_application_ids_def update_with_service_principal_id_def Let_def
    by (intro frame.rules frame_set_status frame_of_same_inst [OF reg] frame_of_same_inst [OF sp]
        frame_of_same_inst [OF uri] frame_of_same_inst [OF pro] frame_of_same_inst [OF same_inst_basic(4)])
qed

lemma get_service_principal_same [emits_rules]: "moves same_inst (get_service_principal env tx)"
  unfolding get_service_principal_def
  by (auto intro!: same_inst_intros emits_rules split: option.split)

subsection \<open>Evaluation\<close>

lemmas azureClient_runs [runs] =
  do_retry_def [THEN fun_cong] update_with_application_ids_def [THEN fun_cong]
    update_with_service_principal_id_def [THEN fun_cong] client_process_def [THEN fun_cong]
    client_create_def [THEN fun_cong] client_exists_def [THEN fun_cong]
    client_get_def [THEN fun_cong] client_delete_def [THEN fun_cong]
    get_service_principal_def [THEN fun_cong] get_pre_authorized_apps_def [THEN fun_cong]
    pre_authorized_app_client_id_def [THEN fun_cong] client_update_def [THEN fun_cong]

end
