(* ===== verification/Synchronizer.thy ===== *)
theory Synchronizer
  imports AzureClient
begin

text \<open>
  Propagation of changes between applications: pkg/synchronizer/event.go, synchronizer.go and
  sweeper.go. An event about a created or updated application marks the applications that
  pre-authorize it for resynchronisation; the sweeper periodically catches what events missed.
\<close>

subsection \<open>event.go\<close>

record event_application =
  eva_name :: string
  eva_namespace :: string
  eva_cluster :: string
  eva_client_id :: client_id

record sync_event =
  ev_id :: string
  ev_name :: string
  ev_application :: event_application

definition EventCreated :: string where "EventCreated = ''Created''"
definition EventUpdated :: string where "EventUpdated = ''Updated''"

definition event_application_string :: "event_application \<Rightarrow> string" where
  "event_application_string a = eva_cluster a @ '':'' @ eva_namespace a @ '':'' @ eva_name a"

definition new_event ::
  "string \<Rightarrow> string \<Rightarrow> azure_ad_application \<Rightarrow> string \<Rightarrow> client_id \<Rightarrow> sync_event" where
  "new_event i name app cluster client_id =
     \<lparr>ev_id = i, ev_name = name,
      ev_application = \<lparr>eva_name = app_name app, eva_namespace = app_namespace app,
        eva_cluster = cluster, eva_client_id = client_id\<rparr>\<rparr>"

definition new_created_event ::
  "string \<Rightarrow> azure_ad_application \<Rightarrow> string \<Rightarrow> client_id \<Rightarrow> sync_event" where
  "new_created_event i app cluster client_id = new_event i EventCreated app cluster client_id"

definition new_updated_event ::
  "string \<Rightarrow> azure_ad_application \<Rightarrow> string \<Rightarrow> client_id \<Rightarrow> sync_event" where
  "new_updated_event i app cluster client_id = new_event i EventUpdated app cluster client_id"

definition missing_fields :: "event_application \<Rightarrow> string list" where
  "missing_fields a =
     (if eva_name a = [] then [''name''] else []) @
     (if eva_namespace a = [] then [''namespace''] else []) @
     (if eva_cluster a = [] then [''cluster''] else []) @
     (if eva_client_id a = [] then [''clientID''] else [])"

text \<open>\<open>dump\<close> is the library's formatting of a list of strings (\<open>%v\<close>).\<close>

definition event_validate :: "(string list \<Rightarrow> string) \<Rightarrow> sync_event \<Rightarrow> unit outcome" where
  "event_validate dump e =
     (let missing = missing_fields (ev_application e) in
      if length missing = 0 then Ok ()
      else Err (Cause (Opaque (''invalid event: missing field(s): '' @ dump missing))))"

definition event_is_created :: "sync_event \<Rightarrow> bool" where
  "event_is_created e = (ev_name e = EventCreated)"

definition event_is_updated :: "sync_event \<Rightarrow> bool" where
  "event_is_updated e = (ev_name e = EventUpdated)"

definition event_string :: "sync_event \<Rightarrow> string" where
  "event_string e = ev_name e @ '' ('' @ ev_id e @ '')''"

subsection \<open>synchronizer.go\<close>

definition normalize_rule :: "azure_ad_application \<Rightarrow> string \<Rightarrow> access_policy_rule \<Rightarrow> access_policy_rule" where
  "normalize_rule app cluster rule =
     (let r1 = (if length (rule_namespace rule) = 0 then rule\<lparr>rule_namespace := app_namespace app\<rparr> else rule)
      in if length (rule_cluster r1) = 0 then r1\<lparr>rule_cluster := cluster\<rparr> else r1)"

definition rule_matches ::
  "azure_ad_application \<Rightarrow> string \<Rightarrow> sync_event \<Rightarrow> access_policy_rule \<Rightarrow> bool" where
  "rule_matches app cluster e rule =
     (let r = normalize_rule app cluster rule; a = ev_application e in
      rule_application r = eva_name a \<and> rule_namespace r = eva_namespace a \<and>
      rule_cluster r = eva_cluster a)"

definition already_assigned_with_current_client_id ::
  "azure_ad_application \<Rightarrow> string \<Rightarrow> sync_event \<Rightarrow> bool" where
  "already_assigned_with_current_client_id app cluster e =
     (if eva_client_id (ev_application e) = [] then False
      else case status_pre_authorized_apps (app_status app) of
        None \<Rightarrow> False
      | Some st \<Rightarrow> list_ex (\<lambda>assigned.
          case pre_rule assigned of
            None \<Rightarrow> False
          | Some rule \<Rightarrow> rule_matches app cluster e rule \<and>
              pre_client_id assigned = eva_client_id (ev_application e)) (pres_assigned st))"

definition needs_resync :: "azure_ad_application \<Rightarrow> string \<Rightarrow> sync_event \<Rightarrow> bool" where
  "needs_resync app cluster e =
     (let a = ev_application e in
      if app_name app = eva_name a \<and> app_namespace app = eva_namespace a \<and> cluster = eva_cluster a
      then False
      else if list_ex (\<lambda>p. rule_matches app cluster e (in_rule p))
                (spec_pre_authorized_applications (app_spec app))
      then \<not> already_assigned_with_current_client_id app cluster e
      else False)"

text \<open>\<open>retry.DefaultRetry\<close> allows five attempts.\<close>

definition default_retry_steps :: nat where
  "default_retry_steps = 4"

definition mark_for_resync :: "env \<Rightarrow> sync_event \<Rightarrow> azure_ad_application \<Rightarrow> azure_ad_application" where
  "mark_for_resync env e existing =
     set_annotation (e_correlation_key env) (ev_id e)
       (add_to_annotation ResynchronizeKey (event_application_string (ev_application e)) existing)"

definition synchronizer_resync :: "env \<Rightarrow> azure_ad_application \<Rightarrow> sync_event \<Rightarrow> unit prog" where
  "synchronizer_resync env app e =
     retry_on_conflict default_retry_steps
       (bnd (wrap ''getting newest version from cluster''
               (call (Kube (GetResource (app_namespace app) (app_name app))) (e_resource env))) (\<lambda>existing.
        wrap ''setting resync annotation''
          (call (Kube (UpdateResource (mark_for_resync env e existing))) (e_unit env))))"

definition synchronize :: "env \<Rightarrow> sync_event \<Rightarrow> unit prog" where
  "synchronize env e =
     (if \<not> event_is_created e \<and> \<not> event_is_updated e then ret ()
      else case event_validate (e_dump env) e of
        Ok _ \<Rightarrow>
          bnd (wrap ''fetching AzureAdApplications from cluster''
                 (call (Kube ListResources) (e_resources env))) (\<lambda>apps.
          for_each (\<lambda>app.
            if needs_resync app (cfg_cluster_name (e_config env)) e
            then wrap ''resyncing'' (synchronizer_resync env app e)
            else ret ()) apps)
      | _ \<Rightarrow> ret ())"

subsection \<open>sweeper.go\<close>

definition min_sweep_interval :: duration where
  "min_sweep_interval = second"

text \<open>\<open>NewSweeper\<close>: the sweep interval and the lifetime of cached lookups.\<close>

definition sweep_interval :: "duration \<Rightarrow> duration" where
  "sweep_interval interval = max interval min_sweep_interval"

definition sweep_cache_ttl :: "duration \<Rightarrow> duration" where
  "sweep_cache_ttl interval = sweep_interval interval div 2"

text \<open>The live client ID and assignability of an application; \<open>None\<close> when inconclusive.\<close>

definition sweeper_resolve :: "env \<Rightarrow> access_policy_rule \<Rightarrow> (client_id \<times> bool) option prog" where
  "sweeper_resolve env rule =
     (let name = get_unique_name (e_urn env) rule in
      bnd (ask (Cache (GetResolved name)) (e_cached_resolved env)) (\<lambda>cached.
      case cached of
        Some r \<Rightarrow> ret (Some r)
      | None \<Rightarrow>
          bnd (attempt (pre_authorized_app_client_id env rule)) (\<lambda>r.
          case r of
            Inl e \<Rightarrow> ret None
          | Inr (i, assignable) \<Rightarrow>
              bnd (notify (Cache (SetResolved name i assignable
                     (sweep_cache_ttl (cfg_sweep_interval (e_config env)))))) (\<lambda>_.
              ret (Some (i, assignable))))))"

fun any_assignable :: "env \<Rightarrow> pre_authorized_app list \<Rightarrow> bool prog" where
  "any_assignable env [] = ret False"
| "any_assignable env (u # us) =
     (case pre_rule u of
        None \<Rightarrow> any_assignable env us
      | Some rule \<Rightarrow>
          bnd (sweeper_resolve env rule) (\<lambda>r.
            if (case r of Some (i, assignable) \<Rightarrow> assignable | None \<Rightarrow> False) then ret True
            else any_assignable env us))"

fun any_recreated :: "env \<Rightarrow> pre_authorized_app list \<Rightarrow> bool prog" where
  "any_recreated env [] = ret False"
| "any_recreated env (a # as) =
     (case pre_rule a of
        None \<Rightarrow> any_recreated env as
      | Some rule \<Rightarrow>
          if rule_cluster rule = cfg_cluster_name (e_config env) then any_recreated env as
          else bnd (sweeper_resolve env rule) (\<lambda>r.
            if (case r of Some (i, assignable) \<Rightarrow> assignable \<and> i \<noteq> pre_client_id a | None \<Rightarrow> False)
            then ret True else any_recreated env as))"

definition has_resyncable_pre_auth_app :: "env \<Rightarrow> azure_ad_application \<Rightarrow> bool prog" where
  "has_resyncable_pre_auth_app env app =
     bnd (lift (deref (status_pre_authorized_apps (app_status app)))) (\<lambda>st.
     bnd (any_assignable env (pres_unassigned st)) (\<lambda>found.
       if found then ret True else any_recreated env (pres_assigned st)))"

definition should_resync :: "env \<Rightarrow> azure_ad_application \<Rightarrow> bool prog" where
  "should_resync env app =
     (if status_pre_authorized_apps (app_status app) = None then ret False
      else if status_tenant (app_status app) \<noteq> tenant_id (az_tenant (azure_cfg env)) then ret False
      else if has_annotation app ResynchronizeKey \<noteq> None then ret False
      else has_resyncable_pre_auth_app env app)"

definition sourceSweeper :: string where
  "sourceSweeper = ''sweeper''"

text \<open>The result tells whether the application was marked.\<close>

definition sweeper_resync :: "env \<Rightarrow> azure_ad_application \<Rightarrow> bool prog" where
  "sweeper_resync env app =
     retry_on_conflict default_retry_steps
       (bnd (wrap ''getting newest version from cluster''
               (call (Kube (GetResource (app_namespace app) (app_name app))) (e_resource env))) (\<lambda>existing.
        if has_annotation existing ResynchronizeKey \<noteq> None then ret False
        else bnd (wrap ''setting resync annotation''
               (call (Kube (UpdateResource (set_annotation ResynchronizeKey sourceSweeper existing)))
                 (e_unit env))) (\<lambda>_. ret True)))"

text \<open>Errors are logged and the sweep goes on with the next application.\<close>

definition sweep :: "env \<Rightarrow> unit prog" where
  "sweep env =
     bnd (attempt (call (Kube ListResources) (e_resources env))) (\<lambda>r.
     case r of
       Inl e \<Rightarrow> ret ()
     | Inr apps \<Rightarrow>
         for_each (\<lambda>app.
           bnd (should_resync env app) (\<lambda>candidate.
             if \<not> candidate then ret ()
             else bnd (attempt (sweeper_resync env app)) (\<lambda>_. ret ()))) apps)"

text \<open>
  The loop of the sweeper, for the sequence of channels its \<open>select\<close> chooses: the ticker sweeps,
  the end of the context returns. It goes on waiting after the last element of the sequence.
\<close>

datatype sweeper_signal = ContextDone | Tick

fun sweeper_start :: "env \<Rightarrow> sweeper_signal list \<Rightarrow> unit prog" where
  "sweeper_start env [] = ret ()"
| "sweeper_start env (ContextDone # signals) = ret ()"
| "sweeper_start env (Tick # signals) = bnd (sweep env) (\<lambda>_. sweeper_start env signals)"

definition sweeper_need_leader_election :: bool where
  "sweeper_need_leader_election = True"

subsection \<open>Evaluation\<close>

lemmas synchronizer_runs [runs] =
  synchronizer_resync_def [THEN fun_cong] synchronize_def [THEN fun_cong]
    sweeper_resolve_def [THEN fun_cong] any_assignable.simps [THEN fun_cong]
    any_recreated.simps [THEN fun_cong] has_resyncable_pre_auth_app_def [THEN fun_cong]
    should_resync_def [THEN fun_cong] sweeper_resync_def [THEN fun_cong] sweep_def [THEN fun_cong]

end
