(* ===== verification/Reconcilers.thy ===== *)
theory Reconcilers
  imports Synchronizer
begin

text \<open>
  The three reconcilers the controller composes: pkg/reconciler/azure/azure.go,
  pkg/reconciler/secrets/secrets.go and pkg/reconciler/finalizer/finalizer.go, with the two
  operations of the controller they call back (\<open>ReportEvent\<close> and \<open>UpdateApplication\<close> of
  controllers/azureadapplication/azureadapplication_controller.go).
\<close>

subsection \<open>Callbacks of the controller\<close>

definition report_event :: "env \<Rightarrow> event_type \<Rightarrow> event_reason \<Rightarrow> string \<Rightarrow> unit prog" where
  "report_event env ty reason msg =
     bnd (set_status (\<lambda>st. st\<lparr>status_state := e_reason env reason\<rparr>)) (\<lambda>_.
     notify (Kube (RecordEvent ty reason msg)))"

text \<open>
  The update runs on the newest version of the resource, under a lock that every path releases.
  A resource that is gone is not an error; any other error loses its cause (\<open>%s\<close>).
\<close>

definition update_application :: "env \<Rightarrow> (azure_ad_application \<Rightarrow> unit prog) \<Rightarrow> unit prog" where
  "update_application env upd =
     bnd (notify (Runtime LockAppsync)) (\<lambda>_.
     deferred (notify (Runtime UnlockAppsync))
       (bnd instance_of (\<lambda>i.
        bnd (attempt (call (Kube (GetResource (app_namespace i) (app_name i))) (e_resource env))) (\<lambda>r.
        case r of
          Inl e \<Rightarrow> if root_cause e = NotFound then ret ()
                   else fail (Cause (Opaque ''get newest version of AzureAdApplication''))
        | Inr existing \<Rightarrow> upd existing))))"

text \<open>A run of an update, step by step.\<close>

lemma update_application_run:
  "update_application env upd s =
     (let s1 = s\<lparr>trace := (Runtime LockAppsync, True) # trace s\<rparr>;
          req = Kube (GetResource (app_namespace (inst s)) (app_name (inst s)))
      in case e_resource env (trace s1) req of
           Inl e \<Rightarrow>
             (if root_cause e = NotFound then Ok ()
              else Err (Cause (Opaque ''get newest version of AzureAdApplication'')),
              s1\<lparr>trace := (Runtime UnlockAppsync, True) # (req, False) # trace s1\<rparr>)
         | Inr existing \<Rightarrow>
             (case upd existing (s1\<lparr>trace := (req, True) # trace s1\<rparr>) of
                (r, s2) \<Rightarrow> (r, s2\<lparr>trace := (Runtime UnlockAppsync, True) # trace s2\<rparr>)))"
  by (auto simp: update_application_def deferred_def bnd_def attempt_def notify_def ask_def call_def
      instance_of_def gets_def ret_def fail_def Let_def split: sum.split prod.split)

subsection \<open>The Azure reconciler\<close>

definition tenant_string :: "azure_tenant \<Rightarrow> string" where
  "tenant_string t = tenant_name t @ '' - '' @ tenant_id t"

definition assigned_status :: "resource \<Rightarrow> pre_authorized_app" where
  "assigned_status app =
     \<lparr>pre_rule = Some (in_rule (res_rule app)), pre_client_id = res_client_id app,
      pre_sp_object_id = res_object_id app, pre_reason = []\<rparr>"

definition skipped_message :: "env \<Rightarrow> resource \<Rightarrow> string" where
  "skipped_message env app =
     ''skipped '' @ quoted (res_name app) @ ''; not found in tenant ('' @ tenant_string (az_tenant (azure_cfg env)) @ '')''"

definition unassigned_status :: "env \<Rightarrow> resource \<Rightarrow> pre_authorized_app" where
  "unassigned_status env app =
     \<lparr>pre_rule = Some (in_rule (res_rule app)), pre_client_id = res_client_id app,
      pre_sp_object_id = res_object_id app, pre_reason = skipped_message env app\<rparr>"

definition report_pre_authorized_status :: "env \<Rightarrow> pre_authorized_apps \<Rightarrow> unit prog" where
  "report_pre_authorized_status env apps =
     bnd (for_each (\<lambda>app. notify (Kube (RecordEvent Normal AccessPolicyAssigned (''assigned '' @ quoted (res_name app)))))
            (paa_valid apps)) (\<lambda>_.
     bnd (for_each (\<lambda>app. notify (Kube (RecordEvent Normal AccessPolicySkipped (skipped_message env app))))
            (paa_invalid apps)) (\<lambda>_.
     let assigned = map assigned_status (paa_valid apps);
         unassigned = map (unassigned_status env) (paa_invalid apps) in
     set_status (\<lambda>st. st\<lparr>status_pre_authorized_apps :=
       Some \<lparr>pres_assigned = assigned, pres_unassigned = unassigned,
             pres_assigned_count = length assigned, pres_unassigned_count = length unassigned\<rparr>\<rparr>)))"

definition azure_create :: "env \<Rightarrow> transaction \<Rightarrow> application_result prog" where
  "azure_create env tx =
     bnd (wrap ''creating azure application'' (client_create env tx)) (\<lambda>res.
     bnd (report_event env Normal CreatedInAzure ''Azure application is created'') (\<lambda>_.
     bnd (set_status (\<lambda>st. st\<lparr>status_client_id := ares_client_id res, status_object_id := ares_object_id res,
            status_sp_id := ares_sp_id res\<rparr>)) (\<lambda>_.
     ret res)))"

definition azure_update :: "env \<Rightarrow> transaction \<Rightarrow> application_result prog" where
  "azure_update env tx =
     bnd (wrap ''updating azure application'' (client_update env tx)) (\<lambda>res.
     bnd (report_event env Normal UpdatedInAzure ''Azure application is updated'') (\<lambda>_.
     ret res))"

definition azure_not_modified :: "env \<Rightarrow> transaction \<Rightarrow> application_result prog" where
  "azure_not_modified env tx =
     bnd (wrap ''fetching pre-authorized apps'' (get_pre_authorized_apps env tx)) (\<lambda>apps.
     bnd instance_of (\<lambda>i.
     ret \<lparr>ares_client_id = status_client_id (app_status i), ares_object_id = status_object_id (app_status i),
          ares_sp_id = status_sp_id (app_status i), ares_permissions = [],
          ares_pre_authorized_apps = apps, ares_tenant = tenant_id (az_tenant (azure_cfg env)),
          ares_result = OperationNotModified\<rparr>))"

text \<open>The event is produced concurrently: here the start of the goroutine is recorded.\<close>

definition azure_process :: "env \<Rightarrow> transaction \<Rightarrow> application_result prog" where
  "azure_process env tx =
     bnd (if \<not> tx_exists_in_azure tx then azure_create env tx
          else if opt_azure_synchronize (opt_azure (opt_process (tx_options tx))) then azure_update env tx
          else azure_not_modified env tx) (\<lambda>res.
     bnd (if is_modified res then report_pre_authorized_status env (ares_pre_authorized_apps res)
          else ret ()) (\<lambda>_.
     bnd (notify (Runtime (SpawnProduceEvent res))) (\<lambda>_.
     ret res)))"

text \<open>
  The body of the goroutine; \<open>i\<close> is the instance, of which it reads the name and namespace. It
  retries for at most five minutes with a delay of at least a second; an error is logged.
\<close>

definition produce_event :: "env \<Rightarrow> transaction \<Rightarrow> azure_ad_application \<Rightarrow> application_result \<Rightarrow> unit prog" where
  "produce_event env tx i res =
     (let produce = (\<lambda>e. case event_validate (e_dump env) e of
          Ok _ \<Rightarrow> bnd (attempt (retry_do env (1 * second) (5 * minute) (synchronize env e))) (\<lambda>_. ret ())
        | _ \<Rightarrow> ret ())
      in if is_created res
         then produce (new_created_event (tx_id tx) i (tx_cluster_name tx) (ares_client_id res))
         else if is_updated res
         then produce (new_updated_event (tx_id tx) i (tx_cluster_name tx) (ares_client_id res))
         else ret ())"

text \<open>The key IDs in use after an operation that returned a new credential set.\<close>

definition with_current_ids :: "transaction \<Rightarrow> credentials_set \<Rightarrow> key_id" where
  "with_current_ids tx cs =
     (let used = kids_used (txs_key_ids (tx_secrets tx)) in
      \<lparr>kid_certificate = kid_certificate used @ [cert_key_id (cr_certificate (set_current cs))],
       kid_password = kid_password used @ [pw_key_id (cr_password (set_current cs))]\<rparr>)"

definition azure_add_credentials :: "env \<Rightarrow> transaction \<Rightarrow> (credentials_set \<times> key_id) prog" where
  "azure_add_credentials env tx =
     bnd (credentials_add env tx) (\<lambda>cs. ret (cs, with_current_ids tx cs))"

definition azure_delete_unused_credentials :: "env \<Rightarrow> transaction \<Rightarrow> unit prog" where
  "azure_delete_unused_credentials env tx =
     wrap ''deleting unused credentials for Azure application'' (credentials_delete_unused env tx)"

definition azure_delete_expired_credentials :: "env \<Rightarrow> transaction \<Rightarrow> unit prog" where
  "azure_delete_expired_credentials env tx =
     (if \<not> tx_exists_in_azure tx then ret ()
      else wrap ''deleting expired credentials for Azure application'' (credentials_delete_expired env tx))"

definition azure_rotate_credentials :: "env \<Rightarrow> transaction \<Rightarrow> (credentials_set \<times> key_id) prog" where
  "azure_rotate_credentials env tx =
     bnd (credentials_rotate env tx) (\<lambda>cs.
     bnd (report_event env Normal RotatedInAzure ''Azure credentials is rotated'') (\<lambda>_.
     ret (cs, with_current_ids tx cs)))"

definition azure_purge_credentials :: "env \<Rightarrow> transaction \<Rightarrow> unit prog" where
  "azure_purge_credentials env tx =
     (if \<not> tx_exists_in_azure tx then ret () else credentials_purge env tx)"

definition azure_validate_credentials :: "env \<Rightarrow> transaction \<Rightarrow> bool prog" where
  "azure_validate_credentials env tx =
     (if \<not> tx_exists_in_azure tx \<or> \<not> opt_secret_valid (secret_opts tx) then ret False
      else bnd (lift (latest_outcome tx)) (credentials_validate env tx))"

definition azure_delete :: "env \<Rightarrow> transaction \<Rightarrow> unit prog" where
  "azure_delete env tx =
     (if \<not> tx_exists_in_azure tx then ret ()
      else wrap ''failed to delete Azure application'' (client_delete env tx))"

definition azure_exists :: "env \<Rightarrow> transaction \<Rightarrow> bool prog" where
  "azure_exists env tx =
     bnd (wrap ''looking up existence of azure application'' (client_exists env tx)) (\<lambda>found.
     case found of
       None \<Rightarrow> ret False
     | Some app \<Rightarrow>
         bnd (update_with_application_ids app) (\<lambda>_.
         bnd (wrap ''getting service principal for application'' (get_service_principal env tx)) (\<lambda>sp.
         bnd (update_with_service_principal_id sp) (\<lambda>_.
         ret True))))"

definition azure_process_orphaned :: "env \<Rightarrow> transaction \<Rightarrow> unit prog" where
  "azure_process_orphaned env tx =
     (if \<not> tx_exists_in_azure tx then ret ()
      else if opt_cleanup_orphans (opt_azure (opt_process (tx_options tx))) then azure_delete env tx
      else ret ())"

subsection \<open>The secrets reconciler\<close>

definition get_managed_secrets :: "env \<Rightarrow> secret_lists prog" where
  "get_managed_secrets env =
     bnd instance_of (\<lambda>i.
     call (Kube (ListSecrets (app_namespace i) (app_name i) (resource_labels i))) (e_secret_lists env))"

definition secrets_prepare :: "env \<Rightarrow> tx_secrets prog" where
  "secrets_prepare env =
     bnd instance_of (\<lambda>i.
     let keys = new_secret_data_keys [spec_secret_key_prefix (app_spec i)] in
     bnd (wrap ''getting managed secrets'' (get_managed_secrets env)) (\<lambda>managed.
     let ids = get_key_ids managed keys in
     bnd (set_status (\<lambda>st. st\<lparr>status_certificate_key_ids := kid_certificate (kids_used ids),
                             status_password_key_ids := kid_password (kids_used ids)\<rparr>)) (\<lambda>_.
     bnd (wrap ''extracting credentials set from secret''
            (lift (get_previous_credentials_set (e_codec env) managed keys
              (status_secret_name (app_status i))))) (\<lambda>cs.
     ret \<lparr>txs_data_keys = keys, txs_key_ids = ids,
          txs_latest = \<lparr>latest_set = cs, latest_valid = cs \<noteq> None\<rparr>,
          txs_managed = managed\<rparr>))))"

text \<open>
  \<open>controllerutil.CreateOrUpdate\<close>: the object is read, mutated, and created or, if the
  mutation changed it, updated. A read replaces the whole object, labels and annotations included.
\<close>

definition mutate_secret ::
  "env \<Rightarrow> azure_ad_application \<Rightarrow> string gomap \<Rightarrow> secret \<Rightarrow> secret outcome" where
  "mutate_secret env i data s = out_of_sum (e_set_owner env i (s\<lparr>sec_string_data := data\<rparr>))"

definition new_secret :: "azure_ad_application \<Rightarrow> secret" where
  "new_secret i =
     \<lparr>sec_name = spec_secret_name (app_spec i), sec_namespace = app_namespace i,
      sec_labels = resource_labels i, sec_annotations = [(StakaterReloaderKey, ''true'')],
      sec_data = [], sec_string_data = [], sec_owner = None\<rparr>"

definition create_or_update_object ::
  "env \<Rightarrow> secret \<Rightarrow> (secret \<Rightarrow> secret outcome) \<Rightarrow> unit prog" where
  "create_or_update_object env s mutate =
     bnd (attempt (call (Kube (GetSecret (sec_namespace s) (sec_name s))) (e_secret env))) (\<lambda>r.
     case r of
       Inl e \<Rightarrow>
         if root_cause e = NotFound
         then bnd (lift (mutate s)) (\<lambda>s'. call (Kube (CreateSecret s')) (e_unit env))
         else fail e
     | Inr existing \<Rightarrow>
         bnd (lift (mutate existing)) (\<lambda>s'.
           if s' = existing then ret () else call (Kube (UpdateSecret s')) (e_unit env)))"

definition secrets_create_or_update ::
  "env \<Rightarrow> transaction \<Rightarrow> application_result \<Rightarrow> credentials_set \<Rightarrow> unit prog" where
  "secrets_create_or_update env tx res cs =
     bnd instance_of (\<lambda>i.
     bnd (wrap ''creating secret data for secret''
            (lift (secret_data (e_codec env) res cs (e_openid env) (txs_data_keys (tx_secrets tx))))) (\<lambda>data.
     wrap ''creating or updating secret''
       (create_or_update_object env (new_secret i) (mutate_secret env i data))))"

definition secrets_process :: "env \<Rightarrow> transaction \<Rightarrow> application_result \<Rightarrow> unit prog" where
  "secrets_process env tx res =
     (if opt_secret_valid (secret_opts tx) \<and> \<not> opt_secret_rotate (secret_opts tx) \<and> is_not_modified res
      then ret ()
      else
        bnd (if \<not> opt_secret_valid (secret_opts tx)
             then bnd (wrap ''adding azure credentials'' (azure_add_credentials env tx))
                    (\<lambda>(cs, ids). ret (Some cs, ids))
             else if opt_secret_rotate (secret_opts tx)
             then bnd (wrap ''rotating azure credentials'' (azure_rotate_credentials env tx))
                    (\<lambda>(cs, ids). ret (Some cs, ids))
             else ret (latest_of tx, kids_used (txs_key_ids (tx_secrets tx)))) (\<lambda>(cs, ids).
        bnd (lift (deref cs)) (\<lambda>cs.
        bnd (secrets_create_or_update env tx res cs) (\<lambda>_.
        if \<not> opt_secret_valid (secret_opts tx) \<or> opt_secret_rotate (secret_opts tx)
        then bnd (set_status (\<lambda>st. st\<lparr>status_certificate_key_ids := kid_certificate ids,
                                       status_password_key_ids := kid_password ids\<rparr>)) (\<lambda>_.
             bnd (now env) (\<lambda>t.
             set_status (\<lambda>st. st\<lparr>status_rotation_time := Some t\<rparr>)))
        else ret ()))))"

definition secrets_delete_unused :: "env \<Rightarrow> transaction \<Rightarrow> unit prog" where
  "secrets_delete_unused env tx =
     for_each (\<lambda>s.
       bnd instance_of (\<lambda>i.
         if sec_name s = spec_secret_name (app_spec i) then ret ()
         else wrap ''deleting unused secret'' (call (Kube (DeleteSecret s)) (e_unit env))))
       (sl_unused (txs_managed (tx_secrets tx)))"

subsection \<open>The finalizer\<close>

definition FinalizerName :: string where
  "FinalizerName = ''azure.nais.io/finalizer''"

definition FinalizerOldName :: string where
  "FinalizerOldName = ''finalizer.azurerator.nais.io''"

text \<open>\<open>ContainsFinalizer\<close>, \<open>AddFinalizer\<close> and \<open>RemoveFinalizer\<close> of controllerutil.\<close>

definition contains_finalizer :: "azure_ad_application \<Rightarrow> string \<Rightarrow> bool" where
  "contains_finalizer app name = (name \<in> set (app_finalizers app))"

definition add_finalizer :: "string \<Rightarrow> azure_ad_application \<Rightarrow> azure_ad_application" where
  "add_finalizer name app =
     (if contains_finalizer app name then app
      else app\<lparr>app_finalizers := app_finalizers app @ [name]\<rparr>)"

definition remove_finalizer :: "string \<Rightarrow> azure_ad_application \<Rightarrow> azure_ad_application" where
  "remove_finalizer name app = app\<lparr>app_finalizers := filter (\<lambda>f. f \<noteq> name) (app_finalizers app)\<rparr>"

definition finalizer_register :: "env \<Rightarrow> transaction \<Rightarrow> unit prog" where
  "finalizer_register env tx =
     wrap ''error when registering finalizer''
       (update_application env (\<lambda>existing.
         call (Kube (UpdateResource (add_finalizer FinalizerName existing))) (e_unit env)))"

definition finalizer_finalize :: "env \<Rightarrow> transaction \<Rightarrow> unit prog" where
  "finalizer_finalize env tx =
     bnd instance_of (\<lambda>i.
     bnd (if has_annotation i PreserveKey \<noteq> None
          then wrap ''purging credentials from Azure AD'' (azure_purge_credentials env tx)
          else bnd (wrap ''failed to delete resources'' (azure_delete env tx)) (\<lambda>_.
               report_event env Normal DeletedInAzure ''Azure application is deleted'')) (\<lambda>_.
     wrap ''failed to remove finalizer from list''
       (update_application env (\<lambda>existing.
         call (Kube (UpdateResource
           (remove_finalizer FinalizerOldName (remove_finalizer FinalizerName existing)))) (e_unit env)))))"

text \<open>The result tells whether the finalizer handled the resource.\<close>

definition finalizer_process :: "env \<Rightarrow> transaction \<Rightarrow> bool prog" where
  "finalizer_process env tx =
     bnd instance_of (\<lambda>i.
     let has_finalizer = contains_finalizer i FinalizerName;
         has_old = contains_finalizer i FinalizerOldName;
         should_finalize = app_deletion_timestamp i \<noteq> None in
     if (has_finalizer \<or> has_old) \<and> should_finalize
     then bnd (finalizer_finalize env tx) (\<lambda>_. ret True)
     else if \<not> has_finalizer then bnd (finalizer_register env tx) (\<lambda>_. ret True)
     else ret False)"

subsection \<open>Evaluation\<close>

lemmas reconcilers_runs [runs] =
  report_event_def [THEN fun_cong] update_application_def [THEN fun_cong]
    report_pre_authorized_status_def [THEN fun_cong] azure_create_def [THEN fun_cong]
    azure_update_def [THEN fun_cong] azure_not_modified_def [THEN fun_cong]
    azure_process_def [THEN fun_cong] produce_event_def [THEN fun_cong]
    azure_add_credentials_def [THEN fun_cong] azure_delete_unused_credentials_def [THEN fun_cong]
    azure_delete_expired_credentials_def [THEN fun_cong]
    azure_rotate_credentials_def [THEN fun_cong] azure_purge_credentials_def [THEN fun_cong]
    azure_validate_credentials_def [THEN fun_cong] azure_delete_def [THEN fun_cong]
    azure_exists_def [THEN fun_cong] azure_process_orphaned_def [THEN fun_cong]
    get_managed_secrets_def [THEN fun_cong] secrets_prepare_def [THEN fun_cong]
    create_or_update_object_def [THEN fun_cong] secrets_create_or_update_def [THEN fun_cong]
    secrets_process_def [THEN fun_cong] secrets_delete_unused_def [THEN fun_cong]
    finalizer_register_def [THEN fun_cong] finalizer_finalize_def [THEN fun_cong]
    finalizer_process_def [THEN fun_cong]

end
