(* ===== verification/Controller.thy ===== *)
theory Controller
  imports Reconcilers
begin

text \<open>
  The controller: controllers/azureadapplication/azureadapplication_controller.go. A
  reconciliation starts from the namespace and name of a resource and returns what the
  controller runtime should do next; its context timeout shows as failing requests.
\<close>

definition orphanedSecretCleanupGracePeriod :: duration where
  "orphanedSecretCleanupGracePeriod = 5 * minute"

definition no_requeue :: ctrl_result where
  "no_requeue = \<lparr>requeue = False, requeue_after = None\<rparr>"

definition get_or_generate_correlation_id :: "env \<Rightarrow> string prog" where
  "get_or_generate_correlation_id env =
     bnd instance_of (\<lambda>i.
     case has_annotation i (e_correlation_key env) of
       None \<Rightarrow> bnd (draw_uuids env) (\<lambda>fresh. ret (fresh 0))
     | Some v \<Rightarrow> ret v)"

definition prepare :: "env \<Rightarrow> string \<Rightarrow> string \<Rightarrow> transaction prog" where
  "prepare env namespace name =
     bnd (call (Kube (GetResource namespace name)) (e_resource env)) (\<lambda>i0.
     bnd (modify (\<lambda>s. s\<lparr>inst := i0\<rparr>)) (\<lambda>_.
     bnd (get_or_generate_correlation_id env) (\<lambda>correlation_id.
     bnd (set_status (\<lambda>st. st\<lparr>status_correlation_id := correlation_id\<rparr>)) (\<lambda>_.
     bnd (wrap ''preparing transaction secrets'' (secrets_prepare env)) (\<lambda>secrets.
     bnd instance_of (\<lambda>i.
     bnd (now env) (\<lambda>t.
     bnd (wrap ''preparing transaction options''
            (lift (new_options (e_hash env) t i (e_config env) secrets))) (\<lambda>opts.
     let tx = \<lparr>tx_cluster_name = cfg_cluster_name (e_config env), tx_exists_in_azure = False,
               tx_options = opts, tx_secrets = secrets, tx_id = correlation_id,
               tx_urn = e_urn env (app_name i) (app_namespace i) (cfg_cluster_name (e_config env))\<rparr> in
     bnd (azure_exists env tx) (\<lambda>found.
     ret (tx\<lparr>tx_exists_in_azure := found\<rparr>))))))))))"

definition controller_process :: "env \<Rightarrow> transaction \<Rightarrow> unit prog" where
  "controller_process env tx =
     bnd (azure_process env tx) (\<lambda>res.
     wrap ''processing secrets'' (secrets_process env tx res))"

definition already_owned_message :: "string \<Rightarrow> string \<Rightarrow> string \<Rightarrow> string" where
  "already_owned_message name kind owner =
     ''Secret '' @ quoted name @ '' is already owned by '' @ kind @ '' '' @ quoted owner @
     '', cannot overwrite. If overwriting is intended, delete the secret and resynchronize.''"

definition is_unrecoverable_error :: "env \<Rightarrow> err \<Rightarrow> bool prog" where
  "is_unrecoverable_error env e =
     (case root_cause e of
        AlreadyOwned name kind owner \<Rightarrow>
          bnd (report_event env Warning FailedSynchronization (already_owned_message name kind owner))
            (\<lambda>_. ret True)
      | _ \<Rightarrow> ret False)"

definition handle_error :: "env \<Rightarrow> transaction \<Rightarrow> err \<Rightarrow> ctrl_result prog" where
  "handle_error env tx e =
     (if root_cause e = NamespaceTerminating then ret no_requeue
      else
        bnd (report_event env Warning FailedSynchronization ''Failed to synchronize AzureAdApplication'') (\<lambda>_.
        bnd (is_unrecoverable_error env e) (\<lambda>unrecoverable.
        if unrecoverable then ret no_requeue
        else bnd (report_event env Normal Retrying ''Retrying synchronization'') (\<lambda>_.
             ret \<lparr>requeue = True, requeue_after = None\<rparr>))))"

definition update_status :: "env \<Rightarrow> transaction \<Rightarrow> unit prog" where
  "update_status env tx =
     wrap ''updating status fields''
       (update_application env (\<lambda>existing.
         bnd instance_of (\<lambda>i.
         call (Kube (UpdateResourceStatus (existing\<lparr>app_status := app_status i\<rparr>))) (e_unit env))))"

text \<open>
  Annotations that were processed are removed from the instance and from the newest version;
  then the annotations of the instance are copied over those of the newest version. Copying
  entries into a nil map panics.
\<close>

definition merge_annotations ::
  "string gomap option \<Rightarrow> string gomap option \<Rightarrow> string gomap option outcome" where
  "merge_annotations existing mine =
     (case (existing, mine) of
        (_, None) \<Rightarrow> Ok existing
      | (Some e, Some m) \<Rightarrow> Ok (Some (fold (\<lambda>(k, v). gm_put k v) m e))
      | (None, Some m) \<Rightarrow> if m = [] then Ok None else Panic)"

definition remove_processed :: "azure_ad_application \<Rightarrow> azure_ad_application \<Rightarrow> azure_ad_application" where
  "remove_processed i app =
     (let app1 = (if has_resynchronize_annotation i then remove_from_annotation ResynchronizeKey app else app)
      in if has_rotate_annotation i then remove_annotation RotateKey app1 else app1)"

definition update_annotations :: "env \<Rightarrow> transaction \<Rightarrow> unit prog" where
  "update_annotations env tx =
     wrap ''updating annotations''
       (update_application env (\<lambda>existing.
         bnd instance_of (\<lambda>i.
         let i' = remove_processed i i; existing' = remove_processed i existing in
         bnd (modify (\<lambda>s. s\<lparr>inst := i'\<rparr>)) (\<lambda>_.
         bnd (lift (merge_annotations (app_annotations existing') (app_annotations i'))) (\<lambda>merged.
         call (Kube (UpdateResource (existing'\<lparr>app_annotations := merged\<rparr>))) (e_unit env))))))"

definition complete :: "env \<Rightarrow> transaction \<Rightarrow> ctrl_result prog" where
  "complete env tx =
     bnd (report_event env Normal Synchronized ''Azure application is up-to-date'') (\<lambda>_.
     bnd instance_of (\<lambda>i.
     bnd (set_status (\<lambda>st. st\<lparr>status_secret_name := spec_secret_name (app_spec i)\<rparr>)) (\<lambda>_.
     bnd (now env) (\<lambda>t.
     bnd (set_status (\<lambda>st. st\<lparr>status_sync_time := Some t,
            status_tenant := tenant_id (az_tenant (azure_cfg env)),
            status_tenant_name := tenant_name (az_tenant (azure_cfg env))\<rparr>)) (\<lambda>_.
     bnd instance_of (\<lambda>i.
     bnd (wrap ''calculating application hash'' (lift (e_hash env i))) (\<lambda>new_hash.
     bnd (set_status (\<lambda>st. st\<lparr>status_hash := new_hash\<rparr>)) (\<lambda>_.
     bnd (catch (update_status env tx) (\<lambda>e.
            bnd (report_event env Warning FailedStatusUpdate ''Failed to update status'') (\<lambda>_. fail e))) (\<lambda>_.
     bnd (catch (update_annotations env tx) (\<lambda>e.
            bnd (report_event env Warning Retrying ''Failed to update annotations'') (\<lambda>_. fail e))) (\<lambda>_.
     ret \<lparr>requeue = False, requeue_after = Some orphanedSecretCleanupGracePeriod\<rparr>))))))))))"

text \<open>The requeue delay when nothing had to be synchronised.\<close>

definition idle_result :: "env \<Rightarrow> ctrl_result" where
  "idle_result env =
     (let max_age = cfg_rotation_max_age (e_config env);
          after = max_age - orphanedSecretCleanupGracePeriod in
      \<lparr>requeue = False, requeue_after = Some (if after \<le> 0 then max_age else after)\<rparr>)"

definition with_invalid_credentials :: "transaction \<Rightarrow> transaction" where
  "with_invalid_credentials tx =
     (let opts = tx_options tx; p = opt_process opts in
      tx\<lparr>tx_options := opts\<lparr>opt_process := p\<lparr>opt_synchronize := True,
         opt_secret := (opt_secret p)\<lparr>opt_secret_valid := False\<rparr>\<rparr>\<rparr>\<rparr>)"

text \<open>
  The part of \<open>Reconcile\<close> after the finalizer: every error is handed to \<open>HandleError\<close> with the
  transaction as it is at that point, so the steps are chained by \<open>step\<close>.
\<close>

definition step :: "env \<Rightarrow> transaction \<Rightarrow> 'a prog \<Rightarrow> ('a \<Rightarrow> ctrl_result prog) \<Rightarrow> ctrl_result prog" where
  "step env tx m k =
     bnd (attempt m) (\<lambda>r. case r of Inl e \<Rightarrow> handle_error env tx e | Inr x \<Rightarrow> k x)"

definition reconcile_credentials :: "env \<Rightarrow> transaction \<Rightarrow> ctrl_result prog" where
  "reconcile_credentials env tx0 =
     step env tx0 (azure_delete_expired_credentials env tx0) (\<lambda>_.
     step env tx0 (azure_validate_credentials env tx0) (\<lambda>valid.
     let tx = (if valid then tx0 else with_invalid_credentials tx0) in
     step env tx (secrets_delete_unused env tx) (\<lambda>_.
     step env tx
       (if opt_secret_cleanup (secret_opts tx) \<and> opt_secret_valid (secret_opts tx)
        then azure_delete_unused_credentials env tx else ret ()) (\<lambda>_.
     if \<not> opt_synchronize (opt_process (tx_options tx)) then ret (idle_result env)
     else step env tx (controller_process env tx) (\<lambda>_. complete env tx)))))"

definition reconcile :: "env \<Rightarrow> string \<Rightarrow> string \<Rightarrow> ctrl_result prog" where
  "reconcile env namespace name =
     bnd (attempt (prepare env namespace name)) (\<lambda>r.
     case r of
       Inl e \<Rightarrow> if root_cause e = NotFound then ret no_requeue else fail e
     | Inr tx \<Rightarrow>
         if opt_tenant_ignore (tx_options tx)
         then step env tx (wrap ''processing orphaned resources'' (azure_process_orphaned env tx))
                (\<lambda>_. ret no_requeue)
         else step env tx (finalizer_process env tx) (\<lambda>processed.
                if processed then ret no_requeue else reconcile_credentials env tx))"

text \<open>\<open>eventFilterPredicate\<close>: which updates of a resource trigger a reconciliation.\<close>

definition maps_equal :: "string gomap option \<Rightarrow> string gomap option \<Rightarrow> bool" where
  "maps_equal a b =
     (case (a, b) of (None, None) \<Rightarrow> True | (Some x, Some y) \<Rightarrow> set x = set y | _ \<Rightarrow> False)"

definition event_filter :: "azure_ad_application \<Rightarrow> azure_ad_application \<Rightarrow> bool" where
  "event_filter old new =
     (let spec_changed = app_spec old \<noteq> app_spec new;
          annotations_changed = \<not> maps_equal (app_annotations old) (app_annotations new);
          labels_changed = \<not> maps_equal (app_labels old) (app_labels new);
          finalizers_changed = app_finalizers old \<noteq> app_finalizers new;
          deletion_changed = app_deletion_timestamp old \<noteq> app_deletion_timestamp new
      in spec_changed \<or> annotations_changed \<or> labels_changed \<or> finalizers_changed \<or> deletion_changed)"

subsection \<open>Evaluation\<close>

lemmas controller_runs [runs] =
  get_or_generate_correlation_id_def [THEN fun_cong] prepare_def [THEN fun_cong]
    controller_process_def [THEN fun_cong] is_unrecoverable_error_def [THEN fun_cong]
    handle_error_def [THEN fun_cong] update_status_def [THEN fun_cong]
    update_annotations_def [THEN fun_cong] complete_def [THEN fun_cong] step_def [THEN fun_cong]
    reconcile_credentials_def [THEN fun_cong] reconcile_def [THEN fun_cong]

end
