(* ===== verification/RequestClasses.thy ===== *)
theory RequestClasses
  imports Controller
begin

text \<open>
  Which requests the parts of a reconciliation can send. A request is \<open>ordinary\<close> unless it is one of
  the four kinds the safety properties are about: the registration and the deletion of an
  application, the update of a resource and the deletion of a secret.
\<close>

subsection \<open>Classes\<close>

fun deletes :: "event \<Rightarrow> bool" where
  "deletes (Graph (DeleteApplication i), ok) = True"
| "deletes e = False"

fun adds :: "event \<Rightarrow> bool" where
  "adds (Graph (AddApplication a), ok) = True"
| "adds e = False"

fun updates_resource :: "event \<Rightarrow> bool" where
  "updates_resource (Kube (UpdateResource a), ok) = True"
| "updates_resource e = False"

fun drops :: "event \<Rightarrow> bool" where
  "drops (Kube (DeleteSecret x), ok) = True"
| "drops e = False"

fun ordinary :: "event \<Rightarrow> bool" where
  "ordinary (Graph (DeleteApplication i), ok) = False"
| "ordinary (Graph (AddApplication a), ok) = False"
| "ordinary (Kube (UpdateResource a), ok) = False"
| "ordinary (Kube (DeleteSecret x), ok) = False"
| "ordinary e = True"

lemma ordinary_iff: "ordinary e \<longleftrightarrow> \<not> deletes e \<and> \<not> adds e \<and> \<not> updates_resource e \<and> \<not> drops e"
  by (cases e rule: ordinary.cases) auto

text \<open>
  A request is \<open>plain\<close> when it is ordinary and belongs to no critical section: it neither takes nor
  releases the mutex \<open>appsync\<close> and does not write the status of a resource.
\<close>

fun of_section :: "event \<Rightarrow> bool" where
  "of_section (Runtime LockAppsync, ok) = True"
| "of_section (Runtime UnlockAppsync, ok) = True"
| "of_section (Kube (UpdateResourceStatus a), ok) = True"
| "of_section e = False"

definition plain :: "event \<Rightarrow> bool" where
  "plain e \<longleftrightarrow> ordinary e \<and> \<not> of_section e"

lemma plain_ordinary: "plain e \<Longrightarrow> ordinary e"
  by (simp add: plain_def)

lemma plain_simps [simp]:
  "plain (Graph g, ok) = ordinary (Graph g, ok)" "plain (Cache c, ok)"
  "plain (Runtime q, ok) \<longleftrightarrow> q \<noteq> LockAppsync \<and> q \<noteq> UnlockAppsync"
  "plain (Kube k, ok) \<longleftrightarrow> ordinary (Kube k, ok) \<and> \<not> of_section (Kube k, ok)"
  by (simp_all add: plain_def) (cases q; simp)

fun writes_resource :: "event \<Rightarrow> bool" where
  "writes_resource (Kube (UpdateResource a), ok) = True"
| "writes_resource (Kube (UpdateResourceStatus a), ok) = True"
| "writes_resource e = False"

lemma plain_writes: "plain e \<Longrightarrow> \<not> writes_resource e"
  by (cases e rule: writes_resource.cases) (auto simp: plain_def)

text \<open>The classes that the requests below stay in.\<close>

abbreviation updating :: "event \<Rightarrow> bool" where
  "updating e \<equiv> ordinary e \<or> updates_resource e"

abbreviation registering :: "event \<Rightarrow> bool" where
  "registering e \<equiv> ordinary e \<or> adds e"

abbreviation deleting :: "event \<Rightarrow> bool" where
  "deleting e \<equiv> ordinary e \<or> deletes e"

abbreviation plain_registering :: "event \<Rightarrow> bool" where
  "plain_registering e \<equiv> plain e \<or> adds e"

abbreviation plain_deleting :: "event \<Rightarrow> bool" where
  "plain_deleting e \<equiv> plain e \<or> deletes e"

lemma class_ordinary:
  "reads e \<Longrightarrow> ordinary e" "maintains e \<Longrightarrow> ordinary e" "credential_request unused e \<Longrightarrow> ordinary e"
  by (cases e rule: ordinary.cases; auto)+

lemma class_outside:
  "reads e \<Longrightarrow> \<not> of_section e" "maintains e \<Longrightarrow> \<not> of_section e" "credential_request unused e \<Longrightarrow> \<not> of_section e"
  by (cases e rule: of_section.cases; auto)+

lemma class_plain:
  "reads e \<Longrightarrow> plain e" "maintains e \<Longrightarrow> plain e" "credential_request unused e \<Longrightarrow> plain e"
  by (simp_all only: plain_def class_ordinary class_outside simp_thms)

lemma class_registering: "registers e \<Longrightarrow> plain_registering e"
  using class_plain(2) [of e]
  by (cases e rule: registers.cases) (simp_all del: maintains.simps plain_simps harmless.simps)

lemma plain_of:
  "emits reads m \<Longrightarrow> emits plain m" "emits maintains m \<Longrightarrow> emits plain m"
  "emits (credential_request unused) m \<Longrightarrow> emits plain m"
  by (erule emits_mono, rule class_plain, assumption)+

lemma of_plain: "emits plain m \<Longrightarrow> emits ordinary m"
  by (erule emits_mono) (rule plain_ordinary)

lemmas ordinary_of = plain_of [THEN of_plain]

lemma of_ordinary: "emits ordinary m \<Longrightarrow> (\<And>e. ordinary e \<Longrightarrow> Q e) \<Longrightarrow> emits Q m"
  by (rule emits_mono)

subsection \<open>Callbacks\<close>

lemma report_event_emits: "(\<And>x y z. Q (Kube (RecordEvent x y z), True)) \<Longrightarrow> emits Q (report_event env ty reason msg)"
  unfolding report_event_def by (intro emits_intros) simp

lemma update_application_emits:
  assumes "\<And>x y ok. Q (Kube (GetResource x y), ok)" "Q (Runtime LockAppsync, True)"
    "Q (Runtime UnlockAppsync, True)" "\<And>existing. emits Q (upd existing)"
  shows "emits Q (update_application env upd)"
  unfolding update_application_def
  using assms by (auto intro!: emits_intros split: sum.split)

lemma emits_set_inst: "emits Q (modify (inst_update f))"
  by (rule movesI) (auto simp: emits_rel_def)

lemma step_cases:
  assumes "step env tx m k s = (r, s')"
  obtains (Ok) x s1 where "m s = (Ok x, s1)" "k x s1 = (r, s')"
  | (Err) e s1 where "m s = (Err e, s1)" "handle_error env tx e s1 = (r, s')"
  | (Panic) s1 where "m s = (Panic, s1)" "r = Panic" "s' = s1"
  using assms by (auto simp: step_def bnd_def attempt_def split: prod.splits outcome.splits)

lemma step_emits:
  "emits Q m \<Longrightarrow> (\<And>e. emits Q (handle_error env tx e)) \<Longrightarrow> (\<And>x. emits Q (k x)) \<Longrightarrow>
     emits Q (step env tx m k)"
  unfolding step_def by (auto intro!: emits_intros split: sum.split)

subsection \<open>The parts of a reconciliation\<close>

lemma plain_into: "emits plain m \<Longrightarrow> (\<And>e. plain e \<Longrightarrow> Q e) \<Longrightarrow> emits Q m"
  by (rule emits_mono)

lemma azure_credentials_plain:
  "emits plain (azure_delete_expired_credentials env tx)"
  "emits plain (azure_delete_unused_credentials env tx)"
  "emits plain (azure_purge_credentials env tx)"
  "emits plain (azure_validate_credentials env tx)"
  "emits plain (azure_add_credentials env tx)"
  "emits plain (azure_rotate_credentials env tx)"
  unfolding azure_delete_expired_credentials_def azure_delete_unused_credentials_def
    azure_purge_credentials_def azure_validate_credentials_def azure_add_credentials_def
    azure_rotate_credentials_def
  by (auto intro!: emits_intros report_event_emits credentials_emits [THEN plain_of(3)])

lemma azure_exists_plain: "emits plain (azure_exists env tx)"
  unfolding azure_exists_def client_exists_def update_with_application_ids_def
    update_with_service_principal_id_def
  by (auto intro!: emits_intros plain_of(1) [OF application_get_reads(4)]
      plain_of(2) [OF get_service_principal_emits] split: option.split)

lemma secrets_prepare_plain: "emits plain (secrets_prepare env)"
  unfolding secrets_prepare_def get_managed_secrets_def Let_def by (auto intro!: emits_intros)

lemma prepare_plain: "emits plain (prepare env namespace name)"
  unfolding prepare_def get_or_generate_correlation_id_def Let_def
  by (auto intro!: emits_intros emits_set_inst secrets_prepare_plain azure_exists_plain split: option.split)

lemma handle_error_plain: "emits plain (handle_error env tx e)"
  unfolding handle_error_def is_unrecoverable_error_def
  by (auto intro!: emits_intros report_event_emits split: cause.split)

lemma secrets_process_plain: "emits plain (secrets_process env tx res)"
proof -
  have cu: "emits plain (secrets_create_or_update env tx res cs)" for cs
    unfolding secrets_create_or_update_def create_or_update_object_def
    by (auto intro!: emits_intros split: sum.split)
  show ?thesis
    unfolding secrets_process_def
    by (auto intro!: emits_intros cu azure_credentials_plain split: prod.split)
qed

lemma azure_parts_plain:
  "emits plain (azure_update env tx)" "emits plain (azure_not_modified env tx)"
  "emits plain (report_pre_authorized_status env apps)"
  unfolding azure_update_def azure_not_modified_def get_pre_authorized_apps_def
    report_pre_authorized_status_def Let_def
  by (auto intro!: emits_intros report_event_emits client_update_emits [THEN plain_of(2)]
      pre_auth_reads [THEN plain_of(1)])

lemma azure_create_plain_registering: "emits plain_registering (azure_create env tx)"
  unfolding azure_create_def
  by (auto intro!: emits_intros report_event_emits client_create_emits [THEN emits_mono] dest: class_registering)

lemma azure_process_plain_registering: "emits plain_registering (azure_process env tx)"
  unfolding azure_process_def
  by (auto intro!: emits_intros azure_create_plain_registering azure_parts_plain [THEN plain_into])

lemma azure_process_plain: "tx_exists_in_azure tx \<Longrightarrow> emits plain (azure_process env tx)"
  unfolding azure_process_def by (auto intro!: emits_intros azure_parts_plain)

lemma controller_process_plain_registering: "emits plain_registering (controller_process env tx)"
  unfolding controller_process_def
  by (auto intro!: emits_intros azure_process_plain_registering secrets_process_plain [THEN plain_into])

lemma controller_process_plain: "tx_exists_in_azure tx \<Longrightarrow> emits plain (controller_process env tx)"
  unfolding controller_process_def
  by (auto intro!: emits_intros azure_process_plain secrets_process_plain)

lemma registering_of: "emits plain_registering m \<Longrightarrow> emits registering m"
  by (erule emits_mono) (auto dest: plain_ordinary)

lemmas azure_credentials_ordinary = azure_credentials_plain [THEN of_plain]
lemmas azure_exists_ordinary = azure_exists_plain [THEN of_plain]
lemmas prepare_ordinary = prepare_plain [THEN of_plain]
lemmas handle_error_ordinary = handle_error_plain [THEN of_plain]
lemmas secrets_process_ordinary = secrets_process_plain [THEN of_plain]
lemmas azure_parts_ordinary = azure_parts_plain [THEN of_plain]
lemmas azure_process_ordinary = azure_process_plain [THEN of_plain]
lemmas controller_process_ordinary = controller_process_plain [THEN of_plain]
lemmas azure_process_registering = azure_process_plain_registering [THEN registering_of]
lemmas controller_process_registering = controller_process_plain_registering [THEN registering_of]

lemma update_status_ordinary: "emits ordinary (update_status env tx)"
  unfolding update_status_def by (auto intro!: emits_intros update_application_emits)

lemma update_annotations_updating: "emits updating (update_annotations env tx)"
  unfolding update_annotations_def Let_def
  by (auto intro!: emits_intros emits_set_inst update_application_emits)

lemma complete_updating: "emits updating (complete env tx)"
  unfolding complete_def
  by (auto intro!: emits_intros report_event_emits update_status_ordinary [THEN of_ordinary] update_annotations_updating)

lemma finalizer_register_updating: "emits updating (finalizer_register env tx)"
  unfolding finalizer_register_def by (auto intro!: emits_intros update_application_emits)

lemma secrets_delete_unused_class: "(\<And>x ok. Q (Kube (DeleteSecret x), ok)) \<Longrightarrow> emits Q (secrets_delete_unused env tx)"
  unfolding secrets_delete_unused_def by (auto intro!: emits_intros)

lemma azure_delete_plain: "emits plain_deleting (azure_delete env tx)"
  unfolding azure_delete_def client_delete_def client_exists_def application_delete_def
  by (auto intro!: emits_intros plain_of(1) [OF application_get_reads(4), THEN plain_into])

lemma orphaned_plain: "emits plain_deleting (azure_process_orphaned env tx)"
  unfolding azure_process_orphaned_def by (auto intro!: emits_intros azure_delete_plain)

lemma deleting_of: "emits plain_deleting m \<Longrightarrow> emits deleting m"
  by (erule emits_mono) (auto dest: plain_ordinary)

lemmas azure_delete_deleting = azure_delete_plain [THEN deleting_of]
lemmas orphaned_deleting = orphaned_plain [THEN deleting_of]

lemma finalizer_finalize_class: "emits (\<lambda>e. ordinary e \<or> updates_resource e \<or> deletes e) (finalizer_finalize env tx)"
  unfolding finalizer_finalize_def
  by (auto intro!: emits_intros azure_credentials_ordinary [THEN of_ordinary] report_event_emits
      update_application_emits azure_delete_deleting [THEN emits_mono])

lemma finalizer_process_class: "emits (\<lambda>e. ordinary e \<or> updates_resource e \<or> deletes e) (finalizer_process env tx)"
  unfolding finalizer_process_def Let_def
  by (auto intro!: emits_intros finalizer_finalize_class finalizer_register_updating [THEN emits_mono])

lemma with_invalid_simps [simp]:
  "tx_exists_in_azure (with_invalid_credentials tx) = tx_exists_in_azure tx"
  "opt_secret_valid (secret_opts (with_invalid_credentials tx)) = False"
  "opt_synchronize (opt_process (tx_options (with_invalid_credentials tx))) = True"
  "tx_secrets (with_invalid_credentials tx) = tx_secrets tx"
  "tx_urn (with_invalid_credentials tx) = tx_urn tx"
  by (simp_all add: with_invalid_credentials_def Let_def)

text \<open>The rest of a reconciliation, for any class that has what its parts send.\<close>

lemma reconcile_credentials_class:
  assumes "\<And>e. ordinary e \<Longrightarrow> Q e" "\<And>e. updates_resource e \<Longrightarrow> Q e" "\<And>e. drops e \<Longrightarrow> Q e"
    and "\<And>e. adds e \<Longrightarrow> \<not> tx_exists_in_azure tx \<Longrightarrow> Q e"
  shows "emits Q (reconcile_credentials env tx)"
proof -
  note ord = of_ordinary [OF _ assms(1)]
  have process: "emits Q (controller_process env tx')" if "tx_exists_in_azure tx' = tx_exists_in_azure tx" for tx'
  proof (cases "tx_exists_in_azure tx")
    case True
    then show ?thesis using that by (intro ord controller_process_ordinary) simp
  next
    case False
    then show ?thesis using assms by (intro emits_mono [OF controller_process_registering]) blast
  qed
  have complete: "emits Q (complete env tx')" for tx'
    using assms by (intro emits_mono [OF complete_updating]) blast
  have drop: "emits Q (secrets_delete_unused env tx')" for tx'
    by (rule secrets_delete_unused_class) (simp add: assms(3))
  show ?thesis
    unfolding reconcile_credentials_def Let_def
    by (auto intro!: emits_intros step_emits handle_error_ordinary [THEN ord] azure_credentials_ordinary [THEN ord]
        process complete drop)
qed

end
