(* ===== verification/ReconcileSafety.thy ===== *)
theory ReconcileSafety
  imports RequestClasses
begin

text \<open>
  What a reconciliation may send: when the application in Azure is deleted or registered, when
  the finalizer is removed, and how errors end a reconciliation. The first part classifies the
  requests of the reconcilers; the properties follow.
\<close>

subsection \<open>Deletions and registrations\<close>

text \<open>\<open>routine\<close>: a request that neither deletes nor registers an application.\<close>

abbreviation routine :: "event \<Rightarrow> bool" where
  "routine e \<equiv> \<not> deletes e \<and> \<not> adds e"

lemma updating_routine: "updating e \<Longrightarrow> routine e"
  by (cases e rule: updates_resource.cases) (auto simp: ordinary_iff)

lemma reads_routine: "reads e \<Longrightarrow> routine e"
  by (simp add: class_ordinary updating_routine)

lemma routine_of_ordinary: "emits ordinary m \<Longrightarrow> emits routine m"
  by (erule of_ordinary) (simp add: updating_routine)

lemma routine_of_updating: "emits updating m \<Longrightarrow> emits routine m"
  by (erule emits_mono) (rule updating_routine)

lemma routine_of_reads: "emits reads m \<Longrightarrow> emits routine m"
  by (intro routine_of_ordinary ordinary_of(1))

lemma routine_of_maintains: "emits maintains m \<Longrightarrow> emits routine m"
  by (intro routine_of_ordinary ordinary_of(2))

lemma keeps_of_routine: "emits routine m \<Longrightarrow> emits (\<lambda>e. \<not> deletes e) m"
  by (erule emits_mono) simp

lemma adds_none_of_routine: "emits routine m \<Longrightarrow> emits (\<lambda>e. \<not> adds e) m"
  by (erule emits_mono) simp

lemmas azure_credentials_emits = azure_credentials_ordinary [THEN routine_of_ordinary]
lemmas prepare_emits = prepare_ordinary [THEN routine_of_ordinary]
lemmas handle_error_emits = handle_error_ordinary [THEN routine_of_ordinary]
lemmas secrets_process_emits = secrets_process_ordinary [THEN routine_of_ordinary]
lemmas complete_emits = complete_updating [THEN routine_of_updating]
lemmas finalizer_register_emits = finalizer_register_updating [THEN routine_of_updating]

lemma secrets_delete_unused_emits: "emits routine (secrets_delete_unused env tx)"
  by (rule secrets_delete_unused_class) simp

lemma deletes_adds: "deletes e \<Longrightarrow> \<not> adds e" "adds e \<Longrightarrow> \<not> deletes e"
  "updates_resource e \<Longrightarrow> routine e" "drops e \<Longrightarrow> routine e"
  by (cases e rule: deletes.cases; auto)+

lemma reconcile_credentials_emits:
  "emits (\<lambda>e. \<not> deletes e) (reconcile_credentials env tx)"
  "tx_exists_in_azure tx \<Longrightarrow> emits routine (reconcile_credentials env tx)"
  by (rule reconcile_credentials_class; use deletes_adds ordinary_iff in blast)+

lemma azure_delete_emits: "emits (\<lambda>e. \<not> adds e) (azure_delete env tx)"
  by (rule emits_mono [OF azure_delete_deleting]) (use deletes_adds ordinary_iff in blast)

lemma finalizer_process_emits: "emits (\<lambda>e. \<not> adds e) (finalizer_process env tx)"
  by (rule emits_mono [OF finalizer_process_class]) (use deletes_adds ordinary_iff in blast)

lemma orphaned_emits: "emits (\<lambda>e. \<not> adds e) (azure_process_orphaned env tx)"
  by (rule emits_mono [OF orphaned_deleting]) (use deletes_adds ordinary_iff in blast)

subsection \<open>What preparing a transaction establishes\<close>

lemma secrets_prepare_frame: "moves frame_rel (secrets_prepare env)"
  unfolding secrets_prepare_def get_managed_secrets_def Let_def
  by (intro frame.rules frame_set_status frame_of_same_inst [OF same_inst_basic(4)]
      frame_of_same_inst [OF same_inst_call])

lemma azure_exists_frame: "moves frame_rel (azure_exists env tx)"
proof -
  note same = application_get_same(4) get_service_principal_same
  show ?thesis
    unfolding azure_exists_def client_exists_def update_with_application_ids_def
      update_with_service_principal_id_def
    by (auto intro!: frame.rules frame_set_status same [THEN frame_of_same_inst] split: option.split)
qed

lemma correlation_id_same: "moves same_inst (get_or_generate_correlation_id env)"
  unfolding get_or_generate_correlation_id_def
  by (auto intro!: same_inst_intros split: option.split)

text \<open>
  The resource fetched first decides the options; later changes to the instance only concern its
  status; and the option Valid implies that there are credentials.
\<close>

lemma prepare_Ok:
  assumes "prepare env namespace name s = (Ok tx, s1)"
  obtains i0 :: azure_ad_application where
    "e_resource env (trace s) (Kube (GetResource namespace name)) = Inr i0"
    "frame_rel (s\<lparr>inst := i0\<rparr>) s1"
    "opt_tenant_ignore (tx_options tx) = tenant_ignore i0 (e_config env)"
    "opt_cleanup_orphans (opt_azure (opt_process (tx_options tx))) = feat_cleanup_orphans (features env)"
    "tx_credentials_ok tx"
proof -
  obtain i0 :: azure_ad_application and cid sa sb sc sd secrets opts t tx0 found where
    a: "e_resource env (trace s) (Kube (GetResource namespace name)) = Inr i0"
    and sa: "get_or_generate_correlation_id env
       (s\<lparr>trace := (Kube (GetResource namespace name), True) # trace s, inst := i0\<rparr>) = (Ok cid, sa)"
    and sb: "set_status (\<lambda>st. st\<lparr>status_correlation_id := cid\<rparr>) sa = (Ok (), sb)"
    and sc: "secrets_prepare env sb = (Ok secrets, sc)"
    and opts: "new_options (e_hash env) t (inst sc) (e_config env) secrets = Ok opts"
    and sd: "azure_exists env tx0 sd = (Ok found, s1)" "inst sd = inst sc"
    and tx: "tx = tx0\<lparr>tx_exists_in_azure := found\<rparr>" "tx_options tx0 = opts" "tx_secrets tx0 = secrets"
    using assms unfolding prepare_def
    by (auto simp: bnd_Ok_iff call_Ok_iff ids_iff now_iff set_status_iff Let_def)
  have "frame_rel (s\<lparr>inst := i0\<rparr>) sa"
    using movesD [OF correlation_id_same sa] by (simp add: frame_rel_def same_inst_def)
  moreover have "frame_rel sa sb" by (rule movesD [OF frame_set_status sb])
  moreover have "frame_rel sb sc" by (rule movesD [OF secrets_prepare_frame sc])
  ultimately have f: "frame_rel (s\<lparr>inst := i0\<rparr>) sc" by (meson frame.trans)
  then have "frame_rel (s\<lparr>inst := i0\<rparr>) s1"
    using movesD [OF azure_exists_frame sd(1)] sd(2) by (auto simp: frame_rel_def)
  then show ?thesis
  proof (rule that [OF a])
    show "opt_tenant_ignore (tx_options tx) = tenant_ignore i0 (e_config env)"
      using new_options_fields(1) [OF opts] tx f tenant_ignore_spec [of "inst sc" i0 "e_config env"]
      by (simp add: frame_rel_def)
    show "opt_cleanup_orphans (opt_azure (opt_process (tx_options tx))) = feat_cleanup_orphans (features env)"
      using new_options_fields(2) [OF opts] tx by simp
    show "tx_credentials_ok tx"
      using new_options_valid [OF opts] tx by (simp add: tx_credentials_ok_def)
  qed
qed

subsection \<open>What Graph answered to the preparation\<close>

lemma exists_by_filter_Ok_reply:
  assumes "exists_by_filter env f s = (Ok found, s')"
  obtains apps where
    "e_applications env (trace s) (Graph (ListApplications f (max_pages env))) = Inr apps"
    "apps = (case found of None \<Rightarrow> [] | Some app \<Rightarrow> [app])"
proof -
  obtain apps s1 where g: "get_all env [f] s = (Ok apps, s1)"
    and k: "(case apps of [] \<Rightarrow> ret None | [app] \<Rightarrow> ret (Some app)
       | _ \<Rightarrow> fail (Cause (Opaque ''found more than one matching azure application''))) s1 = (Ok found, s')"
    using assms unfolding exists_by_filter_def by (elim bnd_OkE)
  have "e_applications env (trace s) (Graph (ListApplications f (max_pages env))) = Inr apps"
    using g by (auto simp: get_all_def bnd_Ok_iff call_Ok_iff)
  moreover have "apps = (case found of None \<Rightarrow> [] | Some app \<Rightarrow> [app])"
    using k by (auto split: list.splits)
  ultimately show ?thesis by (rule that)
qed

lemma exists_by_filter_lists:
  assumes "exists_by_filter env f s = (Ok found, s')"
  obtains n where "trace s' = n @ (Graph (ListApplications f (max_pages env)), True) # trace s"
proof -
  let ?q = "Graph (ListApplications f (max_pages env))"
  obtain apps where g: "get_all env [f] s = (Ok apps, s')"
    using assms unfolding exists_by_filter_def by (elim bnd_OkE) (auto split: list.splits)
  then obtain apps' s1 where q: "call ?q (e_applications env) s = (Ok apps', s1)"
    and rest: "bnd (for_each (\<lambda>app. bnd (is_managed env app) (\<lambda>_. ret ())) apps') (\<lambda>_. ret apps') s1 = (Ok apps, s')"
    unfolding get_all_def map_filters_single by (erule_tac bnd_OkE) (simp only: wrap_Ok_iff)
  then obtain u where loop: "for_each (\<lambda>app. bnd (is_managed env app) (\<lambda>_. ret ())) apps'
      (s\<lparr>trace := (?q, True) # trace s\<rparr>) = (Ok u, s')" by (auto simp: call_Ok_iff bnd_Ok_iff)
  have "emits (\<lambda>_. True) (for_each (\<lambda>app. bnd (is_managed env app) (\<lambda>_. ret ())) apps')"
    by (intro emits_rules emits_intros emits_mono [OF is_managed_reads]) simp
  from movesD [OF this loop] show ?thesis using that by (auto simp: emits_rel_def)
qed

lemma azure_exists_Ok:
  assumes "azure_exists env tx s = (Ok found, s')"
  obtains apps where
    "e_applications env (trace s) (Graph (ListApplications (filter_by_name (tx_urn tx)) (max_pages env))) = Inr apps"
    "ga_id ` set apps = (if found then {Some (status_object_id (app_status (inst s')))} else {})"
proof -
  obtain app s1 where ex: "exists_by_filter env (filter_by_name (tx_urn tx)) s = (Ok app, s1)"
    and rest: "(case app of None \<Rightarrow> ret False
      | Some app \<Rightarrow> bnd (update_with_application_ids app) (\<lambda>_.
         bnd (wrap ''getting service principal for application'' (get_service_principal env tx)) (\<lambda>sp.
         bnd (update_with_service_principal_id sp) (\<lambda>_. ret True)))) s1 = (Ok found, s')"
    using assms unfolding azure_exists_def client_exists_def application_exists_def by (auto simp: bnd_Ok_iff)
  from exists_by_filter_Ok_reply [OF ex] obtain apps where apps:
    "e_applications env (trace s) (Graph (ListApplications (filter_by_name (tx_urn tx)) (max_pages env))) = Inr apps"
    "apps = (case app of None \<Rightarrow> [] | Some app \<Rightarrow> [app])" .
  have "ga_id ` set apps = (if found then {Some (status_object_id (app_status (inst s')))} else {})"
  proof (cases app)
    case None
    then show ?thesis using rest apps(2) by simp
  next
    case (Some a)
    then obtain s2 sp s3 where s2: "update_with_application_ids a s1 = (Ok (), s2)"
      and s3: "get_service_principal env tx s2 = (Ok sp, s3)"
      and s4: "update_with_service_principal_id sp s3 = (Ok (), s')" "found"
      using rest by (auto simp: bnd_Ok_iff)
    have "ga_id a = Some (status_object_id (app_status (inst s2)))"
      using s2 unfolding update_with_application_ids_def
      by (auto simp: bnd_Ok_iff set_status_iff)
    moreover have "inst s3 = inst s2" using movesD [OF get_service_principal_same s3] by (simp add: same_inst_def)
    moreover have "status_object_id (app_status (inst s')) = status_object_id (app_status (inst s3))"
      using s4(1) unfolding update_with_service_principal_id_def by (auto simp: bnd_Ok_iff set_status_iff)
    ultimately show ?thesis using apps(2) Some s4(2) by simp
  qed
  then show ?thesis using that apps(1) by blast
qed

text \<open>
  The listing of the applications with a name that was sent on the way from \<open>s\<close> to \<open>s1\<close>, and
  the answer of Graph to it.
\<close>

definition listed_under :: "env \<Rightarrow> string \<Rightarrow> graph_application list \<Rightarrow> state \<Rightarrow> state \<Rightarrow> bool" where
  "listed_under env name apps s s1 \<longleftrightarrow>
     (let q = Graph (ListApplications (filter_by_name name) (max_pages env)) in
      \<exists>m n. trace s1 = m @ (q, True) # n @ trace s \<and> e_applications env (n @ trace s) q = Inr apps)"

text \<open>The name that the application of a resource has in Azure.\<close>

abbreviation azure_name :: "env \<Rightarrow> azure_ad_application \<Rightarrow> string" where
  "azure_name env i \<equiv> e_urn env (app_name i) (app_namespace i) (cfg_cluster_name (e_config env))"

lemma azure_exists_lists:
  assumes "azure_exists env tx s = (Ok found, s')"
  obtains apps where "listed_under env (tx_urn tx) apps s s'"
    "ga_id ` set apps = (if found then {Some (status_object_id (app_status (inst s')))} else {})"
proof -
  let ?q = "Graph (ListApplications (filter_by_name (tx_urn tx)) (max_pages env))"
  from azure_exists_Ok [OF assms] obtain apps where apps: "e_applications env (trace s) ?q = Inr apps"
    "ga_id ` set apps = (if found then {Some (status_object_id (app_status (inst s')))} else {})" .
  let ?rest = "\<lambda>found. case found of None \<Rightarrow> ret False
    | Some app \<Rightarrow> bnd (update_with_application_ids app) (\<lambda>_.
       bnd (wrap ''getting service principal for application'' (get_service_principal env tx)) (\<lambda>sp.
       bnd (update_with_service_principal_id sp) (\<lambda>_. ret True)))"
  obtain app s1 where ex: "exists_by_filter env (filter_by_name (tx_urn tx)) s = (Ok app, s1)"
    and rest: "?rest app s1 = (Ok found, s')"
    using assms unfolding azure_exists_def client_exists_def application_exists_def by (auto simp: bnd_Ok_iff)
  obtain n where n: "trace s1 = n @ (?q, True) # trace s" by (rule exists_by_filter_lists [OF ex])
  have "emits (\<lambda>_. True) (?rest app)"
    unfolding update_with_application_ids_def update_with_service_principal_id_def
    by (auto intro!: emits_intros emits_mono [OF get_service_principal_emits] split: option.split)
  from movesD [OF this rest] obtain m where m: "trace s' = (m @ n) @ (?q, True) # [] @ trace s"
    using n by (auto simp: emits_rel_def)
  have "listed_under env (tx_urn tx) apps s s'"
    unfolding listed_under_def Let_def by (intro exI conjI, rule m) (simp add: apps(1))
  then show ?thesis using apps(2) by (rule that)
qed

text \<open>A transaction knows of the application what Graph answered while it was prepared.\<close>

lemma prepare_lists:
  assumes "prepare env namespace name s = (Ok tx, s1)"
    and a: "e_resource env (trace s) (Kube (GetResource namespace name)) = Inr i0"
  obtains apps where
    "listed_under env (azure_name env i0) apps s s1"
    "ga_id ` set apps = (if tx_exists_in_azure tx then {Some (status_object_id (app_status (inst s1)))} else {})"
proof -
  obtain cid sa sb sc sd secrets tx0 found where
    sa: "get_or_generate_correlation_id env
       (s\<lparr>trace := (Kube (GetResource namespace name), True) # trace s, inst := i0\<rparr>) = (Ok cid, sa)"
    and sb: "sb = sa\<lparr>inst := (inst sa)\<lparr>app_status := (app_status (inst sa))\<lparr>status_correlation_id := cid\<rparr>\<rparr>\<rparr>"
    and sc: "secrets_prepare env sb = (Ok secrets, sc)"
    and sd: "azure_exists env tx0 sd = (Ok found, s1)" "trace sd = (Runtime Now, True) # trace sc"
    and tx: "tx_exists_in_azure tx = found" "tx_urn tx0 = azure_name env (inst sc)"
    using assms(1) a unfolding prepare_def
    by (auto simp: bnd_Ok_iff call_Ok_iff ids_iff now_iff set_status_iff Let_def)
  have "inst sa = i0" using movesD [OF correlation_id_same sa] by (simp add: same_inst_def)
  then have name: "azure_name env (inst sc) = azure_name env i0"
    using movesD [OF secrets_prepare_frame sc] sb by (simp add: frame_rel_def)
  have e: "emits (\<lambda>_. True) (get_or_generate_correlation_id env)" "emits (\<lambda>_. True) (secrets_prepare env)"
    unfolding get_or_generate_correlation_id_def secrets_prepare_def get_managed_secrets_def Let_def
    by (auto intro!: emits_intros split: option.split)
  obtain n1 n2 where "trace sa = n1 @ (Kube (GetResource namespace name), True) # trace s" "trace sc = n2 @ trace sa"
    using movesD [OF e(1) sa] movesD [OF e(2) sc] sb by (auto simp: emits_rel_def)
  then have sdt: "trace sd = ((Runtime Now, True) # n2 @ n1 @ [(Kube (GetResource namespace name), True)]) @ trace s"
    using sd(2) by simp
  from azure_exists_lists [OF sd(1)] obtain apps where apps: "listed_under env (tx_urn tx0) apps sd s1"
    "ga_id ` set apps = (if found then {Some (status_object_id (app_status (inst s1)))} else {})" .
  have "listed_under env (azure_name env i0) apps s s1"
    using apps(1) unfolding listed_under_def Let_def tx(2) name sdt by (metis append.assoc)
  then show ?thesis using that apps(2) tx(1) by simp
qed

text \<open>How a run of \<open>reconcile\<close> goes on after the preparation.\<close>

lemma reconcile_cases:
  assumes "reconcile env namespace name s = (r, s')"
  obtains (unprepared) "s' = snd (prepare env namespace name s)"
  | (ignored) tx s1 where "prepare env namespace name s = (Ok tx, s1)" "opt_tenant_ignore (tx_options tx)"
      "step env tx (wrap ''processing orphaned resources'' (azure_process_orphaned env tx))
         (\<lambda>_. ret no_requeue) s1 = (r, s')"
  | (addressed) tx s1 where "prepare env namespace name s = (Ok tx, s1)" "\<not> opt_tenant_ignore (tx_options tx)"
      "step env tx (finalizer_process env tx)
         (\<lambda>processed. if processed then ret no_requeue else reconcile_credentials env tx) s1 = (r, s')"
proof -
  obtain r0 s1 where p: "prepare env namespace name s = (r0, s1)" by (cases "prepare env namespace name s")
  show ?thesis
  proof (cases r0)
    case (Ok tx)
    then have "attempt (prepare env namespace name) s = (Ok (Inr tx), s1)"
      using p by (simp add: attempt_def)
    then show ?thesis
      using assms p ignored [of tx s1] addressed [of tx s1] Ok
      unfolding reconcile_def by (cases "opt_tenant_ignore (tx_options tx)") (simp_all add: io_simps)
  next
    case (Err e)
    then have "attempt (prepare env namespace name) s = (Ok (Inl e), s1)"
      using p by (simp add: attempt_def)
    then have "s' = s1"
      using assms unfolding reconcile_def by (simp add: io_simps split: if_splits)
    then show ?thesis using p by (intro unprepared) simp
  next
    case Panic
    then have "attempt (prepare env namespace name) s = (Panic, s1)"
      using p by (simp add: attempt_def)
    then show ?thesis using assms p by (intro unprepared) (simp add: reconcile_def io_simps)
  qed
qed

lemma prepare_trace:
  assumes "prepare env namespace name s = (r, s1)" "e \<in> set (trace s1)" "e \<notin> set (trace s)"
  shows "routine e"
  using emits_new [OF prepare_emits assms(1,2)] assms(3) by blast

subsection \<open>Which deletions a reconciliation sends\<close>

text \<open>A request that the continuation never sends was sent by the first part.\<close>

lemma bnd_trace_first:
  assumes "bnd m f s = (r, s')" "e \<in> set (trace s')" "Q e" "\<And>x. emits (\<lambda>e. \<not> Q e) (f x)"
  shows "e \<in> set (trace (snd (m s)))"
proof (cases rule: bnd_cases [of m s f])
  case (Ok x s1)
  have "f x s1 = (r, s')" using assms(1) Ok(2) by simp
  then show ?thesis using emits_new [OF assms(4) _ assms(2)] assms(3) Ok(1) by auto
qed (use assms in auto)

lemma step_trace_first:
  assumes "step env tx m k s = (r, s')" "e \<in> set (trace s')" "Q e"
    and "\<And>e'. emits (\<lambda>e. \<not> Q e) (handle_error env tx e')" "\<And>x. emits (\<lambda>e. \<not> Q e) (k x)"
  shows "e \<in> set (trace (snd (m s)))"
proof -
  have "e \<in> set (trace (snd (attempt m s)))"
    by (rule bnd_trace_first [where Q = Q, OF assms(1) [unfolded step_def] assms(2,3)])
       (auto intro: assms(4,5) split: sum.split)
  then show ?thesis by (auto simp: attempt_def split: prod.splits outcome.splits)
qed

definition deletion_of :: "state \<Rightarrow> event \<Rightarrow> bool" where
  "deletion_of s e \<longleftrightarrow> fst e = Graph (DeleteApplication (status_object_id (app_status (inst s))))"

lemma client_delete_run:
  assumes "client_delete env tx s = (r, s')" "e \<in> set (trace s')" "e \<notin> set (trace s)" "deletes e"
  shows "deletion_of s e"
proof (cases rule: bnd_cases [of "client_exists env tx" s
      "\<lambda>found. if found \<noteq> None then application_delete env tx
        else fail (Cause (Opaque ''application does not exist''))"])
  case (Ok found s1)
  have s1: "inst s1 = inst s" "e \<in> set (trace s1) \<Longrightarrow> e \<in> set (trace s)"
    using movesD [OF application_get_same(4)] Ok(1) emits_new [OF application_get_reads(4)]
      reads_routine assms(4)
    unfolding client_exists_def same_inst_def by blast+
  show ?thesis
  proof (cases "found = None")
    case True
    then have "s' = s1" using assms(1) Ok(1) unfolding client_delete_def by (simp add: bnd_run_Ok)
    then show ?thesis using s1 assms by simp
  next
    case False
    then have d: "application_delete env tx s1 = (r, s')"
      using assms(1) Ok(1) unfolding client_delete_def by (simp add: bnd_run_Ok)
    have "\<exists>ok. trace s' = (Graph (DeleteApplication (status_object_id (app_status (inst s1)))), ok) # trace s1"
      using d unfolding application_delete_def
      by (auto simp: bnd_def object_id_of_def gets_def wrap_def call_def split: sum.splits)
    then show ?thesis using s1 assms(2,3) by (auto simp: deletion_of_def)
  qed
next
  case (Err x s1)
  then show ?thesis
    using assms emits_new [OF application_get_reads(4), of env tx s "Err x" s1 e] reads_routine
    unfolding client_delete_def client_exists_def by auto
next
  case (Panic s1)
  then show ?thesis
    using assms emits_new [OF application_get_reads(4), of env tx s Panic s1 e] reads_routine
    unfolding client_delete_def client_exists_def by auto
qed

lemma azure_delete_run:
  assumes "azure_delete env tx s = (r, s')" "e \<in> set (trace s')" "e \<notin> set (trace s)" "deletes e"
  shows "tx_exists_in_azure tx" "deletion_of s e"
proof -
  show ex: "tx_exists_in_azure tx"
    using assms unfolding azure_delete_def by (auto split: if_splits)
  obtain r0 where "client_delete env tx s = (r0, s')"
    using assms(1) ex unfolding azure_delete_def wrap_def by (auto split: prod.splits)
  then show "deletion_of s e" using client_delete_run assms(2-4) by blast
qed

lemma orphaned_run:
  assumes "azure_process_orphaned env tx s = (r, s')" "e \<in> set (trace s')" "e \<notin> set (trace s)" "deletes e"
  shows "tx_exists_in_azure tx" "opt_cleanup_orphans (opt_azure (opt_process (tx_options tx)))" "deletion_of s e"
proof -
  show "tx_exists_in_azure tx" "opt_cleanup_orphans (opt_azure (opt_process (tx_options tx)))"
    using assms unfolding azure_process_orphaned_def by (auto split: if_splits)
  then have "azure_delete env tx s = (r, s')"
    using assms(1) unfolding azure_process_orphaned_def by simp
  then show "deletion_of s e" using azure_delete_run(2) assms(2-4) by blast
qed

lemma wrap_run: "wrap msg m s = (r, s') \<Longrightarrow> \<exists>r0. m s = (r0, s')"
  by (auto simp: wrap_def split: prod.splits)

lemma finalize_run:
  assumes run: "finalizer_finalize env tx s = (r, s')"
    and e: "e \<in> set (trace s')" "e \<notin> set (trace s)" "deletes e"
  shows "tx_exists_in_azure tx" "has_annotation (inst s) PreserveKey = None" "deletion_of s e"
proof -
  define m where "m = (if has_annotation (inst s) PreserveKey \<noteq> None
    then wrap ''purging credentials from Azure AD'' (azure_purge_credentials env tx)
    else bnd (wrap ''failed to delete resources'' (azure_delete env tx)) (\<lambda>_.
         report_event env Normal DeletedInAzure ''Azure application is deleted''))"
  obtain f where run': "bnd m f s = (r, s')"
    and f: "\<And>x. emits (\<lambda>e. \<not> deletes e) (f x)"
  proof -
    have fin: "bnd m (\<lambda>_. wrap ''failed to remove finalizer from list''
      (update_application env (\<lambda>existing. call (Kube (UpdateResource
         (remove_finalizer FinalizerOldName (remove_finalizer FinalizerName existing)))) (e_unit env)))) s = (r, s')"
      using run unfolding finalizer_finalize_def m_def by (simp add: instance_of_def gets_def bnd_def)
    show ?thesis by (rule that [OF fin]) (auto intro!: emits_intros update_application_emits)
  qed
  have in_m: "e \<in> set (trace (snd (m s)))"
    by (rule bnd_trace_first [OF run' e(1,3) f])
  show np: "has_annotation (inst s) PreserveKey = None"
  proof (rule ccontr)
    assume "has_annotation (inst s) PreserveKey \<noteq> None"
    then have "emits routine m" unfolding m_def by (auto intro!: emits_intros azure_credentials_emits)
    then show False using in_m e emits_new [of routine m s "fst (m s)" "snd (m s)" e] by auto
  qed
  let ?rest = "\<lambda>_ :: unit. report_event env Normal DeletedInAzure ''Azure application is deleted''"
  have m: "m = bnd (wrap ''failed to delete resources'' (azure_delete env tx)) ?rest"
    using np unfolding m_def by simp
  then have "bnd (wrap ''failed to delete resources'' (azure_delete env tx)) ?rest s
      = (fst (m s), snd (m s))" by simp
  then have "e \<in> set (trace (snd (wrap ''failed to delete resources'' (azure_delete env tx) s)))"
    by (rule bnd_trace_first [where Q = deletes, OF _ in_m e(3)]) (auto intro!: report_event_emits)
  then obtain r1 s1 where "azure_delete env tx s = (r1, s1)" "e \<in> set (trace s1)"
    by (auto simp: wrap_def split: prod.splits)
  then show "tx_exists_in_azure tx" "deletion_of s e" using azure_delete_run e by blast+
qed

lemma finalizer_run:
  assumes run: "finalizer_process env tx s = (r, s')"
    and e: "e \<in> set (trace s')" "e \<notin> set (trace s)" "deletes e"
  shows "tx_exists_in_azure tx" "has_annotation (inst s) PreserveKey = None" "deletion_of s e"
    "app_deletion_timestamp (inst s) \<noteq> None"
    "contains_finalizer (inst s) FinalizerName \<or> contains_finalizer (inst s) FinalizerOldName"
proof -
  have emit: "\<not> (emits routine m \<and> m s = (r, s'))" for m :: "bool prog"
    using emits_new [of routine m s r s' e] e by auto
  let ?final = "(contains_finalizer (inst s) FinalizerName \<or> contains_finalizer (inst s) FinalizerOldName)
    \<and> app_deletion_timestamp (inst s) \<noteq> None"
  have final: ?final
  proof (rule ccontr)
    assume n: "\<not> ?final"
    have "finalizer_process env tx s =
        (if \<not> contains_finalizer (inst s) FinalizerName
         then bnd (finalizer_register env tx) (\<lambda>_. ret True) else ret False) s"
      using n by (auto simp: finalizer_process_def Let_def instance_of_def gets_def bnd_run_Ok)
    moreover have "emits routine (if \<not> contains_finalizer (inst s) FinalizerName
         then bnd (finalizer_register env tx) (\<lambda>_. ret True) else ret False)"
      by (auto intro!: emits_intros finalizer_register_emits)
    ultimately show False using emit run by metis
  qed
  then show "app_deletion_timestamp (inst s) \<noteq> None"
    "contains_finalizer (inst s) FinalizerName \<or> contains_finalizer (inst s) FinalizerOldName" by auto
  have b: "bnd (finalizer_finalize env tx) (\<lambda>_. ret True) s = (r, s')"
    using run final by (simp add: finalizer_process_def Let_def instance_of_def gets_def bnd_run_Ok)
  have "e \<in> set (trace (snd (finalizer_finalize env tx s)))"
    by (rule bnd_trace_first [where Q = deletes, OF b e(1,3)]) (auto intro: emits_intros)
  then show "tx_exists_in_azure tx" "has_annotation (inst s) PreserveKey = None" "deletion_of s e"
    using finalize_run [of env tx s "fst (finalizer_finalize env tx s)" "snd (finalizer_finalize env tx s)" e]
      e(2,3) by simp_all
qed

text \<open>The deletions of a whole reconciliation.\<close>

lemma reconcile_deletes:
  assumes run: "reconcile env namespace name s = (r, s')"
    and e: "e \<in> set (trace s')" "e \<notin> set (trace s)" "deletes e"
  obtains tx s1 where "prepare env namespace name s = (Ok tx, s1)" "tx_exists_in_azure tx" "deletion_of s1 e"
    "opt_tenant_ignore (tx_options tx) \<and> opt_cleanup_orphans (opt_azure (opt_process (tx_options tx))) \<or>
     \<not> opt_tenant_ignore (tx_options tx) \<and> app_deletion_timestamp (inst s1) \<noteq> None \<and>
     has_annotation (inst s1) PreserveKey = None \<and>
     (contains_finalizer (inst s1) FinalizerName \<or> contains_finalizer (inst s1) FinalizerOldName)"
  using run
proof (cases rule: reconcile_cases)
  case unprepared
  then show ?thesis using prepare_trace [of env namespace name s _ s' e] e by (metis prod.collapse)
next
  case (ignored tx s1)
  have new: "e \<notin> set (trace s1)" using prepare_trace [OF ignored(1)] e by blast
  have "e \<in> set (trace (snd (wrap ''processing orphaned resources'' (azure_process_orphaned env tx) s1)))"
    by (rule step_trace_first [where Q = deletes, OF ignored(3) e(1,3)])
       (auto intro!: keeps_of_routine [OF handle_error_emits] emits_intros)
  then obtain r1 s2 where "azure_process_orphaned env tx s1 = (r1, s2)" "e \<in> set (trace s2)"
    by (auto simp: wrap_def split: prod.splits)
  then show ?thesis using that [OF ignored(1)] orphaned_run [of env tx s1 r1 s2 e] new e(3) ignored(2) by blast
next
  case (addressed tx s1)
  have new: "e \<notin> set (trace s1)" using prepare_trace [OF addressed(1)] e by blast
  have "e \<in> set (trace (snd (finalizer_process env tx s1)))"
    by (rule step_trace_first [where Q = deletes, OF addressed(3) e(1,3)])
       (auto intro!: keeps_of_routine [OF handle_error_emits] emits_intros reconcile_credentials_emits)
  then obtain r1 s2 where "finalizer_process env tx s1 = (r1, s2)" "e \<in> set (trace s2)"
    by (metis prod.collapse)
  then show ?thesis
    using that [OF addressed(1)] finalizer_run [of env tx s1 r1 s2 e] new e(3) addressed(2) by blast
qed

subsection \<open>The order of finalization\<close>

lemma reads_no_update: "reads e \<Longrightarrow> \<not> updates_resource e"
  by (cases e rule: updates_resource.cases) auto

lemma azure_delete_no_update: "emits (\<lambda>e. \<not> updates_resource e) (azure_delete env tx)"
  unfolding azure_delete_def client_delete_def client_exists_def application_delete_def
  by (auto intro!: emits_intros application_get_reads(4) [THEN emits_mono] dest: reads_no_update)

lemma azure_delete_Ok:
  assumes "azure_delete env tx s = (Ok x, s')" "tx_exists_in_azure tx"
  obtains n where "trace s' = n @ trace s" "\<forall>e \<in> set n. \<not> updates_resource e"
    "(Graph (DeleteApplication (status_object_id (app_status (inst s)))), True) \<in> set n"
proof -
  obtain found s1 where f: "client_exists env tx s = (Ok found, s1)" "found \<noteq> None"
    and d: "application_delete env tx s1 = (Ok x, s')"
    using assms unfolding azure_delete_def client_delete_def by (auto simp: bnd_Ok_iff split: if_splits)
  have s1: "inst s1 = inst s"
    using movesD [OF application_get_same(4)] f(1) unfolding client_exists_def same_inst_def by blast
  obtain n1 where "trace s1 = n1 @ trace s"
    using movesD [OF application_get_reads(4)] f(1) unfolding client_exists_def emits_rel_def by blast
  moreover have "trace s' = (Graph (DeleteApplication (status_object_id (app_status (inst s1)))), True) # trace s1"
    using d unfolding application_delete_def by (auto simp: bnd_Ok_iff run_simps)
  moreover obtain n where "trace s' = n @ trace s" "\<forall>e \<in> set n. \<not> updates_resource e"
    using movesD [OF azure_delete_no_update assms(1)] unfolding emits_rel_def by blast
  ultimately show ?thesis using that [of n] s1 by auto
qed

text \<open>The part of the finalization before the finalizer is removed.\<close>

definition released :: "env \<Rightarrow> transaction \<Rightarrow> unit prog" where
  "released env tx =
     bnd (wrap ''failed to delete resources'' (azure_delete env tx)) (\<lambda>_.
     report_event env Normal DeletedInAzure ''Azure application is deleted'')"

lemma released_no_update: "emits (\<lambda>e. \<not> updates_resource e) (released env tx)"
  unfolding released_def by (auto intro!: emits_intros azure_delete_no_update report_event_emits)

lemma released_Ok:
  assumes "released env tx s = (Ok (), s')" "tx_exists_in_azure tx"
  obtains n where "trace s' = n @ trace s" "\<forall>e \<in> set n. \<not> updates_resource e"
    "(Graph (DeleteApplication (status_object_id (app_status (inst s)))), True) \<in> set n"
proof -
  obtain s1 where s1: "azure_delete env tx s = (Ok (), s1)"
    and rep: "report_event env Normal DeletedInAzure ''Azure application is deleted'' s1 = (Ok (), s')"
    using assms(1) unfolding released_def by (auto elim!: bnd_unit_OkE)
  from azure_delete_Ok [OF s1 assms(2)] obtain n where n: "trace s1 = n @ trace s"
    "\<forall>e \<in> set n. \<not> updates_resource e"
    "(Graph (DeleteApplication (status_object_id (app_status (inst s)))), True) \<in> set n" .
  have "trace s' = (Kube (RecordEvent Normal DeletedInAzure ''Azure application is deleted''), True) # trace s1"
    using rep by (auto simp: report_event_def bnd_Ok_iff run_simps)
  then show ?thesis
    using n that [of "(Kube (RecordEvent Normal DeletedInAzure ''Azure application is deleted''), True) # n"]
    by simp
qed

lemma finalizer_process_finalizing:
  assumes "app_deletion_timestamp (inst s) \<noteq> None" "has_annotation (inst s) PreserveKey = None"
    and "contains_finalizer (inst s) FinalizerName \<or> contains_finalizer (inst s) FinalizerOldName"
  shows "finalizer_process env tx s =
    bnd (released env tx) (\<lambda>_. bnd (wrap ''failed to remove finalizer from list''
     (update_application env (\<lambda>existing.
         call (Kube (UpdateResource
           (remove_finalizer FinalizerOldName (remove_finalizer FinalizerName existing)))) (e_unit env))))
     (\<lambda>_. ret True)) s"
  using assms
  by (simp add: finalizer_process_def finalizer_finalize_def released_def Let_def instance_of_def gets_def
      bnd_run_Ok bnd_assoc del: bnd_lift_Ok)

lemma suffix_after:
  assumes "n2 @ n1 = later @ e # earlier" "e \<notin> set n1"
  shows "\<exists>x. earlier = x @ n1"
  using assms by (auto simp: append_eq_append_conv2 append_eq_Cons_conv Cons_eq_append_conv)

text \<open>\<open>writes P\<close>: the versions of the resource that are written satisfy \<open>P\<close>.\<close>

fun writes :: "(azure_ad_application \<Rightarrow> bool) \<Rightarrow> event \<Rightarrow> bool" where
  "writes P (Kube (UpdateResource a), ok) = P a"
| "writes P e = True"

definition unfinalized :: "azure_ad_application \<Rightarrow> bool" where
  "unfinalized a \<longleftrightarrow> \<not> contains_finalizer a FinalizerName \<and> \<not> contains_finalizer a FinalizerOldName"

lemma remove_finalizers [simp]:
  "unfinalized (remove_finalizer FinalizerOldName (remove_finalizer FinalizerName existing))"
  by (auto simp: unfinalized_def remove_finalizer_def contains_finalizer_def)

text \<open>When the finalizer declines, nothing happened and the resource is ready.\<close>

lemma finalizer_declines:
  assumes "finalizer_process env tx s = (Ok False, s')"
  shows "s' = s" "contains_finalizer (inst s) FinalizerName" "app_deletion_timestamp (inst s) = None"
  using assms by (auto simp: finalizer_process_def Let_def bnd_Ok_iff run_simps split: if_splits)

text \<open>The registrations of a whole reconciliation.\<close>

lemma reconcile_adds:
  assumes run: "reconcile env namespace name s = (r, s')"
    and e: "e \<in> set (trace s')" "e \<notin> set (trace s)" "adds e"
  obtains tx s1 where "prepare env namespace name s = (Ok tx, s1)" "\<not> tx_exists_in_azure tx"
    "\<not> opt_tenant_ignore (tx_options tx)" "contains_finalizer (inst s1) FinalizerName"
    "app_deletion_timestamp (inst s1) = None"
  using run
proof (cases rule: reconcile_cases)
  case unprepared
  then show ?thesis using prepare_trace [of env namespace name s _ s' e] e by (metis prod.collapse)
next
  case (ignored tx s1)
  have new: "e \<notin> set (trace s1)" using prepare_trace [OF ignored(1)] e by blast
  have none: "emits (\<lambda>e. \<not> adds e) (step env tx (wrap ''processing orphaned resources''
      (azure_process_orphaned env tx)) (\<lambda>_. ret no_requeue))"
    by (auto intro!: step_emits emits_intros orphaned_emits adds_none_of_routine [OF handle_error_emits])
  then show ?thesis using emits_new [OF none ignored(3) e(1)] new e(3) by blast
next
  case (addressed tx s1)
  let ?k = "\<lambda>processed. if processed then ret no_requeue else reconcile_credentials env tx"
  have new: "e \<notin> set (trace s1)" using prepare_trace [OF addressed(1)] e by blast
  have none: "emits (\<lambda>e. \<not> adds e) (step env tx (finalizer_process env tx) k)"
    if "\<And>x. emits (\<lambda>e. \<not> adds e) (k x)" for k
    using that by (auto intro!: step_emits finalizer_process_emits adds_none_of_routine [OF handle_error_emits])
  have declined: "finalizer_process env tx s1 = (Ok False, s1)"
  proof (rule ccontr)
    assume "finalizer_process env tx s1 \<noteq> (Ok False, s1)"
    then have "\<forall>s2. finalizer_process env tx s1 \<noteq> (Ok False, s2)" using finalizer_declines(1) by blast
    then have "step env tx (finalizer_process env tx) ?k s1
        = step env tx (finalizer_process env tx) (\<lambda>_. ret no_requeue) s1"
      by (cases "finalizer_process env tx s1"; cases "fst (finalizer_process env tx s1)")
         (auto simp: step_def attempt_def bnd_def)
    then have "step env tx (finalizer_process env tx) (\<lambda>_. ret no_requeue) s1 = (r, s')"
      using addressed(3) by simp
    then show False
      using emits_new [OF none [of "\<lambda>_. ret no_requeue", OF emits.ret] _ e(1)] new e(3) by blast
  qed
  have "\<not> tx_exists_in_azure tx"
  proof
    assume ex: "tx_exists_in_azure tx"
    have "emits (\<lambda>e. \<not> adds e) (step env tx (finalizer_process env tx) ?k)" 
      by (rule none) (auto intro!: emits_intros adds_none_of_routine [OF reconcile_credentials_emits(2) [OF ex]])
    then show False by (metis emits_new addressed(3) e(1,3) new)
  qed
  then show ?thesis using that addressed(1,2) finalizer_declines [OF declined] by blast
qed

subsection \<open>Properties\<close>

text \<open>
  C1: a reconciliation sends a deletion of an application only with the object ID of an application
  that Graph listed under the name of the resource while the reconciliation was prepared, and only
  when the resource asks for it: either it is not addressed to this tenant and the cleanup of orphans
  is enabled, or it is addressed to this tenant, being deleted, still has a finalizer of the operator
  and does not carry the preserve annotation. The conditions are those of the resource fetched first.
\<close>

theorem deletes_only_when_due:
  assumes "reconcile env namespace name s = (r, s')"
    and "(Graph (DeleteApplication oid), ok) \<in> set (trace s')"
    and "(Graph (DeleteApplication oid), ok) \<notin> set (trace s)"
  shows "\<exists>i0 tx s1 apps. e_resource env (trace s) (Kube (GetResource namespace name)) = Inr i0 \<and>
    prepare env namespace name s = (Ok tx, s1) \<and> listed_under env (azure_name env i0) apps s s1 \<and>
    (\<exists>app \<in> set apps. ga_id app = Some oid) \<and>
    (tenant_ignore i0 (e_config env) \<and> feat_cleanup_orphans (features env) \<or>
     \<not> tenant_ignore i0 (e_config env) \<and> app_deletion_timestamp i0 \<noteq> None \<and>
     has_annotation i0 PreserveKey = None \<and>
     (contains_finalizer i0 FinalizerName \<or> contains_finalizer i0 FinalizerOldName))"
proof -
  obtain tx s1 where p: "prepare env namespace name s = (Ok tx, s1)" "tx_exists_in_azure tx"
    "deletion_of s1 (Graph (DeleteApplication oid), ok)"
    and due: "opt_tenant_ignore (tx_options tx) \<and> opt_cleanup_orphans (opt_azure (opt_process (tx_options tx))) \<or>
     \<not> opt_tenant_ignore (tx_options tx) \<and> app_deletion_timestamp (inst s1) \<noteq> None \<and>
     has_annotation (inst s1) PreserveKey = None \<and>
     (contains_finalizer (inst s1) FinalizerName \<or> contains_finalizer (inst s1) FinalizerOldName)"
    using reconcile_deletes [OF assms] by auto
  from prepare_Ok [OF p(1)] obtain i0 :: azure_ad_application where
    i0: "e_resource env (trace s) (Kube (GetResource namespace name)) = Inr i0"
    "frame_rel (s\<lparr>inst := i0\<rparr>) s1"
    "opt_tenant_ignore (tx_options tx) = tenant_ignore i0 (e_config env)"
    "opt_cleanup_orphans (opt_azure (opt_process (tx_options tx))) = feat_cleanup_orphans (features env)" .
  from prepare_lists [OF p(1) i0(1)] p(2) obtain apps where l: "listed_under env (azure_name env i0) apps s s1"
    "ga_id ` set apps = {Some (status_object_id (app_status (inst s1)))}" by auto
  have "Some oid \<in> ga_id ` set apps" using l(2) p(3) by (simp add: deletion_of_def)
  then have "\<exists>app \<in> set apps. ga_id app = Some oid" by (metis imageE)
  then show ?thesis
    using p(1) due i0 l(1)
    by (intro exI [of _ i0] exI [of _ tx] exI [of _ s1] exI [of _ apps])
       (auto simp: frame_rel_def has_annotation_def contains_finalizer_def)
qed

lemmas reconcile_evals =
  has_annotation_def ann_lookup_def new_secret_data_keys_def
  get_key_ids_def collect_ids_def get_previous_credentials_set_def new_options_def process_opts_def
  is_hash_changed_def secret_name_changed_def has_resynchronize_annotation_def has_rotate_annotation_def
  has_expired_secrets_def contains_finalizer_def FinalizerName_def tenant_ignore_def
  is_not_addressed_to_tenant_def IaCAppTag_def LegacyIaCAppTag_def

text \<open>A world in which the resource is being deleted and its application exists.\<close>

definition deleting_env :: env where
  "deleting_env = quiet_env
     \<lparr>e_resource := (\<lambda>_ _. Inr (plain_app\<lparr>app_deletion_timestamp := Some 50\<rparr>)),
      e_applications := (\<lambda>_ _. Inr [plain_registered])\<rparr>"

lemma deletes_only_when_due_witness:
  "\<exists>i0 s1 apps. listed_under deleting_env (azure_name deleting_env i0) apps start_state s1 \<and>
     (\<exists>app \<in> set apps. ga_id app = Some ''oid'')"
proof -
  have "list_ex (\<lambda>e. e = (Graph (DeleteApplication ''oid''), True))
      (trace (snd (reconcile deleting_env ''ns'' ''app'' start_state)))"
    by (simp add: runs reconcile_evals deleting_env_def cong: eval_congs)
  then have "(Graph (DeleteApplication ''oid''), True)
      \<in> set (trace (snd (reconcile deleting_env ''ns'' ''app'' start_state)))"
    by (auto simp: list_ex_iff)
  moreover have "(Graph (DeleteApplication ''oid''), True) \<notin> set (trace start_state)"
    by (simp add: start_state_def)
  ultimately show ?thesis by (blast dest: deletes_only_when_due [OF prod.collapse [symmetric]])
qed

text \<open>
  C2: when a resource with an application in Azure and without the preserve annotation is being
  deleted, every version of the resource that the finalizer writes has lost both finalizers, and
  is written after a successful deletion of the application.
\<close>

theorem finalizer_removed_after_deletion:
  assumes "finalizer_process env tx s = (r, s')"
    and "app_deletion_timestamp (inst s) \<noteq> None" "has_annotation (inst s) PreserveKey = None"
    and "contains_finalizer (inst s) FinalizerName \<or> contains_finalizer (inst s) FinalizerOldName"
    and "tx_exists_in_azure tx"
    and "trace s' = later @ (Kube (UpdateResource a), ok) # earlier @ trace s"
  shows "(Graph (DeleteApplication (status_object_id (app_status (inst s)))), True) \<in> set earlier \<and>
    \<not> contains_finalizer a FinalizerName \<and> \<not> contains_finalizer a FinalizerOldName"
proof -
  obtain r0 s1 where rel: "released env tx s = (r0, s1)" by (cases "released env tx s")
  have stopped: False if eq: "s' = s1"
  proof -
    obtain n where "trace s' = n @ trace s" "\<forall>e \<in> set n. \<not> updates_resource e"
      using movesD [OF released_no_update rel] eq unfolding emits_rel_def by auto
    then show False using assms(6) by auto
  qed
  have r: "released env tx s = (Ok (), s1)"
    using assms(1) rel stopped
    by (cases r0) (simp_all add: finalizer_process_finalizing [OF assms(2-4)] io_simps)
  from released_Ok [OF r assms(5)] obtain n1 where n1: "trace s1 = n1 @ trace s"
    "\<forall>e \<in> set n1. \<not> updates_resource e"
    "(Graph (DeleteApplication (status_object_id (app_status (inst s)))), True) \<in> set n1" .
  let ?rest = "bnd (wrap ''failed to remove finalizer from list''
     (update_application env (\<lambda>existing.
         call (Kube (UpdateResource
           (remove_finalizer FinalizerOldName (remove_finalizer FinalizerName existing)))) (e_unit env))))
     (\<lambda>_. ret True)"
  have "?rest s1 = (r, s')"
    using assms(1) r by (simp add: finalizer_process_finalizing [OF assms(2-4)] bnd_run_Ok)
  moreover have "emits (writes unfinalized) ?rest"
    by (auto intro!: emits_intros update_application_emits)
  ultimately obtain n2 where n2: "trace s' = n2 @ trace s1" "\<forall>e \<in> set n2. writes unfinalized e"
    using movesD [of "emits_rel (writes unfinalized)" ?rest s1 r s'] by (auto simp: emits_rel_def)
  then have eq: "n2 @ n1 = later @ (Kube (UpdateResource a), ok) # earlier"
    using n1(1) assms(6) by simp
  have n: "(Kube (UpdateResource a), ok) \<notin> set n1" using n1(2) by auto
  then have "(Kube (UpdateResource a), ok) \<in> set n2" using arg_cong [OF eq, of set] by auto
  then have "unfinalized a" using n2(2) by auto
  then show ?thesis using suffix_after [OF eq n] n1(3) by (auto simp: unfinalized_def)
qed

definition finalizing_state :: state where
  "finalizing_state =
     \<lparr>trace = [], inst = plain_app\<lparr>app_deletion_timestamp := Some 50,
        app_status := blank_status\<lparr>status_object_id := ''oid''\<rparr>\<rparr>\<rparr>"

lemma finalizer_removed_after_deletion_witness:
  "\<exists>later a ok earlier.
     trace (snd (finalizer_process deleting_env plain_tx finalizing_state)) =
       later @ (Kube (UpdateResource a), ok) # earlier \<and>
     (Graph (DeleteApplication ''oid''), True) \<in> set earlier \<and> \<not> contains_finalizer a FinalizerName"
proof -
  let ?run = "finalizer_process deleting_env plain_tx finalizing_state"
  have "list_ex updates_resource (trace (snd ?run))"
    by (simp add: runs reconcile_evals deleting_env_def finalizing_state_def cong: eval_congs)
  then obtain e where e: "e \<in> set (trace (snd ?run))" "updates_resource e" by (auto simp: list_ex_iff)
  obtain a ok where a: "e = (Kube (UpdateResource a), ok)"
    using e(2) by (cases e rule: updates_resource.cases) auto
  obtain later earlier where tr: "trace (snd ?run) = later @ (Kube (UpdateResource a), ok) # earlier"
    using split_list [OF e(1)] a by auto
  have "(Graph (DeleteApplication ''oid''), True) \<in> set earlier \<and> \<not> contains_finalizer a FinalizerName"
    using finalizer_removed_after_deletion [of deleting_env plain_tx finalizing_state "fst ?run" "snd ?run"
        later a ok earlier] tr
    by (simp add: finalizing_state_def plain_app_def plain_tx_def has_annotation_def ann_lookup_def
        contains_finalizer_def FinalizerName_def)
  then show ?thesis using tr by blast
qed

text \<open>
  C3: a reconciliation sends a registration of an application only when Graph listed no application
  under the name of the resource while the reconciliation was prepared, and the resource is addressed
  to this tenant, carries the finalizer and is not being deleted.
\<close>

theorem registers_only_when_missing:
  assumes "reconcile env namespace name s = (r, s')"
    and "(Graph (AddApplication a), ok) \<in> set (trace s')"
    and "(Graph (AddApplication a), ok) \<notin> set (trace s)"
  shows "\<exists>i0 tx s1. e_resource env (trace s) (Kube (GetResource namespace name)) = Inr i0 \<and>
    prepare env namespace name s = (Ok tx, s1) \<and> listed_under env (azure_name env i0) [] s s1 \<and>
    \<not> tenant_ignore i0 (e_config env) \<and> contains_finalizer i0 FinalizerName \<and>
    app_deletion_timestamp i0 = None"
proof -
  obtain tx s1 where p: "prepare env namespace name s = (Ok tx, s1)" "\<not> tx_exists_in_azure tx"
    "\<not> opt_tenant_ignore (tx_options tx)" "contains_finalizer (inst s1) FinalizerName"
    "app_deletion_timestamp (inst s1) = None"
    using reconcile_adds [OF assms] by auto
  from prepare_Ok [OF p(1)] obtain i0 :: azure_ad_application where
    i0: "e_resource env (trace s) (Kube (GetResource namespace name)) = Inr i0"
    "frame_rel (s\<lparr>inst := i0\<rparr>) s1"
    "opt_tenant_ignore (tx_options tx) = tenant_ignore i0 (e_config env)" .
  from prepare_lists [OF p(1) i0(1)] p(2) have "listed_under env (azure_name env i0) [] s s1" by auto
  then show ?thesis
    using p i0 by (intro exI [of _ i0] exI [of _ tx] exI [of _ s1])
       (auto simp: frame_rel_def contains_finalizer_def)
qed

definition failing_registration_env :: env where
  "failing_registration_env = quiet_env\<lparr>e_application := (\<lambda>_ _. Inl not_found)\<rparr>"

text \<open>
  The evaluation stops at the failing registration; what is left of the reconciliation only adds
  to the history.
\<close>

lemma failing_registration:
  "case prepare failing_registration_env ''ns'' ''app'' start_state of
     (Ok tx, s1) \<Rightarrow> \<not> tx_exists_in_azure tx \<and> \<not> opt_tenant_ignore (tx_options tx) \<and>
       sl_unused (txs_managed (tx_secrets tx)) = [] \<and>
       contains_finalizer (inst s1) FinalizerName \<and> app_deletion_timestamp (inst s1) = None \<and>
       (case application_register failing_registration_env (with_invalid_credentials tx) s1 of
          (Err e, s2) \<Rightarrow> list_ex adds (trace s2)
        | _ \<Rightarrow> False)
   | _ \<Rightarrow> False"
  by code_simp

lemma failing_registration_run:
  "list_ex adds (trace (snd (reconcile failing_registration_env ''ns'' ''app'' start_state)))"
proof -
  obtain tx s1 where p: "prepare failing_registration_env ''ns'' ''app'' start_state = (Ok tx, s1)"
    and tx: "\<not> tx_exists_in_azure tx" "\<not> opt_tenant_ignore (tx_options tx)"
      "sl_unused (txs_managed (tx_secrets tx)) = []"
      "contains_finalizer (inst s1) FinalizerName" "app_deletion_timestamp (inst s1) = None"
    and reg: "case application_register failing_registration_env (with_invalid_credentials tx) s1 of
        (Err e, s2) \<Rightarrow> list_ex adds (trace s2) | _ \<Rightarrow> False"
    using failing_registration
    by (cases "prepare failing_registration_env ''ns'' ''app'' start_state";
        cases "fst (prepare failing_registration_env ''ns'' ''app'' start_state)") simp_all
  obtain e s2 where
    r: "application_register failing_registration_env (with_invalid_credentials tx) s1 = (Err e, s2)"
      "list_ex adds (trace s2)"
    using reg by (auto split: prod.splits outcome.splits)
  let ?tx = "with_invalid_credentials tx"
  have c: "\<exists>e'. controller_process failing_registration_env ?tx s1 = (Err e', s2)"
    using r(1) tx(1)
    by (simp add: controller_process_def azure_process_def azure_create_def client_create_def
        bnd_run_Err wrap_def)
  have rec: "\<exists>e'. reconcile failing_registration_env ''ns'' ''app'' start_state =
      handle_error failing_registration_env ?tx e' s2"
    using c p tx
    by (auto simp: reconcile_def attempt_def step_def finalizer_process_def reconcile_credentials_def
        azure_delete_expired_credentials_def azure_validate_credentials_def secrets_delete_unused_def
        instance_of_def Let_def bnd_run_Ok ret_def gets_def)
  then obtain e' where e': "reconcile failing_registration_env ''ns'' ''app'' start_state =
      handle_error failing_registration_env ?tx e' s2" by blast
  have "emits_rel routine s2 (snd (handle_error failing_registration_env ?tx e' s2))"
    using handle_error_emits by (simp add: moves_def)
  then show ?thesis using r(2) e' by (auto simp: emits_rel_def)
qed

lemma registers_only_when_missing_witness:
  "\<exists>s1. listed_under failing_registration_env (azure_name failing_registration_env plain_app) [] start_state s1"
proof -
  let ?run = "reconcile failing_registration_env ''ns'' ''app'' start_state"
  obtain e where e: "e \<in> set (trace (snd ?run))" "adds e"
    using failing_registration_run by (auto simp: list_ex_iff)
  obtain a ok where a: "e = (Graph (AddApplication a), ok)"
    using e(2) by (cases e rule: adds.cases) auto
  have "e_resource failing_registration_env (trace start_state) (Kube (GetResource ''ns'' ''app'')) = Inr i \<Longrightarrow> i = plain_app" for i
    by (simp add: failing_registration_env_def)
  then show ?thesis
    using registers_only_when_missing [of failing_registration_env "''ns''" "''app''" start_state
        "fst ?run" "snd ?run" a ok] e(1) a
    by (fastforce simp: start_state_def)
qed

end
