(* ===== verification/Idle.thy ===== *)
theory Idle
  imports ReconcileSafety
begin

text \<open>
  Reconciliations that have nothing to do: without a reason to write, the resource and its status
  stay as they are, so that a reconciliation does not start the next one.
\<close>

lemma unwritten_of_plain: "emits plain m \<Longrightarrow> emits (\<lambda>e. \<not> writes_resource e) m"
  by (erule plain_into) (rule plain_writes)

lemmas unwritten_parts =
  prepare_plain [THEN unwritten_of_plain] handle_error_plain [THEN unwritten_of_plain]
  azure_credentials_plain [THEN unwritten_of_plain]

lemma unwritten_deletions:
  "emits (\<lambda>e. \<not> writes_resource e) (azure_process_orphaned env tx)"
  "emits (\<lambda>e. \<not> writes_resource e) (secrets_delete_unused env tx)"
proof -
  have "\<not> writes_resource e" if "plain_deleting e" for e
    using that plain_writes by (cases e rule: deletes.cases) auto
  then show "emits (\<lambda>e. \<not> writes_resource e) (azure_process_orphaned env tx)"
    by (rule emits_mono [OF orphaned_plain])
  show "emits (\<lambda>e. \<not> writes_resource e) (secrets_delete_unused env tx)"
    by (rule secrets_delete_unused_class) simp
qed

lemma finalizer_ready:
  assumes "contains_finalizer (inst s) FinalizerName" "app_deletion_timestamp (inst s) = None"
  shows "finalizer_process env tx s = (Ok False, s)"
  using assms by (simp add: finalizer_process_def Let_def instance_of_def gets_def bnd_run_Ok ret_def)

lemma unwritten:
  assumes "emits (\<lambda>e. \<not> writes_resource e) m" "m s = (r, s')" "e \<notin> set (trace s)" "writes_resource e"
  shows "e \<notin> set (trace s')"
  using emits_new [OF assms(1,2)] assms(3,4) by blast

text \<open>The steps of a reconciliation once the stored credentials have been validated.\<close>

definition after_validation :: "env \<Rightarrow> transaction \<Rightarrow> ctrl_result prog" where
  "after_validation env tx =
     step env tx (secrets_delete_unused env tx) (\<lambda>_.
     step env tx
       (if opt_secret_cleanup (secret_opts tx) \<and> opt_secret_valid (secret_opts tx)
        then azure_delete_unused_credentials env tx else ret ()) (\<lambda>_.
     if \<not> opt_synchronize (opt_process (tx_options tx)) then ret (idle_result env)
     else step env tx (controller_process env tx) (\<lambda>_. complete env tx)))"

lemma reconcile_credentials_steps:
  "reconcile_credentials env tx =
     step env tx (azure_delete_expired_credentials env tx) (\<lambda>_.
     step env tx (azure_validate_credentials env tx) (\<lambda>valid.
     after_validation env (if valid then tx else with_invalid_credentials tx)))"
  by (simp add: reconcile_credentials_def after_validation_def Let_def)

lemma after_validation_unwritten:
  "\<not> opt_synchronize (opt_process (tx_options tx)) \<Longrightarrow> emits (\<lambda>e. \<not> writes_resource e) (after_validation env tx)"
  unfolding after_validation_def
  by (auto intro!: step_emits emits_intros unwritten_parts unwritten_deletions)

lemma credentials_write:
  assumes "reconcile_credentials env tx s = (r, s')" "e \<in> set (trace s')" "e \<notin> set (trace s)" "writes_resource e"
    and "\<not> opt_synchronize (opt_process (tx_options tx))"
  shows "\<exists>n s1 s2. trace s1 = n @ trace s \<and> azure_validate_credentials env tx s1 = (Ok False, s2)"
  using assms(1) [unfolded reconcile_credentials_steps]
proof (cases rule: step_cases)
  case (Ok x s1)
  obtain n where n: "trace s1 = n @ trace s"
    using movesD [OF azure_credentials_plain(1) Ok(1)] by (auto simp: emits_rel_def)
  have new: "e \<notin> set (trace s1)" using unwritten [OF unwritten_parts(3) Ok(1) assms(3,4)] .
  show ?thesis
    using Ok(2)
  proof (cases rule: step_cases)
    case (Ok valid s2)
    have new2: "e \<notin> set (trace s2)" using unwritten [OF unwritten_parts(6) Ok(1) new assms(4)] .
    have "\<not> valid"
    proof
      assume valid
      then have "after_validation env tx s2 = (r, s')" using Ok(2) by simp
      from unwritten [OF after_validation_unwritten [OF assms(5)] this new2 assms(4)] show False
        using assms(2) by simp
    qed
    then have "azure_validate_credentials env tx s1 = (Ok False, s2)" using Ok(1) by simp
    then show ?thesis using n by blast
  next
    case (Err e1 s2)
    show ?thesis
      using unwritten [OF unwritten_parts(2) Err(2) unwritten [OF unwritten_parts(6) Err(1) new assms(4)] assms(4)] assms(2) by simp
  next
    case (Panic s2)
    then show ?thesis using unwritten [OF unwritten_parts(6) Panic(1) new assms(4)] assms(2) by simp
  qed
next
  case (Err e1 s1)
  show ?thesis
    using unwritten [OF unwritten_parts(2) Err(2) unwritten [OF unwritten_parts(3) Err(1) assms(3,4)] assms(4)] assms(2) by simp
next
  case (Panic s1)
  then show ?thesis using unwritten [OF unwritten_parts(3) Panic(1) assms(3,4)] assms(2) by simp
qed



end
