(* ===== verification/ControllerProperties.thy ===== *)
theory ControllerProperties
  imports Idle
begin

text \<open>
  What the controller does with errors, what it leaves behind when a reconciliation completes,
  and which changes of a resource start a new one.
\<close>

subsection \<open>Errors\<close>

lemma report_event_runs:
  "report_event env ty reason msg s =
    (Ok (), s\<lparr>trace := (Kube (RecordEvent ty reason msg), True) # trace s,
       inst := (inst s)\<lparr>app_status := (app_status (inst s))\<lparr>status_state := e_reason env reason\<rparr>\<rparr>\<rparr>)"
  by (cases s) (simp add: report_event_def bnd_def set_status_def notify_def ask_def modify_def)

text \<open>The result of handling an error depends on its cause only.\<close>

definition error_result :: "cause \<Rightarrow> ctrl_result" where
  "error_result c =
     (case c of
        NamespaceTerminating \<Rightarrow> no_requeue
      | AlreadyOwned _ _ _ \<Rightarrow> no_requeue
      | _ \<Rightarrow> \<lparr>requeue = True, requeue_after = None\<rparr>)"

lemma handle_error_Ok: "\<exists>s'. handle_error env tx e s = (Ok (error_result (root_cause e)), s')"
  by (cases "root_cause e")
     (simp_all add: handle_error_def is_unrecoverable_error_def error_result_def report_event_runs
      bnd_run_Ok bnd_def ret_def)

text \<open>The events that tell of an error, the newest first.\<close>

definition error_events :: "cause \<Rightarrow> history" where
  "error_events c =
     (let failed = (Kube (RecordEvent Warning FailedSynchronization ''Failed to synchronize AzureAdApplication''), True) in
      case c of
        NamespaceTerminating \<Rightarrow> []
      | AlreadyOwned name kind owner \<Rightarrow>
          [(Kube (RecordEvent Warning FailedSynchronization (already_owned_message name kind owner)), True), failed]
      | _ \<Rightarrow> [(Kube (RecordEvent Normal Retrying ''Retrying synchronization''), True), failed])"

lemma handle_error_reports:
  obtains s' where "handle_error env tx e s = (Ok (error_result (root_cause e)), s')"
    "trace s' = error_events (root_cause e) @ trace s"
    "root_cause e \<noteq> NamespaceTerminating \<Longrightarrow> status_state (app_status (inst s')) =
       e_reason env (if requeue (error_result (root_cause e)) then Retrying else FailedSynchronization)"
  by (cases "root_cause e")
     (simp_all add: handle_error_def is_unrecoverable_error_def error_result_def error_events_def report_event_runs
      no_requeue_def bnd_run_Ok bnd_def ret_def)

lemma handle_error_not_Err [simp]: "handle_error env tx e s \<noteq> (Err e', s')"
  using handle_error_Ok [of env tx e s] by auto

subsection \<open>Completion\<close>

text \<open>The programs that leave the spec and the status of the instance alone.\<close>

definition content_rel :: "state \<Rightarrow> state \<Rightarrow> bool" where
  "content_rel s s' \<longleftrightarrow>
     app_spec (inst s') = app_spec (inst s) \<and> app_status (inst s') = app_status (inst s)"

interpretation content: step_relation content_rel
  by unfold_locales (auto simp: content_rel_def)

lemma content_of_same: "moves same_inst m \<Longrightarrow> moves content_rel m"
  by (auto simp: moves_def same_inst_def content_rel_def)

lemma update_application_moves:
  assumes "\<And>existing. moves content_rel (upd existing)"
  shows "moves content_rel (update_application env upd)"
proof -
  note same = same_inst_call same_inst_basic
  show ?thesis
    unfolding update_application_def
    using assms by (auto intro!: content.rules same [THEN content_of_same] split: sum.split)
qed

lemma remove_processed_content [simp]:
  "app_spec (remove_processed i j) = app_spec j" "app_status (remove_processed i j) = app_status j"
  by (simp_all add: remove_processed_def Let_def)

lemma update_status_content: "moves content_rel (update_status env tx)"
proof -
  note same = same_inst_call same_inst_basic
  show ?thesis
    unfolding update_status_def
    by (intro content.wrap update_application_moves content.rules same [THEN content_of_same])
qed

lemma update_annotations_content: "moves content_rel (update_annotations env tx)"
proof -
  note same = same_inst_call same_inst_basic
  have upd: "moves content_rel (bnd instance_of (\<lambda>i.
         let i' = remove_processed i i; existing' = remove_processed i existing in
         bnd (modify (\<lambda>s. s\<lparr>inst := i'\<rparr>)) (\<lambda>_.
         bnd (lift (merge_annotations (app_annotations existing') (app_annotations i'))) (\<lambda>merged.
         call (Kube (UpdateResource (existing'\<lparr>app_annotations := merged\<rparr>))) (e_unit env)))))" for existing
  proof (rule movesI)
    fix s r s'
    let ?rest = "\<lambda>i. bnd (lift (merge_annotations (app_annotations (remove_processed i existing))
        (app_annotations (remove_processed i i)))) (\<lambda>merged.
         call (Kube (UpdateResource ((remove_processed i existing)\<lparr>app_annotations := merged\<rparr>))) (e_unit env))"
    assume "bnd instance_of (\<lambda>i.
         let i' = remove_processed i i; existing' = remove_processed i existing in
         bnd (modify (\<lambda>s. s\<lparr>inst := i'\<rparr>)) (\<lambda>_.
         bnd (lift (merge_annotations (app_annotations existing') (app_annotations i'))) (\<lambda>merged.
         call (Kube (UpdateResource (existing'\<lparr>app_annotations := merged\<rparr>))) (e_unit env)))) s = (r, s')"
    then have run: "?rest (inst s) (s\<lparr>inst := remove_processed (inst s) (inst s)\<rparr>) = (r, s')"
      by (simp add: instance_of_def gets_def modify_def Let_def bnd_run_Ok)
    have "moves same_inst (?rest (inst s))" by (intro same_inst_intros)
    from movesD [OF this run] show "content_rel s s'" by (simp add: same_inst_def content_rel_def)
  qed
  show ?thesis
    unfolding update_annotations_def by (intro content.wrap update_application_moves upd)
qed

text \<open>The statuses written in a part of the history.\<close>

fun status_of :: "event \<Rightarrow> app_status option" where
  "status_of (Kube (UpdateResourceStatus a), ok) = Some (app_status a)"
| "status_of e = None"

lemma reads_no_status: "reads e \<Longrightarrow> status_of e = None"
  by (cases e rule: status_of.cases) auto

lemma update_status_run:
  assumes "update_status env tx s = (Ok (), s')"
  shows "\<exists>n. trace s' = n @ trace s \<and> (\<forall>e \<in> set n. status_of e \<in> {None, Some (app_status (inst s))})"
  using assms unfolding update_status_def update_application_run
  by (auto simp: Let_def bnd_def instance_of_def gets_def call_def split: sum.splits if_splits)

lemma update_annotations_no_status: "emits (\<lambda>e. status_of e = None) (update_annotations env tx)"
  unfolding update_annotations_def Let_def by (auto intro!: emits_intros emits_set_inst update_application_emits)

lemma catch_fail_Ok:
  "catch m (\<lambda>e. bnd (h e) (\<lambda>_. fail e)) s = (Ok x, s') \<longleftrightarrow> m s = (Ok x, s')"
  by (auto simp: catch_Ok_iff bnd_Ok_iff)

lemma complete_Ok:
  assumes "complete env tx s = (Ok r, s')"
  obtains i2 h where "e_hash env i2 = Ok h" "app_spec i2 = app_spec (inst s')" "app_spec (inst s') = app_spec (inst s)"
    "status_hash (app_status (inst s')) = h"
    "status_secret_name (app_status (inst s')) = spec_secret_name (app_spec (inst s))"
    "\<exists>n. trace s' = n @ trace s \<and> (\<forall>e \<in> set n. status_of e \<in> {None, Some (app_status (inst s'))})"
    "r = \<lparr>requeue = False, requeue_after = Some orphanedSecretCleanupGracePeriod\<rparr>"
proof -
  obtain i2 h s1 s2 where us: "update_status env tx s1 = (Ok (), s2)"
    and ua: "update_annotations env tx s2 = (Ok (), s')"
    and hash: "e_hash env i2 = Ok h" "app_spec i2 = app_spec (inst s)"
    and s1: "app_spec (inst s1) = app_spec (inst s)" "status_hash (app_status (inst s1)) = h"
      "status_secret_name (app_status (inst s1)) = spec_secret_name (app_spec (inst s))"
      "\<exists>n. trace s1 = n @ trace s \<and> (\<forall>e \<in> set n. status_of e = None)"
    and r: "r = \<lparr>requeue = False, requeue_after = Some orphanedSecretCleanupGracePeriod\<rparr>"
    using assms unfolding complete_def
    by (auto simp: bnd_Ok_iff run_simps report_event_runs catch_fail_Ok intro!: that)
  have c: "content_rel s1 s2" "content_rel s2 s'"
    using movesD [OF update_status_content us] movesD [OF update_annotations_content ua] .
  obtain n2 n3 where n: "trace s2 = n2 @ trace s1" "\<forall>e \<in> set n2. status_of e \<in> {None, Some (app_status (inst s1))}"
    "trace s' = n3 @ trace s2" "\<forall>e \<in> set n3. status_of e = None"
    using update_status_run [OF us] movesD [OF update_annotations_no_status ua]
    by (auto simp: emits_rel_def)
  obtain n1 where n1: "trace s1 = n1 @ trace s" "\<forall>e \<in> set n1. status_of e = None" using s1(4) by blast
  show ?thesis
  proof (rule that [OF hash(1)])
    show "\<exists>n. trace s' = n @ trace s \<and> (\<forall>e \<in> set n. status_of e \<in> {None, Some (app_status (inst s'))})"
      using n n1 c by (intro exI [of _ "n3 @ n2 @ n1"]) (auto simp: content_rel_def)
  qed (use hash s1 c r in \<open>auto simp: content_rel_def\<close>)
qed

subsection \<open>Properties\<close>

text \<open>
  How the operations of a reconciliation follow each other once it is prepared: which state an
  operation finds, and with which cause one fails, the first one that does.
\<close>

inductive validated_as :: "env \<Rightarrow> transaction \<Rightarrow> state \<Rightarrow> transaction \<Rightarrow> state \<Rightarrow> bool" for env tx s where
  "\<not> opt_tenant_ignore (tx_options tx) \<Longrightarrow> finalizer_process env tx s = (Ok False, s1) \<Longrightarrow>
   azure_delete_expired_credentials env tx s1 = (Ok (), s2) \<Longrightarrow>
   azure_validate_credentials env tx s2 = (Ok valid, s3) \<Longrightarrow>
   validated_as env tx s (if valid then tx else with_invalid_credentials tx) s3"

inductive fails :: "env \<Rightarrow> transaction \<Rightarrow> state \<Rightarrow> cause \<Rightarrow> state \<Rightarrow> bool" for env tx s where
  orphans: "opt_tenant_ignore (tx_options tx) \<Longrightarrow> azure_process_orphaned env tx s = (Err e, s1) \<Longrightarrow>
    fails env tx s (root_cause e) s1"
| finalizing: "\<not> opt_tenant_ignore (tx_options tx) \<Longrightarrow> finalizer_process env tx s = (Err e, s1) \<Longrightarrow>
    fails env tx s (root_cause e) s1"
| expired: "\<not> opt_tenant_ignore (tx_options tx) \<Longrightarrow> finalizer_process env tx s = (Ok False, s1) \<Longrightarrow>
    azure_delete_expired_credentials env tx s1 = (Err e, s2) \<Longrightarrow> fails env tx s (root_cause e) s2"
| validating: "\<not> opt_tenant_ignore (tx_options tx) \<Longrightarrow> finalizer_process env tx s = (Ok False, s1) \<Longrightarrow>
    azure_delete_expired_credentials env tx s1 = (Ok (), s2) \<Longrightarrow>
    azure_validate_credentials env tx s2 = (Err e, s3) \<Longrightarrow> fails env tx s (root_cause e) s3"
| unused_secrets: "validated_as env tx s tx' s1 \<Longrightarrow> secrets_delete_unused env tx' s1 = (Err e, s2) \<Longrightarrow>
    fails env tx s (root_cause e) s2"
| unused_credentials: "validated_as env tx s tx' s1 \<Longrightarrow> secrets_delete_unused env tx' s1 = (Ok (), s2) \<Longrightarrow>
    opt_secret_cleanup (secret_opts tx') \<Longrightarrow> opt_secret_valid (secret_opts tx') \<Longrightarrow>
    azure_delete_unused_credentials env tx' s2 = (Err e, s3) \<Longrightarrow> fails env tx s (root_cause e) s3"
| processing: "validated_as env tx s tx' s1 \<Longrightarrow> secrets_delete_unused env tx' s1 = (Ok (), s2) \<Longrightarrow>
    (if opt_secret_cleanup (secret_opts tx') \<and> opt_secret_valid (secret_opts tx')
     then azure_delete_unused_credentials env tx' else ret ()) s2 = (Ok (), s3) \<Longrightarrow>
    opt_synchronize (opt_process (tx_options tx')) \<Longrightarrow>
    controller_process env tx' s3 = (Err e, s4) \<Longrightarrow> fails env tx s (root_cause e) s4"

lemma step_runs:
  "m s = (Ok x, s1) \<Longrightarrow> step env tx m k s = k x s1"
  "m s = (Err e, s1) \<Longrightarrow> step env tx m k s = handle_error env tx e s1"
  by (simp_all add: step_def bnd_def attempt_def)

lemma reconcile_addressed:
  assumes "prepare env namespace name s = (Ok tx, s1)" "\<not> opt_tenant_ignore (tx_options tx)"
  shows "reconcile env namespace name s = step env tx (finalizer_process env tx)
     (\<lambda>processed. if processed then ret no_requeue else reconcile_credentials env tx) s1"
  using assms by (simp add: reconcile_def bnd_def attempt_def)

lemma reconcile_ignored:
  assumes "prepare env namespace name s = (Ok tx, s1)" "opt_tenant_ignore (tx_options tx)"
  shows "reconcile env namespace name s = step env tx
     (wrap ''processing orphaned resources'' (azure_process_orphaned env tx)) (\<lambda>_. ret no_requeue) s1"
  using assms by (simp add: reconcile_def bnd_def attempt_def)

lemma reconcile_validated:
  assumes "prepare env namespace name s = (Ok tx, s1)" "validated_as env tx s1 tx' s2"
  shows "reconcile env namespace name s = after_validation env tx' s2"
  using assms(2)
proof cases
  case (1 s2 s3 valid)
  then show ?thesis
    by (simp add: reconcile_addressed [OF assms(1)] step_runs(1) reconcile_credentials_def after_validation_def Let_def
        cong: if_cong)
qed

text \<open>The first operation that fails is the last one, and its error is handled.\<close>

lemma fails_handled:
  assumes "prepare env namespace name s = (Ok tx, s1)" "fails env tx s1 c s2"
  shows "\<exists>tx' e. root_cause e = c \<and> reconcile env namespace name s = handle_error env tx' e s2"
  using assms(2)
proof cases
  case (orphans e)
  then have "wrap ''processing orphaned resources'' (azure_process_orphaned env tx) s1 =
      (Err (Wrapped ''processing orphaned resources'' e), s2)" by (simp add: wrap_def)
  then have "reconcile env namespace name s = handle_error env tx (Wrapped ''processing orphaned resources'' e) s2"
    by (simp add: reconcile_ignored [OF assms(1) orphans(2)] step_runs(2))
  then show ?thesis using orphans(1) by (intro exI conjI) auto
next
  case (finalizing e)
  then show ?thesis by (auto simp: reconcile_addressed [OF assms(1)] step_runs(2))
next
  case (expired s1 e)
  then show ?thesis
    by (auto simp: reconcile_addressed [OF assms(1)] step_runs reconcile_credentials_def)
next
  case (validating s1 s2 e)
  then show ?thesis
    by (auto simp: reconcile_addressed [OF assms(1)] step_runs reconcile_credentials_def)
next
  case (unused_secrets tx' s1 e)
  then show ?thesis
    by (auto simp: reconcile_validated [OF assms(1) unused_secrets(2)] after_validation_def step_runs)
next
  case (unused_credentials tx' s1 s2 e)
  then show ?thesis
    by (auto simp: reconcile_validated [OF assms(1) unused_credentials(2)] after_validation_def step_runs)
next
  case (processing tx' s1 s2 s3 e)
  then show ?thesis
    by (auto simp: reconcile_validated [OF assms(1) processing(2)] after_validation_def step_runs)
qed

text \<open>
  C32: errors are not lost. When an operation of a prepared reconciliation fails, nothing is done
  after it but to report the error: the events are recorded, the status says that the
  synchronization is tried again or has failed, and the result asks for another attempt (which the
  rate limiter of the queue delays) unless the secret is owned by another object; when the namespace
  is being terminated nothing is reported and there is no other attempt. A reconciliation of a resource
  that is gone does nothing, and one ends with an error only when its preparation does with another
  cause or when completing it does.
\<close>

theorem errors_are_handled:
  "(\<forall>tx s1 c s2. prepare env namespace name s = (Ok tx, s1) \<longrightarrow> fails env tx s1 c s2 \<longrightarrow>
      (\<exists>s'. reconcile env namespace name s =
          (Ok \<lparr>requeue = (c \<noteq> NamespaceTerminating \<and> (\<forall>n k owner. c \<noteq> AlreadyOwned n k owner)), requeue_after = None\<rparr>, s') \<and>
        trace s' = error_events c @ trace s2 \<and>
        (c \<noteq> NamespaceTerminating \<longrightarrow> status_state (app_status (inst s')) =
           e_reason env (if \<exists>n k owner. c = AlreadyOwned n k owner then FailedSynchronization else Retrying)))) \<and>
   (\<forall>e s1. prepare env namespace name s = (Err e, s1) \<longrightarrow> root_cause e = NotFound \<longrightarrow>
      reconcile env namespace name s = (Ok no_requeue, s1)) \<and>
   (\<forall>e s'. reconcile env namespace name s = (Err e, s') \<longrightarrow>
      prepare env namespace name s = (Err e, s') \<and> root_cause e \<noteq> NotFound \<or>
      (\<exists>tx s1. complete env tx s1 = (Err e, s')))"
proof (intro conjI allI impI)
  fix tx s1 c s2
  assume p: "prepare env namespace name s = (Ok tx, s1)" and f: "fails env tx s1 c s2"
  from fails_handled [OF p f] obtain tx' e where e: "root_cause e = c"
    "reconcile env namespace name s = handle_error env tx' e s2" by blast
  obtain s' where s': "handle_error env tx' e s2 = (Ok (error_result c), s')" "trace s' = error_events c @ trace s2"
    "c \<noteq> NamespaceTerminating \<Longrightarrow> status_state (app_status (inst s')) =
       e_reason env (if requeue (error_result c) then Retrying else FailedSynchronization)"
    using handle_error_reports [of env tx' e s2] e(1) by metis
  have "error_result c = \<lparr>requeue = (c \<noteq> NamespaceTerminating \<and> (\<forall>n k owner. c \<noteq> AlreadyOwned n k owner)), requeue_after = None\<rparr>"
    by (cases c) (simp_all add: error_result_def no_requeue_def)
  then show "\<exists>s'. reconcile env namespace name s =
          (Ok \<lparr>requeue = (c \<noteq> NamespaceTerminating \<and> (\<forall>n k owner. c \<noteq> AlreadyOwned n k owner)), requeue_after = None\<rparr>, s') \<and>
        trace s' = error_events c @ trace s2 \<and>
        (c \<noteq> NamespaceTerminating \<longrightarrow> status_state (app_status (inst s')) =
           e_reason env (if \<exists>n k owner. c = AlreadyOwned n k owner then FailedSynchronization else Retrying))"
    using s' e(2) by (cases c) auto
next
  fix e s1
  assume "prepare env namespace name s = (Err e, s1)" "root_cause e = NotFound"
  then show "reconcile env namespace name s = (Ok no_requeue, s1)"
    by (simp add: reconcile_def bnd_def attempt_def ret_def)
next
  fix e s'
  assume run: "reconcile env namespace name s = (Err e, s')"
  have cred: "\<exists>tx s1. complete env tx s1 = (Err e, s')" if "reconcile_credentials env tx s1 = (Err e, s')" for tx s1
    using that unfolding reconcile_credentials_def Let_def
    by (elim step_cases) (auto elim!: step_cases split: if_splits)
  obtain r0 s1 where p: "prepare env namespace name s = (r0, s1)" by (cases "prepare env namespace name s")
  show "prepare env namespace name s = (Err e, s') \<and> root_cause e \<noteq> NotFound \<or>
      (\<exists>tx s1. complete env tx s1 = (Err e, s'))"
  proof (cases r0)
    case (Ok tx)
    show ?thesis
      using run p Ok cred
      by (auto simp: reconcile_def bnd_def attempt_def split: if_splits elim!: step_cases)
  qed (use run p in \<open>auto simp: reconcile_def bnd_def attempt_def split: if_splits\<close>)
qed

text \<open>A world in which Graph refuses to delete the application of a resource that is being deleted.\<close>

definition refusing_env :: env where
  "refusing_env = deleting_env\<lparr>e_unit := (\<lambda>_ q.
     case q of Graph (DeleteApplication _) \<Rightarrow> Inl (Cause (Opaque ''refused'')) | _ \<Rightarrow> Inr ())\<rparr>"

lemma refusing_fails:
  "\<exists>tx s1 s2. prepare refusing_env ''ns'' ''app'' start_state = (Ok tx, s1) \<and>
     fails refusing_env tx s1 (Opaque ''refused'') s2"
proof -
  have "case prepare refusing_env ''ns'' ''app'' start_state of
      (Ok tx, s1) \<Rightarrow> \<not> opt_tenant_ignore (tx_options tx) \<and>
        (case finalizer_process refusing_env tx s1 of
           (Err e, s2) \<Rightarrow> root_cause e = Opaque ''refused'' | _ \<Rightarrow> False)
    | _ \<Rightarrow> False"
    by (simp add: runs reconcile_evals refusing_env_def deleting_env_def cong: eval_congs)
  then obtain tx s1 e s2 where "prepare refusing_env ''ns'' ''app'' start_state = (Ok tx, s1)"
    "\<not> opt_tenant_ignore (tx_options tx)" "finalizer_process refusing_env tx s1 = (Err e, s2)"
    "root_cause e = Opaque ''refused''"
    unfolding case_prod_unfold
    by (cases "prepare refusing_env ''ns'' ''app'' start_state"; cases "fst (prepare refusing_env ''ns'' ''app'' start_state)")
      (simp_all split: outcome.splits, metis prod.collapse)
  then show ?thesis using finalizing [of tx refusing_env s1 e s2] by metis
qed

lemma errors_are_handled_witness:
  "\<exists>s'. reconcile refusing_env ''ns'' ''app'' start_state = (Ok \<lparr>requeue = True, requeue_after = None\<rparr>, s') \<and>
     status_state (app_status (inst s')) = e_reason refusing_env Retrying"
proof -
  obtain tx s1 s2 where f: "prepare refusing_env ''ns'' ''app'' start_state = (Ok tx, s1)"
    "fails refusing_env tx s1 (Opaque ''refused'') s2"
    using refusing_fails by blast
  obtain s' where "reconcile refusing_env ''ns'' ''app'' start_state = (Ok \<lparr>requeue = (Opaque ''refused'' \<noteq> NamespaceTerminating \<and>
        (\<forall>n k owner. Opaque ''refused'' \<noteq> AlreadyOwned n k owner)), requeue_after = None\<rparr>, s')"
    "status_state (app_status (inst s')) = e_reason refusing_env
       (if \<exists>n k owner. Opaque ''refused'' = AlreadyOwned n k owner then FailedSynchronization else Retrying)"
    using errors_are_handled [THEN conjunct1, rule_format, OF f] by auto
  then show ?thesis by auto
qed

lemma remove_processed_idle:
  "\<not> has_resynchronize_annotation i \<Longrightarrow> \<not> has_rotate_annotation i \<Longrightarrow> remove_processed i app = app"
  by (simp add: remove_processed_def)

lemma updates_quiet:
  "\<exists>s'. update_status quiet_env tx s = (Ok (), s') \<and> inst s' = inst s"
  "app_annotations (inst s) = None \<Longrightarrow> \<exists>s'. update_annotations quiet_env tx s = (Ok (), s') \<and> inst s' = inst s"
  by (simp_all add: runs merge_annotations_def remove_processed_idle has_resynchronize_annotation_def
      has_rotate_annotation_def has_annotation_def ann_lookup_def cong: eval_congs)

lemma quiet_complete:
  "\<exists>r s'. complete quiet_env plain_tx start_state = (Ok r, s') \<and> app_spec (inst s') = plain_spec \<and>
     status_rotation_time (app_status (inst s')) = None"
proof -
  define s1 where "s1 = start_state
    \<lparr>trace := [(Runtime Now, True),
       (Kube (RecordEvent Normal Synchronized ''Azure application is up-to-date''), True)],
     inst := plain_app\<lparr>app_status := blank_status
       \<lparr>status_state := ''reason'', status_secret_name := ''azure-secret'', status_sync_time := Some 100,
        status_tenant := ''tid'', status_tenant_name := ''tenant'', status_hash := ''hash''\<rparr>\<rparr>\<rparr>"
  obtain s2 where s2: "update_status quiet_env plain_tx s1 = (Ok (), s2)" "inst s2 = inst s1"
    using updates_quiet(1) by blast
  have "app_annotations (inst s2) = None" by (simp add: s2(2) s1_def)
  then obtain s3 where s3: "update_annotations quiet_env plain_tx s2 = (Ok (), s3)" "inst s3 = inst s2"
    using updates_quiet(2) by blast
  have "complete quiet_env plain_tx start_state =
      (Ok \<lparr>requeue = False, requeue_after = Some orphanedSecretCleanupGracePeriod\<rparr>, s3)"
    using s2(1) s3(1) unfolding complete_def s1_def
    by (auto simp: bnd_Ok_iff run_simps report_event_runs catch_fail_Ok)
  then show ?thesis using s2(2) s3(2) by (auto simp: s1_def)
qed

text \<open>
  A completed reconciliation leaves a status that records the hash of the spec and the name of
  the secret, every status it wrote is that status, and the resource is seen again after five
  minutes.
\<close>

theorem completed_status:
  assumes "complete env tx s = (Ok r, s')"
    and "\<And>i j. app_spec i = app_spec j \<Longrightarrow> e_hash env i = e_hash env j"
  shows "e_hash env (inst s') = Ok (status_hash (app_status (inst s'))) \<and>
    status_secret_name (app_status (inst s')) = spec_secret_name (app_spec (inst s')) \<and>
    app_spec (inst s') = app_spec (inst s) \<and>
    (\<exists>n. trace s' = n @ trace s \<and> (\<forall>e \<in> set n. status_of e \<in> {None, Some (app_status (inst s'))})) \<and>
    r = \<lparr>requeue = False, requeue_after = Some (5 * minute)\<rparr>"
proof -
  from complete_Ok [OF assms(1)] obtain i2 h where c: "e_hash env i2 = Ok h" "app_spec i2 = app_spec (inst s')"
    "app_spec (inst s') = app_spec (inst s)" "status_hash (app_status (inst s')) = h"
    "status_secret_name (app_status (inst s')) = spec_secret_name (app_spec (inst s))"
    "\<exists>n. trace s' = n @ trace s \<and> (\<forall>e \<in> set n. status_of e \<in> {None, Some (app_status (inst s'))})"
    "r = \<lparr>requeue = False, requeue_after = Some orphanedSecretCleanupGracePeriod\<rparr>" .
  then show ?thesis using assms(2) [OF c(2)] by (simp add: orphanedSecretCleanupGracePeriod_def)
qed

lemma completed_status_witness:
  "\<exists>r s'. complete quiet_env plain_tx start_state = (Ok r, s') \<and>
     status_secret_name (app_status (inst s')) = ''azure-secret''"
proof -
  obtain r s' where c: "complete quiet_env plain_tx start_state = (Ok r, s')"
    using quiet_complete by blast
  have "status_secret_name (app_status (inst s')) = spec_secret_name (app_spec (inst s'))"
    "app_spec (inst s') = app_spec (inst start_state)"
    using completed_status [OF c] by simp_all
  then show ?thesis using c by auto
qed

text \<open>
  C33: the state that a completed reconciliation leaves is stable: as long as the spec is the same,
  no annotation asks for a resynchronisation or a rotation and the credentials are younger than
  their maximal age, the options computed from it ask for nothing.
\<close>

theorem completed_is_stable:
  assumes "complete env tx s = (Ok r, s')"
    and "\<And>i j. app_spec i = app_spec j \<Longrightarrow> e_hash env i = e_hash env j"
    and "app_spec i = app_spec (inst s')" "app_status i = app_status (inst s')"
    and "\<not> has_resynchronize_annotation i" "\<not> has_rotate_annotation i"
    and "\<not> has_expired_secrets i (cfg_rotation_max_age cfg) t"
  shows "\<exists>p. process_opts (e_hash env) t i cfg secrets = Ok p \<and> \<not> opt_synchronize p \<and>
    \<not> opt_azure_synchronize (opt_azure p) \<and> \<not> opt_secret_rotate (opt_secret p)"
proof -
  from complete_Ok [OF assms(1)] obtain i2 h where c: "e_hash env i2 = Ok h" "app_spec i2 = app_spec (inst s')"
    "app_spec (inst s') = app_spec (inst s)" "status_hash (app_status (inst s')) = h"
    "status_secret_name (app_status (inst s')) = spec_secret_name (app_spec (inst s))" .
  have "e_hash env i = Ok h" using assms(2) [of i i2] assms(3) c(1,2) by simp
  then have "is_hash_changed (e_hash env) i = Ok False" "\<not> secret_name_changed i"
    using assms(3,4) c by (simp_all add: is_hash_changed_def secret_name_changed_def)
  then show ?thesis using assms(5-7) by (simp add: process_opts_def Let_def)
qed

lemma completed_is_stable_witness:
  "\<exists>r s' p. complete quiet_env plain_tx start_state = (Ok r, s') \<and>
     process_opts (e_hash quiet_env) 200 (plain_app\<lparr>app_status := app_status (inst s')\<rparr>) quiet_config
       (tx_secrets plain_tx) = Ok p \<and> \<not> opt_synchronize p"
proof -
  obtain r s' where c: "complete quiet_env plain_tx start_state = (Ok r, s')"
    and spec: "app_spec (inst s') = plain_spec" "status_rotation_time (app_status (inst s')) = None"
    using quiet_complete by blast
  show ?thesis
    using completed_is_stable [OF c, of "plain_app\<lparr>app_status := app_status (inst s')\<rparr>" quiet_config 200
        "tx_secrets plain_tx"] spec c
    by (auto simp: has_resynchronize_annotation_def has_rotate_annotation_def
        has_annotation_def ann_lookup_def has_expired_secrets_def)
qed

text \<open>
  An update of a resource starts a reconciliation exactly when its spec, its annotations, its
  labels, its finalizers or its deletion timestamp changed; updates of the status alone, such as
  the operator's own, do not.
\<close>

theorem status_updates_are_ignored:
  "\<not> event_filter old (old\<lparr>app_status := st\<rparr>) \<and>
   (\<not> event_filter old new \<longleftrightarrow>
      (app_spec old, app_finalizers old, app_deletion_timestamp old) =
      (app_spec new, app_finalizers new, app_deletion_timestamp new) \<and>
      map_option set (app_annotations old) = map_option set (app_annotations new) \<and>
      map_option set (app_labels old) = map_option set (app_labels new))"
  by (auto simp: event_filter_def maps_equal_def Let_def split: option.splits)

end
