(* ===== verification/AccessProperties.thy ===== *)
theory AccessProperties
  imports AzureClient PermissionScopes Scenario "HOL-Library.Sublist"
begin

text \<open>
  Properties of the access an application grants: the app role assignments converge to the
  desired ones, the list of pre-authorized applications keeps what others manage, and the roles
  and scopes of an update are those the resource asks for, with the identifiers kept.
\<close>

subsection \<open>App role assignments\<close>

fun added_by :: "sp_id \<Rightarrow> event \<Rightarrow> app_role_assignment list" where
  "added_by target (Graph (AddAssignment t a), ok) = (if t = target \<and> ok then [a] else [])"
| "added_by target e = []"

lemma added_by_iff: "a \<in> set (concat (map (added_by target) es)) \<longleftrightarrow> add_event target a \<in> set es"
proof -
  have "a \<in> set (added_by target e) \<longleftrightarrow> e = add_event target a" for e
    by (cases "(target, e)" rule: added_by.cases) auto
  then show ?thesis by auto
qed

text \<open>The assignments, by their keys, that Graph lists after the requests \<open>es\<close>.\<close>

definition assignments_after ::
  "sp_id \<Rightarrow> app_role_assignment list \<Rightarrow> event list \<Rightarrow> app_role_assignment_key set" where
  "assignments_after target existing es =
     assignment_key ` set (filter (\<lambda>a. delete_event target a \<notin> set es) existing) \<union>
     assignment_key ` set (concat (map (added_by target) es))"

lemma process_events_kept:
  assumes "iteration_order ord" "permissions_wf roles" "listed_for target existing" "unique_ids roles"
    and "distinct (map ra_id existing)" "a \<in> set existing"
  shows "delete_event target a \<in> set (process_events ord target existing assignees t roles) \<longleftrightarrow>
    assignment_key a \<notin> desired_keys target assignees t roles"
proof -
  have "b = a" if "b \<in> set existing" "ra_id b = ra_id a" for b
    using that assms(5,6) by (metis distinct_map inj_onD)
  moreover have "ra_id a = Some (the (ra_id a))"
    using assms(3,6) by (auto simp: listed_for_def)
  ultimately show ?thesis
    using process_events_deleted [OF assms(1-4), of assignees t] assms(6)
    unfolding set_eq_iff mem_Collect_eq by metis
qed

text \<open>
  C23: when \<open>processFor\<close> succeeds, the requests it sends after listing the existing
  assignments turn them into exactly the desired ones, and it adds none that exists.
\<close>

theorem assignments_converge:
  assumes "fetch_existing env target t s = (Ok existing, s1)"
    and "listed_for target existing" "distinct (map ra_id existing)"
    and "iteration_order (e_order env)" "permissions_wf roles" "unique_ids roles"
    and "process_for env target assignees t roles s = (Ok (), s')"
  shows "\<exists>es. trace s' = es @ trace s1 \<and>
    assignments_after target existing es =
      desired_keys target (resources_filter_by_principal_type assignees t) t roles \<and>
    (\<forall>a. add_event target a \<in> set es \<longrightarrow> assignment_key a \<notin> assignment_key ` set existing)"
proof (intro exI conjI)
  let ?as = "resources_filter_by_principal_type assignees t"
  let ?es = "process_events (e_order env) target existing ?as t roles"
  show "trace s' = ?es @ trace s1" by (rule process_for_trace [OF assms(1,2,7)])
  have add: "assignment_key ` {a. add_event target a \<in> set ?es}
      = desired_keys target ?as t roles - assignment_key ` set existing"
    by (rule process_events_added [OF assms(4,5,2)])
  show "\<forall>a. add_event target a \<in> set ?es \<longrightarrow> assignment_key a \<notin> assignment_key ` set existing"
  proof (intro allI impI)
    fix a assume "add_event target a \<in> set ?es"
    then have "assignment_key a \<in> assignment_key ` {a. add_event target a \<in> set ?es}"
      by (intro imageI CollectI)
    then show "assignment_key a \<notin> assignment_key ` set existing" by (simp add: add)
  qed
  have "set (concat (map (added_by target) ?es)) = {a. add_event target a \<in> set ?es}"
    by (simp only: set_eq_iff added_by_iff mem_Collect_eq simp_thms)
  moreover have "filter (\<lambda>a. delete_event target a \<notin> set ?es) existing =
      filter (\<lambda>a. assignment_key a \<in> desired_keys target ?as t roles) existing"
    by (rule filter_cong) (simp_all only: process_events_kept [OF assms(4,5,2,6,3)] not_not)
  ultimately have "assignments_after target existing ?es =
      assignment_key ` {a \<in> set existing. assignment_key a \<in> desired_keys target ?as t roles} \<union>
      (desired_keys target ?as t roles - assignment_key ` set existing)"
    unfolding assignments_after_def by (simp only: add set_filter)
  then show "assignments_after target existing ?es = desired_keys target ?as t roles" by auto
qed

definition retired :: app_role_assignment where
  "retired =
     \<lparr>ra_id = Some ''old'', ra_role_id = Some ''retired'', ra_principal_name = Some ''team'',
      ra_principal_id = Some ''g1'', ra_principal_type = Some ''Group'', ra_resource_id = Some ''sp''\<rparr>"

definition crowded_env :: env where
  "crowded_env = quiet_env\<lparr>e_assignments := (\<lambda>_ _. Inr [retired])\<rparr>"

definition team :: resource where
  "team = \<lparr>res_name = ''team'', res_client_id = [], res_object_id = ''g1'',
     res_principal_type = PrincipalTypeGroup, res_rule = zero_inbound_rule\<rparr>"

lemma team_simps [simp]:
  "res_name team = ''team''" "res_object_id team = ''g1''" "res_principal_type team = PrincipalTypeGroup"
  by (simp_all add: team_def)

definition team_role :: permission where
  "team_role = permission_new DefaultGroupRoleId DefaultGroupRoleValue True"

lemma team_role_simps [simp]:
  "pm_id team_role = DefaultGroupRoleId" "pm_name team_role = DefaultGroupRoleValue"
  "pm_enabled team_role = True"
  by (simp_all add: team_role_def)

definition team_roles :: permissions where
  "team_roles = [(DefaultGroupRoleValue, team_role)]"

lemma retired_simps [simp]:
  "ra_id retired = Some ''old''" "ra_role_id retired = Some ''retired''"
  "ra_principal_name retired = Some ''team''" "ra_principal_id retired = Some ''g1''"
  "ra_principal_type retired = Some ''Group''" "ra_resource_id retired = Some ''sp''"
  by (simp_all add: retired_def)

lemma team_fetch:
  "fetch_existing crowded_env ''sp'' PrincipalTypeGroup start_state =
     (Ok [retired], start_state\<lparr>trace := [(Graph (ListAssignments ''sp'' 1000), True)]\<rparr>)"
  by (simp add: runs crowded_env_def call_def assignments_groups_def assignments_filter_by_type_def
      PrincipalTypeGroup_def cong: eval_congs)

lemma team_values:
  "resources_filter_by_principal_type [team] PrincipalTypeGroup = [team]"
  "gm_range (\<lambda>ks. ks) (permissions_enabled (\<lambda>ks. ks) team_roles) = [(DefaultGroupRoleValue, team_role)]"
  "gm_range (\<lambda>ks. ks) (permissions_disabled (\<lambda>ks. ks) team_roles) = []"
  "assignments_filter_by_role_id [retired] DefaultGroupRoleId = Ok []"
  "assignments_without_matching_role [retired] team_roles = Ok [retired]"
  by (simp_all add: resources_filter_by_principal_type_def team_def team_roles_def gm_range_def
      permissions_enabled_def permissions_disabled_def permissions_add_def gm_has_def gm_put_def
      assignments_filter_by_role_id_def assignments_without_matching_role_def has_role_id_def
      DefaultGroupRoleId_def)

lemma team_desired:
  "desired_keys ''sp'' [team] PrincipalTypeGroup team_roles = {(DefaultGroupRoleId, ''g1'', ''sp'')}"
proof -
  have "desired_for ''sp'' [team] PrincipalTypeGroup r = [to_app_role_assignment team ''sp'' r]"
    if "pm_id r = DefaultGroupRoleId" for r
    using that by (simp add: desired_for_def extract_desired_assignees_def to_app_role_assignments_def)
  then show ?thesis
    by (auto simp: desired_keys_def team_roles_def team_def image_def split: if_splits)
qed

lemma team_run:
  "\<exists>s'. process_for crowded_env ''sp'' [team] PrincipalTypeGroup team_roles start_state = (Ok (), s')"
proof -
  have env: "e_order crowded_env = (\<lambda>ks. ks)" "e_unit crowded_env = (\<lambda>_ _. Inr ())"
    by (simp_all add: crowded_env_def)
  have role: "extract_desired_assignees [team] PrincipalTypeGroup r = [team]"
    if "pm_id r = DefaultGroupRoleId" for r
    using that by (simp add: extract_desired_assignees_def)
  have fetch: "wrap ''looking up existing AppRole assignments''
      (fetch_existing crowded_env ''sp'' PrincipalTypeGroup) start_state =
      (Ok [retired], start_state\<lparr>trace := [(Graph (ListAssignments ''sp'' 1000), True)]\<rparr>)"
    using team_fetch by (simp only: wrap_Ok_iff)
  show ?thesis
    unfolding process_for_def team_values bnd_run_Ok [where m = "wrap _ _", OF fetch]
    by (simp add: runs env team_values role assignments_to_assign_def assignments_to_revoke_def
        assignments_unmodified_def to_app_role_assignments_def to_app_role_assignment_def
        assignment_difference_def to_assignment_key_def call_def cong: eval_congs)
qed

lemma assignments_converge_witness:
  "\<exists>s' es. process_for crowded_env ''sp'' [team] PrincipalTypeGroup team_roles start_state = (Ok (), s') \<and>
     trace s' = es @ [(Graph (ListAssignments ''sp'' 1000), True)] \<and>
     assignments_after ''sp'' [retired] es = {(DefaultGroupRoleId, ''g1'', ''sp'')}"
proof -
  obtain s' where run:
    "process_for crowded_env ''sp'' [team] PrincipalTypeGroup team_roles start_state = (Ok (), s')"
    using team_run by blast
  have 1: "listed_for ''sp'' [retired]"
    by (simp add: listed_for_def assignment_complete_def)
  have 2: "distinct (map ra_id [retired])" by simp
  have 3: "iteration_order (e_order crowded_env)"
    by (simp add: crowded_env_def iteration_order_id)
  have 4: "permissions_wf team_roles"
    by (simp add: permissions_wf_def gm_wf_def team_roles_def)
  have 5: "unique_ids team_roles"
    by (simp add: team_roles_def unique_ids_def gm_keys_def)
  show ?thesis
    using assignments_converge [OF team_fetch 1 2 3 4 5 run] run
    unfolding team_values team_desired by (elim exE conjE) (intro exI conjI, simp_all)
qed

subsection \<open>Pre-authorized applications\<close>

text \<open>
  The desired pre-authorized applications that exist in Azure have distinct names, contain
  the application itself and otherwise come from the inbound rules of the spec, completed with
  the cluster and the namespace; the others are invalid resources made from such rules.
\<close>

theorem desired_applications_split:
  assumes "map_desired_pre_authorized_apps env tx s = (Ok apps, s')"
  shows "distinct (map res_name (paa_valid apps)) \<and> tx_urn tx \<in> res_name ` set (paa_valid apps) \<and>
    (\<forall>re \<in> set (paa_valid apps). re = self_resource tx (inst s) \<or>
      res_rule re \<in> ensure_fields_are_set tx (inst s) `
        set (spec_pre_authorized_applications (app_spec (inst s)))) \<and>
    (\<forall>re \<in> set (paa_invalid apps). re \<in> (\<lambda>app. invalid_resource env (ensure_fields_are_set tx (inst s) app)) `
        set (spec_pre_authorized_applications (app_spec (inst s))))"
  using map_desired_spec [OF assms] by (auto simp: image_iff)

lemma desired_applications_split_witness:
  "\<exists>apps s'. map_desired_pre_authorized_apps quiet_env plain_tx start_state = (Ok apps, s') \<and>
     ''dev:ns:app'' \<in> res_name ` set (paa_valid apps)"
proof -
  obtain apps s' where run:
    "map_desired_pre_authorized_apps quiet_env plain_tx start_state = (Ok apps, s')"
    by (simp add: runs cong: eval_congs)
  show ?thesis using run desired_applications_split [OF run] by simp
qed

text \<open>What a lookup by client ID said about an application: not managed, or gone or managed.\<close>

definition looked_up :: "env \<Rightarrow> client_id \<Rightarrow> graph_application list \<Rightarrow> bool" where
  "looked_up env i apps \<longleftrightarrow>
     (\<exists>h. e_applications env h (Graph (ListApplications (filter_by_app_id i) (max_pages env))) = Inr apps)"

definition tagged_managed :: "graph_application \<Rightarrow> bool" where
  "tagged_managed app = list_ex (\<lambda>t. t = IaCAppTag \<or> t = LegacyIaCAppTag) (ga_tags app)"

definition cached_managed :: "env \<Rightarrow> client_id \<Rightarrow> bool \<Rightarrow> bool" where
  "cached_managed env i b \<longleftrightarrow> (\<exists>h. e_cached_bool env h (Cache (GetManaged i)) = Some b)"

definition seen_unmanaged :: "env \<Rightarrow> client_id \<Rightarrow> bool" where
  "seen_unmanaged env i \<longleftrightarrow>
     (\<exists>app j. looked_up env i [app] \<and> ga_app_id app = Some j \<and>
        (cached_managed env j False \<or> \<not> tagged_managed app))"

definition seen_managed_or_gone :: "env \<Rightarrow> client_id \<Rightarrow> bool" where
  "seen_managed_or_gone env i \<longleftrightarrow>
     cached_managed env i True \<or> looked_up env i [] \<or>
     (\<exists>app j. looked_up env i [app] \<and> ga_app_id app = Some j \<and>
        (cached_managed env j True \<or> tagged_managed app))"

lemma is_managed_Ok:
  assumes "is_managed env app s = (Ok b, s')"
  obtains j where "ga_app_id app = Some j" "cached_managed env j b \<or> b = tagged_managed app"
proof -
  obtain j where j: "ga_app_id app = Some j"
    using assms by (auto simp: is_managed_def bnd_Ok_iff)
  have "cached_managed env j b \<or> b = tagged_managed app"
    using assms j
    by (auto simp: is_managed_def bnd_Ok_iff ask_iff cached_managed_def tagged_managed_def
        split: option.splits if_splits)
  then show ?thesis using that j by blast
qed

lemma exists_by_filter_Ok:
  assumes "exists_by_filter env f s = (Ok r, s')"
  shows "\<exists>h. e_applications env h (Graph (ListApplications f (max_pages env))) =
    Inr (case r of None \<Rightarrow> [] | Some app \<Rightarrow> [app])"
proof -
  obtain apps s1 where g: "get_all env [f] s = (Ok apps, s1)"
    and r: "(case apps of [] \<Rightarrow> ret None | [app] \<Rightarrow> ret (Some app)
       | _ \<Rightarrow> fail (Cause (Opaque ''found more than one matching azure application''))) s1 = (Ok r, s')"
    using assms unfolding exists_by_filter_def by (elim bnd_OkE)
  have "\<exists>h. e_applications env h (Graph (ListApplications f (max_pages env))) = Inr apps"
    using g by (auto simp: get_all_def bnd_Ok_iff call_Ok_iff)
  moreover have "apps = (case r of None \<Rightarrow> [] | Some app \<Rightarrow> [app])"
    using r by (cases apps; cases "tl apps") auto
  ultimately show ?thesis by simp
qed

lemma keep_unmanaged_Ok:
  assumes "keep_unmanaged env added p apps s = (Ok apps', s')"
  shows "\<exists>i. pa_app_id p = Some i \<and>
    (apps' = apps @ [p] \<and> i \<notin> set added \<and> seen_unmanaged env i \<or>
     apps' = apps \<and> (i \<in> set added \<or> seen_managed_or_gone env i))"
proof -
  obtain i where i: "pa_app_id p = Some i"
    using assms by (auto simp: keep_unmanaged_def bnd_Ok_iff)
  consider "i \<in> set added" | "i \<notin> set added" by blast
  then show ?thesis
  proof cases
    case 1
    then show ?thesis using assms i by (auto simp: keep_unmanaged_def)
  next
    case 2
    then obtain s1 where 3: "e_cached_bool env (trace s) (Cache (GetManaged i)) = Some True \<and> apps' = apps \<or>
        (\<exists>found s2. exists_by_filter env (filter_by_app_id i) s1 = (Ok found, s2) \<and>
          (case found of None \<Rightarrow> ret apps
           | Some app \<Rightarrow> bnd (is_managed env app) (\<lambda>managed. if managed then ret apps
               else bnd (lift (deref (ga_display_name app))) (\<lambda>_. ret (apps @ [p])))) s2 = (Ok apps', s'))"
      using assms i by (fastforce simp: keep_unmanaged_def bnd_Ok_iff ask_iff split: if_splits)
    show ?thesis
    proof (cases "e_cached_bool env (trace s) (Cache (GetManaged i)) = Some True \<and> apps' = apps")
      case True
      then show ?thesis using i by (auto simp: seen_managed_or_gone_def cached_managed_def)
    next
      case False
      then obtain found s2 where f: "exists_by_filter env (filter_by_app_id i) s1 = (Ok found, s2)"
        and rest: "(case found of None \<Rightarrow> ret apps
           | Some app \<Rightarrow> bnd (is_managed env app) (\<lambda>managed. if managed then ret apps
               else bnd (lift (deref (ga_display_name app))) (\<lambda>_. ret (apps @ [p])))) s2 = (Ok apps', s')"
        using 3 by blast
      have l: "looked_up env i (case found of None \<Rightarrow> [] | Some app \<Rightarrow> [app])"
        using exists_by_filter_Ok [OF f] by (simp add: looked_up_def)
      show ?thesis
      proof (cases found)
        case None
        then show ?thesis using l rest i by (simp add: seen_managed_or_gone_def)
      next
        case (Some app)
        then obtain m s3 where m: "is_managed env app s2 = (Ok m, s3)"
          "apps' = (if m then apps else apps @ [p])"
          using rest by (auto simp: bnd_Ok_iff split: if_splits)
        obtain j where "ga_app_id app = Some j" "cached_managed env j m \<or> m = tagged_managed app"
          using is_managed_Ok [OF m(1)] .
        then show ?thesis
          using Some l m(2) i 2
          by (cases m) (auto simp: seen_managed_or_gone_def seen_unmanaged_def)
      qed
    qed
  qed
qed

lemma keep_unmanaged_all:
  assumes "fold_io (keep_unmanaged env added) existing apps s = (Ok apps', s')"
  shows "\<exists>kept. apps' = apps @ kept \<and> subseq kept existing \<and>
    (\<forall>p \<in> set existing. \<exists>i. pa_app_id p = Some i) \<and>
    (\<forall>p \<in> set kept. the (pa_app_id p) \<notin> set added \<and> seen_unmanaged env (the (pa_app_id p))) \<and>
    (\<forall>p \<in> set existing - set kept.
       the (pa_app_id p) \<in> set added \<or> seen_managed_or_gone env (the (pa_app_id p)))"
  using assms
proof (induction existing arbitrary: apps s)
  case (Cons p existing)
  obtain apps1 s1 where 1: "keep_unmanaged env added p apps s = (Ok apps1, s1)"
    and 2: "fold_io (keep_unmanaged env added) existing apps1 s1 = (Ok apps', s')"
    using Cons.prems by (auto simp: bnd_Ok_iff)
  obtain i where i: "pa_app_id p = Some i"
    and step: "apps1 = apps @ [p] \<and> i \<notin> set added \<and> seen_unmanaged env i \<or>
       apps1 = apps \<and> (i \<in> set added \<or> seen_managed_or_gone env i)"
    using keep_unmanaged_Ok [OF 1] by blast
  obtain kept where k: "apps' = apps1 @ kept" "subseq kept existing"
    "\<forall>p \<in> set existing. \<exists>i. pa_app_id p = Some i"
    "\<forall>p \<in> set kept. the (pa_app_id p) \<notin> set added \<and> seen_unmanaged env (the (pa_app_id p))"
    "\<forall>p \<in> set existing - set kept.
       the (pa_app_id p) \<in> set added \<or> seen_managed_or_gone env (the (pa_app_id p))"
    using Cons.IH [OF 2] by blast
  show ?case
  proof (cases "apps1 = apps")
    case True
    then have "i \<in> set added \<or> seen_managed_or_gone env i" using step by auto
    then show ?thesis using k i True by (intro exI [where x = kept]) auto
  next
    case False
    then have "apps1 = apps @ [p]" "i \<notin> set added" "seen_unmanaged env i" using step by auto
    then show ?thesis using k i by (intro exI [where x = "p # kept"]) auto
  qed
qed auto

text \<open>
  C26: patching the pre-authorized applications sends the desired ones followed by some of the
  existing ones, in their order: none that is desired, each looked up and found to be managed by
  someone else; and every existing one that is dropped is desired, managed by the operator or gone.
\<close>

theorem unmanaged_pre_authorizations_kept:
  assumes "patch_pre_authorized_applications env tx resources perms s = (Ok (), s')"
  shows "\<exists>app api kept s1 earlier. application_get env tx s = (Ok app, s1) \<and> ga_api app = Some api \<and>
    trace s' = (Graph (PatchApplication (status_object_id (app_status (inst s)))
      (PatchPreAuthorized (map (\<lambda>r. to_pre_authorized_app (e_order env) r perms) resources @ kept))), True)
      # earlier \<and>
    subseq kept (api_pre_authorized api) \<and>
    (\<forall>p \<in> set kept. the (pa_app_id p) \<notin> res_client_id ` set resources \<and>
       seen_unmanaged env (the (pa_app_id p))) \<and>
    (\<forall>p \<in> set (api_pre_authorized api) - set kept. the (pa_app_id p) \<in> res_client_id ` set resources \<or>
       seen_managed_or_gone env (the (pa_app_id p)))"
proof -
  let ?apps = "map (\<lambda>r. to_pre_authorized_app (e_order env) r perms) resources"
  obtain app s1 api apps' s2 where run: "application_get env tx s = (Ok app, s1)" "ga_api app = Some api"
    "fold_io (keep_unmanaged env (map res_client_id resources)) (api_pre_authorized api) ?apps s1 = (Ok apps', s2)"
    "application_patch env (status_object_id (app_status (inst s2))) (PatchPreAuthorized apps') s2 = (Ok (), s')"
    using assms unfolding patch_pre_authorized_applications_def Let_def
    by (auto simp: bnd_Ok_iff ids_iff)
  have "moves same_inst (keep_unmanaged env added p apps)" for added p apps
    unfolding keep_unmanaged_def by (auto intro!: same_inst_intros emits_rules split: option.split)
  then have f: "moves same_inst (fold_io (keep_unmanaged env added) ps apps)" for added ps apps
    by (intro same_inst.fold_io)
  have "moves same_inst (application_get env tx)" by (intro emits_rules)
  from movesD [OF this run(1)] movesD [OF f run(3)] have "inst s2 = inst s"
    by (simp add: same_inst_def)
  then have tr: "trace s' = (Graph (PatchApplication (status_object_id (app_status (inst s)))
      (PatchPreAuthorized apps')), True) # trace s2"
    using run(4) by (auto simp: application_patch_def call_Ok_iff)
  obtain kept where k: "apps' = ?apps @ kept" "subseq kept (api_pre_authorized api)"
    "\<forall>p \<in> set kept. the (pa_app_id p) \<notin> res_client_id ` set resources \<and>
       seen_unmanaged env (the (pa_app_id p))"
    "\<forall>p \<in> set (api_pre_authorized api) - set kept. the (pa_app_id p) \<in> res_client_id ` set resources \<or>
       seen_managed_or_gone env (the (pa_app_id p))"
    using keep_unmanaged_all [OF run(3)] unfolding set_map by blast
  show ?thesis
    by (rule exI [where x = app], rule exI [where x = api], rule exI [where x = kept],
        rule exI [where x = s1], rule exI [where x = "trace s2"]) (use k tr run(1,2) in simp)
qed

definition foreign_app :: graph_application where
  "foreign_app = zero_application\<lparr>ga_app_id := Some ''other'', ga_display_name := Some ''other''\<rparr>"

definition shared_app :: graph_application where
  "shared_app = plain_registered\<lparr>ga_app_id := Some ''client'', ga_api := Some (zero_api\<lparr>api_pre_authorized :=
     [\<lparr>pa_app_id = Some ''other'', pa_permission_ids = [''p'']\<rparr>]\<rparr>)\<rparr>"

definition shared_env :: env where
  "shared_env = quiet_env\<lparr>e_applications := (\<lambda>_ q.
     if q = Graph (ListApplications (filter_by_app_id ''other'') 1000) then Inr [foreign_app]
     else Inr [shared_app])\<rparr>"

lemma shared_simps [simp]:
  "e_applications shared_env h (Graph (ListApplications (filter_by_name n) m)) = Inr [shared_app]"
  "e_applications shared_env h (Graph (ListApplications (filter_by_app_id ''other'') 1000)) = Inr [foreign_app]"
  "e_unit shared_env = (\<lambda>_ _. Inr ())" "e_cached_bool shared_env = (\<lambda>_ _. None)"
  "e_config shared_env = quiet_config" "e_order shared_env = (\<lambda>ks. ks)"
  "ga_app_id foreign_app = Some ''other''" "ga_display_name foreign_app = Some ''other''"
  "ga_tags foreign_app = []" "ga_app_id shared_app = Some ''client''"
  "ga_tags shared_app = [''azurerator_appreg'']"
  "ga_api shared_app = Some (zero_api\<lparr>api_pre_authorized :=
     [\<lparr>pa_app_id = Some ''other'', pa_permission_ids = [''p'']\<rparr>]\<rparr>)"
  by (simp_all add: shared_env_def foreign_app_def shared_app_def)

lemma unmanaged_pre_authorizations_kept_witness:
  "\<exists>s' app api kept s1. patch_pre_authorized_applications shared_env plain_tx [] [] start_state = (Ok (), s') \<and>
     application_get shared_env plain_tx start_state = (Ok app, s1) \<and>
     ga_api app = Some api \<and> subseq kept (api_pre_authorized api)"
proof -
  obtain s' where run: "patch_pre_authorized_applications shared_env plain_tx [] [] start_state = (Ok (), s')"
    by (simp add: runs call_def ask_def IaCAppTag_def LegacyIaCAppTag_def cong: eval_congs)
  show ?thesis using unmanaged_pre_authorizations_kept [OF run] run by blast
qed

subsection \<open>Roles, scopes and their identifiers\<close>

text \<open>
  C28: the application roles of an update are one per name: every registered role keeps its
  identifier and is enabled exactly if the resource asks for it or it is the default role, and
  the missing ones are created enabled.
\<close>

theorem roles_update_described:
  assumes "iteration_order ord" "permissions_wf d" "\<forall>r \<in> set ex. approle_complete r"
  shows "\<exists>res. approles_describe_update ord d ex = Ok res \<and>
    distinct (map ar_value (approle_get_result ord res)) \<and>
    (\<forall>k. map_of (map (entry_view ar_value ar_id ar_enabled) (approle_get_result ord res)) k =
       described_entry (\<lambda>k. Option.bind (find (\<lambda>r. ar_value r = Some k) ex) ar_id) d
         DefaultAppRoleValue DefaultAppRoleId k)"
proof -
  obtain r where r: "out_bind (approles_describe_update ord d ex) (\<lambda>r. Ok (approle_get_result ord r)) = Ok r"
    "distinct (map fst (map approles.view r))"
    "\<forall>k. map_of (map approles.view r) k =
       described_entry (\<lambda>k. Option.bind (find (\<lambda>r. ar_value r = Some k) ex) ar_id) d
         DefaultAppRoleValue DefaultAppRoleId k"
    using approles.describe_spec [OF assms(1,2)] assms(3) by blast
  then obtain res where "approles_describe_update ord d ex = Ok res" "r = approle_get_result ord res"
    by (auto simp: out_bind_Ok_iff)
  moreover from r(2) have "distinct (map (\<lambda>e. the (ar_value e)) r)"
    by (simp add: entry_view_def comp_def)
  then have "distinct (map the (map ar_value r))" by (simp add: comp_def)
  then have "distinct (map ar_value r)" by (simp only: distinct_map [where f = the])
  ultimately show ?thesis using r(3) by blast
qed

lemma roles_update_described_witness:
  "\<exists>res. approles_describe_update (\<lambda>ks. ks) [(''read'', permission_new ''id'' ''read'' True)]
       [approle_new ''old'' ''write''] = Ok res \<and> distinct (map ar_value (approle_get_result (\<lambda>ks. ks) res))"
proof -
  have "permissions_wf [(''read'', permission_new ''id'' ''read'' True)]"
    by (simp add: permissions_wf_def gm_wf_def)
  moreover have "\<forall>r \<in> set [approle_new ''old'' ''write'']. approle_complete r"
    by (simp add: approle_new_def approle_complete_def)
  ultimately show ?thesis using roles_update_described [OF iteration_order_id] by meson
qed

text \<open>
  C29: the same of the OAuth2 permission scopes, the default scope included.
\<close>

theorem scopes_update_described:
  assumes "iteration_order ord" "permissions_wf d" "\<forall>r \<in> set ex. scope_complete r"
  shows "\<exists>res. scopes_describe_update ord d ex = Ok res \<and>
    distinct (map ps_value (scope_get_result ord res)) \<and>
    (\<forall>k. map_of (map (entry_view ps_value ps_id ps_enabled) (scope_get_result ord res)) k =
       described_entry (\<lambda>k. Option.bind (find (\<lambda>r. ps_value r = Some k) ex) ps_id) d
         DefaultPermissionScopeValue DefaultPermissionScopeId k)"
proof -
  obtain r where r: "out_bind (scopes_describe_update ord d ex) (\<lambda>r. Ok (scope_get_result ord r)) = Ok r"
    "distinct (map fst (map scopes.view r))"
    "\<forall>k. map_of (map scopes.view r) k =
       described_entry (\<lambda>k. Option.bind (find (\<lambda>r. ps_value r = Some k) ex) ps_id) d
         DefaultPermissionScopeValue DefaultPermissionScopeId k"
    using scopes.describe_spec [OF assms(1,2)] assms(3) by blast
  then obtain res where "scopes_describe_update ord d ex = Ok res" "r = scope_get_result ord res"
    by (auto simp: out_bind_Ok_iff)
  moreover from r(2) have "distinct (map the (map ps_value r))" by (simp add: entry_view_def comp_def)
  then have "distinct (map ps_value r)" by (simp only: distinct_map [where f = the])
  ultimately show ?thesis using r(3) by blast
qed

lemma scopes_update_described_witness:
  "\<exists>res. scopes_describe_update (\<lambda>ks. ks) [(''read'', permission_new ''id'' ''read'' True)]
       [scope_new ''old'' ''write''] = Ok res \<and> distinct (map ps_value (scope_get_result (\<lambda>ks. ks) res))"
proof -
  have "permissions_wf [(''read'', permission_new ''id'' ''read'' True)]"
    by (simp add: permissions_wf_def gm_wf_def)
  moreover have "\<forall>r \<in> set [scope_new ''old'' ''write'']. scope_complete r"
    by (simp add: scope_new_def scope_complete_def)
  ultimately show ?thesis using scopes_update_described [OF iteration_order_id] by meson
qed

lemma extract_permissions_wf:
  assumes "extract_permissions app = Ok p"
  shows "permissions_wf p"
proof -
  obtain api :: api_application and m where m: "out_fold (\<lambda>s m. out_bind (permission_from_scope s) (\<lambda>p. Ok (permissions_add p m)))
      (api_scopes api) [] = Ok m"
    and p: "out_fold (\<lambda>r m. out_bind (permission_from_app_role r) (\<lambda>p. Ok (permissions_add p m)))
      (ga_app_roles app) m = Ok p"
    using assms by (auto simp: extract_permissions_def out_bind_Ok_iff)
  have "permissions_wf m"
    by (rule out_fold_invariant [where P = permissions_wf, OF _ m]) (auto simp: out_bind_Ok_iff)
  then show ?thesis
    by (rule out_fold_invariant [where P = permissions_wf, OF _ p, rotated]) (auto simp: out_bind_Ok_iff)
qed

text \<open>
  C27: the permissions an update asks for are those of the resource and the two defaults, each
  under its own name; a permission that is registered in Azure is taken over as it is, identifier
  included, and a new one is enabled.
\<close>

theorem desired_permissions_keep_ids:
  assumes "extract_permissions existing = Ok actual"
  shows "\<exists>d. generate_desired_preserve_existing fresh app existing = Ok d \<and>
    permissions_wf d \<and> gm_keys d = desired_names app \<and>
    (\<forall>k \<in> desired_names app. \<exists>p. map_of d k = Some p \<and>
       (if gm_has actual k then map_of actual k = Some p else pm_enabled p))"
proof -
  let ?d = "preserve_existing (generate_desired fresh app) actual"
  have "\<exists>p. map_of ?d k = Some p \<and> (if gm_has actual k then map_of actual k = Some p else pm_enabled p)"
    if "k \<in> desired_names app" for k
  proof -
    obtain v where v: "map_of (generate_desired fresh app) k = Some v"
      using \<open>k \<in> _\<close> generate_desired_keys [of fresh app] by (metis domD gm_keys_dom)
    then show ?thesis
      using generate_desired_enabled [OF v] by (cases "map_of actual k") (auto simp: map_of_preserve_existing gm_has_def)
  qed
  then show ?thesis
    using extract_permissions_wf [OF assms] assms
    by (simp add: generate_desired_preserve_existing_def permissions_wf_preserve_existing generate_desired_keys)
qed

lemma desired_permissions_keep_ids_witness:
  "\<exists>d. generate_desired_preserve_existing (\<lambda>_. ''fresh'') plain_app
        (plain_registered\<lparr>ga_app_roles := [approle_new ''kept'' DefaultAppRoleValue]\<rparr>) = Ok d \<and>
     map_of d DefaultAppRoleValue = Some (permission_new ''kept'' DefaultAppRoleValue True)"
proof -
  have e: "extract_permissions (plain_registered\<lparr>ga_app_roles := [approle_new ''kept'' DefaultAppRoleValue]\<rparr>) =
      Ok [(DefaultAppRoleValue, permission_new ''kept'' DefaultAppRoleValue True)]"
    by (simp add: extract_permissions_def approle_new_def permission_from_app_role_def permissions_add_def
        gm_has_def gm_put_def zero_api_def)
  have "DefaultAppRoleValue \<in> desired_names plain_app" by (simp add: desired_names_def)
  then show ?thesis
    using desired_permissions_keep_ids [OF e, of "\<lambda>_. ''fresh''" plain_app] by (auto simp: gm_has_def)
qed

end
