(* ===== verification/SyncProperties.thy ===== *)
theory SyncProperties
  imports Controller Scenario
begin

text \<open>
  Properties of the marks by which a change of one application reaches the others: an event marks
  exactly resources that pre-authorize its application and do not know its client ID, the sweeper
  marks only resources without a pending mark, and completing a reconciliation removes the mark it
  processed, with the marks that arrived meanwhile when more than one was pending.
\<close>

subsection \<open>Events\<close>

text \<open>The request of an event's mark, and the other requests of \<open>Synchronize\<close>.\<close>

fun marking :: "env \<Rightarrow> sync_event \<Rightarrow> event \<Rightarrow> bool" where
  "marking env e (Kube (UpdateResource a), ok) =
     (\<exists>h apps app h' existing. e_resources env h (Kube ListResources) = Inr apps \<and> app \<in> set apps \<and>
        needs_resync app (cfg_cluster_name (e_config env)) e \<and>
        e_resource env h' (Kube (GetResource (app_namespace app) (app_name app))) = Inr existing \<and>
        a = mark_for_resync env e existing)"
| "marking env e (Kube (GetResource x y), ok) = True"
| "marking env e (Kube ListResources, ok) = True"
| "marking env e ev = False"

lemma synchronizer_resync_emits:
  assumes "e_resources env h (Kube ListResources) = Inr apps" "app \<in> set apps"
    "needs_resync app (cfg_cluster_name (e_config env)) e"
  shows "emits (marking env e) (synchronizer_resync env app e)"
  unfolding synchronizer_resync_def
proof (intro emits.retry_on_conflict emits.bnd_result)
  show "emits (marking env e) (wrap ''getting newest version from cluster''
      (call (Kube (GetResource (app_namespace app) (app_name app))) (e_resource env)))"
    by (intro emits.wrap emits_call) simp
next
  fix s x s'
  assume "wrap ''getting newest version from cluster''
      (call (Kube (GetResource (app_namespace app) (app_name app))) (e_resource env)) s = (Ok x, s')"
  then have "e_resource env (trace s) (Kube (GetResource (app_namespace app) (app_name app))) = Inr x"
    by (simp add: call_Ok_iff)
  then show "emits (marking env e) (wrap ''setting resync annotation''
      (call (Kube (UpdateResource (mark_for_resync env e x))) (e_unit env)))"
    using assms by (intro emits.wrap emits_call) (unfold marking.simps, blast)
qed

lemma synchronize_emits: "emits (marking env e) (synchronize env e)"
proof -
  have "emits (marking env e) (bnd (wrap ''fetching AzureAdApplications from cluster''
                 (call (Kube ListResources) (e_resources env))) (\<lambda>apps.
          for_each (\<lambda>app.
            if needs_resync app (cfg_cluster_name (e_config env)) e
            then wrap ''resyncing'' (synchronizer_resync env app e)
            else ret ()) apps))"
  proof (rule emits.bnd_result)
    show "emits (marking env e) (wrap ''fetching AzureAdApplications from cluster''
        (call (Kube ListResources) (e_resources env)))"
      by (intro emits.wrap emits_call) simp
  next
    fix s apps s'
    assume "wrap ''fetching AzureAdApplications from cluster''
        (call (Kube ListResources) (e_resources env)) s = (Ok apps, s')"
    then have "e_resources env (trace s) (Kube ListResources) = Inr apps"
      by (simp add: call_Ok_iff)
    then show "emits (marking env e) (for_each (\<lambda>app.
            if needs_resync app (cfg_cluster_name (e_config env)) e
            then wrap ''resyncing'' (synchronizer_resync env app e)
            else ret ()) apps)"
      by (intro emits.for_each) (auto intro!: emits.wrap emits.ret synchronizer_resync_emits)
  qed
  then show ?thesis
    unfolding synchronize_def by (auto intro: emits.ret split: outcome.split)
qed

lemma mark_queue:
  assumes "CHR '','' \<notin> set (event_application_string (ev_application e))"
    and "e_correlation_key env \<noteq> ResynchronizeKey"
  shows "ann_queue (mark_for_resync env e existing) ResynchronizeKey =
    (let q = ann_queue existing ResynchronizeKey; v = event_application_string (ev_application e) in
     if q \<noteq> [] \<and> last q = v then q else q @ [v])"
  using ann_queue_add [OF assms(1), of ResynchronizeKey existing] assms(2)
  by (simp add: mark_for_resync_def ann_queue_def Let_def)

text \<open>
  The rule of an access policy refers to the application of an event; a rule without a namespace or
  cluster means those of the resource.
\<close>

definition refers_to :: "azure_ad_application \<Rightarrow> string \<Rightarrow> access_policy_rule \<Rightarrow> event_application \<Rightarrow> bool" where
  "refers_to app cluster rule a \<longleftrightarrow> rule_application rule = eva_name a \<and>
     (if rule_namespace rule = [] then app_namespace app else rule_namespace rule) = eva_namespace a \<and>
     (if rule_cluster rule = [] then cluster else rule_cluster rule) = eva_cluster a"

lemma rule_matches_refers: "rule_matches app cluster e rule \<longleftrightarrow> refers_to app cluster rule (ev_application e)"
  by (auto simp: rule_matches_def normalize_rule_def refers_to_def Let_def)

text \<open>A resource that an event concerns: it names the application and does not know its client ID.\<close>

definition concerned :: "azure_ad_application \<Rightarrow> string \<Rightarrow> event_application \<Rightarrow> bool" where
  "concerned app cluster a \<longleftrightarrow>
     (app_name app, app_namespace app, cluster) \<noteq> (eva_name a, eva_namespace a, eva_cluster a) \<and>
     (\<exists>p \<in> set (spec_pre_authorized_applications (app_spec app)). refers_to app cluster (in_rule p) a) \<and>
     (eva_client_id a = [] \<or>
      (\<forall>st known rule. status_pre_authorized_apps (app_status app) = Some st \<longrightarrow> known \<in> set (pres_assigned st) \<longrightarrow>
         pre_rule known = Some rule \<longrightarrow> refers_to app cluster rule a \<longrightarrow> pre_client_id known \<noteq> eva_client_id a))"

lemma needs_resync_concerned: "needs_resync app cluster e \<longleftrightarrow> concerned app cluster (ev_application e)"
  by (auto simp: needs_resync_def concerned_def already_assigned_with_current_client_id_def rule_matches_refers
      list_ex_iff Let_def split: option.split)

text \<open>
  A version of a resource that is marked for an event: only two annotations differ, the correlation
  ID, and the queue of marks with the application appended unless it is the last entry.
\<close>

definition marked_version :: "env \<Rightarrow> sync_event \<Rightarrow> azure_ad_application \<Rightarrow> azure_ad_application \<Rightarrow> bool" where
  "marked_version env e existing a \<longleftrightarrow>
     a = existing\<lparr>app_annotations := app_annotations a\<rparr> \<and>
     has_annotation a (e_correlation_key env) = Some (ev_id e) \<and>
     ann_queue a ResynchronizeKey =
       (let q = ann_queue existing ResynchronizeKey; v = event_application_string (ev_application e) in
        if q \<noteq> [] \<and> last q = v then q else q @ [v]) \<and>
     (\<forall>k. k \<notin> {ResynchronizeKey, e_correlation_key env} \<longrightarrow> has_annotation a k = has_annotation existing k)"

lemma mark_for_resync_marks:
  assumes "CHR '','' \<notin> set (event_application_string (ev_application e))" "e_correlation_key env \<noteq> ResynchronizeKey"
  shows "marked_version env e existing (mark_for_resync env e existing)"
  unfolding marked_version_def
proof (intro conjI)
  show "mark_for_resync env e existing = existing\<lparr>app_annotations := app_annotations (mark_for_resync env e existing)\<rparr>"
    by (auto simp: mark_for_resync_def set_annotation_def add_to_annotation_def split: option.split)
  show "has_annotation (mark_for_resync env e existing) (e_correlation_key env) = Some (ev_id e)"
    "\<forall>k. k \<notin> {ResynchronizeKey, e_correlation_key env} \<longrightarrow>
       has_annotation (mark_for_resync env e existing) k = has_annotation existing k"
    by (simp_all add: mark_for_resync_def)
qed (rule mark_queue [OF assms])

lemma synchronize_ignores:
  assumes "synchronize env e s = (r, s')" "s' \<noteq> s"
  shows "ev_name e \<in> {EventCreated, EventUpdated}" "missing_fields (ev_application e) = []"
  using assms unfolding synchronize_def event_validate_def
  by (auto simp: event_is_created_def event_is_updated_def ret_def Let_def split: if_splits)

text \<open>
  C24: handling an event only reads resources and marks them: every resource it writes is the
  newest version of a listed one that pre-authorizes the application of the event, is not that
  application itself and does not know its client ID. Only two annotations of it are changed: the
  application is appended to the queue of the resync annotation unless it is the last entry, and the
  ID of the event becomes the correlation ID. Only complete events of the kinds created and updated
  are handled.
\<close>

theorem event_marks_dependants:
  assumes "synchronize env e s = (r, s')" "ev \<in> set (trace s')" "ev \<notin> set (trace s)"
    and "CHR '','' \<notin> set (event_application_string (ev_application e))"
    and "e_correlation_key env \<noteq> ResynchronizeKey"
  shows "ev_name e \<in> {EventCreated, EventUpdated} \<and> missing_fields (ev_application e) = [] \<and>
   ((\<exists>ok. ev = (Kube ListResources, ok)) \<or> (\<exists>x y ok. ev = (Kube (GetResource x y), ok)) \<or>
    (\<exists>a ok h apps app h' existing. ev = (Kube (UpdateResource a), ok) \<and>
        e_resources env h (Kube ListResources) = Inr apps \<and> app \<in> set apps \<and>
        concerned app (cfg_cluster_name (e_config env)) (ev_application e) \<and>
        e_resource env h' (Kube (GetResource (app_namespace app) (app_name app))) = Inr existing \<and>
        marked_version env e existing a))"
proof -
  have "s' \<noteq> s" using assms(2,3) by auto
  note handled = synchronize_ignores [OF assms(1) this]
  have m: "marking env e ev" using emits_new [OF synchronize_emits assms(1,2)] assms(3) by simp
  then show ?thesis
  proof (cases "(env, e, ev)" rule: marking.cases)
    case (1 env' e' a ok)
    then obtain h apps app h' existing where w: "e_resources env h (Kube ListResources) = Inr apps" "app \<in> set apps"
      "needs_resync app (cfg_cluster_name (e_config env)) e"
      "e_resource env h' (Kube (GetResource (app_namespace app) (app_name app))) = Inr existing"
      "a = mark_for_resync env e existing"
      using m by auto
    have "marked_version env e existing a" unfolding w(5) by (rule mark_for_resync_marks [OF assms(4,5)])
    then show ?thesis using handled w(1,2,3,4) 1 unfolding needs_resync_concerned by blast
  qed (use m handled in auto)
qed

definition dependant :: azure_ad_application where
  "dependant = plain_app\<lparr>app_name := ''dep'', app_spec := plain_spec\<lparr>spec_pre_authorized_applications :=
     [\<lparr>in_rule = \<lparr>rule_application = ''app'', rule_namespace = [], rule_cluster = []\<rparr>,
       in_permissions = None\<rparr>]\<rparr>\<rparr>"

definition dependant_env :: env where
  "dependant_env = quiet_env\<lparr>e_resources := (\<lambda>_ _. Inr [dependant]), e_resource := (\<lambda>_ _. Inr dependant)\<rparr>"

definition created :: sync_event where
  "created = new_created_event ''corr'' plain_app ''dev'' ''cid''"

lemma dependant_simps [simp]:
  "app_name dependant = ''dep''" "app_namespace dependant = ''ns''"
  "app_status dependant = blank_status"
  "spec_pre_authorized_applications (app_spec dependant) =
     [\<lparr>in_rule = \<lparr>rule_application = ''app'', rule_namespace = [], rule_cluster = []\<rparr>, in_permissions = None\<rparr>]"
  "e_resources dependant_env = (\<lambda>_ _. Inr [dependant])" "e_resource dependant_env = (\<lambda>_ _. Inr dependant)"
  "e_unit dependant_env = (\<lambda>_ _. Inr ())" "e_config dependant_env = quiet_config"
  "e_correlation_key dependant_env = ''nais.io/deploymentCorrelationID''"
  by (simp_all add: dependant_def dependant_env_def)

lemma created_simps [simp]:
  "ev_id created = ''corr''" "ev_name created = EventCreated"
  "ev_application created =
     \<lparr>eva_name = ''app'', eva_namespace = ''ns'', eva_cluster = ''dev'', eva_client_id = ''cid''\<rparr>"
  by (simp_all add: created_def new_created_event_def new_event_def)

lemma event_marks_dependants_witness:
  "\<exists>s' a. synchronize dependant_env created start_state = (Ok (), s') \<and>
     (Kube (UpdateResource a), True) \<in> set (trace s') \<and>
     has_annotation a ''nais.io/deploymentCorrelationID'' = Some ''corr''"
proof -
  let ?a = "mark_for_resync dependant_env created dependant"
  have needs: "needs_resync dependant ''dev'' created"
    by (simp add: needs_resync_def rule_matches_def normalize_rule_def
        already_assigned_with_current_client_id_def)
  obtain s' where run: "synchronize dependant_env created start_state = (Ok (), s')"
    and ev: "(Kube (UpdateResource ?a), True) \<in> set (trace s')"
    by (simp add: runs call_def needs event_validate_def missing_fields_def event_is_created_def
        default_retry_steps_def eval_nat_numeral cong: eval_congs)
  have "has_annotation ?a (e_correlation_key dependant_env) = Some (ev_id created)"
    using event_marks_dependants [OF run ev]
    by (auto simp: event_application_string_def ResynchronizeKey_def marked_version_def)
  then show ?thesis using run ev by auto
qed

text \<open>
  C25: an application whose status records the client ID of the event among its assigned
  pre-authorized applications, as reporting a synchronisation does, is not marked again: events do
  not keep their dependants resynchronising.
\<close>

theorem assigned_dependant_is_settled:
  assumes "report_pre_authorized_status env apps s = (Ok (), s')"
    and "re \<in> set (paa_valid apps)" "res_client_id re = eva_client_id (ev_application e)"
    and "in_rule (res_rule re) = \<lparr>rule_application = eva_name (ev_application e),
       rule_namespace = eva_namespace (ev_application e), rule_cluster = eva_cluster (ev_application e)\<rparr>"
    and "event_validate (e_dump env) e = Ok ()"
  shows "\<not> needs_resync (inst s') cluster e"
proof -
  have fields: "eva_name (ev_application e) \<noteq> []" "eva_namespace (ev_application e) \<noteq> []"
    "eva_cluster (ev_application e) \<noteq> []" "eva_client_id (ev_application e) \<noteq> []"
    using assms(5) by (auto simp: event_validate_def missing_fields_def split: if_splits)
  obtain st where st: "status_pre_authorized_apps (app_status (inst s')) = Some st"
    "pres_assigned st = map assigned_status (paa_valid apps)"
    using assms(1) by (auto simp: report_pre_authorized_status_def Let_def bnd_Ok_iff set_status_iff)
  have "pre_rule (assigned_status re) = Some (in_rule (res_rule re))"
    "pre_client_id (assigned_status re) = eva_client_id (ev_application e)"
    using assms(3) by (simp_all add: assigned_status_def)
  moreover have "rule_matches (inst s') cluster e (in_rule (res_rule re))"
    using fields by (simp add: assms(4) rule_matches_def normalize_rule_def)
  ultimately have "already_assigned_with_current_client_id (inst s') cluster e"
    using fields st assms(2)
    by (auto simp: already_assigned_with_current_client_id_def list_ex_iff intro!: bexI [of _ re])
  then show ?thesis by (simp add: needs_resync_def Let_def)
qed

lemma assigned_dependant_is_settled_witness:
  "\<exists>s'. report_pre_authorized_status quiet_env
      \<lparr>paa_valid = [self_resource plain_tx (plain_app\<lparr>app_status := blank_status\<lparr>status_client_id := ''cid''\<rparr>\<rparr>)],
       paa_invalid = []\<rparr> (start_state\<lparr>inst := dependant\<rparr>) = (Ok (), s') \<and>
     \<not> needs_resync (inst s') ''dev'' created"
proof -
  let ?re = "self_resource plain_tx (plain_app\<lparr>app_status := blank_status\<lparr>status_client_id := ''cid''\<rparr>\<rparr>)"
  obtain s' where run: "report_pre_authorized_status quiet_env \<lparr>paa_valid = [?re], paa_invalid = []\<rparr>
      (start_state\<lparr>inst := dependant\<rparr>) = (Ok (), s')"
    by (simp add: runs cong: eval_congs)
  have "event_validate (e_dump quiet_env) created = Ok ()"
    by (simp add: event_validate_def missing_fields_def)
  then have "\<not> needs_resync (inst s') ''dev'' created"
    by (intro assigned_dependant_is_settled [OF run, of ?re]) (simp_all add: self_resource_def)
  then show ?thesis using run by blast
qed

subsection \<open>The sweeper\<close>

fun sweeping :: "env \<Rightarrow> event \<Rightarrow> bool" where
  "sweeping env (Kube (UpdateResource a), ok) =
     (\<exists>h apps app h' existing. e_resources env h (Kube ListResources) = Inr apps \<and> app \<in> set apps \<and>
        status_pre_authorized_apps (app_status app) \<noteq> None \<and>
        status_tenant (app_status app) = tenant_id (az_tenant (azure_cfg env)) \<and>
        has_annotation app ResynchronizeKey = None \<and>
        e_resource env h' (Kube (GetResource (app_namespace app) (app_name app))) = Inr existing \<and>
        has_annotation existing ResynchronizeKey = None \<and>
        a = set_annotation ResynchronizeKey sourceSweeper existing)"
| "sweeping env ev = reads ev"

lemma sweeping_reads: "reads ev \<Longrightarrow> sweeping env ev"
  by (cases "(env, ev)" rule: sweeping.cases) auto

lemma resolving_emits:
  "emits (sweeping env) (sweeper_resolve env rule)"
  "emits (sweeping env) (any_assignable env us)"
  "emits (sweeping env) (any_recreated env as)"
  "emits (sweeping env) (should_resync env app)"
proof -
  show r: "emits (sweeping env) (sweeper_resolve env rule)" for rule
    unfolding sweeper_resolve_def Let_def
    by (auto intro!: emits_intros emits_mono [OF pre_authorized_app_client_id_reads] sweeping_reads
        split: option.split sum.split)
  show a: "emits (sweeping env) (any_assignable env us)" for us
    by (induction us) (auto intro!: emits_intros r split: option.split)
  show b: "emits (sweeping env) (any_recreated env as)" for as
    by (induction as) (auto intro!: emits_intros r split: option.split)
  show "emits (sweeping env) (should_resync env app)"
    unfolding should_resync_def has_resyncable_pre_auth_app_def by (auto intro!: emits_intros a b)
qed

lemma sweeper_resync_emits:
  assumes "e_resources env h (Kube ListResources) = Inr apps" "app \<in> set apps"
    "status_pre_authorized_apps (app_status app) \<noteq> None"
    "status_tenant (app_status app) = tenant_id (az_tenant (azure_cfg env))"
    "has_annotation app ResynchronizeKey = None"
  shows "emits (sweeping env) (sweeper_resync env app)"
  unfolding sweeper_resync_def
proof (intro emits.retry_on_conflict emits.bnd_result)
  show "emits (sweeping env) (wrap ''getting newest version from cluster''
      (call (Kube (GetResource (app_namespace app) (app_name app))) (e_resource env)))"
    by (intro emits.wrap emits_call) simp
next
  fix s x s'
  assume "wrap ''getting newest version from cluster''
      (call (Kube (GetResource (app_namespace app) (app_name app))) (e_resource env)) s = (Ok x, s')"
  then have x: "e_resource env (trace s) (Kube (GetResource (app_namespace app) (app_name app))) = Inr x"
    by (simp add: call_Ok_iff)
  have "sweeping env (Kube (UpdateResource (set_annotation ResynchronizeKey sourceSweeper x)), ok)"
    if "has_annotation x ResynchronizeKey = None" for ok
    unfolding sweeping.simps using assms x that by blast
  then show "emits (sweeping env) (if has_annotation x ResynchronizeKey \<noteq> None then ret False
      else bnd (wrap ''setting resync annotation''
             (call (Kube (UpdateResource (set_annotation ResynchronizeKey sourceSweeper x)))
               (e_unit env))) (\<lambda>_. ret True))"
    by (auto intro!: emits_intros)
qed

lemma sweep_emits: "emits (sweeping env) (sweep env)"
  unfolding sweep_def
proof (rule emits.bnd_result)
  show "emits (sweeping env) (attempt (call (Kube ListResources) (e_resources env)))"
    by (intro emits.attempt emits_call) simp
next
  fix s r s'
  assume "attempt (call (Kube ListResources) (e_resources env)) s = (Ok r, s')"
  then have r: "r = Inr apps \<Longrightarrow> e_resources env (trace s) (Kube ListResources) = Inr apps" for apps
    by (auto simp: attempt_Ok_iff call_Ok_iff)
  have one: "emits (sweeping env) (bnd (should_resync env app) (\<lambda>candidate.
             if \<not> candidate then ret ()
             else bnd (attempt (sweeper_resync env app)) (\<lambda>_. ret ())))"
    if "r = Inr apps" "app \<in> set apps" for apps app
  proof (rule emits.bnd_result)
    show "emits (sweeping env) (should_resync env app)" by (rule resolving_emits)
  next
    fix s c s'
    assume "should_resync env app s = (Ok c, s')"
    then have "c \<Longrightarrow> status_pre_authorized_apps (app_status app) \<noteq> None \<and>
        status_tenant (app_status app) = tenant_id (az_tenant (azure_cfg env)) \<and>
        has_annotation app ResynchronizeKey = None"
      by (auto simp: should_resync_def split: if_splits)
    then show "emits (sweeping env) (if \<not> c then ret ()
             else bnd (attempt (sweeper_resync env app)) (\<lambda>_. ret ()))"
      using sweeper_resync_emits [OF r that(2)] that(1) by (auto intro!: emits_intros)
  qed
  show "emits (sweeping env) (case r of
       Inl e \<Rightarrow> ret ()
     | Inr apps \<Rightarrow>
         for_each (\<lambda>app.
           bnd (should_resync env app) (\<lambda>candidate.
             if \<not> candidate then ret ()
             else bnd (attempt (sweeper_resync env app)) (\<lambda>_. ret ()))) apps)"
    using one by (cases r) (auto intro!: emits.for_each emits.ret)
qed

text \<open>
  C30: the sweeper writes a resource only to mark it, only when neither the listed nor the newest
  version has a pending mark, the resource belongs to this tenant and its pre-authorized
  applications were reported; it sends no other request that changes Azure or the cluster.
\<close>

theorem sweeper_marks_unmarked:
  assumes "sweep env s = (r, s')" "(req, ok) \<in> set (trace s')" "(req, ok) \<notin> set (trace s)"
  shows "harmless req \<or>
    (\<exists>a h apps app h' existing. req = Kube (UpdateResource a) \<and>
        e_resources env h (Kube ListResources) = Inr apps \<and>
        app \<in> set apps \<and> status_pre_authorized_apps (app_status app) \<noteq> None \<and>
        status_tenant (app_status app) = tenant_id (az_tenant (azure_cfg env)) \<and>
        has_annotation app ResynchronizeKey = None \<and>
        e_resource env h' (Kube (GetResource (app_namespace app) (app_name app))) = Inr existing \<and>
        has_annotation existing ResynchronizeKey = None \<and>
        a = set_annotation ResynchronizeKey sourceSweeper existing)"
proof -
  have m: "sweeping env (req, ok)" using emits_new [OF sweep_emits assms(1,2)] assms(3) by simp
  show ?thesis
  proof (cases "\<exists>a. req = Kube (UpdateResource a)")
    case True
    then obtain a where a: "req = Kube (UpdateResource a)" by blast
    show ?thesis using m unfolding a sweeping.simps by blast
  next
    case False
    then show ?thesis using m by (cases "(env, (req, ok))" rule: sweeping.cases) auto
  qed
qed

definition waiting :: azure_ad_application where
  "waiting = dependant\<lparr>app_status := blank_status\<lparr>status_tenant := ''tid'', status_pre_authorized_apps :=
     Some \<lparr>pres_assigned = [], pres_unassigned =
       [\<lparr>pre_rule = Some \<lparr>rule_application = ''app'', rule_namespace = ''ns'', rule_cluster = ''dev''\<rparr>,
         pre_client_id = [], pre_sp_object_id = [], pre_reason = []\<rparr>],
       pres_assigned_count = 0, pres_unassigned_count = 1\<rparr>\<rparr>\<rparr>"

definition waiting_env :: env where
  "waiting_env = quiet_env\<lparr>e_resources := (\<lambda>_ _. Inr [waiting]), e_resource := (\<lambda>_ _. Inr waiting),
     e_applications := (\<lambda>_ _. Inr [plain_registered])\<rparr>"

lemma sweeper_marks_unmarked_witness:
  "\<exists>s' a. sweep waiting_env start_state = (Ok (), s') \<and> (Kube (UpdateResource a), True) \<in> set (trace s') \<and>
     (\<exists>existing. has_annotation existing ResynchronizeKey = None \<and>
        a = set_annotation ResynchronizeKey sourceSweeper existing)"
proof -
  let ?a = "set_annotation ResynchronizeKey sourceSweeper waiting"
  obtain s' where run: "sweep waiting_env start_state = (Ok (), s')"
    and ev: "(Kube (UpdateResource ?a), True) \<in> set (trace s')"
    by (simp add: runs call_def ask_def notify_def waiting_env_def waiting_def has_annotation_def
        ann_lookup_def dependant_def
        IaCAppTag_def LegacyIaCAppTag_def default_retry_steps_def eval_nat_numeral cong: eval_congs)
  have "\<not> harmless (Kube (UpdateResource ?a))" by simp
  then show ?thesis
    using sweeper_marks_unmarked [OF run ev] run ev by auto
qed

subsection \<open>Removing processed marks\<close>

lemma update_application_cases:
  assumes "update_application env upd s = (r, s')" "ev \<in> set (trace s')" "ev \<notin> set (trace s)"
    and "\<And>x y ok. ev \<noteq> (Kube (GetResource x y), ok)" "\<And>q ok. ev \<noteq> (Runtime q, ok)"
  obtains existing s1 r1 s2 where
    "e_resource env (trace s1) (Kube (GetResource (app_namespace (inst s)) (app_name (inst s)))) = Inr existing"
    "upd existing (s1\<lparr>trace := (Kube (GetResource (app_namespace (inst s)) (app_name (inst s))), True) # trace s1\<rparr>)
       = (r1, s2)"
    "inst s1 = inst s" "trace s1 = (Runtime LockAppsync, True) # trace s"
    "ev \<in> set (trace s2)" "(r, s') = (r1, s2\<lparr>trace := (Runtime UnlockAppsync, True) # trace s2\<rparr>)"
proof -
  define s1 where "s1 = s\<lparr>trace := (Runtime LockAppsync, True) # trace s\<rparr>"
  let ?q = "Kube (GetResource (app_namespace (inst s)) (app_name (inst s)))"
  show ?thesis
  proof (cases "e_resource env (trace s1) ?q")
    case (Inl e)
    then have "set (trace s') \<subseteq> insert (Runtime LockAppsync, True) (insert (?q, False)
        (insert (Runtime UnlockAppsync, True) (set (trace s))))"
      using assms(1) by (auto simp: update_application_run s1_def Let_def)
    then show ?thesis using assms(2-5) by blast
  next
    case (Inr existing)
    let ?s = "s1\<lparr>trace := (?q, True) # trace s1\<rparr>"
    obtain r1 s2 where u: "upd existing ?s = (r1, s2)" by (cases "upd existing ?s")
    have res: "(r, s') = (r1, s2\<lparr>trace := (Runtime UnlockAppsync, True) # trace s2\<rparr>)"
      using assms(1) Inr u by (simp add: update_application_run s1_def Let_def)
    have "ev \<in> set (trace s2)"
      using res assms(2,5) by auto
    then show ?thesis
      using that [OF Inr u _ _ _ res] by (simp add: s1_def)
  qed
qed

lemma merged_has:
  assumes "merge_annotations (app_annotations x) (app_annotations y) = Ok merged"
  shows "has_annotation (z\<lparr>app_annotations := merged\<rparr>) k \<noteq> None \<longleftrightarrow>
    has_annotation x k \<noteq> None \<or> has_annotation y k \<noteq> None"
proof -
  have put: "map_of (fold (\<lambda>(k, v). gm_put k v) m e) k \<noteq> None \<longleftrightarrow> map_of e k \<noteq> None \<or> map_of m k \<noteq> None"
    for m e :: "string gomap"
    by (induction m arbitrary: e) auto
  show ?thesis
  proof (cases "app_annotations x"; cases "app_annotations y")
    fix e m assume "app_annotations x = Some e" "app_annotations y = Some m"
    then show ?thesis
      using assms put [of m e] by (auto simp: merge_annotations_def has_annotation_def ann_lookup_def)
  qed (use assms in \<open>auto simp: merge_annotations_def has_annotation_def ann_lookup_def split: if_splits\<close>)
qed

lemma merged_value:
  assumes "merge_annotations (app_annotations x) (app_annotations y) = Ok merged"
    and "\<And>m. app_annotations y = Some m \<Longrightarrow> gm_wf m"
  shows "has_annotation (z\<lparr>app_annotations := merged\<rparr>) k =
    (case has_annotation y k of None \<Rightarrow> has_annotation x k | Some v \<Rightarrow> Some v)"
proof -
  have put: "map_of (fold (\<lambda>(k, v). gm_put k v) m e) k = (case map_of m k of None \<Rightarrow> map_of e k | Some v \<Rightarrow> Some v)"
    if "gm_wf m" for m e :: "string gomap"
    using that
  proof (induction m arbitrary: e)
    case (Cons a m)
    then have "map_of m (fst a) = None" "gm_wf m" by (auto simp: gm_wf_def map_of_eq_None_iff)
    then show ?case using Cons.IH by (cases a) (auto split: option.split)
  qed simp
  show ?thesis
  proof (cases "app_annotations x"; cases "app_annotations y")
    fix e m assume "app_annotations x = Some e" "app_annotations y = Some m"
    then show ?thesis
      using assms put [of m e] by (auto simp: merge_annotations_def has_annotation_def ann_lookup_def split: option.split)
  qed (use assms in \<open>auto simp: merge_annotations_def has_annotation_def ann_lookup_def split: if_splits option.split\<close>)
qed

lemma remove_processed_frame: "(remove_processed j i)\<lparr>app_annotations := x\<rparr> = i\<lparr>app_annotations := x\<rparr>"
proof -
  have "(remove_from_annotation key i)\<lparr>app_annotations := x\<rparr> = i\<lparr>app_annotations := x\<rparr>"
    "(remove_annotation key i)\<lparr>app_annotations := x\<rparr> = i\<lparr>app_annotations := x\<rparr>" for key and i :: azure_ad_application
    by (simp_all add: remove_from_annotation_def remove_annotation_def Let_def split: option.split)
  then show ?thesis by (simp add: remove_processed_def Let_def)
qed

definition annotations_wf :: "azure_ad_application \<Rightarrow> bool" where
  "annotations_wf i \<longleftrightarrow> (\<forall>m. app_annotations i = Some m \<longrightarrow> gm_wf m)"

lemma remove_processed_wf: "annotations_wf i \<Longrightarrow> annotations_wf (remove_processed j i)"
proof -
  have "annotations_wf (remove_from_annotation key i)" "annotations_wf (remove_annotation key i)"
    if "annotations_wf i" for key and i :: azure_ad_application
    using that by (auto simp: annotations_wf_def remove_from_annotation_def remove_annotation_def Let_def split: option.split)
  then show "annotations_wf i \<Longrightarrow> annotations_wf (remove_processed j i)"
    by (simp add: remove_processed_def Let_def)
qed

lemma update_annotations_writes:
  assumes "update_annotations env tx s = (r, s')"
    and "(Kube (UpdateResource a), ok) \<in> set (trace s')" "(Kube (UpdateResource a), ok) \<notin> set (trace s)"
  obtains existing merged where
    "e_resource env ((Runtime LockAppsync, True) # trace s)
       (Kube (GetResource (app_namespace (inst s)) (app_name (inst s)))) = Inr existing"
    "merge_annotations (app_annotations (remove_processed (inst s) existing))
       (app_annotations (remove_processed (inst s) (inst s))) = Ok merged"
    "a = (remove_processed (inst s) existing)\<lparr>app_annotations := merged\<rparr>"
proof -
  let ?upd = "\<lambda>existing. bnd instance_of (\<lambda>i.
         let i' = remove_processed i i; existing' = remove_processed i existing in
         bnd (modify (\<lambda>s. s\<lparr>inst := i'\<rparr>)) (\<lambda>_.
         bnd (lift (merge_annotations (app_annotations existing') (app_annotations i'))) (\<lambda>merged.
         call (Kube (UpdateResource (existing'\<lparr>app_annotations := merged\<rparr>))) (e_unit env))))"
  obtain r0 where run: "update_application env ?upd s = (r0, s')"
    using assms(1) unfolding update_annotations_def
    by (cases "update_application env ?upd s") (auto simp: wrap_def)
  obtain existing s1 r1 s2 where u:
    "e_resource env (trace s1) (Kube (GetResource (app_namespace (inst s)) (app_name (inst s)))) = Inr existing"
    "?upd existing (s1\<lparr>trace := (Kube (GetResource (app_namespace (inst s)) (app_name (inst s))), True) # trace s1\<rparr>)
       = (r1, s2)"
    "inst s1 = inst s" "trace s1 = (Runtime LockAppsync, True) # trace s"
    "(Kube (UpdateResource a), ok) \<in> set (trace s2)"
    by (rule update_application_cases [OF run assms(2,3)]) auto
  show ?thesis
  proof (cases "merge_annotations (app_annotations (remove_processed (inst s) existing))
       (app_annotations (remove_processed (inst s) (inst s)))")
    case (Ok merged)
    then have "a = (remove_processed (inst s) existing)\<lparr>app_annotations := merged\<rparr>"
      using u(2-5) assms(3)
      by (auto simp: Let_def bnd_def instance_of_def gets_def modify_def lift_def call_def split: sum.splits)
    then show ?thesis using that [OF _ Ok] u(1,4) by simp
  qed (use u(2-5) assms(3) in \<open>auto simp: Let_def bnd_def instance_of_def gets_def modify_def lift_def\<close>)
qed

text \<open>
  C31: completing a reconciliation writes the newest version of the resource with other annotations
  only. The pending marks are those of the newest version, less the first one if one was processed;
  but when more than one was pending at the start, they are the ones from the start less the first,
  and the marks that arrived during the reconciliation are lost. A request to rotate stays exactly if
  it arrived during the reconciliation, and every other annotation has the value it had at the start,
  or else the one in the newest version.
\<close>

theorem marks_after_completion:
  assumes "update_annotations env tx s = (r, s')"
    and "(Kube (UpdateResource a), ok) \<in> set (trace s')" "(Kube (UpdateResource a), ok) \<notin> set (trace s)"
    and "\<And>m. app_annotations (inst s) = Some m \<Longrightarrow> gm_wf m"
  shows "\<exists>existing ann.
    e_resource env ((Runtime LockAppsync, True) # trace s)
      (Kube (GetResource (app_namespace (inst s)) (app_name (inst s)))) = Inr existing \<and>
    a = existing\<lparr>app_annotations := ann\<rparr> \<and>
    ann_queue a ResynchronizeKey =
      (case ann_queue (inst s) ResynchronizeKey of
         [] \<Rightarrow> ann_queue existing ResynchronizeKey
       | [_] \<Rightarrow> tl (ann_queue existing ResynchronizeKey)
       | _ # rest \<Rightarrow> rest) \<and>
    has_annotation a RotateKey =
      (if has_annotation (inst s) RotateKey = None then has_annotation existing RotateKey else None) \<and>
    (\<forall>k. k \<notin> {ResynchronizeKey, RotateKey} \<longrightarrow>
       has_annotation a k = (case has_annotation (inst s) k of None \<Rightarrow> has_annotation existing k | Some v \<Rightarrow> Some v))"
proof -
  obtain existing merged where w:
    "e_resource env ((Runtime LockAppsync, True) # trace s)
       (Kube (GetResource (app_namespace (inst s)) (app_name (inst s)))) = Inr existing"
    "merge_annotations (app_annotations (remove_processed (inst s) existing))
       (app_annotations (remove_processed (inst s) (inst s))) = Ok merged"
    "a = (remove_processed (inst s) existing)\<lparr>app_annotations := merged\<rparr>"
    by (rule update_annotations_writes [OF assms(1-3)])
  have wf: "gm_wf m'" if "app_annotations (remove_processed (inst s) (inst s)) = Some m'" for m'
    using remove_processed_wf [of "inst s" "inst s"] assms(4) that by (simp add: annotations_wf_def)
  have val: "has_annotation a k = (case has_annotation (remove_processed (inst s) (inst s)) k of
      None \<Rightarrow> has_annotation (remove_processed (inst s) existing) k | Some v \<Rightarrow> Some v)" for k
    unfolding w(3) by (rule merged_value [OF w(2) wf])
  have keys: "ResynchronizeKey \<noteq> RotateKey" "RotateKey \<noteq> ResynchronizeKey"
    by (simp_all add: ResynchronizeKey_def RotateKey_def)
  have marked: "has_resynchronize_annotation (inst s) \<longleftrightarrow> ann_queue (inst s) ResynchronizeKey \<noteq> []"
    by (simp add: has_resynchronize_annotation_def ann_queue_Nil_iff)
  have queue: "ann_queue (remove_processed (inst s) i) ResynchronizeKey =
      (if ann_queue (inst s) ResynchronizeKey = [] then ann_queue i ResynchronizeKey else tl (ann_queue i ResynchronizeKey))" for i
  proof -
    have "ann_queue (remove_annotation RotateKey j) ResynchronizeKey = ann_queue j ResynchronizeKey" for j
      using keys by (simp add: ann_queue_def)
    then show ?thesis by (simp add: remove_processed_def Let_def marked ann_queue_remove)
  qed
  have "ann_queue a ResynchronizeKey =
      (case ann_queue (remove_processed (inst s) (inst s)) ResynchronizeKey of
         [] \<Rightarrow> ann_queue (remove_processed (inst s) existing) ResynchronizeKey | q \<Rightarrow> q)"
    using val [of ResynchronizeKey] ann_queue_Nil_iff [of "remove_processed (inst s) (inst s)" ResynchronizeKey]
    by (auto simp: ann_queue_def split: option.splits list.split)
  then have q: "ann_queue a ResynchronizeKey =
      (case ann_queue (inst s) ResynchronizeKey of
         [] \<Rightarrow> ann_queue existing ResynchronizeKey
       | [_] \<Rightarrow> tl (ann_queue existing ResynchronizeKey)
       | _ # rest \<Rightarrow> rest)"
    unfolding queue by (cases "ann_queue (inst s) ResynchronizeKey" rule: list.exhaust) (auto split: list.splits)
  have rot: "has_annotation a RotateKey =
      (if has_annotation (inst s) RotateKey = None then has_annotation existing RotateKey else None)"
    using val [of RotateKey] keys by (simp add: remove_processed_def Let_def has_rotate_annotation_def split: option.split)
  have other: "has_annotation a k = (case has_annotation (inst s) k of None \<Rightarrow> has_annotation existing k | Some v \<Rightarrow> Some v)"
    if "k \<notin> {ResynchronizeKey, RotateKey}" for k
    using val [of k] that by (simp add: remove_processed_def Let_def split: option.split)
  have "a = existing\<lparr>app_annotations := merged\<rparr>" using w(3) by (simp only: remove_processed_frame)
  then show ?thesis using w(1) q rot other by blast
qed

definition marked_with :: "string \<Rightarrow> azure_ad_application" where
  "marked_with v = plain_app\<lparr>app_annotations := Some [(ResynchronizeKey, v)]\<rparr>"

text \<open>Two marks were pending at the start, and a third one arrived: it is gone afterwards.\<close>

lemma marks_after_completion_witness:
  "\<exists>s' a. update_annotations (quiet_env\<lparr>e_resource := (\<lambda>_ _. Inr (marked_with ''a,b,c''))\<rparr>) plain_tx
       (start_state\<lparr>inst := marked_with ''a,b''\<rparr>) = (Ok (), s') \<and>
     (Kube (UpdateResource a), True) \<in> set (trace s') \<and> ann_queue a ResynchronizeKey = [''b'']"
proof -
  let ?env = "quiet_env\<lparr>e_resource := (\<lambda>_ _. Inr (marked_with ''a,b,c''))\<rparr>"
  let ?s = "start_state\<lparr>inst := marked_with ''a,b''\<rparr>"
  have keys: "ResynchronizeKey \<noteq> RotateKey" "RotateKey \<noteq> ResynchronizeKey"
    by (simp_all add: ResynchronizeKey_def RotateKey_def)
  obtain s' a where run: "update_annotations ?env plain_tx ?s = (Ok (), s')"
    and a: "(Kube (UpdateResource a), True) \<in> set (trace s')"
    by (simp add: runs update_annotations_def call_def notify_def ask_def instance_of_def marked_with_def
        remove_processed_def has_resynchronize_annotation_def has_rotate_annotation_def has_annotation_def
        ann_lookup_def remove_from_annotation_def gm_del_def merge_annotations_def keys cong: eval_congs)
  have new: "(Kube (UpdateResource a), True) \<notin> set (trace ?s)" by (simp add: start_state_def)
  have "ann_queue (inst ?s) ResynchronizeKey = [''a'', ''b'']"
    by (simp add: marked_with_def ann_queue_def has_annotation_def ann_lookup_def)
  moreover have "gm_wf m" if "app_annotations (inst ?s) = Some m" for m
    using that by (auto simp: marked_with_def gm_wf_def)
  ultimately have "ann_queue a ResynchronizeKey = [''b'']"
    using marks_after_completion [OF run a new] by auto
  then show ?thesis using run a by blast
qed

text \<open>
  C37: a mark that repeats the last pending one is lost: when an event marks the resource again
  for the application whose only mark is being processed, completing the reconciliation writes a
  resource without any mark.
\<close>

theorem repeated_mark_is_lost:
  assumes "ann_queue (inst s) ResynchronizeKey = [event_application_string (ev_application e)]"
    and "CHR '','' \<notin> set (event_application_string (ev_application e))"
    and "e_correlation_key env \<noteq> ResynchronizeKey"
    and "\<And>h. e_resource env h (Kube (GetResource (app_namespace (inst s)) (app_name (inst s)))) =
      Inr (mark_for_resync env e (inst s))"
    and "update_annotations env tx s = (r, s')"
    and "(Kube (UpdateResource a), ok) \<in> set (trace s')" "(Kube (UpdateResource a), ok) \<notin> set (trace s)"
  shows "\<not> has_resynchronize_annotation a"
proof -
  let ?new = "mark_for_resync env e (inst s)"
  obtain existing merged where w:
    "e_resource env ((Runtime LockAppsync, True) # trace s)
       (Kube (GetResource (app_namespace (inst s)) (app_name (inst s)))) = Inr existing"
    "merge_annotations (app_annotations (remove_processed (inst s) existing))
       (app_annotations (remove_processed (inst s) (inst s))) = Ok merged"
    "a = (remove_processed (inst s) existing)\<lparr>app_annotations := merged\<rparr>"
    by (rule update_annotations_writes [OF assms(5-7)])
  have "existing = ?new" using w(1) assms(4) by simp
  have q: "ann_queue ?new ResynchronizeKey = [event_application_string (ev_application e)]"
    using mark_queue [OF assms(2,3), where existing = "inst s"] assms(1) by simp
  have keys: "ResynchronizeKey \<noteq> RotateKey" by (simp add: ResynchronizeKey_def RotateKey_def)
  have resync: "has_resynchronize_annotation (inst s)"
    using assms(1) ann_queue_Nil_iff [of "inst s" ResynchronizeKey]
    by (simp add: has_resynchronize_annotation_def)
  have gone: "has_annotation (remove_processed (inst s) i) ResynchronizeKey = None"
    if "ann_queue i ResynchronizeKey = [v]" for i v
  proof -
    have "ann_queue (remove_from_annotation ResynchronizeKey i) ResynchronizeKey = []"
      using that by (simp add: ann_queue_remove)
    then show ?thesis
      using keys resync by (simp add: remove_processed_def Let_def ann_queue_Nil_iff)
  qed
  have "has_annotation a ResynchronizeKey = None"
    using merged_has [OF w(2), of "remove_processed (inst s) existing" ResynchronizeKey]
      gone [OF q] gone [OF assms(1)] \<open>existing = ?new\<close> w(3) by auto
  then show ?thesis by (simp add: has_resynchronize_annotation_def)
qed

lemma repeated_mark_is_lost_witness:
  "\<exists>s' a. update_annotations (quiet_env\<lparr>e_resource := (\<lambda>_ _. Inr (mark_for_resync quiet_env created
         (plain_app\<lparr>app_annotations := Some [(ResynchronizeKey, ''dev:ns:app'')]\<rparr>)))\<rparr>) plain_tx
       (start_state\<lparr>inst := plain_app\<lparr>app_annotations := Some [(ResynchronizeKey, ''dev:ns:app'')]\<rparr>\<rparr>) = (Ok (), s') \<and>
     (Kube (UpdateResource a), True) \<in> set (trace s') \<and> \<not> has_resynchronize_annotation a"
proof -
  let ?i = "plain_app\<lparr>app_annotations := Some [(ResynchronizeKey, ''dev:ns:app'')]\<rparr>"
  let ?env = "quiet_env\<lparr>e_resource := (\<lambda>_ _. Inr (mark_for_resync quiet_env created ?i))\<rparr>"
  have keys: "ResynchronizeKey \<noteq> RotateKey" "RotateKey \<noteq> ResynchronizeKey"
    "''nais.io/deploymentCorrelationID'' \<noteq> RotateKey" "''nais.io/deploymentCorrelationID'' \<noteq> ResynchronizeKey"
    by (simp_all add: ResynchronizeKey_def RotateKey_def)
  have mark: "mark_for_resync ?env created ?i = mark_for_resync quiet_env created ?i"
    by (simp add: mark_for_resync_def)
  have marked: "app_annotations (mark_for_resync quiet_env created ?i) =
      Some [(ResynchronizeKey, ''dev:ns:app''), (''nais.io/deploymentCorrelationID'', ''corr'')]"
    by (simp add: mark_for_resync_def event_application_string_def add_to_annotation_def set_annotation_def has_annotation_def
        ann_lookup_def last_entry_def gm_put_def ResynchronizeKey_def)
  obtain s' a where run: "update_annotations ?env plain_tx (start_state\<lparr>inst := ?i\<rparr>) = (Ok (), s')"
    and a: "(Kube (UpdateResource a), True) \<in> set (trace s')"
    by (simp add: runs update_annotations_def call_def notify_def ask_def instance_of_def marked
        remove_processed_def has_resynchronize_annotation_def has_rotate_annotation_def has_annotation_def
        ann_lookup_def remove_from_annotation_def gm_del_def merge_annotations_def keys cong: eval_congs)
  have "\<not> has_resynchronize_annotation a"
    by (rule repeated_mark_is_lost [OF _ _ _ _ run a, of created])
       (simp_all add: event_application_string_def mark ann_queue_def has_annotation_def ann_lookup_def,
        simp add: ResynchronizeKey_def)
  then show ?thesis using run a by blast
qed

end
