(* ===== verification/SecretsProperties.thy ===== *)
theory SecretsProperties
  imports ReconcileSafety Scenario
begin

text \<open>
  The secrets of an application over reconciliations: what is written is what the next
  reconciliation reads, and the clean-up only takes secrets that are unused and not the one named
  in the resource.
\<close>

subsection \<open>Writing the secret\<close>

lemma create_or_update_writes:
  assumes "create_or_update_object env o0 mutate s = (Ok (), s')"
  obtains (created) e w where
      "e_secret env (trace s) (Kube (GetSecret (sec_namespace o0) (sec_name o0))) = Inl e"
      "mutate o0 = Ok w"
      "trace s' = (Kube (CreateSecret w), True) # (Kube (GetSecret (sec_namespace o0) (sec_name o0)), False) # trace s"
  | (updated) x w where
      "e_secret env (trace s) (Kube (GetSecret (sec_namespace o0) (sec_name o0))) = Inr x"
      "mutate x = Ok w"
      "trace s' = (Kube (UpdateSecret w), True) # (Kube (GetSecret (sec_namespace o0) (sec_name o0)), True) # trace s"
  | (unchanged) x where
      "e_secret env (trace s) (Kube (GetSecret (sec_namespace o0) (sec_name o0))) = Inr x"
      "mutate x = Ok x"
proof (cases "e_secret env (trace s) (Kube (GetSecret (sec_namespace o0) (sec_name o0)))")
  case (Inl e)
  then have "attempt (call (Kube (GetSecret (sec_namespace o0) (sec_name o0))) (e_secret env)) s =
      (Ok (Inl e), s\<lparr>trace := (Kube (GetSecret (sec_namespace o0) (sec_name o0)), False) # trace s\<rparr>)"
    by (simp add: attempt_def call_def)
  then show ?thesis
    using assms created [OF Inl]
    by (auto simp: create_or_update_object_def bnd_run_Ok bnd_Ok_iff call_Ok_iff split: if_splits)
next
  case (Inr x)
  then have a: "attempt (call (Kube (GetSecret (sec_namespace o0) (sec_name o0))) (e_secret env)) s =
      (Ok (Inr x), s\<lparr>trace := (Kube (GetSecret (sec_namespace o0) (sec_name o0)), True) # trace s\<rparr>)"
    by (simp add: attempt_def call_def)
  then obtain w where w: "mutate x = Ok w"
    using assms by (auto simp: create_or_update_object_def bnd_run_Ok bnd_Ok_iff)
  show ?thesis
  proof (cases "w = x")
    case True
    then show ?thesis using unchanged [OF Inr] w by simp
  next
    case False
    then show ?thesis
      using assms updated [OF Inr w] a w
      by (auto simp: create_or_update_object_def bnd_run_Ok bnd_Ok_iff call_Ok_iff)
  qed
qed

fun writes_secret :: "event \<Rightarrow> secret \<Rightarrow> bool" where
  "writes_secret (Kube (CreateSecret w), ok) v = (ok \<and> w = v)"
| "writes_secret (Kube (UpdateSecret w), ok) v = (ok \<and> w = v)"
| "writes_secret e v = False"

text \<open>What the API server stores of a secret: the entries of \<open>stringData\<close> over those of \<open>data\<close>.\<close>

definition stores :: "secret \<Rightarrow> secret \<Rightarrow> bool" where
  "stores w st \<longleftrightarrow> sec_name st = sec_name w \<and>
     map_of (sec_data st) = map_of (sec_data w) ++ map_of (sec_string_data w)"

text \<open>
  C20: when \<open>createOrUpdate\<close> succeeds, its last request writes a secret with the name in the
  resource from which the next \<open>Prepare\<close> reads back the credentials: however the secret lists are
  made, if the first secret of that name is what the API server stores of the write, the previous
  credential set is the one written. The owner reference changes nothing but the owner, and the
  API server returns no \<open>stringData\<close>.
\<close>

theorem written_secret_is_read_back:
  fixes env :: env and s s' :: state
  defines "name \<equiv> spec_secret_name (app_spec (inst s))"
  assumes "secrets_create_or_update env tx res cs s = (Ok (), s')"
    and "txs_data_keys (tx_secrets tx) = new_secret_data_keys ps" and "name \<noteq> []"
    and "\<And>i x y. e_set_owner env i x = Inr y \<Longrightarrow>
      sec_name y = sec_name x \<and> sec_data y = sec_data x \<and> sec_string_data y = sec_string_data x"
    and "\<And>h ns x. e_secret env h (Kube (GetSecret ns name)) = Inr x \<Longrightarrow> sec_name x = name \<and> sec_string_data x = []"
    and "\<And>cr t. cr \<in> {set_current cs, set_next cs} \<Longrightarrow>
      enc_jwk (e_codec env) (jwk_private (cert_jwk (cr_certificate cr))) = Inr t \<Longrightarrow>
      t \<noteq> [] \<and> dec_jwk (e_codec env) t = Inr (jwk_private (cert_jwk (cr_certificate cr)))"
    and "\<And>cr. cr \<in> {set_current cs, set_next cs} \<Longrightarrow>
      from_jwk (e_codec env) (jwk_private (cert_jwk (cr_certificate cr))) = Ok (cert_jwk (cr_certificate cr)) \<and>
      cert_key_id (cr_certificate cr) \<noteq> [] \<and> pw_key_id (cr_password cr) \<noteq> [] \<and>
      pw_client_secret (cr_password cr) \<noteq> []"
  shows "\<exists>w. writes_secret (hd (trace s')) w \<and> sec_name w = name \<and>
    (\<forall>st l. stores w st \<longrightarrow> find (\<lambda>x. sec_name x = name) (sl_unused l @ sl_used l) = Some st \<longrightarrow>
       get_previous_credentials_set (e_codec env) l (new_secret_data_keys ps) name = Ok (Some cs))"
proof -
  obtain data s1 where d: "secret_data (e_codec env) res cs (e_openid env) (new_secret_data_keys ps) = Ok data"
    and run: "create_or_update_object env (new_secret (inst s)) (mutate_secret env (inst s) data) s = (Ok (), s')"
    using assms(2,3) by (auto simp: secrets_create_or_update_def bnd_Ok_iff ids_iff)
  have m: "sec_name w = sec_name x \<and> sec_string_data w = data" if "mutate_secret env (inst s) data x = Ok w" for x w
    using that assms(5) [of "inst s" "x\<lparr>sec_string_data := data\<rparr>" w] by (simp add: mutate_secret_def)
  have nonempty: "data \<noteq> []"
  proof -
    obtain jwk next_jwk jwks apps where
      "map_of data = map_of (secret_entries res cs (e_openid env) (new_secret_data_keys ps) jwk next_jwk jwks apps)"
      using secret_data_content [OF d] .
    then have "map_of data (sdk_client_id (new_secret_data_keys ps)) = Some (ares_client_id res)"
      by (simp add: secret_entries_def)
    then show ?thesis by auto
  qed
  have "\<exists>w. writes_secret (hd (trace s')) w \<and> sec_name w = name \<and> sec_string_data w = data"
    using run
  proof (cases rule: create_or_update_writes)
    case (created e w)
    then show ?thesis using m by (auto simp: new_secret_def name_def)
  next
    case (updated x w)
    then show ?thesis using m assms(6) by (auto simp: new_secret_def name_def)
  next
    case (unchanged x)
    then show ?thesis using m [of x x] assms(6) nonempty by (auto simp: new_secret_def name_def)
  qed
  then obtain w where w: "writes_secret (hd (trace s')) w" "sec_name w = name" "sec_string_data w = data" by blast
  have "extract_credentials_set (e_codec env) st (new_secret_data_keys ps) = Ok (Some cs)" if "stores w st" for st
    by (rule secret_data_readable [OF d assms(7,8)]) (use that w(3) in \<open>auto simp: stores_def map_add_def\<close>)
  then show ?thesis
    using w(1,2) assms(4) by (auto simp: get_previous_credentials_set_def)
qed

lemma sample_set_codes:
  "cr \<in> {set_current sample_set, set_next sample_set} \<Longrightarrow>
     enc_jwk quiet_codec (jwk_private (cert_jwk (cr_certificate cr))) = Inr t \<Longrightarrow>
     t \<noteq> [] \<and> dec_jwk quiet_codec t = Inr (jwk_private (cert_jwk (cr_certificate cr)))"
  "cr \<in> {set_current sample_set, set_next sample_set} \<Longrightarrow>
     from_jwk quiet_codec (jwk_private (cert_jwk (cr_certificate cr))) = Ok (cert_jwk (cr_certificate cr)) \<and>
     cert_key_id (cr_certificate cr) \<noteq> [] \<and> pw_key_id (cr_password cr) \<noteq> [] \<and>
     pw_client_secret (cr_password cr) \<noteq> []"
  by (auto simp: quiet_codec_def sample_set_def sample_credentials_def sample_key_def from_jwk_def)

lemma spec_of_plain: "spec_secret_name (app_spec plain_app) = ''azure-secret''"
  by simp

lemma written_secret_is_read_back_witness:
  "\<exists>s' w. secrets_create_or_update quiet_env plain_tx sample_result sample_set start_state = (Ok (), s') \<and>
     writes_secret (hd (trace s')) w \<and>
     get_previous_credentials_set quiet_codec
       \<lparr>sl_used = [], sl_unused = [w\<lparr>sec_data := sec_string_data w @ sec_data w\<rparr>]\<rparr>
       (new_secret_data_keys [[]]) ''azure-secret'' = Ok (Some sample_set)"
proof -
  let ?run = "secrets_create_or_update quiet_env plain_tx sample_result sample_set start_state"
  have "\<exists>s'. ?run = (Ok (), s')"
    by (simp add: runs secret_data_def quiet_codec_def out_of_sum_def mutate_secret_def new_secret_def
        not_found_def cong: eval_congs)
  then obtain s' where run: "?run = (Ok (), s')" by blast
  have "\<exists>w. writes_secret (hd (trace s')) w \<and> sec_name w = ''azure-secret'' \<and>
    (\<forall>st l. stores w st \<longrightarrow> find (\<lambda>x. sec_name x = ''azure-secret'') (sl_unused l @ sl_used l) = Some st \<longrightarrow>
       get_previous_credentials_set (e_codec quiet_env) l (new_secret_data_keys [[]]) ''azure-secret'' = Ok (Some sample_set))"
    by (rule written_secret_is_read_back [OF run, of "[[]]", unfolded start_state_simps spec_of_plain])
       (auto simp: sample_set_codes not_found_def)
  then obtain w where w: "writes_secret (hd (trace s')) w" "sec_name w = ''azure-secret''"
    and rd: "\<And>st l. stores w st \<Longrightarrow> find (\<lambda>x. sec_name x = ''azure-secret'') (sl_unused l @ sl_used l) = Some st \<Longrightarrow>
       get_previous_credentials_set (e_codec quiet_env) l (new_secret_data_keys [[]]) ''azure-secret'' = Ok (Some sample_set)"
    by blast
  have "stores w (w\<lparr>sec_data := sec_string_data w @ sec_data w\<rparr>)" by (simp add: stores_def)
  then show ?thesis
    using run w rd [of "w\<lparr>sec_data := sec_string_data w @ sec_data w\<rparr>"
      "\<lparr>sl_used = [], sl_unused = [w\<lparr>sec_data := sec_string_data w @ sec_data w\<rparr>]\<rparr>"] by auto
qed

subsection \<open>Deleting unused secrets\<close>

text \<open>The clean-up itself: when it succeeds it deletes exactly the unused secrets but the current one.\<close>

lemma secrets_delete_unused_Ok:
  assumes "secrets_delete_unused env tx s = (Ok (), s')"
  shows "inst s' = inst s \<and> trace s' = rev (map (\<lambda>x. (Kube (DeleteSecret x), True))
      (filter (\<lambda>x. sec_name x \<noteq> spec_secret_name (app_spec (inst s))) (sl_unused (txs_managed (tx_secrets tx))))) @ trace s"
proof -
  define m where "m x = bnd instance_of (\<lambda>i. if sec_name x = spec_secret_name (app_spec i) then ret ()
    else wrap ''deleting unused secret'' (call (Kube (DeleteSecret x)) (e_unit env)))" for x
  have one: "inst s1 = inst s \<and> trace s1 = (if sec_name x = spec_secret_name (app_spec (inst s)) then []
      else [(Kube (DeleteSecret x), True)]) @ trace s" if "m x s = (Ok (), s1)" for x s s1
    using that by (auto simp: m_def bnd_Ok_iff run_simps split: if_splits)
  have "inst s' = inst s \<and> trace s' = rev (map (\<lambda>x. (Kube (DeleteSecret x), True))
      (filter (\<lambda>x. sec_name x \<noteq> spec_secret_name (app_spec (inst s))) xs)) @ trace s"
    if "for_each m xs s = (Ok (), s')" for xs
    using that
  proof (induction xs arbitrary: s)
    case (Cons x xs)
    then obtain s1 where "m x s = (Ok (), s1)" "for_each m xs s1 = (Ok (), s')"
      by (auto simp: bnd_Ok_iff)
    then show ?case using one [of x s s1] Cons.IH [of s1] by simp
  qed simp
  then show ?thesis using assms unfolding secrets_delete_unused_def m_def [symmetric] by simp
qed

text \<open>Whatever its outcome, it deletes nothing else.\<close>

definition drop_rel :: "secret list \<Rightarrow> state \<Rightarrow> state \<Rightarrow> bool" where
  "drop_rel xs s s' \<longleftrightarrow> app_spec (inst s') = app_spec (inst s) \<and>
     emits_rel (\<lambda>e. \<exists>x ok. e = (Kube (DeleteSecret x), ok) \<and> x \<in> set xs \<and>
       sec_name x \<noteq> spec_secret_name (app_spec (inst s))) s s'"

interpretation drop: step_relation "drop_rel xs" for xs
proof
  show "drop_rel xs s s" for s by (simp add: drop_rel_def emits.refl)
  show "drop_rel xs s s' \<Longrightarrow> drop_rel xs s' s'' \<Longrightarrow> drop_rel xs s s''" for s s' s''
    by (auto simp: drop_rel_def intro: emits.trans)
qed

lemma secrets_delete_unused_drops:
  "moves (drop_rel (sl_unused (txs_managed (tx_secrets tx)))) (secrets_delete_unused env tx)"
  unfolding secrets_delete_unused_def
proof (rule drop.for_each)
  fix x assume x: "x \<in> set (sl_unused (txs_managed (tx_secrets tx)))"
  show "moves (drop_rel (sl_unused (txs_managed (tx_secrets tx)))) (bnd instance_of (\<lambda>i.
      if sec_name x = spec_secret_name (app_spec i) then ret ()
      else wrap ''deleting unused secret'' (call (Kube (DeleteSecret x)) (e_unit env))))"
    by (rule movesI)
       (use x in \<open>auto simp: bnd_def instance_of_def gets_def ret_def wrap_def call_def drop_rel_def emits_rel_def
          split: if_splits prod.splits sum.splits\<close>)
qed

subsection \<open>Reconciliations and secrets\<close>

lemma keeps_secrets:
  "ordinary e \<Longrightarrow> \<not> drops e" "updates_resource e \<Longrightarrow> \<not> drops e" "adds e \<Longrightarrow> \<not> drops e" "deletes e \<Longrightarrow> \<not> drops e"
  by (simp add: ordinary_iff) (cases e rule: drops.cases; auto)+

lemma keep_ordinary: "emits ordinary m \<Longrightarrow> emits (\<lambda>e. \<not> drops e) m"
  by (erule of_ordinary) (rule keeps_secrets)

lemmas azure_credentials_keep = azure_credentials_ordinary [THEN keep_ordinary]
lemmas prepare_keeps = prepare_ordinary [THEN keep_ordinary]
lemmas handle_error_keeps = handle_error_ordinary [THEN keep_ordinary]

lemma prepare_keeps_secrets:
  "prepare env namespace name s = (r, s1) \<Longrightarrow> (Kube (DeleteSecret x), ok) \<notin> set (trace s) \<Longrightarrow>
     (Kube (DeleteSecret x), ok) \<notin> set (trace s1)"
  using emits_new [OF prepare_keeps, of env namespace name s r s1 "(Kube (DeleteSecret x), ok)"] by auto

lemma parts_keep:
  "emits (\<lambda>e. \<not> drops e) (azure_process_orphaned env tx)"
  "emits (\<lambda>e. \<not> drops e) (finalizer_process env tx)"
  "emits (\<lambda>e. \<not> drops e) (controller_process env tx)"
  "emits (\<lambda>e. \<not> drops e) (complete env tx)"
  by (rule emits_mono [OF orphaned_deleting] emits_mono [OF finalizer_process_class]
        emits_mono [OF controller_process_registering] emits_mono [OF complete_updating];
      use keeps_secrets in blast)+

text \<open>A request that only the continuation of a step sends.\<close>

lemma step_trace_later:
  assumes "step env tx m k s = (r, s')" "e \<in> set (trace s')" "e \<notin> set (trace s)" "Q e"
    and "emits (\<lambda>e. \<not> Q e) m" "\<And>e'. emits (\<lambda>e. \<not> Q e) (handle_error env tx e')"
  obtains x s1 where "m s = (Ok x, s1)" "k x s1 = (r, s')" "e \<notin> set (trace s1)"
proof -
  obtain r1 s1 where m: "m s = (r1, s1)" by (cases "m s")
  then have new: "e \<notin> set (trace s1)" using emits_new [OF assms(5) m, of e] assms(3,4) by blast
  show ?thesis
  proof (cases r1)
    case (Ok x)
    then show ?thesis using that [of x s1] m new assms(1) by (simp add: step_def attempt_def bnd_def)
  next
    case (Err e')
    then have "handle_error env tx e' s1 = (r, s')" using m assms(1) by (simp add: step_def attempt_def bnd_def)
    then show ?thesis using emits_new [OF assms(6) _ assms(2)] new assms(4) by blast
  next
    case Panic
    then show ?thesis using m assms(1,2) new by (simp add: step_def attempt_def bnd_def)
  qed
qed

text \<open>The secrets a transaction manages are those listed for the resource fetched first.\<close>

lemma prepare_managed:
  assumes "prepare env namespace name s = (Ok tx, s1)"
  obtains i0 :: azure_ad_application and h where
    "e_resource env (trace s) (Kube (GetResource namespace name)) = Inr i0"
    "app_spec (inst s1) = app_spec i0"
    "e_secret_lists env h (Kube (ListSecrets (app_namespace i0) (app_name i0) (resource_labels i0)))
       = Inr (txs_managed (tx_secrets tx))"
proof -
  from prepare_Ok [OF assms] obtain i0 :: azure_ad_application where
    i0: "e_resource env (trace s) (Kube (GetResource namespace name)) = Inr i0"
    and frame: "frame_rel (s\<lparr>inst := i0\<rparr>) s1" .
  obtain cid sa sb sc secrets where
    sa: "get_or_generate_correlation_id env
       (s\<lparr>trace := (Kube (GetResource namespace name), True) # trace s, inst := i0\<rparr>) = (Ok cid, sa)"
    and sb: "set_status (\<lambda>st. st\<lparr>status_correlation_id := cid\<rparr>) sa = (Ok (), sb)"
    and sc: "secrets_prepare env sb = (Ok secrets, sc)"
    and tx: "tx_secrets tx = secrets"
    using assms i0 unfolding prepare_def
    by (auto simp: bnd_Ok_iff call_Ok_iff ids_iff now_iff set_status_iff Let_def)
  have "frame_rel (s\<lparr>inst := i0\<rparr>) sa"
    using movesD [OF correlation_id_same sa] by (simp add: frame_rel_def same_inst_def)
  then have "frame_rel (s\<lparr>inst := i0\<rparr>) sb"
    using movesD [OF frame_set_status sb] by (rule frame.trans)
  then have "app_namespace (inst sb) = app_namespace i0" "app_name (inst sb) = app_name i0"
    "resource_labels (inst sb) = resource_labels i0"
    by (simp_all add: frame_rel_def resource_labels_def)
  moreover have "e_secret_lists env (trace sb) (Kube (ListSecrets (app_namespace (inst sb)) (app_name (inst sb))
      (resource_labels (inst sb)))) = Inr (txs_managed secrets)"
    using sc unfolding secrets_prepare_def get_managed_secrets_def Let_def
    by (auto simp: bnd_Ok_iff call_Ok_iff ids_iff set_status_iff)
  ultimately show ?thesis using that [OF i0 _ , of "trace sb"] frame tx by (simp add: frame_rel_def)
qed

lemma azure_credentials_same:
  "moves same_inst (azure_delete_expired_credentials env tx)"
  "moves same_inst (azure_validate_credentials env tx)"
  unfolding azure_delete_expired_credentials_def azure_validate_credentials_def
  by (auto intro!: same_inst_intros credentials_same)

lemma reconcile_credentials_drops:
  assumes "reconcile_credentials env tx s = (r, s')" "e \<in> set (trace s')" "e \<notin> set (trace s)" "drops e"
  obtains x ok where "e = (Kube (DeleteSecret x), ok)" "x \<in> set (sl_unused (txs_managed (tx_secrets tx)))"
    "sec_name x \<noteq> spec_secret_name (app_spec (inst s))"
proof -
  note keep = handle_error_keeps azure_credentials_keep parts_keep
  obtain a s1 where s1: "azure_delete_expired_credentials env tx s = (Ok a, s1)" and run1:
    "step env tx (azure_validate_credentials env tx) (\<lambda>valid.
     let tx = (if valid then tx else with_invalid_credentials tx) in
     step env tx (secrets_delete_unused env tx) (\<lambda>_.
     step env tx
       (if opt_secret_cleanup (secret_opts tx) \<and> opt_secret_valid (secret_opts tx)
        then azure_delete_unused_credentials env tx else ret ()) (\<lambda>_.
     if \<not> opt_synchronize (opt_process (tx_options tx)) then ret (idle_result env)
     else step env tx (controller_process env tx) (\<lambda>_. complete env tx)))) s1 = (r, s')" "e \<notin> set (trace s1)"
    by (rule step_trace_later [where Q = drops, OF assms(1) [unfolded reconcile_credentials_def] assms(2-4) keep(2,1)])
  obtain valid s2 where s2: "azure_validate_credentials env tx s1 = (Ok valid, s2)" and run2:
    "(let tx = (if valid then tx else with_invalid_credentials tx) in
     step env tx (secrets_delete_unused env tx) (\<lambda>_.
     step env tx
       (if opt_secret_cleanup (secret_opts tx) \<and> opt_secret_valid (secret_opts tx)
        then azure_delete_unused_credentials env tx else ret ()) (\<lambda>_.
     if \<not> opt_synchronize (opt_process (tx_options tx)) then ret (idle_result env)
     else step env tx (controller_process env tx) (\<lambda>_. complete env tx)))) s2 = (r, s')" "e \<notin> set (trace s2)"
    by (rule step_trace_later [where Q = drops, OF run1(1) assms(2) run1(2) assms(4) keep(5,1)])
  define tx2 where "tx2 = (if valid then tx else with_invalid_credentials tx)"
  have "e \<in> set (trace (snd (secrets_delete_unused env tx2 s2)))"
    by (rule step_trace_first [where Q = drops, OF run2(1) [folded tx2_def, unfolded Let_def] assms(2,4)])
       (auto intro!: keep emits_intros step_emits)
  moreover have "inst s2 = inst s" "tx_secrets tx2 = tx_secrets tx"
    using movesD [OF azure_credentials_same(1) s1] movesD [OF azure_credentials_same(2) s2]
    by (simp_all add: same_inst_def tx2_def)
  moreover have "drop_rel (sl_unused (txs_managed (tx_secrets tx2))) s2 (snd (secrets_delete_unused env tx2 s2))"
    using secrets_delete_unused_drops by (simp add: moves_def)
  ultimately have "\<exists>x ok. e = (Kube (DeleteSecret x), ok) \<and> x \<in> set (sl_unused (txs_managed (tx_secrets tx))) \<and>
      sec_name x \<noteq> spec_secret_name (app_spec (inst s))"
    using run2(2) by (auto simp: drop_rel_def emits_rel_def)
  then show ?thesis using that by blast
qed

text \<open>
  C21: a reconciliation deletes a secret only when the listing for the resource reported it as
  unused, its name is not the one in the spec of the resource, the resource is addressed to this
  tenant, carries the finalizer and is not being deleted.
\<close>

theorem only_unused_secrets_deleted:
  assumes "reconcile env namespace name s = (r, s')"
    and "(Kube (DeleteSecret x), ok) \<in> set (trace s')" "(Kube (DeleteSecret x), ok) \<notin> set (trace s)"
  shows "\<exists>i0 h l. e_resource env (trace s) (Kube (GetResource namespace name)) = Inr i0 \<and>
    e_secret_lists env h (Kube (ListSecrets (app_namespace i0) (app_name i0) (resource_labels i0))) = Inr l \<and>
    x \<in> set (sl_unused l) \<and> sec_name x \<noteq> spec_secret_name (app_spec i0) \<and>
    \<not> tenant_ignore i0 (e_config env) \<and> contains_finalizer i0 FinalizerName \<and> app_deletion_timestamp i0 = None"
  using assms(1)
proof (cases rule: reconcile_cases)
  case unprepared
  then show ?thesis
    using prepare_keeps_secrets [of env namespace name s "fst (prepare env namespace name s)" s' x ok] assms(2,3)
    by simp
next
  case (ignored tx s1)
  have "(Kube (DeleteSecret x), ok) \<notin> set (trace s1)"
    by (rule prepare_keeps_secrets [OF ignored(1) assms(3)])
  moreover have none: "emits (\<lambda>e. \<not> drops e) (step env tx (wrap ''processing orphaned resources''
      (azure_process_orphaned env tx)) (\<lambda>_. ret no_requeue))"
    by (intro step_emits emits.wrap emits.ret parts_keep handle_error_keeps)
  ultimately show ?thesis using emits_new [OF none ignored(3) assms(2)] by auto
next
  case (addressed tx s1)
  have new: "(Kube (DeleteSecret x), ok) \<notin> set (trace s1)"
    by (rule prepare_keeps_secrets [OF addressed(1) assms(3)])
  obtain processed s2 where s2: "finalizer_process env tx s1 = (Ok processed, s2)"
    "(if processed then ret no_requeue else reconcile_credentials env tx) s2 = (r, s')"
    "(Kube (DeleteSecret x), ok) \<notin> set (trace s2)"
    by (rule step_trace_later [where Q = drops, OF addressed(3) assms(2) new _ parts_keep(2) handle_error_keeps])
       simp
  have "\<not> processed" using s2(2,3) assms(2) by auto
  then have fin: "finalizer_process env tx s1 = (Ok False, s1)" and run: "reconcile_credentials env tx s1 = (r, s')"
    using s2 finalizer_declines(1) [of env tx s1 s2] by auto
  from reconcile_credentials_drops [OF run assms(2) new] have
    x: "x \<in> set (sl_unused (txs_managed (tx_secrets tx)))" "sec_name x \<noteq> spec_secret_name (app_spec (inst s1))"
    by auto
  from prepare_Ok [OF addressed(1)] obtain i0 :: azure_ad_application where
    i0: "e_resource env (trace s) (Kube (GetResource namespace name)) = Inr i0"
    "frame_rel (s\<lparr>inst := i0\<rparr>) s1" "opt_tenant_ignore (tx_options tx) = tenant_ignore i0 (e_config env)" .
  from prepare_managed [OF addressed(1)] obtain i1 :: azure_ad_application and h where i1:
    "e_resource env (trace s) (Kube (GetResource namespace name)) = Inr i1"
    "e_secret_lists env h (Kube (ListSecrets (app_namespace i1) (app_name i1) (resource_labels i1)))
       = Inr (txs_managed (tx_secrets tx))" .
  then have "e_secret_lists env h (Kube (ListSecrets (app_namespace i0) (app_name i0) (resource_labels i0)))
       = Inr (txs_managed (tx_secrets tx))"
    using i0(1) by simp
  then show ?thesis
    using i0 x addressed(2) finalizer_declines(2,3) [OF fin]
    by (intro exI [of _ i0] exI [of _ h] exI [of _ "txs_managed (tx_secrets tx)"])
       (simp add: frame_rel_def contains_finalizer_def)
qed

text \<open>A world with two unused secrets, one of them the current one, in which deletions fail.\<close>

definition cluttered_env :: env where
  "cluttered_env = quiet_env
     \<lparr>e_secret_lists := (\<lambda>_ _. Inr \<lparr>sl_used = [], sl_unused = [plain_secret, plain_secret\<lparr>sec_name := ''old''\<rparr>]\<rparr>),
      e_unit := (\<lambda>_ _. Inl not_found)\<rparr>"

lemma only_unused_secrets_deleted_witness:
  "(Kube (DeleteSecret (plain_secret\<lparr>sec_name := ''old''\<rparr>)), False)
     \<in> set (trace (snd (reconcile cluttered_env ''ns'' ''app'' start_state))) \<and>
   (\<exists>i0. e_resource cluttered_env [] (Kube (GetResource ''ns'' ''app'')) = Inr i0 \<and>
     ''old'' \<noteq> spec_secret_name (app_spec i0) \<and> app_deletion_timestamp i0 = None)"
proof -
  let ?run = "reconcile cluttered_env ''ns'' ''app'' start_state"
  have e: "(Kube (DeleteSecret (plain_secret\<lparr>sec_name := ''old''\<rparr>)), False) \<in> set (trace (snd ?run))"
    by (simp add: runs reconcile_evals cluttered_env_def with_invalid_credentials_def data_at_def append_if_non_empty_def not_found_def
        cong: eval_congs)
  then show ?thesis
    using only_unused_secrets_deleted [of cluttered_env "''ns''" "''app''" start_state "fst ?run" "snd ?run"
        "plain_secret\<lparr>sec_name := ''old''\<rparr>" False]
    by auto
qed

end
