(* ===== verification/RequestBounds.thy ===== *)
theory RequestBounds
  imports ReconcileSafety Scenario
begin

text \<open>
  How often a program sends a kind of request: the bounds follow the structure of a program, with one
  rule per control structure.
\<close>

definition count :: "(event \<Rightarrow> bool) \<Rightarrow> state \<Rightarrow> nat" where
  "count P s = length (filter P (trace s))"

definition sends :: "(event \<Rightarrow> bool) \<Rightarrow> nat \<Rightarrow> 'a prog \<Rightarrow> bool" where
  "sends P k m \<longleftrightarrow> (\<forall>s. count P (snd (m s)) \<le> count P s + k)"

lemma sendsI: "(\<And>s r s'. m s = (r, s') \<Longrightarrow> count P s' \<le> count P s + k) \<Longrightarrow> sends P k m"
  unfolding sends_def by (metis prod.collapse)

lemma sendsD: "sends P k m \<Longrightarrow> m s = (r, s') \<Longrightarrow> count P s' \<le> count P s + k"
  unfolding sends_def by (metis snd_conv)

lemma sends_mono: "sends P k m \<Longrightarrow> k \<le> k' \<Longrightarrow> sends P k' m"
  unfolding sends_def by (meson add_left_mono le_trans)

text \<open>A program that never sends a request of the class.\<close>

lemma sends_none: "emits (\<lambda>e. \<not> P e) m \<Longrightarrow> sends P 0 m"
proof (rule sendsI)
  fix s r s'
  assume "emits (\<lambda>e. \<not> P e) m" "m s = (r, s')"
  from movesD [OF this] show "count P s' \<le> count P s + 0"
    by (auto simp: emits_rel_def count_def filter_empty_conv)
qed

lemma sends_any: "emits (\<lambda>e. \<not> P e) m \<Longrightarrow> sends P k m"
  by (rule sends_mono [OF sends_none]) simp_all

lemma sends_call: "sends P 1 (call req reply)"
  by (rule sendsI) (auto simp: count_def call_def split: sum.splits)

lemma sends_bnd:
  assumes "sends P j m" "\<And>x. sends P k (f x)"
  shows "sends P (j + k) (bnd m f)"
proof (rule sendsI)
  fix s r s'
  assume run: "bnd m f s = (r, s')"
  show "count P s' \<le> count P s + (j + k)"
  proof (cases rule: bnd_cases [of m s f])
    case (Ok x s1)
    then show ?thesis
      using run sendsD [OF assms(1) Ok(1)] sendsD [OF assms(2), of x s1 r s'] by simp
  qed (use run sendsD [OF assms(1)] in fastforce)+
qed

lemma sends_bnd_last: "sends P 0 m \<Longrightarrow> (\<And>x. sends P k (f x)) \<Longrightarrow> sends P k (bnd m f)"
  using sends_bnd [of P 0 m k f] by simp

lemma sends_bnd_first: "sends P k m \<Longrightarrow> (\<And>x. sends P 0 (f x)) \<Longrightarrow> sends P k (bnd m f)"
  using sends_bnd [of P k m 0 f] by simp

lemma sends_wrap: "sends P k m \<Longrightarrow> sends P k (wrap msg m)"
  by (rule sendsI) (auto simp: wrap_def split: prod.splits dest: sendsD)

lemma sends_attempt: "sends P k m \<Longrightarrow> sends P k (attempt m)"
  by (rule sendsI) (auto simp: attempt_def split: prod.splits outcome.splits dest: sendsD)

subsection \<open>Registrations and deletions\<close>

lemma sends_of_routine: "emits routine m \<Longrightarrow> sends adds 0 m" "emits routine m \<Longrightarrow> sends deletes 0 m"
  by (rule sends_none, erule emits_mono, simp)+

lemma sends_if: "sends P k m \<Longrightarrow> sends P k m' \<Longrightarrow> sends P k (if b then m else m')"
  by simp

lemma client_create_registers_once: "sends adds 1 (client_create env tx)"
proof -
  have reg: "sends adds 1 (application_register env tx)"
    unfolding application_register_def Let_def
    by (intro sends_bnd_last sends_wrap sends_call) (rule sends_none, auto intro!: emits_intros)+
  have up: "emits routine (update_with_application_ids app)" "emits routine (update_with_service_principal_id sp)" for app sp
    unfolding update_with_application_ids_def update_with_service_principal_id_def by (auto intro!: emits_intros)
  have uri: "emits routine (identifier_uri_set env tx uris)" for uris
    unfolding identifier_uri_set_def by (auto intro!: emits_intros application_patch_emits)
  show ?thesis
    unfolding client_create_def Let_def
    by (rule sends_bnd_first [OF sends_wrap [OF reg]], rule sends_of_routine)
       (auto intro!: emits_intros up uri do_retry_emits routine_of_maintains [OF sp_register_emits]
         routine_of_maintains [OF client_process_emits])
qed

lemma azure_delete_once: "sends deletes 1 (azure_delete env tx)"
proof -
  have "sends deletes 1 (client_delete env tx)"
    unfolding client_delete_def
  proof (rule sends_bnd_last)
    show "sends deletes 0 (client_exists env tx)"
      unfolding client_exists_def by (rule sends_of_routine, rule routine_of_reads, rule application_get_reads(4))
    have "sends deletes 1 (application_delete env tx)"
      unfolding application_delete_def
      by (intro sends_bnd_last sends_wrap sends_call) (rule sends_none, auto intro!: emits_intros)+
    then show "sends deletes 1 (if found \<noteq> None then application_delete env tx
        else fail (Cause (Opaque ''application does not exist'')))" for found
      by (auto intro!: sends_any emits_intros)
  qed
  then show ?thesis
    unfolding azure_delete_def by (intro sends_if sends_wrap sends_any [OF emits.ret])
qed

lemma finalizer_deletes_once: "sends deletes 1 (finalizer_process env tx)"
proof -
  have later: "emits (\<lambda>e. \<not> deletes e) (wrap ''failed to remove finalizer from list''
       (update_application env (\<lambda>existing.
         call (Kube (UpdateResource
           (remove_finalizer FinalizerOldName (remove_finalizer FinalizerName existing)))) (e_unit env))))"
    by (auto intro!: emits_intros update_application_emits)
  have purge: "emits (\<lambda>e. \<not> deletes e) (wrap ''purging credentials from Azure AD'' (azure_purge_credentials env tx))"
    by (intro emits.wrap keeps_of_routine azure_credentials_emits)
  have event: "emits (\<lambda>e. \<not> deletes e) (report_event env Normal DeletedInAzure ''Azure application is deleted'')"
    by (rule report_event_emits) simp
  have first: "sends deletes 1 (if b then wrap ''purging credentials from Azure AD'' (azure_purge_credentials env tx)
      else bnd (wrap ''failed to delete resources'' (azure_delete env tx)) (\<lambda>_.
           report_event env Normal DeletedInAzure ''Azure application is deleted''))" for b
    by (rule sends_if [OF sends_any [OF purge] sends_bnd_first [OF sends_wrap [OF azure_delete_once] sends_none [OF event]]])
  have final: "sends deletes 1 (finalizer_finalize env tx)"
    unfolding finalizer_finalize_def
    by (rule sends_bnd_last [OF sends_none [OF emits_instance_of] sends_bnd_first [OF first sends_none [OF later]]])
  have reg: "emits (\<lambda>e. \<not> deletes e) (if b then bnd (finalizer_register env tx) (\<lambda>_. ret True) else ret False)" for b
    by (auto intro!: emits.bnd emits.ret keeps_of_routine finalizer_register_emits)
  note fin = sends_bnd_first [OF final sends_none [OF emits.ret], of "\<lambda>_. True"] sends_any [OF reg]
  show ?thesis
    unfolding finalizer_process_def Let_def
    by (rule sends_bnd_last [OF sends_none [OF emits_instance_of] sends_if [OF fin]])
qed

lemma sends_step:
  "sends P 0 m \<Longrightarrow> (\<And>e. sends P 0 (handle_error env tx e)) \<Longrightarrow> (\<And>x. sends P k (f x)) \<Longrightarrow> sends P k (step env tx m f)"
  unfolding step_def
  by (intro sends_bnd_last sends_attempt) (auto split: sum.split intro: sends_mono)

lemma reconcile_credentials_registers_once: "sends adds 1 (reconcile_credentials env tx)"
proof -
  note none = sends_of_routine(1)
  have create: "sends adds 1 (azure_create env tx)" for tx
    unfolding azure_create_def
    by (rule sends_bnd_first [OF sends_wrap [OF client_create_registers_once] sends_none])
       (auto intro!: emits_intros report_event_emits)
  have others: "emits routine (azure_update env tx)" "emits routine (azure_not_modified env tx)" for tx
    unfolding azure_update_def azure_not_modified_def get_pre_authorized_apps_def
    by (auto intro!: emits_intros report_event_emits client_update_emits [THEN routine_of_maintains]
        pre_auth_reads [THEN routine_of_reads])
  have start: "sends adds 1 (if \<not> tx_exists_in_azure tx then azure_create env tx
      else if opt_azure_synchronize (opt_azure (opt_process (tx_options tx))) then azure_update env tx
      else azure_not_modified env tx)" for tx
    by (intro sends_if create sends_any [OF adds_none_of_routine [OF others(1)]]
        sends_any [OF adds_none_of_routine [OF others(2)]])
  have rest: "sends adds 0 (bnd (if is_modified res then report_pre_authorized_status env (ares_pre_authorized_apps res)
          else ret ()) (\<lambda>_. bnd (notify (Runtime (SpawnProduceEvent res))) (\<lambda>_. ret res)))" for res
    unfolding report_pre_authorized_status_def Let_def by (rule none) (auto intro!: emits_intros)
  have "sends adds 1 (azure_process env tx)" for tx
    unfolding azure_process_def by (rule sends_bnd_first [OF start rest])
  then have process: "sends adds 1 (controller_process env tx)" for tx
    unfolding controller_process_def
    by (rule sends_bnd_first) (intro sends_wrap none secrets_process_emits)
  have last: "sends adds 1 (if b then ret (idle_result env)
      else step env tx (controller_process env tx) (\<lambda>_. complete env tx))" for b tx
  proof (rule sends_if [OF sends_any [OF emits.ret]])
    show "sends adds 1 (step env tx (controller_process env tx) (\<lambda>_. complete env tx))"
      unfolding step_def
      by (rule sends_bnd_first [OF sends_attempt [OF process] none])
         (auto intro!: handle_error_emits complete_emits split: sum.split)
  qed
  show ?thesis
    unfolding reconcile_credentials_def Let_def
    by (intro sends_step last none azure_credentials_emits handle_error_emits secrets_delete_unused_emits)
       (auto intro!: none emits.ret azure_credentials_emits split: if_split)
qed

lemma sends_step_first:
  "sends P k m \<Longrightarrow> (\<And>e. sends P 0 (handle_error env tx e)) \<Longrightarrow> (\<And>x. sends P 0 (f x)) \<Longrightarrow> sends P k (step env tx m f)"
  unfolding step_def by (intro sends_bnd_first sends_attempt) (auto split: sum.split)

text \<open>What follows the preparation registers, or deletes, or neither.\<close>

lemma addressed_once:
  assumes "step env tx (finalizer_process env tx)
     (\<lambda>processed. if processed then ret no_requeue else reconcile_credentials env tx) s = (r, s')"
  shows "count adds s' \<le> count adds s + 1 \<and> count deletes s' \<le> count deletes s \<or>
    count adds s' \<le> count adds s \<and> count deletes s' \<le> count deletes s + 1"
proof (cases "finalizer_process env tx s = (Ok False, s)")
  case True
  then have "reconcile_credentials env tx s = (r, s')"
    using assms by (simp add: step_def attempt_def bnd_def)
  then show ?thesis
    using sendsD [OF reconcile_credentials_registers_once]
      sendsD [OF sends_none [OF reconcile_credentials_emits(1)]] by fastforce
next
  case False
  then have "\<forall>s2. finalizer_process env tx s \<noteq> (Ok False, s2)" using finalizer_declines(1) by blast
  then have run: "step env tx (finalizer_process env tx) (\<lambda>_. ret no_requeue) s = (r, s')"
    using assms by (cases "finalizer_process env tx s"; cases "fst (finalizer_process env tx s)")
      (auto simp: step_def attempt_def bnd_def)
  have del: "sends deletes 1 (step env tx (finalizer_process env tx) (\<lambda>_. ret no_requeue))"
    by (intro sends_step_first finalizer_deletes_once sends_of_routine(2) handle_error_emits emits.ret)
  have add: "sends adds 0 (step env tx (finalizer_process env tx) (\<lambda>_. ret no_requeue))"
    by (intro sends_step_first sends_none [OF finalizer_process_emits] sends_of_routine(1) handle_error_emits emits.ret)
  show ?thesis using sendsD [OF del run] sendsD [OF add run] by simp
qed

lemma ignored_once:
  "sends deletes 1 (step env tx (wrap ''processing orphaned resources'' (azure_process_orphaned env tx))
     (\<lambda>_. ret no_requeue))"
  "sends adds 0 (step env tx (wrap ''processing orphaned resources'' (azure_process_orphaned env tx))
     (\<lambda>_. ret no_requeue))"
proof -
  have "sends deletes 1 (azure_process_orphaned env tx)"
    unfolding azure_process_orphaned_def by (intro sends_if azure_delete_once sends_any [OF emits.ret])
  then show "sends deletes 1 (step env tx (wrap ''processing orphaned resources'' (azure_process_orphaned env tx))
     (\<lambda>_. ret no_requeue))"
    by (intro sends_step_first sends_wrap sends_of_routine(2) handle_error_emits emits.ret)
  show "sends adds 0 (step env tx (wrap ''processing orphaned resources'' (azure_process_orphaned env tx))
     (\<lambda>_. ret no_requeue))"
    by (intro sends_step_first sends_wrap sends_none [OF orphaned_emits] sends_of_routine(1) handle_error_emits emits.ret)
qed

text \<open>
  C22: a reconciliation sends at most one registration of an application and at most one deletion,
  whatever is retried, and never both.
\<close>

theorem registers_or_deletes_once:
  "count adds (snd (reconcile env namespace name s)) \<le> count adds s + 1 \<and>
     count deletes (snd (reconcile env namespace name s)) \<le> count deletes s \<or>
   count adds (snd (reconcile env namespace name s)) \<le> count adds s \<and>
     count deletes (snd (reconcile env namespace name s)) \<le> count deletes s + 1"
proof -
  obtain r s' where run: "reconcile env namespace name s = (r, s')" by (cases "reconcile env namespace name s")
  have prep: "count adds (snd (prepare env namespace name s)) \<le> count adds s"
    "count deletes (snd (prepare env namespace name s)) \<le> count deletes s"
    using sends_of_routine [OF prepare_emits] by (auto simp: sends_def)
  from run show ?thesis
  proof (cases rule: reconcile_cases)
    case unprepared
    then show ?thesis using prep run by simp
  next
    case (ignored tx s1)
    then show ?thesis using prep run sendsD [OF ignored_once(1) ignored(3)] sendsD [OF ignored_once(2) ignored(3)] by simp
  next
    case (addressed tx s1)
    then show ?thesis using prep run addressed_once [OF addressed(3)] by auto
  qed
qed

end
