(* ===== verification/Configuration.thy ===== *)
theory Configuration
  imports Effects Types Samples "HOL-Library.List_Lexorder" "HOL-Library.Char_ord"
begin

text \<open>
  pkg/config: the options, their defaults, what \<open>DefaultConfig\<close> accepts, and the OpenID
  configuration fetched at start. Viper (the store of the settings), conftools (which fills the
  configuration from it), the HTTP client and the JSON decoder are parameters.
\<close>

subsection \<open>Options\<close>

definition AzureClientId :: string where "AzureClientId = ''azure.auth.client-id''"
definition AzureClientSecret :: string where "AzureClientSecret = ''azure.auth.client-secret''"
definition AzureAuthGoogleEnabled :: string where "AzureAuthGoogleEnabled = ''azure.auth.google.enabled''"
definition AzureAuthGoogleProjectID :: string where "AzureAuthGoogleProjectID = ''azure.auth.google.project-id''"
definition AzureTenantId :: string where "AzureTenantId = ''azure.tenant.id''"
definition AzureTenantName :: string where "AzureTenantName = ''azure.tenant.name''"
definition AzurePermissionGrantResourceId :: string where
  "AzurePermissionGrantResourceId = ''azure.permissiongrant-resource-id''"
definition AzureFeaturesClaimsMappingPoliciesEnabled :: string where
  "AzureFeaturesClaimsMappingPoliciesEnabled = ''azure.features.claims-mapping-policies.enabled''"
definition AzureFeaturesClaimsMappingPoliciesID :: string where
  "AzureFeaturesClaimsMappingPoliciesID = ''azure.features.claims-mapping-policies.id''"
definition AzureFeaturesCustomSecurityAttributesEnabled :: string where
  "AzureFeaturesCustomSecurityAttributesEnabled = ''azure.features.custom-security-attributes.enabled''"
definition AzureFeaturesGroupsAssignmentEnabled :: string where
  "AzureFeaturesGroupsAssignmentEnabled = ''azure.features.groups-assignment.enabled''"
definition AzureFeaturesGroupsAllUsersGroupId :: string where
  "AzureFeaturesGroupsAllUsersGroupId = ''azure.features.groups-assignment.all-users-group-id''"
definition AzureFeaturesGroupMembershipClaimDefault :: string where
  "AzureFeaturesGroupMembershipClaimDefault = ''azure.features.group-membership-claim.default''"
definition AzureFeaturesAppRoleAssignmentRequiredEnabled :: string where
  "AzureFeaturesAppRoleAssignmentRequiredEnabled = ''azure.features.app-role-assignment-required.enabled''"
definition AzureFeaturesCleanupOrphansEnabled :: string where
  "AzureFeaturesCleanupOrphansEnabled = ''azure.features.cleanup-orphans.enabled''"
definition AzureDelayBetweenModifications :: string where
  "AzureDelayBetweenModifications = ''azure.delay.between-modifications''"
definition AzurePaginationMaxPages :: string where "AzurePaginationMaxPages = ''azure.pagination.max-pages''"
definition ControllerContextTimeout :: string where "ControllerContextTimeout = ''controller.context-timeout''"
definition ControllerMaxConcurrentReconciles :: string where
  "ControllerMaxConcurrentReconciles = ''controller.max-concurrent-reconciles''"
definition ControllerSweepInterval :: string where "ControllerSweepInterval = ''controller.sweep-interval''"
definition LeaderElectionEnabled :: string where "LeaderElectionEnabled = ''leader-election.enabled''"
definition LeaderElectionNamespace :: string where "LeaderElectionNamespace = ''leader-election.namespace''"
definition ClusterName :: string where "ClusterName = ''cluster-name''"
definition MetricsAddress :: string where "MetricsAddress = ''metrics-address''"
definition ProbesAddress :: string where "ProbesAddress = ''probes-address''"
definition ValidationsTenantRequired :: string where "ValidationsTenantRequired = ''validations.tenant.required''"
definition SecretRotationMaxAge :: string where "SecretRotationMaxAge = ''secret-rotation.max-age''"
definition SecretRotationCleanup :: string where "SecretRotationCleanup = ''secret-rotation.cleanup''"

lemmas option_names =
  AzureClientId_def AzureClientSecret_def AzureAuthGoogleEnabled_def AzureAuthGoogleProjectID_def
  AzureTenantId_def AzureTenantName_def AzurePermissionGrantResourceId_def
  AzureFeaturesClaimsMappingPoliciesEnabled_def AzureFeaturesClaimsMappingPoliciesID_def
  AzureFeaturesCustomSecurityAttributesEnabled_def AzureFeaturesGroupsAssignmentEnabled_def
  AzureFeaturesGroupsAllUsersGroupId_def AzureFeaturesGroupMembershipClaimDefault_def
  AzureFeaturesAppRoleAssignmentRequiredEnabled_def AzureFeaturesCleanupOrphansEnabled_def
  AzureDelayBetweenModifications_def AzurePaginationMaxPages_def ControllerContextTimeout_def
  ControllerMaxConcurrentReconciles_def ControllerSweepInterval_def LeaderElectionEnabled_def
  LeaderElectionNamespace_def ClusterName_def MetricsAddress_def ProbesAddress_def
  ValidationsTenantRequired_def SecretRotationMaxAge_def SecretRotationCleanup_def

datatype flag =
    StringFlag string
  | BoolFlag bool
  | IntFlag int
  | DurationFlag duration
  | StringSliceFlag "string list"

text \<open>The flags that \<open>init\<close> declares, with their defaults; a duration counts nanoseconds.\<close>

definition flags :: "(string \<times> flag) list" where
  "flags =
     [(AzureClientId, StringFlag []),
      (AzureClientSecret, StringFlag []),
      (AzureAuthGoogleEnabled, BoolFlag False),
      (AzureAuthGoogleProjectID, StringFlag []),
      (AzureTenantId, StringFlag []),
      (AzureTenantName, StringFlag []),
      (AzurePermissionGrantResourceId, StringFlag []),
      (AzureFeaturesAppRoleAssignmentRequiredEnabled, BoolFlag False),
      (AzureFeaturesClaimsMappingPoliciesEnabled, BoolFlag False),
      (AzureFeaturesClaimsMappingPoliciesID, StringFlag []),
      (AzureFeaturesCustomSecurityAttributesEnabled, BoolFlag False),
      (AzureFeaturesGroupsAssignmentEnabled, BoolFlag False),
      (AzureFeaturesGroupsAllUsersGroupId, StringSliceFlag []),
      (AzureFeaturesGroupMembershipClaimDefault, StringFlag ''ApplicationGroup''),
      (AzureFeaturesCleanupOrphansEnabled, BoolFlag False),
      (AzureDelayBetweenModifications, DurationFlag (10 * 1000000000)),
      (AzurePaginationMaxPages, IntFlag 1000),
      (MetricsAddress, StringFlag '':8080''),
      (ProbesAddress, StringFlag '':8081''),
      (ClusterName, StringFlag []),
      (ValidationsTenantRequired, BoolFlag False),
      (ControllerContextTimeout, DurationFlag (5 * 60 * 1000000000)),
      (ControllerMaxConcurrentReconciles, IntFlag 10),
      (ControllerSweepInterval, DurationFlag (5 * 60 * 1000000000)),
      (LeaderElectionEnabled, BoolFlag False),
      (LeaderElectionNamespace, StringFlag []),
      (SecretRotationMaxAge, DurationFlag (120 * 24 * 60 * 60 * 1000000000)),
      (SecretRotationCleanup, BoolFlag True)]"

subsection \<open>Loading and validation\<close>

text \<open>The settings: what conftools loads, the keys viper knows and their values as strings.\<close>

record settings =
  v_load :: "err + config"
  v_keys :: "string list"
  v_string :: "string \<Rightarrow> string"

definition config_new :: "settings \<Rightarrow> config outcome" where
  "config_new v = (case v_load v of Inl e \<Rightarrow> Err e | Inr c \<Rightarrow> Ok c)"

text \<open>The closure \<open>present\<close> of \<open>Validate\<close>.\<close>

fun present :: "settings \<Rightarrow> string list \<Rightarrow> string \<Rightarrow> bool" where
  "present v [] key = True"
| "present v (r # rs) key = (if r = key then length (v_string v r) > 0 else present v rs key)"

definition missing_keys :: "settings \<Rightarrow> string list \<Rightarrow> string list" where
  "missing_keys v required = filter (\<lambda>k. \<not> present v required k) (sort (v_keys v))"

definition config_validate :: "settings \<Rightarrow> config \<Rightarrow> string list \<Rightarrow> unit outcome" where
  "config_validate v c required =
     (let feat = az_features (cfg_azure c) in
      if length (missing_keys v required) > 0 then Err (Cause (Opaque ''missing configuration values''))
      else if feat_claims_policies feat \<and> length (feat_claims_policies_id feat) = 0
      then Err (Cause (Opaque
        (quoted AzureFeaturesClaimsMappingPoliciesID @ '' cannot be empty when '' @
         quoted AzureFeaturesClaimsMappingPoliciesEnabled @ '' is true'')))
      else Ok ())"

definition required_keys :: "config \<Rightarrow> string list" where
  "required_keys c =
     [AzureTenantId, AzureClientId, AzurePermissionGrantResourceId, ClusterName] @
     [if az_google_enabled (cfg_azure c) then AzureAuthGoogleProjectID else AzureClientSecret]"

definition default_config :: "settings \<Rightarrow> config outcome" where
  "default_config v =
     out_bind (config_new v) (\<lambda>c.
     out_bind (config_validate v c (required_keys c)) (\<lambda>_. Ok c))"

subsection \<open>What is accepted\<close>

lemma present_iff: "present v required k \<longleftrightarrow> k \<notin> set required \<or> v_string v k \<noteq> []"
  by (induction required) auto

lemma missing_keys_Nil_iff:
  "missing_keys v required = [] \<longleftrightarrow> (\<forall>k \<in> set (v_keys v) \<inter> set required. v_string v k \<noteq> [])"
  by (auto simp: missing_keys_def present_iff filter_empty_conv)

lemma config_validate_Ok_iff:
  "config_validate v c required = Ok () \<longleftrightarrow>
     (\<forall>k \<in> set (v_keys v) \<inter> set required. v_string v k \<noteq> []) \<and>
     (feat_claims_policies (az_features (cfg_azure c)) \<longrightarrow> feat_claims_policies_id (az_features (cfg_azure c)) \<noteq> [])"
  by (auto simp: config_validate_def Let_def missing_keys_Nil_iff [symmetric])

text \<open>Every key that can be required is declared as a flag.\<close>

lemma required_keys_declared: "set (required_keys c) \<subseteq> set (map fst flags)"
  by (simp add: required_keys_def flags_def)

text \<open>
  C36: \<open>DefaultConfig\<close> accepts exactly the configurations in which the tenant ID, the client ID, the
  permission grant resource, the cluster name and, for the chosen kind of authentication, the Google
  project or the client secret are set, and the claims mapping policy has an ID when the feature is
  enabled. This holds when viper knows the declared flags: a required key that viper does not know
  is not looked at.
\<close>

theorem accepted_configurations:
  assumes "set (map fst flags) \<subseteq> set (v_keys v)"
  shows "default_config v = Ok c \<longleftrightarrow>
    v_load v = Inr c \<and>
    v_string v AzureTenantId \<noteq> [] \<and> v_string v AzureClientId \<noteq> [] \<and>
    v_string v AzurePermissionGrantResourceId \<noteq> [] \<and> v_string v ClusterName \<noteq> [] \<and>
    (if az_google_enabled (cfg_azure c) then v_string v AzureAuthGoogleProjectID \<noteq> []
     else v_string v AzureClientSecret \<noteq> []) \<and>
    (feat_claims_policies (az_features (cfg_azure c)) \<longrightarrow> feat_claims_policies_id (az_features (cfg_azure c)) \<noteq> [])"
proof -
  have "set (v_keys v) \<inter> set (required_keys c) = set (required_keys c)"
    using assms required_keys_declared by blast
  then have "default_config v = Ok c \<longleftrightarrow> v_load v = Inr c \<and> config_validate v c (required_keys c) = Ok ()"
    by (auto simp: default_config_def config_new_def out_bind_Ok_iff split: sum.splits)
  also have "config_validate v c (required_keys c) = Ok () \<longleftrightarrow> (\<forall>k \<in> set (required_keys c). v_string v k \<noteq> []) \<and>
     (feat_claims_policies (az_features (cfg_azure c)) \<longrightarrow> feat_claims_policies_id (az_features (cfg_azure c)) \<noteq> [])"
    by (simp add: config_validate_Ok_iff \<open>set (v_keys v) \<inter> set (required_keys c) = set (required_keys c)\<close>)
  finally show ?thesis by (auto simp: required_keys_def)
qed

definition sample_settings :: settings where
  "sample_settings = \<lparr>v_load = Inr quiet_config, v_keys = map fst flags, v_string = (\<lambda>k. ''x'')\<rparr>"

lemma accepted_configurations_witness: "default_config sample_settings = Ok quiet_config"
  using accepted_configurations [of sample_settings quiet_config] by (simp add: sample_settings_def)

end
