(* ===== verification/Startup.thy ===== *)
theory Startup
  imports Configuration Synchronizer
begin

text \<open>
  The start of the operator: cmd/azurerator/main.go (\<open>run\<close>), the token sources and the client of
  pkg/azure/client/auth.go and client.go, \<open>NewAzureOpenIdConfig\<close> of
  pkg/config/azureopenidconfig.go and \<open>SetupWithManager\<close> of the controller. The state is the log
  of the requests to the libraries, the newest first, with whether they succeeded; the replies are
  those of a \<open>boot_env\<close>. Loggers, schemes and the cancellation of contexts are left out.
\<close>

subsection \<open>Requests at start\<close>

record manager_options =
  mo_metrics_addr :: string
  mo_probes_addr :: string
  mo_liveness :: string
  mo_readiness :: string
  mo_leader_election :: bool
  mo_leader_election_id :: string
  mo_leader_election_namespace :: string
  mo_resource_lock :: string
  mo_lease_duration :: duration
  mo_renew_deadline :: duration

record controller_options =
  co_max_concurrent :: int
  co_retry_min_interval :: duration
  co_retry_max_interval :: duration

record reconciler_parts =
  rp_config :: config
  rp_openid :: openid_config
  rp_cluster_name :: string

record sweeper_parts =
  sw_cluster_name :: string
  sw_tenant_id :: string
  sw_interval :: duration
  sw_cache_ttl :: duration

record id_token_config =
  it_audience :: string
  it_target_principal :: string
  it_include_email :: bool

datatype boot_request =
    GetKubeConfig
  | NewManager manager_options
  | AddHealthzCheck string
  | AddReadyzCheck string
  | ClientCredentialsGrant string string string "string list" \<comment> \<open>tenant, client, secret, scopes\<close>
  | IDTokenSource id_token_config
  | NewClientAssertionCredential string string \<comment> \<open>tenant, client\<close>
  | FetchGoogleToken
  | FetchAzureToken "string list"
  | NewHttpRequest string
  | DoHttpRequest string
  | CompleteController reconciler_parts controller_options
  | SpawnMetricsRefresh
  | AddSweeper sweeper_parts
  | StartManager

type_synonym boot_log = "(boot_request \<times> bool) list"
type_synonym 'a boot = "(boot_log, 'a) io"

record boot_response =
  br_status :: int
  br_body :: "err + string"

record access_token =
  at_token :: string
  at_type :: string
  at_expiry :: time

record boot_env =
  b_settings :: settings
  b_scope :: string \<comment> \<open>\<open>msauth.DefaultMSGraphScope\<close>\<close>
  b_unit :: "boot_log \<Rightarrow> boot_request \<Rightarrow> err + unit"
  b_response :: "boot_log \<Rightarrow> boot_request \<Rightarrow> err + boot_response"
  b_token :: "boot_log \<Rightarrow> boot_request \<Rightarrow> err + string \<times> time"
  b_json :: "string \<Rightarrow> err + openid_config option" \<comment> \<open>\<open>None\<close> is the JSON value null\<close>

definition boot_call :: "boot_request \<Rightarrow> (boot_log \<Rightarrow> boot_request \<Rightarrow> err + 'a) \<Rightarrow> 'a boot" where
  "boot_call req reply =
     (\<lambda>log. case reply log req of
        Inl e \<Rightarrow> (Err e, (req, False) # log)
      | Inr x \<Rightarrow> (Ok x, (req, True) # log))"

subsection \<open>Token sources and the client\<close>

datatype token_source = ClientCredentials | GoogleFederatedCredential

record api_client =
  ac_config :: azure_config
  ac_token_source :: token_source

definition token_scopes :: "boot_env \<Rightarrow> string list" where
  "token_scopes env = [b_scope env]"

definition new_client_credentials_token_source :: "boot_env \<Rightarrow> azure_config \<Rightarrow> token_source boot" where
  "new_client_credentials_token_source env cfg =
     bnd (wrap ''performing client credentials grant''
            (boot_call (ClientCredentialsGrant (tenant_id (az_tenant cfg)) (az_client_id cfg)
              (az_client_secret cfg) (token_scopes env)) (b_unit env))) (\<lambda>_.
     ret ClientCredentials)"

definition new_google_federated_token_source :: "boot_env \<Rightarrow> azure_config \<Rightarrow> token_source boot" where
  "new_google_federated_token_source env cfg =
     bnd (wrap ''creating google token source''
            (boot_call (IDTokenSource
              \<lparr>it_audience = ''api://AzureADTokenExchange'',
               it_target_principal = ''azurerator@'' @ az_google_project_id cfg @ ''.iam.gserviceaccount.com'',
               it_include_email = True\<rparr>) (b_unit env))) (\<lambda>_.
     bnd (wrap ''creating azure assertion credential''
            (boot_call (NewClientAssertionCredential (tenant_id (az_tenant cfg)) (az_client_id cfg)) (b_unit env))) (\<lambda>_.
     ret GoogleFederatedCredential))"

text \<open>The closure \<open>googleAssertion\<close>, and \<open>Token\<close> of the federated token source.\<close>

definition google_assertion :: "boot_env \<Rightarrow> string boot" where
  "google_assertion env =
     bnd (wrap ''fetching google token'' (boot_call FetchGoogleToken (b_token env))) (\<lambda>(t, expiry). ret t)"

definition federated_token :: "boot_env \<Rightarrow> access_token boot" where
  "federated_token env =
     bnd (wrap ''fetching azure token'' (boot_call (FetchAzureToken (token_scopes env)) (b_token env))) (\<lambda>(t, expiry).
     ret \<lparr>at_token = t, at_type = ''bearer'', at_expiry = expiry\<rparr>)"

definition client_new :: "boot_env \<Rightarrow> azure_config \<Rightarrow> api_client boot" where
  "client_new env cfg =
     bnd (wrap ''creating graph client''
            (if az_google_enabled cfg then new_google_federated_token_source env cfg
             else new_client_credentials_token_source env cfg)) (\<lambda>ts.
     ret \<lparr>ac_config = cfg, ac_token_source = ts\<rparr>)"

subsection \<open>The OpenID configuration\<close>

definition well_known_url :: "string \<Rightarrow> string" where
  "well_known_url tenant =
     ''https://login.microsoftonline.com/'' @ tenant @ ''/v2.0/.well-known/openid-configuration''"

definition request_openid_configuration :: "boot_env \<Rightarrow> string \<Rightarrow> string boot" where
  "request_openid_configuration env url =
     bnd (wrap ''creating client GET request'' (boot_call (NewHttpRequest url) (b_unit env))) (\<lambda>_.
     bnd (wrap ''performing GET request'' (boot_call (DoHttpRequest url) (b_response env))) (\<lambda>resp.
     bnd (wrap ''reading server response''
            (lift (case br_body resp of Inl e \<Rightarrow> Err e | Inr b \<Rightarrow> Ok b))) (\<lambda>body.
     if br_status resp \<ge> 400 then fail (Cause (Opaque ''server responded with an error status''))
     else ret body)))"

text \<open>
  The decoder is given a pointer to the pointer of the result: the JSON value null makes the result
  a nil pointer, whose field is then assigned.
\<close>

definition new_azure_openid_config :: "boot_env \<Rightarrow> azure_tenant \<Rightarrow> openid_config boot" where
  "new_azure_openid_config env tenant =
     (let url = well_known_url (tenant_id tenant) in
      bnd (request_openid_configuration env url) (\<lambda>body.
      bnd (wrap ''unmarshalling'' (lift (case b_json env body of Inl e \<Rightarrow> Err e | Inr c \<Rightarrow> Ok c))) (\<lambda>c.
      bnd (lift (deref c)) (\<lambda>c.
      ret (c\<lparr>oid_well_known := url\<rparr>)))))"

subsection \<open>Wiring\<close>

definition retryMinInterval :: duration where
  "retryMinInterval = 1 * second"

definition retryMaxInterval :: duration where
  "retryMaxInterval = 15 * minute"

definition setup_with_manager :: "boot_env \<Rightarrow> reconciler_parts \<Rightarrow> unit boot" where
  "setup_with_manager env r =
     boot_call (CompleteController r
       \<lparr>co_max_concurrent = cfg_max_concurrent (rp_config r),
        co_retry_min_interval = retryMinInterval, co_retry_max_interval = retryMaxInterval\<rparr>) (b_unit env)"

definition options_for_manager :: "config \<Rightarrow> manager_options" where
  "options_for_manager cfg =
     \<lparr>mo_metrics_addr = cfg_metrics_addr cfg, mo_probes_addr = cfg_probes_addr cfg,
      mo_liveness = ''/healthz'', mo_readiness = ''/readyz'',
      mo_leader_election = le_enabled (cfg_leader_election cfg),
      mo_leader_election_id = ''azurerator.nais.io-'' @ tenant_id (az_tenant (cfg_azure cfg)),
      mo_leader_election_namespace = le_namespace (cfg_leader_election cfg),
      mo_resource_lock = ''leases'',
      mo_lease_duration = 25 * second, mo_renew_deadline = 20 * second\<rparr>"

definition new_sweeper :: "string \<Rightarrow> string \<Rightarrow> duration \<Rightarrow> sweeper_parts" where
  "new_sweeper cluster tenant interval =
     \<lparr>sw_cluster_name = cluster, sw_tenant_id = tenant, sw_interval = sweep_interval interval,
      sw_cache_ttl = sweep_cache_ttl interval\<rparr>"

text \<open>\<open>GetConfigOrDie\<close> ends the process when it finds no configuration.\<close>

definition kube_config_or_die :: "boot_env \<Rightarrow> unit boot" where
  "kube_config_or_die env =
     bnd (attempt (boot_call GetKubeConfig (b_unit env))) (\<lambda>r.
     case r of Inl _ \<Rightarrow> lift Panic | Inr _ \<Rightarrow> ret ())"

text \<open>\<open>run\<close> up to the start of the manager.\<close>

definition run_setup :: "boot_env \<Rightarrow> config boot" where
  "run_setup env =
     bnd (lift (default_config (b_settings env))) (\<lambda>cfg.
     bnd (kube_config_or_die env) (\<lambda>_.
     bnd (wrap ''unable to start manager'' (boot_call (NewManager (options_for_manager cfg)) (b_unit env))) (\<lambda>_.
     bnd (wrap ''unable to set up health check'' (boot_call (AddHealthzCheck ''healthz'') (b_unit env))) (\<lambda>_.
     bnd (wrap ''unable to set up ready check'' (boot_call (AddReadyzCheck ''readyz'') (b_unit env))) (\<lambda>_.
     bnd (wrap ''instantiating Azure client'' (client_new env (cfg_azure cfg))) (\<lambda>client.
     bnd (wrap ''fetching Azure OpenID Configuration''
            (new_azure_openid_config env (az_tenant (cfg_azure cfg)))) (\<lambda>oid.
     bnd (wrap ''unable to create controller''
            (setup_with_manager env
              \<lparr>rp_config = cfg, rp_openid = oid, rp_cluster_name = cfg_cluster_name cfg\<rparr>)) (\<lambda>_.
     bnd (boot_call SpawnMetricsRefresh (\<lambda>_ _. Inr ())) (\<lambda>_.
     bnd (wrap ''registering synchronizer periodic sweep runnable''
            (boot_call (AddSweeper (new_sweeper (cfg_cluster_name cfg) (tenant_id (az_tenant (cfg_azure cfg)))
              (cfg_sweep_interval cfg))) (b_unit env))) (\<lambda>_.
     ret cfg))))))))))"

definition run_operator :: "boot_env \<Rightarrow> unit boot" where
  "run_operator env =
     bnd (run_setup env) (\<lambda>_.
     wrap ''problem running manager'' (boot_call StartManager (b_unit env)))"

subsection \<open>What the start guarantees\<close>

lemma boot_call_Ok_iff: "boot_call req reply log = (Ok x, log') \<longleftrightarrow> reply log req = Inr x \<and> log' = (req, True) # log"
  by (auto simp: boot_call_def split: sum.split)

text \<open>The requests that build the client, in order.\<close>

definition token_requests :: "boot_env \<Rightarrow> azure_config \<Rightarrow> boot_request list" where
  "token_requests env cfg =
     (if az_google_enabled cfg
      then [IDTokenSource
              \<lparr>it_audience = ''api://AzureADTokenExchange'',
               it_target_principal = ''azurerator@'' @ az_google_project_id cfg @ ''.iam.gserviceaccount.com'',
               it_include_email = True\<rparr>,
            NewClientAssertionCredential (tenant_id (az_tenant cfg)) (az_client_id cfg)]
      else [ClientCredentialsGrant (tenant_id (az_tenant cfg)) (az_client_id cfg) (az_client_secret cfg) [b_scope env]])"

lemma client_new_Ok:
  assumes "client_new env cfg log = (Ok c, log')"
  shows "log' = rev (map (\<lambda>q. (q, True)) (token_requests env cfg)) @ log \<and> ac_config c = cfg"
  using assms
  by (auto simp: client_new_def new_google_federated_token_source_def new_client_credentials_token_source_def
      bnd_Ok_iff boot_call_Ok_iff token_requests_def token_scopes_def split: if_splits)

lemma new_azure_openid_config_Ok:
  assumes "new_azure_openid_config env tenant log = (Ok oid, log')"
  shows "log' = [(DoHttpRequest (well_known_url (tenant_id tenant)), True),
      (NewHttpRequest (well_known_url (tenant_id tenant)), True)] @ log \<and>
    oid_well_known oid = well_known_url (tenant_id tenant)"
  using assms
  by (auto simp: new_azure_openid_config_def request_openid_configuration_def Let_def bnd_Ok_iff boot_call_Ok_iff
      split: if_splits)

text \<open>The answer of the endpoint, when the request could be made.\<close>

definition answered :: "boot_env \<Rightarrow> azure_tenant \<Rightarrow> boot_log \<Rightarrow> boot_response \<Rightarrow> bool" where
  "answered env tenant log resp \<longleftrightarrow>
     b_unit env log (NewHttpRequest (well_known_url (tenant_id tenant))) = Inr () \<and>
     b_response env ((NewHttpRequest (well_known_url (tenant_id tenant)), True) # log)
       (DoHttpRequest (well_known_url (tenant_id tenant))) = Inr resp"

text \<open>
  C35: fetching the OpenID configuration succeeds exactly when the request can be made and is answered
  without an error status and with a JSON object, and then returns that object with the address
  fetched; it panics exactly when the answer has no error status and is the JSON value null; every
  other failure (of the request, of the response, of the decoding) is an error.
\<close>

theorem openid_config_outcome:
  "case fst (new_azure_openid_config env tenant log) of
     Ok oid \<Rightarrow> \<exists>resp body found. answered env tenant log resp \<and> br_body resp = Inr body \<and> br_status resp < 400 \<and>
       b_json env body = Inr (Some found) \<and> oid = found\<lparr>oid_well_known := well_known_url (tenant_id tenant)\<rparr>
   | Panic \<Rightarrow> \<exists>resp body. answered env tenant log resp \<and> br_body resp = Inr body \<and> br_status resp < 400 \<and>
       b_json env body = Inr None
   | Err _ \<Rightarrow> \<not> (\<exists>resp body found. answered env tenant log resp \<and> br_body resp = Inr body \<and> br_status resp < 400 \<and>
       b_json env body = Inr found)"
proof -
  let ?url = "well_known_url (tenant_id tenant)"
  let ?log = "(NewHttpRequest ?url, True) # log"
  show ?thesis
    unfolding answered_def
    by (cases "b_unit env log (NewHttpRequest ?url)"; cases "b_response env ?log (DoHttpRequest ?url)";
        cases "br_body (projr (b_response env ?log (DoHttpRequest ?url)))";
        cases "b_json env (projr (br_body (projr (b_response env ?log (DoHttpRequest ?url)))))";
        cases "projr (b_json env (projr (br_body (projr (b_response env ?log (DoHttpRequest ?url))))))")
       (auto simp: new_azure_openid_config_def request_openid_configuration_def boot_call_def bnd_def wrap_def
         lift_def ret_def fail_def Let_def)
qed

lemma kube_config_or_die_Ok_iff:
  "kube_config_or_die env log = (Ok u, log') \<longleftrightarrow>
     b_unit env log GetKubeConfig = Inr () \<and> log' = (GetKubeConfig, True) # log"
  by (cases "b_unit env log GetKubeConfig")
     (auto simp: kube_config_or_die_def attempt_def boot_call_def bnd_def lift_def ret_def)

text \<open>The requests of a complete set-up, in order.\<close>

definition setup_requests :: "boot_env \<Rightarrow> config \<Rightarrow> openid_config \<Rightarrow> boot_request list" where
  "setup_requests env cfg oid =
     [GetKubeConfig, NewManager (options_for_manager cfg), AddHealthzCheck ''healthz'', AddReadyzCheck ''readyz''] @
     token_requests env (cfg_azure cfg) @
     [NewHttpRequest (well_known_url (tenant_id (az_tenant (cfg_azure cfg)))),
      DoHttpRequest (well_known_url (tenant_id (az_tenant (cfg_azure cfg)))),
      CompleteController \<lparr>rp_config = cfg, rp_openid = oid, rp_cluster_name = cfg_cluster_name cfg\<rparr>
        \<lparr>co_max_concurrent = cfg_max_concurrent cfg, co_retry_min_interval = retryMinInterval,
         co_retry_max_interval = retryMaxInterval\<rparr>,
      SpawnMetricsRefresh,
      AddSweeper (new_sweeper (cfg_cluster_name cfg) (tenant_id (az_tenant (cfg_azure cfg))) (cfg_sweep_interval cfg))]"

lemma run_setup_Ok:
  assumes "run_setup env log = (Ok cfg, log')"
  obtains oid where "default_config (b_settings env) = Ok cfg"
    "log' = rev (map (\<lambda>q. (q, True)) (setup_requests env cfg oid)) @ log"
proof -
  obtain client oid log1 log2 where
    "default_config (b_settings env) = Ok cfg"
    "client_new env (cfg_azure cfg) ([(AddReadyzCheck ''readyz'', True), (AddHealthzCheck ''healthz'', True),
       (NewManager (options_for_manager cfg), True), (GetKubeConfig, True)] @ log) = (Ok client, log1)"
    "new_azure_openid_config env (az_tenant (cfg_azure cfg)) log1 = (Ok oid, log2)"
    "log' = [(AddSweeper (new_sweeper (cfg_cluster_name cfg) (tenant_id (az_tenant (cfg_azure cfg)))
        (cfg_sweep_interval cfg)), True), (SpawnMetricsRefresh, True),
      (CompleteController \<lparr>rp_config = cfg, rp_openid = oid, rp_cluster_name = cfg_cluster_name cfg\<rparr>
           \<lparr>co_max_concurrent = cfg_max_concurrent cfg, co_retry_min_interval = retryMinInterval,
            co_retry_max_interval = retryMaxInterval\<rparr>, True)] @ log2"
    using assms
    by (auto simp: run_setup_def kube_config_or_die_Ok_iff setup_with_manager_def bnd_Ok_iff boot_call_Ok_iff)
  then show ?thesis using that [of oid] client_new_Ok new_azure_openid_config_Ok by (fastforce simp: setup_requests_def)
qed

text \<open>Which requests a program of the start can send.\<close>

definition boot_rel :: "(boot_request \<Rightarrow> bool) \<Rightarrow> boot_log \<Rightarrow> boot_log \<Rightarrow> bool" where
  "boot_rel Q log log' \<longleftrightarrow> (\<exists>new. log' = new @ log \<and> (\<forall>e \<in> set new. Q (fst e)))"

interpretation boots: step_relation "boot_rel Q" for Q
proof
  show "boot_rel Q log log" for log by (simp add: boot_rel_def)
  show "boot_rel Q a b \<Longrightarrow> boot_rel Q b c \<Longrightarrow> boot_rel Q a c" for a b c
    by (auto simp: boot_rel_def)
qed

lemma boot_call_moves: "Q req \<Longrightarrow> moves (boot_rel Q) (boot_call req reply)"
  by (rule movesI) (auto simp: boot_call_def boot_rel_def split: sum.splits)

lemma run_setup_moves: "moves (boot_rel (\<lambda>q. q \<noteq> StartManager)) (run_setup env)"
  unfolding run_setup_def kube_config_or_die_def client_new_def new_google_federated_token_source_def
    new_client_credentials_token_source_def new_azure_openid_config_def request_openid_configuration_def
    setup_with_manager_def Let_def
  by (auto intro!: boots.rules boot_call_moves split: sum.split)

text \<open>
  C34: the manager is started only with an accepted configuration, after every other request of the
  set-up has succeeded, in this order and once each, and nothing follows; the operator ends without
  an error exactly when the manager does.
\<close>

theorem manager_starts_last:
  assumes "run_operator env log = (r, log')" "(StartManager, ok) \<in> set log'" "(StartManager, ok) \<notin> set log"
  shows "\<exists>cfg oid. default_config (b_settings env) = Ok cfg \<and>
    log' = (StartManager, ok) # rev (map (\<lambda>q. (q, True)) (setup_requests env cfg oid)) @ log \<and>
    (r = Ok () \<longleftrightarrow> ok)"
proof -
  obtain r1 log1 where prepared: "run_setup env log = (r1, log1)" by (cases "run_setup env log")
  obtain new where new: "log1 = new @ log" "\<forall>e \<in> set new. fst e \<noteq> StartManager"
    using movesD [OF run_setup_moves prepared] by (auto simp: boot_rel_def)
  have none: "(StartManager, ok) \<notin> set log1" using new assms(3) by force
  then have "log' \<noteq> log1" using assms(2) by auto
  then obtain cfg where cfg: "r1 = Ok cfg"
    using assms(1) prepared by (cases r1) (simp_all add: run_operator_def bnd_def)
  then have "wrap ''problem running manager'' (boot_call StartManager (b_unit env)) log1 = (r, log')"
    using assms(1) prepared by (simp add: run_operator_def bnd_def)
  then obtain ok' where "log' = (StartManager, ok') # log1" "r = Ok () \<longleftrightarrow> ok'"
    by (auto simp: wrap_def boot_call_def split: sum.splits)
  moreover have "ok' = ok" using calculation(1) assms(2) none by auto
  ultimately show ?thesis using run_setup_Ok [OF prepared [unfolded cfg]] by metis
qed

definition sample_boot :: boot_env where
  "sample_boot =
     \<lparr>b_settings = sample_settings, b_scope = ''https://graph.microsoft.com/.default'', b_unit = (\<lambda>_ _. Inr ()),
      b_response = (\<lambda>_ _. Inr \<lparr>br_status = 200, br_body = Inr ''{}''\<rparr>),
      b_token = (\<lambda>_ _. Inr (''token'', 0)), b_json = (\<lambda>_. Inr (Some sample_openid))\<rparr>"

lemma manager_starts_last_witness:
  "\<exists>oid. snd (run_operator sample_boot []) =
     (StartManager, True) # rev (map (\<lambda>q. (q, True)) (setup_requests sample_boot quiet_config oid))"
proof -
  have valid: "default_config sample_settings = Ok quiet_config"
    by (simp add: default_config_def config_new_def config_validate_def missing_keys_def present_iff Let_def sample_settings_def)
  let ?run = "run_operator sample_boot []"
  have "(StartManager, True) \<in> set (snd ?run)"
    by (simp add: run_operator_def run_setup_def kube_config_or_die_def client_new_def valid
        new_client_credentials_token_source_def new_azure_openid_config_def request_openid_configuration_def
        setup_with_manager_def Let_def sample_boot_def boot_call_def bnd_def wrap_def attempt_def lift_def ret_def)
  then show ?thesis
    using manager_starts_last [of sample_boot "[]" "fst ?run" "snd ?run" True] valid
    by (auto simp: sample_boot_def)
qed

end
