(* ===== verification/Metrics.thy ===== *)
theory Metrics
  imports World
begin

text \<open>
  pkg/metrics: the gauges and counters of the operator, the initial series of the labelled counters
  and the refresh of the totals. Values are whole numbers, as only lengths and increments by one are
  recorded. A metric vector panics when it is given another number of label values than it has
  labels. The operations of the other components count nothing in this development.
\<close>

datatype metric =
    AzureAppsTotal
  | AzureAppSecretsTotal
  | AzureAppOrphanedTotal
  | AzureAppOrphanedCleanedTotal
  | AzureAppsCreatedCount
  | AzureAppsUpdatedCount
  | AzureAppsRotatedCount
  | AzureAppsProcessedCount
  | AzureAppsFailedProcessingCount
  | AzureAppsDeletedCount
  | AzureAppsSkippedCount
  | ResyncEventsTotal
  | ResyncCandidatesTotal
  | ResyncFailedTotal
  | ResyncFanout

definition labelNamespace :: string where "labelNamespace = ''namespace''"

text \<open>The label names each metric is created with; the gauges have none.\<close>

fun metric_labels :: "metric \<Rightarrow> string list" where
  "metric_labels AzureAppsTotal = []"
| "metric_labels AzureAppSecretsTotal = []"
| "metric_labels AzureAppOrphanedTotal = [labelNamespace, ''tenant'']"
| "metric_labels AzureAppOrphanedCleanedTotal = [labelNamespace, ''tenant'']"
| "metric_labels AzureAppsCreatedCount = [labelNamespace]"
| "metric_labels AzureAppsUpdatedCount = [labelNamespace]"
| "metric_labels AzureAppsRotatedCount = [labelNamespace]"
| "metric_labels AzureAppsProcessedCount = [labelNamespace]"
| "metric_labels AzureAppsFailedProcessingCount = [labelNamespace]"
| "metric_labels AzureAppsDeletedCount = [labelNamespace]"
| "metric_labels AzureAppsSkippedCount = [labelNamespace]"
| "metric_labels ResyncEventsTotal = [''source'', ''event'', ''result'']"
| "metric_labels ResyncCandidatesTotal = [labelNamespace, ''event'']"
| "metric_labels ResyncFailedTotal = [labelNamespace, ''event'']"
| "metric_labels ResyncFanout = [''event'']"

definition all_metrics :: "metric list" where
  "all_metrics =
     [AzureAppsTotal, AzureAppSecretsTotal, AzureAppOrphanedTotal, AzureAppOrphanedCleanedTotal,
      AzureAppsProcessedCount, AzureAppsFailedProcessingCount, AzureAppsCreatedCount,
      AzureAppsUpdatedCount, AzureAppsRotatedCount, AzureAppsDeletedCount, AzureAppsSkippedCount,
      ResyncEventsTotal, ResyncCandidatesTotal, ResyncFailedTotal, ResyncFanout]"

definition all_labeled_counters :: "metric list" where
  "all_labeled_counters =
     [AzureAppsProcessedCount, AzureAppsFailedProcessingCount, AzureAppsCreatedCount,
      AzureAppsUpdatedCount, AzureAppsRotatedCount, AzureAppsDeletedCount, AzureAppsSkippedCount]"

text \<open>The series that exist, by metric and label values.\<close>

type_synonym registry = "metric \<times> string list \<Rightarrow> nat option"

record metrics_state =
  mt_calls :: nat
  mt_namespaces :: "string list"
  mt_registry :: registry

type_synonym 'a metrics = "(metrics_state, 'a) io"

text \<open>\<open>metric.WithLabelValues(values).Add(n)\<close>\<close>

definition add_to_series :: "metric \<Rightarrow> string list \<Rightarrow> nat \<Rightarrow> unit metrics" where
  "add_to_series m values n =
     (if length values \<noteq> length (metric_labels m) then lift Panic
      else modify (\<lambda>s. s\<lparr>mt_registry := (mt_registry s)
        ((m, values) \<mapsto> (case mt_registry s (m, values) of None \<Rightarrow> 0 | Some v \<Rightarrow> v) + n)\<rparr>))"

definition inc_with_namespace_label :: "metric \<Rightarrow> string \<Rightarrow> unit metrics" where
  "inc_with_namespace_label m namespace = add_to_series m [namespace] 1"

definition set_gauge :: "metric \<Rightarrow> nat \<Rightarrow> unit metrics" where
  "set_gauge m v = modify (\<lambda>s. s\<lparr>mt_registry := (mt_registry s)((m, []) \<mapsto> v)\<rparr>)"

text \<open>
  The replies of the cluster: what a list holds after the call, and the error if there is one. They
  are numbered by the calls.
\<close>

record metrics_env =
  me_namespaces :: "nat \<Rightarrow> string list \<times> err option"
  me_secrets :: "nat \<Rightarrow> nat \<times> err option"
  me_apps :: "nat \<Rightarrow> nat \<times> err option"
  me_again :: "nat \<Rightarrow> err + bool"

definition next_call :: "(nat \<Rightarrow> 'a) \<Rightarrow> 'a metrics" where
  "next_call reply = (\<lambda>s. (Ok (reply (mt_calls s)), s\<lparr>mt_calls := Suc (mt_calls s)\<rparr>))"

text \<open>The closure \<open>retryable\<close>: the variable it assigns keeps what the last call returned.\<close>

definition list_namespaces :: "metrics_env \<Rightarrow> unit metrics" where
  "list_namespaces env =
     bnd (next_call (me_namespaces env)) (\<lambda>(ns, e).
     bnd (modify (\<lambda>s. s\<lparr>mt_namespaces := ns\<rparr>)) (\<lambda>_.
     case e of None \<Rightarrow> ret () | Some e \<Rightarrow> fail (Wrapped ''listing namespaces'' e)))"

definition wait_again :: "metrics_env \<Rightarrow> bool metrics" where
  "wait_again env =
     bnd (next_call (me_again env)) (\<lambda>r. case r of Inl e \<Rightarrow> fail e | Inr again \<Rightarrow> ret again)"

definition init_with_namespace_labels :: "metrics_env \<Rightarrow> unit metrics" where
  "init_with_namespace_labels env =
     bnd (attempt (retry_loop (wait_again env) (nat (1 * minute div fibonacci (1 * second))) (list_namespaces env))) (\<lambda>_.
     bnd (gets mt_namespaces) (\<lambda>namespaces.
     for_each (\<lambda>n. for_each (\<lambda>c. add_to_series c [n] 0) all_labeled_counters) namespaces))"

text \<open>One tick of the refresh: errors are logged.\<close>

definition refresh_tick :: "metrics_env \<Rightarrow> unit metrics" where
  "refresh_tick env =
     bnd (next_call (me_secrets env)) (\<lambda>(secrets, _).
     bnd (set_gauge AzureAppSecretsTotal secrets) (\<lambda>_.
     bnd (next_call (me_apps env)) (\<lambda>(apps, _).
     set_gauge AzureAppsTotal apps)))"

text \<open>\<open>Refresh\<close> never returns; here for a number of ticks.\<close>

definition metrics_refresh :: "metrics_env \<Rightarrow> nat \<Rightarrow> unit metrics" where
  "metrics_refresh env ticks =
     bnd (init_with_namespace_labels env) (\<lambda>_. for_each (\<lambda>_. refresh_tick env) [0..<ticks])"

subsection \<open>Facts\<close>

lemma labeled_counters_have_namespace: "m \<in> set all_labeled_counters \<Longrightarrow> metric_labels m = [labelNamespace]"
  by (auto simp: all_labeled_counters_def)

lemma labeled_counters_registered: "set all_labeled_counters \<subseteq> set all_metrics" "distinct all_metrics"
  by (auto simp: all_labeled_counters_def all_metrics_def)

text \<open>The series only grow: values never decrease and no series disappears.\<close>

definition grows :: "metrics_state \<Rightarrow> metrics_state \<Rightarrow> bool" where
  "grows s s' \<longleftrightarrow> (\<forall>k v. mt_registry s k = Some v \<longrightarrow> (\<exists>v' \<ge> v. mt_registry s' k = Some v'))"

interpretation grow: step_relation grows
proof
  show "grows s s" for s by (simp add: grows_def)
  show "grows s s' \<Longrightarrow> grows s' s'' \<Longrightarrow> grows s s''" for s s' s''
    unfolding grows_def by (meson order_trans)
qed

lemma add_to_series_grows: "moves grows (add_to_series m values n)"
  by (rule movesI) (auto simp: add_to_series_def grows_def split: if_splits option.split)

text \<open>Adding zero creates the series that are missing and changes nothing else.\<close>

lemma init_counters:
  "\<exists>s'. for_each (\<lambda>c. add_to_series c [n] 0) cs s = (Ok (), s') \<and>
     (\<forall>c ls. mt_registry s' (c, ls) =
       (if c \<in> set cs \<and> ls = [n] \<and> mt_registry s (c, ls) = None then Some 0 else mt_registry s (c, ls)))"
  if "set cs \<subseteq> set all_labeled_counters" for cs
  using that
proof (induction cs arbitrary: s)
  case (Cons c cs)
  have l: "length [n] = length (metric_labels c)"
    using Cons.prems labeled_counters_have_namespace [of c] by simp
  let ?s = "s\<lparr>mt_registry := (mt_registry s)
        ((c, [n]) \<mapsto> (case mt_registry s (c, [n]) of None \<Rightarrow> 0 | Some v \<Rightarrow> v) + 0)\<rparr>"
  have step: "add_to_series c [n] 0 s = (Ok (), ?s)"
    using l by (simp add: add_to_series_def)
  obtain s' where "for_each (\<lambda>c. add_to_series c [n] 0) cs ?s = (Ok (), s')"
    "\<forall>d ls. mt_registry s' (d, ls) = (if d \<in> set cs \<and> ls = [n] \<and> mt_registry ?s (d, ls) = None then Some 0
       else mt_registry ?s (d, ls))"
    using Cons.IH [of ?s] Cons.prems by auto
  then show ?case using step by (auto simp: bnd_run_Ok split: option.splits)
qed (simp add: ret_def)

lemma init_series:
  "\<exists>s'. for_each (\<lambda>n. for_each (\<lambda>c. add_to_series c [n] 0) all_labeled_counters) ns s = (Ok (), s') \<and>
     (\<forall>c ls. mt_registry s' (c, ls) =
       (if c \<in> set all_labeled_counters \<and> ls \<in> (\<lambda>n. [n]) ` set ns \<and> mt_registry s (c, ls) = None then Some 0
        else mt_registry s (c, ls)))"
proof (induction ns arbitrary: s)
  case (Cons n ns)
  from init_counters [OF order.refl, of n s] obtain s1 where
    s1: "for_each (\<lambda>c. add_to_series c [n] 0) all_labeled_counters s = (Ok (), s1)"
    "\<forall>c ls. mt_registry s1 (c, ls) = (if c \<in> set all_labeled_counters \<and> ls = [n] \<and> mt_registry s (c, ls) = None
       then Some 0 else mt_registry s (c, ls))" by blast
  from Cons.IH [of s1] obtain s' where
    "for_each (\<lambda>n. for_each (\<lambda>c. add_to_series c [n] 0) all_labeled_counters) ns s1 = (Ok (), s')"
    "\<forall>c ls. mt_registry s' (c, ls) =
       (if c \<in> set all_labeled_counters \<and> ls \<in> (\<lambda>n. [n]) ` set ns \<and> mt_registry s1 (c, ls) = None then Some 0
        else mt_registry s1 (c, ls))" by blast
  then show ?case using s1 by (auto simp: bnd_run_Ok)
qed (simp add: ret_def)

text \<open>Creating series leaves the listing alone.\<close>

definition same_listing :: "metrics_state \<Rightarrow> metrics_state \<Rightarrow> bool" where
  "same_listing s s' \<longleftrightarrow> mt_namespaces s' = mt_namespaces s"

interpretation same_listing: step_relation same_listing
  by unfold_locales (auto simp: same_listing_def)

lemma init_series_listing:
  "moves same_listing (for_each (\<lambda>n. for_each (\<lambda>c. add_to_series c [n] 0) all_labeled_counters) ns)"
  by (intro same_listing.for_each movesI) (auto simp: add_to_series_def same_listing_def split: if_splits)

lemma list_namespaces_safe: "fst (list_namespaces env s) \<noteq> Panic" "mt_registry (snd (list_namespaces env s)) = mt_registry s"
  by (auto simp: list_namespaces_def next_call_def bnd_def modify_def ret_def fail_def split: prod.splits option.splits)

lemma wait_again_safe: "fst (wait_again env s) \<noteq> Panic" "mt_registry (snd (wait_again env s)) = mt_registry s"
  by (auto simp: wait_again_def next_call_def bnd_def ret_def fail_def split: prod.splits sum.splits)

lemma retry_namespaces_safe:
  "fst (retry_loop (wait_again env) n (list_namespaces env) s) \<noteq> Panic \<and>
   mt_registry (snd (retry_loop (wait_again env) n (list_namespaces env) s)) = mt_registry s"
proof (induction n arbitrary: s)
  case (Suc n)
  obtain r1 s1 where l: "list_namespaces env s = (r1, s1)" by (cases "list_namespaces env s")
  obtain r2 s2 where w: "wait_again env s1 = (r2, s2)" by (cases "wait_again env s1")
  show ?case
    using list_namespaces_safe [of env s] wait_again_safe [of env s1] l w Suc.IH [of s2]
    by (cases r1; cases r2) (auto simp: catch_def bnd_def fail_def)
qed (simp add: list_namespaces_safe)

text \<open>
  The initialisation of the metrics never fails: after it every labelled counter has a series
  for every namespace that the last listing returned, and all series that existed have kept their
  values.
\<close>

theorem namespace_series_initialised:
  "\<exists>s'. init_with_namespace_labels env s = (Ok (), s') \<and>
    set all_labeled_counters \<times> (\<lambda>n. [n]) ` set (mt_namespaces s') \<subseteq> dom (mt_registry s') \<and>
    mt_registry s \<subseteq>\<^sub>m mt_registry s'"
proof -
  let ?loop = "retry_loop (wait_again env) (nat (1 * minute div fibonacci (1 * second))) (list_namespaces env)"
  obtain r s1 where r: "?loop s = (r, s1)" by (cases "?loop s")
  then have safe: "r \<noteq> Panic" "mt_registry s1 = mt_registry s"
    using retry_namespaces_safe [of env _ s] by (metis fst_conv, metis snd_conv)
  then obtain v where a: "attempt ?loop s = (Ok v, s1)"
    using r by (cases r) (simp_all add: attempt_def)
  from init_series [of "mt_namespaces s1" s1] obtain s' where
    s': "for_each (\<lambda>n. for_each (\<lambda>c. add_to_series c [n] 0) all_labeled_counters) (mt_namespaces s1) s1 = (Ok (), s')"
    "\<forall>c ls. mt_registry s' (c, ls) =
       (if c \<in> set all_labeled_counters \<and> ls \<in> (\<lambda>n. [n]) ` set (mt_namespaces s1) \<and> mt_registry s1 (c, ls) = None
        then Some 0 else mt_registry s1 (c, ls))" by blast
  have "init_with_namespace_labels env s = (Ok (), s')"
    using a s'(1) by (simp add: init_with_namespace_labels_def bnd_run_Ok gets_def bnd_def)
  moreover have "mt_namespaces s' = mt_namespaces s1" using movesD [OF init_series_listing s'(1)] by (simp add: same_listing_def)
  ultimately show ?thesis using s'(2) safe(2) by (auto simp: map_le_def dom_def)
qed

end
