(* ===== verification/Histories.thy ===== *)
theory Histories
  imports ReconcileSafety
begin

text \<open>
  Statements about whole histories: what the newest version of a resource is and which applications
  are registered, the contract of the Kubernetes API and the Graph API (\<open>consistent\<close>), and the
  programs that leave the finalizers of the resources in place.
\<close>

subsection \<open>Histories\<close>

text \<open>Every request of an extension of a history is allowed where it is sent.\<close>

primrec history_ok :: "(event \<Rightarrow> history \<Rightarrow> bool) \<Rightarrow> history \<Rightarrow> history \<Rightarrow> bool" where
  "history_ok Q [] h = True"
| "history_ok Q (e # new) h = (Q e (new @ h) \<and> history_ok Q new h)"

definition extends :: "(event \<Rightarrow> history \<Rightarrow> bool) \<Rightarrow> state \<Rightarrow> state \<Rightarrow> bool" where
  "extends Q s s' \<longleftrightarrow> (\<exists>new. trace s' = new @ trace s \<and> history_ok Q new (trace s))"

lemma history_ok_append [simp]: "history_ok Q (xs @ ys) h \<longleftrightarrow> history_ok Q xs (ys @ h) \<and> history_ok Q ys h"
  by (induction xs) auto

interpretation ext: step_relation "extends Q" for Q
proof
  show "extends Q s s" for s by (auto simp: extends_def)
  show "extends Q s s' \<Longrightarrow> extends Q s' s'' \<Longrightarrow> extends Q s s''" for s s' s''
    by (auto simp: extends_def)
qed

lemma ext_emits:
  assumes "emits P m" "\<And>e h. P e \<Longrightarrow> Q e h"
  shows "moves (extends Q) m"
proof (rule movesI)
  fix s r s'
  assume run: "m s = (r, s')"
  obtain new where n: "trace s' = new @ trace s" "\<forall>e \<in> set new. P e"
    using movesD [OF assms(1) run] by (auto simp: emits_rel_def)
  have "history_ok Q new h" for h using n(2) assms(2) by (induction new) auto
  then show "extends Q s s'" using n(1) by (auto simp: extends_def)
qed

text \<open>\<open>permits Q s m\<close>: started in \<open>s\<close>, \<open>m\<close> only sends what \<open>Q\<close> allows.\<close>

definition permits :: "(event \<Rightarrow> history \<Rightarrow> bool) \<Rightarrow> state \<Rightarrow> 'a prog \<Rightarrow> bool" where
  "permits Q s m \<longleftrightarrow> (\<forall>r s'. m s = (r, s') \<longrightarrow> extends Q s s')"

lemma permits_moves: "moves (extends Q) m \<Longrightarrow> permits Q s m"
  by (auto simp: permits_def dest: movesD)

lemma moves_permits: "(\<And>s. permits Q s m) \<Longrightarrow> moves (extends Q) m"
  by (rule movesI) (simp add: permits_def)

lemma permits_bnd:
  assumes "permits Q s m" "\<And>x s1. m s = (Ok x, s1) \<Longrightarrow> permits Q s1 (f x)"
  shows "permits Q s (bnd m f)"
  unfolding permits_def
proof (intro allI impI)
  fix r s'
  assume run: "bnd m f s = (r, s')"
  show "extends Q s s'"
  proof (cases rule: bnd_cases [of m s f])
    case (Ok x s1)
    then show ?thesis using assms run ext.trans unfolding permits_def by metis
  qed (use assms(1) run in \<open>auto simp: permits_def\<close>)
qed

lemma permits_wrap: "permits Q s m \<Longrightarrow> permits Q s (wrap msg m)"
  by (auto simp: permits_def wrap_def split: prod.splits)

lemma permits_lift: "(\<And>x. r = Ok x \<Longrightarrow> permits Q s (f x)) \<Longrightarrow> permits Q s (bnd (lift r) f)"
  by (rule permits_bnd [OF permits_moves [OF ext.lift]]) (auto simp: lift_def)

lemma permits_step:
  assumes "permits Q s m" "\<And>x s1. m s = (Ok x, s1) \<Longrightarrow> permits Q s1 (k x)"
    and "\<And>e. moves (extends Q) (handle_error env tx e)"
  shows "permits Q s (step env tx m k)"
  unfolding permits_def
proof (intro allI impI)
  fix r s'
  assume "step env tx m k s = (r, s')"
  then show "extends Q s s'"
  proof (cases rule: step_cases)
    case (Ok x s1)
    then show ?thesis using assms(1,2) ext.trans unfolding permits_def by metis
  next
    case (Err e s1)
    then show ?thesis using assms(1) movesD [OF assms(3)] ext.trans unfolding permits_def by metis
  qed (use assms(1) in \<open>auto simp: permits_def\<close>)
qed

lemma extends_at:
  assumes "extends Q s s'" "trace s' = later @ e # earlier @ trace s"
  shows "Q e (earlier @ trace s)"
proof -
  obtain new where "trace s' = new @ trace s" "history_ok Q new (trace s)" using assms(1) by (auto simp: extends_def)
  moreover from this have "new = later @ e # earlier" using assms(2) by simp
  ultimately show ?thesis by simp
qed

text \<open>Whether the newest version that was written of a resource has a finalizer of the operator.\<close>

definition owned :: "azure_ad_application \<Rightarrow> bool" where
  "owned i \<longleftrightarrow> contains_finalizer i FinalizerName \<or> contains_finalizer i FinalizerOldName"

fun finalized :: "(string \<times> string) set \<Rightarrow> string \<Rightarrow> string \<Rightarrow> history \<Rightarrow> bool" where
  "finalized F ns nm [] = ((ns, nm) \<in> F)"
| "finalized F ns nm ((Kube (UpdateResource a), True) # h) =
     (if app_namespace a = ns \<and> app_name a = nm then owned a else finalized F ns nm h)"
| "finalized F ns nm (e # h) = finalized F ns nm h"

text \<open>The applications registered and not deleted, by display name and object ID.\<close>

fun registered ::
  "(history \<Rightarrow> request \<Rightarrow> err + graph_application) \<Rightarrow> history \<Rightarrow> (string \<times> object_id) list" where
  "registered reply [] = []"
| "registered reply ((Graph (AddApplication a), True) # h) =
     (case (reply h (Graph (AddApplication a)), ga_display_name a) of
        (Inr app, Some u) \<Rightarrow>
          (case ga_id app of Some oid \<Rightarrow> (u, oid) # registered reply h | None \<Rightarrow> registered reply h)
      | _ \<Rightarrow> registered reply h)"
| "registered reply ((Graph (DeleteApplication oid), True) # h) =
     filter (\<lambda>(u, i). i \<noteq> oid) (registered reply h)"
| "registered reply (e # h) = registered reply h"

text \<open>
  The contract of the APIs: a read returns the resource asked for, with the operator's finalizers as
  last written (\<open>F\<close> holds the resources that had one at first); the listing by name contains every
  application that is registered under the name; distinct resources have distinct display names
  (names of resources are DNS names and have no colon).
\<close>

definition dns_name :: "string \<Rightarrow> bool" where
  "dns_name x \<longleftrightarrow> CHR '':'' \<notin> set x"

definition consistent :: "env \<Rightarrow> (string \<times> string) set \<Rightarrow> bool" where
  "consistent env F \<longleftrightarrow>
     (\<forall>h ns nm i. e_resource env h (Kube (GetResource ns nm)) = Inr i \<longrightarrow>
        app_namespace i = ns \<and> app_name i = nm \<and> dns_name ns \<and> dns_name nm \<and>
        owned i = finalized F ns nm h) \<and>
     (\<forall>h u p apps oid. e_applications env h (Graph (ListApplications (filter_by_name u) p)) = Inr apps \<longrightarrow>
        (u, oid) \<in> set (registered (e_application env) h) \<longrightarrow> Some oid \<in> ga_id ` set apps) \<and>
     (\<forall>ns nm ns' nm' c. dns_name ns \<longrightarrow> dns_name nm \<longrightarrow> dns_name ns' \<longrightarrow> dns_name nm' \<longrightarrow>
        e_urn env nm ns c = e_urn env nm' ns' c \<longrightarrow> ns = ns' \<and> nm = nm')"

lemma consistent_read:
  "consistent env F \<Longrightarrow> e_resource env h (Kube (GetResource ns nm)) = Inr i \<Longrightarrow>
     app_namespace i = ns \<and> app_name i = nm \<and> dns_name ns \<and> dns_name nm \<and> owned i = finalized F ns nm h"
  unfolding consistent_def by blast

abbreviation urn_of :: "env \<Rightarrow> string \<Rightarrow> string \<Rightarrow> string" where
  "urn_of env ns nm \<equiv> e_urn env nm ns (cfg_cluster_name (e_config env))"

lemma consistent_lookup:
  "consistent env F \<Longrightarrow> e_applications env h (Graph (ListApplications (filter_by_name u) p)) = Inr apps \<Longrightarrow>
     (u, oid) \<in> set (registered (e_application env) h) \<Longrightarrow> Some oid \<in> ga_id ` set apps"
  unfolding consistent_def by blast

lemma consistent_names:
  "consistent env F \<Longrightarrow> dns_name ns \<Longrightarrow> dns_name nm \<Longrightarrow> dns_name ns' \<Longrightarrow> dns_name nm' \<Longrightarrow>
     urn_of env ns nm = urn_of env ns' nm' \<Longrightarrow> ns = ns' \<and> nm = nm'"
  unfolding consistent_def by blast

subsection \<open>Requests that leave the finalizers of a resource in place\<close>

definition written_back :: "env \<Rightarrow> string \<Rightarrow> string \<Rightarrow> azure_ad_application \<Rightarrow> history \<Rightarrow> bool" where
  "written_back env ns nm a h \<longleftrightarrow>
     (\<exists>x y h' i. h = (Kube (GetResource x y), True) # h' \<and>
        e_resource env h' (Kube (GetResource x y)) = Inr i \<and>
        app_namespace a = app_namespace i \<and> app_name a = app_name i \<and>
        ((app_namespace a, app_name a) = (ns, nm) \<longrightarrow> owned i \<longrightarrow> owned a))"

fun benign ::
  "env \<Rightarrow> string \<Rightarrow> string \<Rightarrow> (graph_application \<Rightarrow> bool) \<Rightarrow> event \<Rightarrow> history \<Rightarrow> bool" where
  "benign env ns nm P (Kube (UpdateResource a), ok) h = (ok \<longrightarrow> written_back env ns nm a h)"
| "benign env ns nm P (Graph (AddApplication a), ok) h = (ok \<longrightarrow> P a)"
| "benign env ns nm P e h = True"

lemma benign_ordinary: "\<not> updates_resource e \<Longrightarrow> \<not> adds e \<Longrightarrow> benign env ns nm P e h"
  by (cases "(env, ns, nm, P, e, h)" rule: benign.cases) auto

lemma finalized_extends:
  assumes "consistent env F" "history_ok (benign env ns nm P) new h" "finalized F ns nm h"
  shows "finalized F ns nm (new @ h)"
  using assms(2,3)
proof (induction new)
  case (Cons e new)
  then have IH: "finalized F ns nm (new @ h)" by simp
  show ?case
  proof (cases "(F, ns, nm, e # new @ h)" rule: finalized.cases)
    case (2 F' ns' nm' a h')
    then have "written_back env ns nm a (new @ h)" using Cons.prems(1) by simp
    then obtain x y h1 i where w: "new @ h = (Kube (GetResource x y), True) # h1"
      "e_resource env h1 (Kube (GetResource x y)) = Inr i" "app_namespace a = app_namespace i"
      "app_name a = app_name i" "(app_namespace a, app_name a) = (ns, nm) \<longrightarrow> owned i \<longrightarrow> owned a"
      unfolding written_back_def by blast
    note read = consistent_read [OF assms(1) w(2)]
    show ?thesis
    proof (cases "(app_namespace a, app_name a) = (ns, nm)")
      case True
      then have "owned i" using IH w(1,3,4) read by simp
      then have "owned a" using True w(5) by simp
      then show ?thesis using True 2 by simp
    qed (use IH 2 in auto)
  qed (use IH in auto)
qed simp

text \<open>The applications with a name are unchanged but for deletions and registrations of that name.\<close>

lemma registered_extends:
  assumes "history_ok (benign env ns nm P) new h" "(u, oid) \<in> set (registered (e_application env) (new @ h))"
    and "\<And>a. P a \<Longrightarrow> ga_display_name a \<noteq> Some u"
  shows "(u, oid) \<in> set (registered (e_application env) h)"
  using assms(1,2)
proof (induction new)
  case (Cons e new)
  then show ?case
    using assms(3)
    by (cases "(e_application env, e # new @ h)" rule: registered.cases)
       (auto split: sum.splits option.splits)
qed simp

lemma registered_deleted:
  assumes "(u, oid) \<in> set (registered reply (new @ h))" "\<forall>e \<in> set new. \<not> adds e"
  shows "(u, oid) \<in> set (registered reply h) \<and> (Graph (DeleteApplication oid), True) \<notin> set new"
  using assms
proof (induction new)
  case (Cons e new)
  then show ?case
    by (cases "(reply, e # new @ h)" rule: registered.cases) auto
qed simp

subsection \<open>The invariant\<close>

definition leak_free :: "env \<Rightarrow> (string \<times> string) set \<Rightarrow> string \<Rightarrow> string \<Rightarrow> history \<Rightarrow> bool" where
  "leak_free env F ns nm h \<longleftrightarrow>
     (urn_of env ns nm \<in> fst ` set (registered (e_application env) h) \<longrightarrow> finalized F ns nm h)"

lemma leak_free_extends:
  assumes "consistent env F" "history_ok (benign env ns nm P) new h" "leak_free env F ns nm h"
    and "(\<forall>a. P a \<longrightarrow> ga_display_name a \<noteq> Some (urn_of env ns nm)) \<or> finalized F ns nm h"
  shows "leak_free env F ns nm (new @ h)"
proof (cases "finalized F ns nm h")
  case True
  then show ?thesis using finalized_extends [OF assms(1,2)] by (simp add: leak_free_def)
next
  case False
  then show ?thesis
    using assms registered_extends [OF assms(2)] finalized_extends [OF assms(1,2)]
    unfolding leak_free_def by fastforce
qed

lemma leak_free_moves:
  assumes "consistent env F" "moves (extends (benign env ns nm (\<lambda>_. False))) m" "m s = (r, s')"
    and "leak_free env F ns nm (trace s)"
  shows "leak_free env F ns nm (trace s')"
  using leak_free_extends [OF assms(1) _ assms(4), of "\<lambda>_. False"] movesD [OF assms(2,3)]
  by (auto simp: extends_def)

subsection \<open>Programs that leave the finalizers in place\<close>

text \<open>A write of a version that was just read, with the finalizers it had.\<close>

definition keeps_identity :: "azure_ad_application \<Rightarrow> azure_ad_application \<Rightarrow> bool" where
  "keeps_identity i a \<longleftrightarrow> app_namespace a = app_namespace i \<and> app_name a = app_name i \<and>
     app_finalizers a = app_finalizers i"

lemma keeps_identity_owned: "keeps_identity i a \<Longrightarrow> owned a = owned i"
  by (simp add: keeps_identity_def owned_def contains_finalizer_def)

lemma identity_kept [simp]:
  "keeps_identity i i" "keeps_identity i (set_annotation k v i)" "keeps_identity i (add_to_annotation k v i)"
  "keeps_identity i (remove_annotation k i)" "keeps_identity i (remove_from_annotation k i)"
  "keeps_identity i (i\<lparr>app_annotations := m\<rparr>)"
  by (auto simp: keeps_identity_def set_annotation_def add_to_annotation_def remove_annotation_def
      remove_from_annotation_def Let_def split: option.splits)

lemma identity_trans: "keeps_identity i j \<Longrightarrow> keeps_identity j k \<Longrightarrow> keeps_identity i k"
  by (simp add: keeps_identity_def)

lemma mark_keeps_identity [simp]: "keeps_identity i (mark_for_resync env e i)"
  unfolding mark_for_resync_def by (rule identity_trans [OF identity_kept(3) identity_kept(2)])

lemma remove_processed_keeps_identity [simp]: "keeps_identity i (remove_processed j i)"
  unfolding remove_processed_def Let_def
  by (auto intro: identity_trans [OF identity_kept(5) identity_kept(4)])

lemma update_application_extends:
  assumes run: "update_application env upd s = (r, s')"
    and upd: "\<And>i h t. e_resource env h (Kube (GetResource (app_namespace (inst s)) (app_name (inst s)))) = Inr i \<Longrightarrow>
      trace (snd (upd i t)) = trace t \<or>
      (\<exists>a ok. trace (snd (upd i t)) = (Kube (UpdateResource a), ok) # trace t \<and>
         app_namespace a = app_namespace i \<and> app_name a = app_name i \<and>
         ((app_namespace a, app_name a) = (ns, nm) \<longrightarrow> owned i \<longrightarrow> owned a))"
  shows "extends (benign env ns nm P) s s'"
proof -
  let ?req = "Kube (GetResource (app_namespace (inst s)) (app_name (inst s)))"
  let ?s1 = "s\<lparr>trace := (Runtime LockAppsync, True) # trace s\<rparr>"
  show "extends (benign env ns nm P) s s'"
  proof (cases "e_resource env (trace ?s1) ?req")
    case (Inl e)
    then have "trace s' = [(Runtime UnlockAppsync, True), (?req, False), (Runtime LockAppsync, True)] @ trace s"
      using run by (auto simp: update_application_run Let_def split: if_splits)
    then show ?thesis unfolding extends_def by (intro exI conjI) (assumption, simp)
  next
    case (Inr i)
    let ?s2 = "?s1\<lparr>trace := (?req, True) # trace ?s1\<rparr>"
    obtain new where new: "trace s' = new @ trace (snd (upd i ?s2))" "new = [(Runtime UnlockAppsync, True)]"
      using run Inr by (auto simp: update_application_run Let_def split: prod.splits)
    from upd [OF Inr, of ?s2] show ?thesis
    proof
      assume "trace (snd (upd i ?s2)) = trace ?s2"
      then have "trace s' = (new @ [(?req, True), (Runtime LockAppsync, True)]) @ trace s" using new(1) by simp
      then show ?thesis unfolding extends_def using new(2) by (intro exI conjI) (assumption, auto)
    next
      assume "\<exists>a ok. trace (snd (upd i ?s2)) = (Kube (UpdateResource a), ok) # trace ?s2 \<and>
         app_namespace a = app_namespace i \<and> app_name a = app_name i \<and>
         ((app_namespace a, app_name a) = (ns, nm) \<longrightarrow> owned i \<longrightarrow> owned a)"
      then obtain a ok where a: "trace (snd (upd i ?s2)) = (Kube (UpdateResource a), ok) # trace ?s2"
        "app_namespace a = app_namespace i" "app_name a = app_name i"
        "(app_namespace a, app_name a) = (ns, nm) \<longrightarrow> owned i \<longrightarrow> owned a" by blast
      have w: "written_back env ns nm a ([(?req, True), (Runtime LockAppsync, True)] @ trace s)"
        unfolding written_back_def using Inr a(2-4) by (intro exI conjI) auto
      have "trace s' = (new @ [(Kube (UpdateResource a), ok), (?req, True), (Runtime LockAppsync, True)]) @ trace s"
        using new(1) a(1) by simp
      then show ?thesis unfolding extends_def using new(2) w by (intro exI conjI) (assumption, auto)
    qed
  qed
qed

lemma update_application_benign:
  assumes "\<And>i s. trace (snd (upd i s)) = trace s \<or>
      (\<exists>a ok. trace (snd (upd i s)) = (Kube (UpdateResource a), ok) # trace s \<and>
         app_namespace a = app_namespace i \<and> app_name a = app_name i \<and>
         ((app_namespace a, app_name a) = (ns, nm) \<longrightarrow> owned i \<longrightarrow> owned a))"
  shows "moves (extends (benign env ns nm P)) (update_application env upd)"
  by (rule movesI, rule update_application_extends, assumption, rule assms)

lemma ordinary_benign: "emits ordinary m \<Longrightarrow> moves (extends (benign env ns nm P)) m"
  by (erule ext_emits, rule benign_ordinary) (auto simp: ordinary_iff)

lemma deleting_benign: "emits deleting m \<Longrightarrow> moves (extends (benign env ns nm P)) m"
proof (erule ext_emits, rule benign_ordinary)
  show "deleting e \<Longrightarrow> \<not> updates_resource e" "deleting e \<Longrightarrow> \<not> adds e" for e
    by (cases e rule: deletes.cases; auto simp: ordinary_iff)+
qed

lemma finalizer_register_benign: "moves (extends (benign env ns nm P)) (finalizer_register env tx)"
  unfolding finalizer_register_def
proof (intro ext.wrap update_application_benign disjI2)
  show "\<exists>a ok. trace (snd (call (Kube (UpdateResource (add_finalizer FinalizerName i))) (e_unit env) s)) =
      (Kube (UpdateResource a), ok) # trace s \<and>
      app_namespace a = app_namespace i \<and> app_name a = app_name i \<and>
      ((app_namespace a, app_name a) = (ns, nm) \<longrightarrow> owned i \<longrightarrow> owned a)" for i s
    by (rule exI [of _ "add_finalizer FinalizerName i"])
       (auto simp: call_def add_finalizer_def owned_def contains_finalizer_def split: sum.split)
qed

lemma update_annotations_benign: "moves (extends (benign env ns nm P)) (update_annotations env tx)"
  unfolding update_annotations_def Let_def
proof (intro ext.wrap update_application_benign)
  fix i s
  let ?upd = "bnd instance_of (\<lambda>j.
         bnd (modify (\<lambda>s. s\<lparr>inst := remove_processed j j\<rparr>)) (\<lambda>_.
         bnd (lift (merge_annotations (app_annotations (remove_processed j i)) (app_annotations (remove_processed j j))))
           (\<lambda>merged. call (Kube (UpdateResource ((remove_processed j i)\<lparr>app_annotations := merged\<rparr>))) (e_unit env)))) s"
  have k: "keeps_identity i ((remove_processed (inst s) i)\<lparr>app_annotations := m\<rparr>)" for m
    by (rule identity_trans [OF remove_processed_keeps_identity identity_kept(6)])
  show "trace (snd ?upd) = trace s \<or> (\<exists>a ok. trace (snd ?upd) = (Kube (UpdateResource a), ok) # trace s \<and>
      app_namespace a = app_namespace i \<and> app_name a = app_name i \<and>
      ((app_namespace a, app_name a) = (ns, nm) \<longrightarrow> owned i \<longrightarrow> owned a))"
  proof (cases "merge_annotations (app_annotations (remove_processed (inst s) i)) (app_annotations (remove_processed (inst s) (inst s)))")
    case (Ok m)
    let ?a = "(remove_processed (inst s) i)\<lparr>app_annotations := m\<rparr>"
    have "\<exists>ok. trace (snd ?upd) = (Kube (UpdateResource ?a), ok) # trace s"
      using Ok by (auto simp: bnd_def instance_of_def gets_def modify_def lift_def call_def split: sum.split)
    then obtain ok where "trace (snd ?upd) = (Kube (UpdateResource ?a), ok) # trace s" ..
    moreover have "app_namespace ?a = app_namespace i" "app_name ?a = app_name i" "owned ?a = owned i"
      using k [of m] keeps_identity_owned [OF k [of m]] unfolding keeps_identity_def by blast+
    ultimately show ?thesis by (intro disjI2 exI [of _ ?a] exI [of _ ok]) simp
  qed (auto simp: bnd_def instance_of_def gets_def modify_def lift_def)
qed

lemma complete_benign: "moves (extends (benign env ns nm P)) (complete env tx)"
proof -
  have e: "moves (extends (benign env ns nm P)) (report_event env ty reason msg)" for ty reason msg
    by (intro ordinary_benign report_event_emits) simp
  have st: "moves (extends (benign env ns nm P)) (set_status f)"
    "moves (extends (benign env ns nm P)) instance_of" "moves (extends (benign env ns nm P)) (now env)" for f
    by (intro ordinary_benign emits_intros; simp)+
  show ?thesis
    unfolding complete_def
    by (intro ext.bnd ext.catch ext.wrap ext.lift ext.ret ext.fail e st update_annotations_benign
        update_status_ordinary [THEN ordinary_benign])
qed

text \<open>Reading and writing back, with retries on conflicts.\<close>

lemma resync_benign:
  assumes "\<And>i. keeps_identity i (f i)"
  shows "moves (extends (benign env ns nm P))
    (bnd (wrap msg (call (Kube (GetResource x y)) (e_resource env))) (\<lambda>i. bnd (wrap msg'
       (call (Kube (UpdateResource (f i))) (e_unit env))) (\<lambda>u. ret (g u))))"
proof (rule movesI)
  fix s r s'
  assume run: "bnd (wrap msg (call (Kube (GetResource x y)) (e_resource env))) (\<lambda>i. bnd (wrap msg'
       (call (Kube (UpdateResource (f i))) (e_unit env))) (\<lambda>u. ret (g u))) s = (r, s')"
  show "extends (benign env ns nm P) s s'"
  proof (cases "e_resource env (trace s) (Kube (GetResource x y))")
    case (Inl e)
    then have "trace s' = [(Kube (GetResource x y), False)] @ trace s"
      using run by (auto simp: bnd_def wrap_def call_def)
    then show ?thesis unfolding extends_def by (intro exI conjI) (assumption, simp)
  next
    case (Inr i)
    have w: "written_back env ns nm (f i) ((Kube (GetResource x y), True) # trace s)"
      unfolding written_back_def using Inr assms [of i] keeps_identity_owned [OF assms [of i]]
      by (intro exI conjI) (auto simp: keeps_identity_def)
    have "\<exists>ok. trace s' = [(Kube (UpdateResource (f i)), ok), (Kube (GetResource x y), True)] @ trace s"
      using run Inr by (auto simp: bnd_def wrap_def call_def ret_def split: sum.splits)
    then obtain ok where "trace s' = [(Kube (UpdateResource (f i)), ok), (Kube (GetResource x y), True)] @ trace s" ..
    then show ?thesis unfolding extends_def using w by (intro exI conjI) (assumption, simp)
  qed
qed

lemma bnd_ret_right: "bnd m ret = m"
  by (rule ext) (auto simp: bnd_def ret_def split: prod.split outcome.split)

lemma synchronizer_resync_benign: "moves (extends (benign env ns nm P)) (synchronizer_resync env app e)"
  unfolding synchronizer_resync_def
  by (intro ext.retry_on_conflict)
     (use resync_benign [where f = "mark_for_resync env e" and g = "\<lambda>u. u"] in \<open>simp add: bnd_ret_right\<close>)

lemma sweeper_resync_benign: "moves (extends (benign env ns nm P)) (sweeper_resync env app)"
proof -
  let ?get = "wrap ''getting newest version from cluster''
               (call (Kube (GetResource (app_namespace app) (app_name app))) (e_resource env))"
  let ?put = "\<lambda>i. bnd (wrap ''setting resync annotation''
               (call (Kube (UpdateResource (set_annotation ResynchronizeKey sourceSweeper i)))
                 (e_unit env))) (\<lambda>_. ret True)"
  have "moves (extends (benign env ns nm P)) (bnd ?get (\<lambda>i. if has_annotation i ResynchronizeKey \<noteq> None then ret False else ?put i))"
  proof (rule movesI)
    fix s r s'
    assume run: "bnd ?get (\<lambda>i. if has_annotation i ResynchronizeKey \<noteq> None then ret False else ?put i) s = (r, s')"
    have "bnd ?get (\<lambda>i. if has_annotation i ResynchronizeKey \<noteq> None then ret False else ?put i) s
        \<in> {bnd ?get ?put s, bnd ?get (\<lambda>_. ret False) s}"
      by (cases rule: bnd_cases [of ?get s "\<lambda>i. if has_annotation i ResynchronizeKey \<noteq> None then ret False else ?put i"])
        (simp_all add: bnd_run_Ok bnd_run_Err bnd_run_Panic)
    then have cases: "bnd ?get ?put s = (r, s') \<or> bnd ?get (\<lambda>_. ret False) s = (r, s')"
      using run by (simp, metis)
    have put: "moves (extends (benign env ns nm P)) (bnd ?get ?put)"
      by (rule resync_benign [where g = "\<lambda>_. True"]) simp
    have get: "moves (extends (benign env ns nm P)) (bnd ?get (\<lambda>_. ret False))"
      by (intro ordinary_benign emits_intros) simp
    show "extends (benign env ns nm P) s s'" using cases movesD [OF put] movesD [OF get] by blast
  qed
  then show ?thesis unfolding sweeper_resync_def by (rule ext.retry_on_conflict)
qed

lemma produce_event_benign: "moves (extends (benign env ns nm P)) (produce_event env tx i res)"
proof -
  have list: "moves (extends (benign env ns nm P)) (call (Kube ListResources) (e_resources env))"
    by (intro ordinary_benign emits_intros) simp
  have "moves (extends (benign env ns nm P)) (synchronize env e)" for e
    unfolding synchronize_def
    by (auto intro!: ext.bnd ext.wrap ext.for_each ext.ret list synchronizer_resync_benign split: outcome.split)
  moreover have "moves (extends (benign env ns nm P)) (call (Runtime (RetryWait b t)) (e_again env))" for b t
    by (intro ordinary_benign emits_intros) simp
  ultimately show ?thesis
    unfolding produce_event_def retry_do_def Let_def
    by (auto intro!: ext.bnd ext.attempt ext.retry_loop ext.ret split: outcome.split)
qed

lemma sweep_benign: "moves (extends (benign env ns nm P)) (sweep env)"
proof -
  have list: "moves (extends (benign env ns nm P)) (call (Kube ListResources) (e_resources env))"
    by (intro ordinary_benign emits_intros) simp
  have r: "emits ordinary (sweeper_resolve env rule)" for rule
    unfolding sweeper_resolve_def Let_def
    by (auto intro!: emits_intros ordinary_of(1) [OF pre_authorized_app_client_id_reads] split: option.split sum.split)
  have a: "emits ordinary (any_assignable env us)" for us
    by (induction us) (auto intro!: emits_intros r split: option.split)
  have b: "emits ordinary (any_recreated env as)" for as
    by (induction as) (auto intro!: emits_intros r split: option.split)
  have "emits ordinary (should_resync env app)" for app
    unfolding should_resync_def has_resyncable_pre_auth_app_def by (auto intro!: emits_intros a b)
  note candidate = ordinary_benign [OF this]
  show ?thesis
    unfolding sweep_def
    by (auto intro!: ext.bnd ext.attempt ext.for_each ext.ret list candidate sweeper_resync_benign split: sum.split)
qed

end
