(* ===== verification/Lifecycle.thy ===== *)
theory Lifecycle
  imports Histories Scenario
begin

text \<open>
  The operator over time. A run of the operator is a sequence of reconciliations, of events produced
  after them and of sweeps, all on one history. Between two of its requests anything may happen to
  the cluster and to Azure: the replies depend on the history in any way that keeps to the contract
  of the Kubernetes API and the Graph API that \<open>consistent\<close> states. The invariant is that no
  application is leaked: an application that is registered belongs to a resource that still carries
  a finalizer of the operator, so it cannot disappear before its application is deleted.
\<close>

subsection \<open>Registrations\<close>

definition names :: "string \<Rightarrow> event \<Rightarrow> bool" where
  "names u e \<longleftrightarrow> ordinary e \<or> (\<exists>a ok. e = (Graph (AddApplication a), ok) \<and> ga_display_name a = Some u)"

lemma names_ordinary: "ordinary e \<Longrightarrow> names u e"
  by (simp add: names_def)

lemma names_benign: "emits (names u) m \<Longrightarrow> moves (extends (benign env ns nm (\<lambda>a. ga_display_name a = Some u))) m"
proof (erule ext_emits)
  fix e h
  assume "names u e"
  then show "benign env ns nm (\<lambda>a. ga_display_name a = Some u) e h"
    unfolding names_def using benign_ordinary [of e] by (auto simp: ordinary_iff)
qed

lemma names_known: "names u (Cache c, ok)" "names u (Runtime r, ok)" "names u (Kube (RecordEvent x y z), ok)"
  "names u (Graph (PatchApplication i p), ok)"
  by (simp_all add: names_def)

lemma application_register_names: "emits (names (tx_urn tx)) (application_register env tx)"
  unfolding application_register_def Let_def
  by (auto intro!: emits_intros names_known)
     (simp add: names_def with_resource_access_def with_redirect_uris_def with_permission_scopes_def
       with_optional_claims_def with_group_membership_claims_def with_app_roles_def default_template_def)

lemma azure_process_names: "emits (names (tx_urn tx)) (azure_process env tx)"
proof -
  note ord = of_ordinary [OF _ names_ordinary]
  have up: "emits (names (tx_urn tx)) (update_with_application_ids app)"
    "emits (names (tx_urn tx)) (update_with_service_principal_id sp)" for app sp
    unfolding update_with_application_ids_def update_with_service_principal_id_def by (auto intro!: emits_intros)
  have uri: "emits (names (tx_urn tx)) (identifier_uri_set env tx uris)" for uris
    unfolding identifier_uri_set_def by (auto intro!: emits_intros application_patch_emits names_known)
  have "emits (names (tx_urn tx)) (client_create env tx)"
    unfolding client_create_def Let_def
    by (auto intro!: emits_intros up uri do_retry_emits names_known application_register_names
        ord [OF ordinary_of(2) [OF sp_register_emits]] ord [OF ordinary_of(2) [OF client_process_emits]])
  then have "emits (names (tx_urn tx)) (azure_create env tx)"
    unfolding azure_create_def by (auto intro!: emits_intros report_event_emits names_known)
  then show ?thesis
    unfolding azure_process_def by (auto intro!: emits_intros names_known azure_parts_ordinary [THEN ord])
qed

text \<open>The part of a reconciliation after the finalizer registers under the name of the resource only.\<close>

lemma reconcile_credentials_benign:
  "moves (extends (benign env ns nm (\<lambda>a. ga_display_name a = Some (tx_urn tx)))) (reconcile_credentials env tx)"
proof -
  let ?R = "extends (benign env ns nm (\<lambda>a. ga_display_name a = Some (tx_urn tx)))"
  have st: "moves ?R (step env tx' m k)" if "moves ?R m" "\<And>x. moves ?R (k x)" for tx' k and m :: "'a prog"
    unfolding step_def
    by (intro ext.bnd ext.attempt that(1))
       (auto split: sum.split intro: that(2) handle_error_ordinary [THEN ordinary_benign])
  have process: "moves ?R (controller_process env tx')" if "tx_urn tx' = tx_urn tx" for tx'
    unfolding controller_process_def
    by (intro ext.bnd ext.wrap names_benign [OF azure_process_names [of tx', unfolded that]]
        ordinary_benign [OF secrets_process_ordinary])
  have drop: "moves ?R (secrets_delete_unused env tx')" for tx'
    by (rule ext_emits [where P = drops], rule secrets_delete_unused_class, simp, rule benign_ordinary)
       (cases rule: drops.cases; auto)+
  have u: "tx_urn (if b then tx else with_invalid_credentials tx) = tx_urn tx" for b by simp
  show ?thesis
    unfolding reconcile_credentials_def Let_def
    by (intro st azure_credentials_ordinary [THEN ordinary_benign] drop)
       (auto intro!: st ext.ret azure_credentials_ordinary [THEN ordinary_benign] process complete_benign)
qed

subsection \<open>What a transaction knows about the application\<close>

lemma finalized_unwritten:
  "\<forall>e \<in> set n. \<not> updates_resource e \<Longrightarrow> finalized F ns nm (n @ h) = finalized F ns nm h"
proof (induction n)
  case (Cons e n)
  then show ?case by (cases "(F, ns, nm, e # n @ h)" rule: finalized.cases) auto
qed simp

lemma registered_ordinary:
  assumes "emits ordinary m" "m s = (r, s')"
  shows "set (registered reply (trace s')) \<subseteq> set (registered reply (trace s))"
proof
  fix p
  assume p: "p \<in> set (registered reply (trace s'))"
  obtain n where n: "trace s' = n @ trace s" "\<forall>e \<in> set n. ordinary e"
    using movesD [OF assms] by (auto simp: emits_rel_def)
  then show "p \<in> set (registered reply (trace s))"
    using p registered_deleted [of "fst p" "snd p" reply n "trace s"] by (auto simp: ordinary_iff)
qed

text \<open>
  A prepared transaction is for the resource that was read, and every application registered under
  its name is the one with the object ID in the status; there is none if none was found.
\<close>

lemma prepare_knows:
  assumes "consistent env F" "prepare env namespace name s = (Ok tx, s1)"
  shows "tx_urn tx = urn_of env namespace name"
    and "app_namespace (inst s1) = namespace \<and> app_name (inst s1) = name"
    and "owned (inst s1) = finalized F namespace name (trace s1)"
    and "\<And>oid. (tx_urn tx, oid) \<in> set (registered (e_application env) (trace s1)) \<Longrightarrow>
      tx_exists_in_azure tx \<and> oid = status_object_id (app_status (inst s1))"
proof -
  from prepare_Ok [OF assms(2)] obtain i0 :: azure_ad_application where
    i0: "e_resource env (trace s) (Kube (GetResource namespace name)) = Inr i0" "frame_rel (s\<lparr>inst := i0\<rparr>) s1" .
  note read = consistent_read [OF assms(1) i0(1)]
  obtain n where n: "trace s1 = n @ trace s" "\<forall>e \<in> set n. ordinary e"
    using movesD [OF prepare_ordinary assms(2)] by (auto simp: emits_rel_def)
  have fin: "finalized F namespace name (n @ h) = finalized F namespace name h" for h
    using n(2) by (intro finalized_unwritten) (simp add: ordinary_iff)
  show "app_namespace (inst s1) = namespace \<and> app_name (inst s1) = name"
    using i0(2) read by (simp add: frame_rel_def)
  show "owned (inst s1) = finalized F namespace name (trace s1)"
    using i0(2) read fin n(1) by (simp add: frame_rel_def owned_def contains_finalizer_def)
  obtain cid sa sb sc sd secrets opts t tx0 found where
    sa: "get_or_generate_correlation_id env
       (s\<lparr>trace := (Kube (GetResource namespace name), True) # trace s, inst := i0\<rparr>) = (Ok cid, sa)"
    and sb: "set_status (\<lambda>st. st\<lparr>status_correlation_id := cid\<rparr>) sa = (Ok (), sb)"
    and sc: "secrets_prepare env sb = (Ok secrets, sc)"
    and sd: "azure_exists env tx0 sd = (Ok found, s1)" "inst sd = inst sc"
    and tx: "tx = tx0\<lparr>tx_exists_in_azure := found\<rparr>"
      "tx_urn tx0 = e_urn env (app_name (inst sc)) (app_namespace (inst sc)) (cfg_cluster_name (e_config env))"
    using assms(2) i0(1) unfolding prepare_def
    by (auto simp: bnd_Ok_iff call_Ok_iff ids_iff now_iff set_status_iff Let_def)
  have "frame_rel (s\<lparr>inst := i0\<rparr>) sa"
    using movesD [OF correlation_id_same sa] by (simp add: frame_rel_def same_inst_def)
  moreover have "frame_rel sa sb" by (rule movesD [OF frame_set_status sb])
  moreover have "frame_rel sb sc" by (rule movesD [OF secrets_prepare_frame sc])
  ultimately have "frame_rel (s\<lparr>inst := i0\<rparr>) sc" by (meson frame.trans)
  then show u: "tx_urn tx = urn_of env namespace name"
    using tx read by (simp add: frame_rel_def)
  show "tx_exists_in_azure tx \<and> oid = status_object_id (app_status (inst s1))"
    if "(tx_urn tx, oid) \<in> set (registered (e_application env) (trace s1))" for oid
  proof -
    have "(tx_urn tx0, oid) \<in> set (registered (e_application env) (trace sd))"
      using that tx(1) registered_ordinary [OF azure_exists_ordinary sd(1)] by auto
    moreover from azure_exists_Ok [OF sd(1)] obtain apps where
      "e_applications env (trace sd) (Graph (ListApplications (filter_by_name (tx_urn tx0)) (max_pages env))) = Inr apps"
      "ga_id ` set apps = (if found then {Some (status_object_id (app_status (inst s1)))} else {})" .
    ultimately have "Some oid \<in> (if found then {Some (status_object_id (app_status (inst s1)))} else {})"
      using consistent_lookup [OF assms(1)] by metis
    then show ?thesis using tx(1) by (simp split: if_splits)
  qed
qed


subsection \<open>Finalization\<close>

text \<open>
  Finalizing another resource does not concern the one under consideration: the requests are for the
  instance, whose name does not change.
\<close>

definition identity :: "state \<Rightarrow> string \<times> string" where
  "identity s = (app_namespace (inst s), app_name (inst s))"

definition apart :: "env \<Rightarrow> string \<Rightarrow> string \<Rightarrow> state \<Rightarrow> state \<Rightarrow> bool" where
  "apart env ns nm s s' \<longleftrightarrow> (identity s \<noteq> (ns, nm) \<longrightarrow>
     identity s' = identity s \<and> extends (benign env ns nm (\<lambda>_. False)) s s')"

interpretation apart: step_relation "apart env ns nm" for env ns nm
proof
  show "apart env ns nm s s" for s by (simp add: apart_def ext.refl)
  show "apart env ns nm s s' \<Longrightarrow> apart env ns nm s' s'' \<Longrightarrow> apart env ns nm s s''" for s s' s''
    by (auto simp: apart_def intro: ext.trans)
qed

lemma apart_parts:
  assumes "moves frame_rel m" "emits deleting m"
  shows "moves (apart env ns nm) m"
  using assms(1) deleting_benign [OF assms(2)] by (auto simp: moves_def apart_def frame_rel_def identity_def)

lemma ordinary_deleting: "emits ordinary m \<Longrightarrow> emits deleting m"
  by (erule emits_mono) simp

lemma remove_finalizers_apart:
  assumes "consistent env F"
  shows "moves (apart env ns nm) (update_application env (\<lambda>existing.
         call (Kube (UpdateResource (remove_finalizer FinalizerOldName (remove_finalizer FinalizerName existing)))) (e_unit env)))"
    (is "moves _ (update_application env ?upd)")
proof (rule movesI)
  fix s r s'
  assume run: "update_application env ?upd s = (r, s')"
  have "moves same_inst (update_application env ?upd)"
    unfolding update_application_def by (auto intro!: same_inst_intros split: sum.split)
  from movesD [OF this run] have "identity s' = identity s" by (simp add: same_inst_def identity_def)
  moreover have "extends (benign env ns nm (\<lambda>_. False)) s s'" if other: "identity s \<noteq> (ns, nm)"
    using run
  proof (rule update_application_extends, intro disjI2)
    fix i h t
    assume "e_resource env h (Kube (GetResource (app_namespace (inst s)) (app_name (inst s)))) = Inr i"
    from consistent_read [OF assms this] show
      "\<exists>a ok. trace (snd (?upd i t)) = (Kube (UpdateResource a), ok) # trace t \<and>
         app_namespace a = app_namespace i \<and> app_name a = app_name i \<and>
         ((app_namespace a, app_name a) = (ns, nm) \<longrightarrow> owned i \<longrightarrow> owned a)"
      using other
      by (intro exI [of _ "remove_finalizer FinalizerOldName (remove_finalizer FinalizerName i)"])
         (auto simp: call_def remove_finalizer_def identity_def split: sum.split)
  qed
  ultimately show "apart env ns nm s s'" by (simp add: apart_def)
qed

lemma finalizer_process_apart:
  assumes "consistent env F"
  shows "moves (apart env ns nm) (finalizer_finalize env tx)"
proof -
  have p: "moves (apart env ns nm) (azure_purge_credentials env tx)"
    unfolding azure_purge_credentials_def
    by (intro apart_parts ordinary_deleting)
       (auto intro!: frame_of_same_inst same_inst_intros credentials_same emits_intros
         credentials_emits [THEN ordinary_of(3)])
  have d: "moves (apart env ns nm) (azure_delete env tx)"
    by (intro apart_parts azure_delete_deleting)
       (auto simp: azure_delete_def intro!: frame_of_same_inst same_inst_intros client_delete_same)
  have e: "moves (apart env ns nm) (report_event env ty reason msg)" for ty reason msg
    unfolding report_event_def
    by (intro apart_parts frame.bnd frame_set_status frame_of_same_inst [OF same_inst_basic(1)]
        report_event_emits [unfolded report_event_def]) simp_all
  have i: "moves (apart env ns nm) instance_of"
    by (intro apart_parts) (auto intro!: frame_of_same_inst same_inst_intros emits_intros)
  show ?thesis
    unfolding finalizer_finalize_def
    by (auto intro!: apart.bnd apart.wrap p d e i remove_finalizers_apart [OF assms])
qed

lemma unregistered_moves:
  assumes "emits (\<lambda>e. \<not> adds e) m" "m s = (r, s')" "u \<notin> fst ` set (registered reply (trace s))"
  shows "u \<notin> fst ` set (registered reply (trace s'))"
proof -
  obtain n where "trace s' = n @ trace s" "\<forall>e \<in> set n. \<not> adds e"
    using movesD [OF assms(1,2)] by (auto simp: emits_rel_def)
  then show ?thesis using assms(3) registered_deleted [of u _ reply n "trace s"] by force
qed

text \<open>After a released application nothing is registered under the name.\<close>

lemma released_unregisters:
  assumes "released env tx s = (Ok (), s')"
    and "\<And>oid. (u, oid) \<in> set (registered reply (trace s)) \<Longrightarrow>
      tx_exists_in_azure tx \<and> oid = status_object_id (app_status (inst s))"
  shows "u \<notin> fst ` set (registered reply (trace s'))"
proof
  assume "u \<in> fst ` set (registered reply (trace s'))"
  then obtain oid where oid: "(u, oid) \<in> set (registered reply (trace s'))" by auto
  have adds: "emits (\<lambda>e. \<not> adds e) (released env tx)"
    unfolding released_def by (auto intro!: emits_intros azure_delete_emits report_event_emits)
  then obtain n where n: "trace s' = n @ trace s" "\<forall>e \<in> set n. \<not> adds e"
    using movesD [OF adds assms(1)] by (auto simp: emits_rel_def)
  have "(u, oid) \<in> set (registered reply (trace s))" "(Graph (DeleteApplication oid), True) \<notin> set n"
    using registered_deleted [of u oid reply n "trace s"] oid n by auto
  moreover from this(1) have "tx_exists_in_azure tx" "oid = status_object_id (app_status (inst s))"
    using assms(2) by blast+
  moreover from released_Ok [OF assms(1) this(1)] obtain n' where "trace s' = n' @ trace s"
    "(Graph (DeleteApplication (status_object_id (app_status (inst s)))), True) \<in> set n'" .
  ultimately show False using n(1) by simp
qed

lemma released_deleting: "emits deleting (released env tx)"
  unfolding released_def by (auto intro!: emits_intros azure_delete_deleting report_event_emits)

lemma finalizer_leak_free:
  assumes cons: "consistent env F" and run: "finalizer_process env tx s = (r, s')"
    and free: "leak_free env F ns nm (trace s)"
    and known: "\<And>oid. identity s = (ns, nm) \<Longrightarrow>
      (urn_of env ns nm, oid) \<in> set (registered (e_application env) (trace s)) \<Longrightarrow>
      tx_exists_in_azure tx \<and> oid = status_object_id (app_status (inst s))"
    and lost: "identity s = (ns, nm) \<Longrightarrow> has_annotation (inst s) PreserveKey = None"
  shows "leak_free env F ns nm (trace s')"
proof (cases "(contains_finalizer (inst s) FinalizerName \<or> contains_finalizer (inst s) FinalizerOldName)
    \<and> app_deletion_timestamp (inst s) \<noteq> None")
  case False
  have "moves (extends (benign env ns nm (\<lambda>_. False))) (if b then bnd (finalizer_register env tx) (\<lambda>_. ret True) else ret False)" for b
    by (auto intro!: ext.bnd ext.ret finalizer_register_benign)
  moreover have "(if \<not> contains_finalizer (inst s) FinalizerName
      then bnd (finalizer_register env tx) (\<lambda>_. ret True) else ret False) s = (r, s')"
    using run False by (auto simp: finalizer_process_def Let_def instance_of_def gets_def bnd_run_Ok)
  ultimately show ?thesis using leak_free_moves [OF cons _ _ free] by blast
next
  case True
  then have fin: "bnd (finalizer_finalize env tx) (\<lambda>_. ret True) s = (r, s')"
    using run by (simp add: finalizer_process_def Let_def instance_of_def gets_def bnd_run_Ok)
  show ?thesis
  proof (cases "identity s = (ns, nm)")
    case other: False
    have "moves (apart env ns nm) (bnd (finalizer_finalize env tx) (\<lambda>_. ret True))"
      by (intro apart.bnd apart.ret finalizer_process_apart [OF cons])
    from movesD [OF this fin] have "extends (benign env ns nm (\<lambda>_. False)) s s'" using other by (simp add: apart_def)
    then show ?thesis using leak_free_extends [OF cons _ free, of "\<lambda>_. False"] by (auto simp: extends_def)
  next
    case same: True
    obtain r0 s1 where rel: "released env tx s = (r0, s1)" by (cases "released env tx s")
    have eq: "finalizer_process env tx s =
      bnd (released env tx) (\<lambda>_. bnd (wrap ''failed to remove finalizer from list''
       (update_application env (\<lambda>existing. call (Kube (UpdateResource
           (remove_finalizer FinalizerOldName (remove_finalizer FinalizerName existing)))) (e_unit env))))
       (\<lambda>_. ret True)) s"
      by (rule finalizer_process_finalizing) (use True lost [OF same] in auto)
    show ?thesis
    proof (cases r0)
      case (Ok u)
      have gone: "urn_of env ns nm \<notin> fst ` set (registered (e_application env) (trace s1))"
        by (rule released_unregisters [where env = env and tx = tx and s = s]) (use rel Ok known [OF same] in auto)
      let ?rest = "bnd (wrap ''failed to remove finalizer from list''
       (update_application env (\<lambda>existing. call (Kube (UpdateResource
           (remove_finalizer FinalizerOldName (remove_finalizer FinalizerName existing)))) (e_unit env))))
       (\<lambda>_. ret True)"
      have "?rest s1 = (r, s')" using run eq rel Ok by (simp add: bnd_run_Ok)
      moreover have "emits (\<lambda>e. \<not> adds e) ?rest" by (auto intro!: emits_intros update_application_emits)
      ultimately show ?thesis using unregistered_moves gone unfolding leak_free_def by blast
    qed (use run eq rel leak_free_moves [OF cons deleting_benign [OF released_deleting] rel free] in \<open>auto simp: bnd_def\<close>)
  qed
qed

subsection \<open>Reconciliation\<close>

lemma reconcile_leak_free:
  assumes cons: "consistent env F" and dns: "dns_name ns" "dns_name nm"
    and lost: "\<And>h i. e_resource env h (Kube (GetResource ns nm)) = Inr i \<Longrightarrow> has_annotation i PreserveKey = None"
    and run: "reconcile env namespace name s = (r, s')" and free: "leak_free env F ns nm (trace s)"
  shows "leak_free env F ns nm (trace s')"
  using run
proof (cases rule: reconcile_cases)
  case unprepared
  then show ?thesis
    using leak_free_moves [OF cons prepare_ordinary [THEN ordinary_benign] _ free] by (metis prod.collapse)
next
  case (ignored tx s1)
  have free1: "leak_free env F ns nm (trace s1)"
    by (rule leak_free_moves [OF cons prepare_ordinary [THEN ordinary_benign] ignored(1) free])
  have "emits deleting (step env tx (wrap ''processing orphaned resources'' (azure_process_orphaned env tx))
      (\<lambda>_. ret no_requeue))"
    by (auto intro!: step_emits emits_intros orphaned_deleting
        handle_error_ordinary [THEN ordinary_deleting])
  from leak_free_moves [OF cons deleting_benign [OF this] ignored(3) free1] show ?thesis .
next
  case (addressed tx s1)
  have free1: "leak_free env F ns nm (trace s1)"
    by (rule leak_free_moves [OF cons prepare_ordinary [THEN ordinary_benign] addressed(1) free])
  note knows = prepare_knows [OF cons addressed(1)]
  from prepare_Ok [OF addressed(1)] obtain i0 :: azure_ad_application where
    i0: "e_resource env (trace s) (Kube (GetResource namespace name)) = Inr i0" "frame_rel (s\<lparr>inst := i0\<rparr>) s1" .
  note read = consistent_read [OF cons i0(1)]
  have finalizer: "leak_free env F ns nm (trace s2)" if "finalizer_process env tx s1 = (r2, s2)" for r2 s2
  proof (rule finalizer_leak_free [OF cons that free1])
    assume "identity s1 = (ns, nm)"
    then have "namespace = ns" "name = nm" using knows(2) by (auto simp: identity_def)
    then show "tx_exists_in_azure tx \<and> oid = status_object_id (app_status (inst s1))"
      if "(urn_of env ns nm, oid) \<in> set (registered (e_application env) (trace s1))" for oid
      using knows(1,4) that by simp
    show "has_annotation (inst s1) PreserveKey = None"
      using lost i0 \<open>namespace = ns\<close> \<open>name = nm\<close> by (auto simp: frame_rel_def has_annotation_def)
  qed
  note handled = leak_free_moves [OF cons handle_error_ordinary [THEN ordinary_benign]]
  from addressed(3) show ?thesis
  proof (cases rule: step_cases)
    case (Ok x s2)
    show ?thesis
    proof (cases x)
      case True
      then show ?thesis using Ok finalizer by auto
    next
      case False
      then have "finalizer_process env tx s1 = (Ok False, s2)" using Ok(1) by simp
      note declined = finalizer_declines [OF this]
      from Ok(2) False have rest: "reconcile_credentials env tx s1 = (r, s')" using declined(1) by simp
      have "finalized F ns nm (trace s1)" if "tx_urn tx = urn_of env ns nm"
      proof -
        have "namespace = ns" "name = nm"
          using consistent_names [OF cons _ _ dns, of namespace name] read knows(1) that by auto
        then show ?thesis using knows(3) declined(2) by (simp add: owned_def)
      qed
      then have names: "(\<forall>a. ga_display_name a = Some (tx_urn tx) \<longrightarrow> ga_display_name a \<noteq> Some (urn_of env ns nm))
          \<or> finalized F ns nm (trace s1)" by (cases "tx_urn tx = urn_of env ns nm") simp_all
      obtain new where "trace s' = new @ trace s1"
        "history_ok (benign env ns nm (\<lambda>a. ga_display_name a = Some (tx_urn tx))) new (trace s1)"
        using movesD [OF reconcile_credentials_benign rest] by (auto simp: extends_def)
      then show ?thesis using leak_free_extends [OF cons _ free1 names] by simp
    qed
  next
    case (Err e s2)
    then show ?thesis using handled finalizer by blast
  next
    case (Panic s2)
    then show ?thesis using finalizer by blast
  qed
qed

subsection \<open>Runs of the operator\<close>

text \<open>
  What the operator does, one piece of work after the other: reconciliations of any resource,
  productions of the events that a reconciliation left to its goroutine, and sweeps. A piece of work
  starts with any instance in memory.
\<close>

inductive operator_run :: "env \<Rightarrow> history \<Rightarrow> bool" for env where
  started: "operator_run env []"
| reconciled: "operator_run env (trace s) \<Longrightarrow> reconcile env namespace name s = (r, s') \<Longrightarrow> operator_run env (trace s')"
| produced: "operator_run env (trace s) \<Longrightarrow> (Runtime (SpawnProduceEvent res), True) \<in> set (trace s) \<Longrightarrow>
    produce_event env tx i res s = (r', s') \<Longrightarrow> operator_run env (trace s')"
| swept: "operator_run env (trace s) \<Longrightarrow> sweep env s = (r'', s') \<Longrightarrow> operator_run env (trace s')"

text \<open>
  C14: no application is leaked. In every run of the operator, with any interleaving of changes made
  by others that keeps to the contract of the APIs, an application that is registered for a resource
  and not deleted belongs to a resource that carries a finalizer of the operator in its newest
  version (unless the resource asked to preserve it), so that Kubernetes keeps the resource until
  the operator has deleted the application.
\<close>

theorem no_application_leaked:
  assumes "consistent env F" and "dns_name ns" and "dns_name nm"
    and "\<And>h i. e_resource env h (Kube (GetResource ns nm)) = Inr i \<Longrightarrow> has_annotation i PreserveKey = None"
    and "operator_run env h"
    and "(e_urn env nm ns (cfg_cluster_name (e_config env)), oid) \<in> set (registered (e_application env) h)"
  shows "finalized F ns nm h"
proof -
  have "leak_free env F ns nm h"
    using assms(5)
  proof (induction rule: operator_run.induct)
    case started
    then show ?case by (simp add: leak_free_def)
  next
    case (reconciled s namespace name r s')
    show ?case
      by (rule reconcile_leak_free [OF assms(1-3) _ reconciled(2,3)]) (rule assms(4))
  next
    case (produced s res tx i r' s')
    then show ?case using leak_free_moves [OF assms(1) produce_event_benign] by blast
  next
    case (swept s r'' s')
    then show ?case using leak_free_moves [OF assms(1) sweep_benign] by blast
  qed
  then show ?thesis using assms(6) by (force simp: leak_free_def)
qed

text \<open>
  The witness: a cluster with the one resource \<open>ns/app\<close>, an Azure that answers as the history
  says, and a reconciliation that registers the application and then fails at the service principal.
\<close>

definition listed :: "history \<Rightarrow> request \<Rightarrow> graph_application list" where
  "listed h req =
     (case req of
        Graph (ListApplications f p) \<Rightarrow>
          map (\<lambda>(u, oid). plain_registered\<lparr>ga_id := Some oid\<rparr>)
            (filter (\<lambda>(u, oid). filter_by_name u = f) (registered (\<lambda>_ _. Inr plain_registered) h))
      | _ \<Rightarrow> [])"

definition read_back :: "history \<Rightarrow> request \<Rightarrow> err + azure_ad_application" where
  "read_back h req =
     (case req of
        Kube (GetResource ns nm) \<Rightarrow>
          if ns = ''ns'' \<and> nm = ''app''
          then Inr (plain_app\<lparr>app_finalizers :=
            (if finalized {(''ns'', ''app'')} ''ns'' ''app'' h then [FinalizerName] else [])\<rparr>)
          else Inl not_found
      | _ \<Rightarrow> Inl not_found)"

definition tracking_env :: env where
  "tracking_env = quiet_env\<lparr>e_applications := (\<lambda>h req. Inr (listed h req)), e_resource := read_back,
     e_service_principal := (\<lambda>_ _. Inl not_found), e_again := (\<lambda>_ _. Inr False)\<rparr>"

lemma colon_split:
  "CHR '':'' \<notin> set x \<Longrightarrow> CHR '':'' \<notin> set x' \<Longrightarrow> x @ '':'' @ y = x' @ '':'' @ y' \<Longrightarrow> x = x' \<and> y = y'"
proof (induction x arbitrary: x')
  case Nil
  then show ?case by (cases x') auto
next
  case (Cons a x)
  then show ?case by (cases x') auto
qed

lemma tracking_consistent: "consistent tracking_env {(''ns'', ''app'')}"
  unfolding consistent_def
proof (intro conjI allI impI)
  show "app_namespace i = ns" "app_name i = nm" "dns_name ns" "dns_name nm"
    "owned i = finalized {(''ns'', ''app'')} ns nm h"
    if "e_resource tracking_env h (Kube (GetResource ns nm)) = Inr i" for h ns nm i
    using that by (auto simp: tracking_env_def read_back_def dns_name_def owned_def contains_finalizer_def split: if_splits)
  show "Some oid \<in> ga_id ` set apps"
    if "e_applications tracking_env h (Graph (ListApplications (filter_by_name u) p)) = Inr apps"
      "(u, oid) \<in> set (registered (e_application tracking_env) h)" for h u p apps oid
    using that by (force simp: tracking_env_def listed_def)
  show "ns = ns'" "nm = nm'"
    if "dns_name ns" "dns_name ns'" "e_urn tracking_env nm ns c = e_urn tracking_env nm' ns' c" for ns nm ns' nm' c
    using that colon_split [of ns ns' nm nm'] by (simp_all add: tracking_env_def dns_name_def)
qed


lemma registering:
  "case prepare tracking_env ''ns'' ''app'' start_state of
     (Ok tx, s1) \<Rightarrow> \<not> tx_exists_in_azure tx \<and> \<not> opt_tenant_ignore (tx_options tx) \<and>
       sl_unused (txs_managed (tx_secrets tx)) = [] \<and>
       contains_finalizer (inst s1) FinalizerName \<and> app_deletion_timestamp (inst s1) = None \<and>
       (case application_register tracking_env (with_invalid_credentials tx) s1 of
          (Ok app, s2) \<Rightarrow> ga_id app = Some ''oid'' \<and> ga_app_id app = Some ''cid'' \<and>
            (''dev:ns:app'', ''oid'') \<in> set (registered (\<lambda>_ _. Inr plain_registered) (trace s2))
        | _ \<Rightarrow> False)
   | _ \<Rightarrow> False"
  by code_simp

lemma refused_principal:
  "\<exists>e s'. do_retry tracking_env (sp_register tracking_env tx) s = (Err e, s') \<and>
     registered reply (trace s') = registered reply (trace s)"
  by (cases "nat (RetryMaximumDuration div fibonacci RetryInitialDelay)")
     (auto simp: do_retry_def retry_do_def sp_register_def tracking_env_def client_id_of_def call_def runs)

lemma registered_kept:
  assumes "emits ordinary m" "m s = (r, s')"
  shows "set (registered reply (trace s)) \<subseteq> set (registered reply (trace s'))"
proof -
  have "set (registered reply h) \<subseteq> set (registered reply (n @ h))" if "\<forall>e \<in> set n. ordinary e" for n h
    using that
  proof (induction n)
    case (Cons e n)
    then show ?case by (cases "(reply, e # n @ h)" rule: registered.cases) (auto simp: ordinary_iff)
  qed simp
  then show ?thesis using movesD [OF assms] unfolding emits_rel_def by metis
qed

lemma tracking_run:
  "(''dev:ns:app'', ''oid'') \<in> set (registered (\<lambda>_ _. Inr plain_registered)
     (trace (snd (reconcile tracking_env ''ns'' ''app'' start_state))))"
proof -
  obtain tx s1 where p: "prepare tracking_env ''ns'' ''app'' start_state = (Ok tx, s1)"
    and tx: "\<not> tx_exists_in_azure tx" "\<not> opt_tenant_ignore (tx_options tx)"
      "sl_unused (txs_managed (tx_secrets tx)) = []"
      "contains_finalizer (inst s1) FinalizerName" "app_deletion_timestamp (inst s1) = None"
    and reg: "case application_register tracking_env (with_invalid_credentials tx) s1 of
        (Ok app, s2) \<Rightarrow> ga_id app = Some ''oid'' \<and> ga_app_id app = Some ''cid'' \<and>
          (''dev:ns:app'', ''oid'') \<in> set (registered (\<lambda>_ _. Inr plain_registered) (trace s2)) | _ \<Rightarrow> False"
    using registering
    by (cases "prepare tracking_env ''ns'' ''app'' start_state";
        cases "fst (prepare tracking_env ''ns'' ''app'' start_state)") simp_all
  let ?tx = "with_invalid_credentials tx"
  obtain app s2 where a: "application_register tracking_env ?tx s1 = (Ok app, s2)"
    "ga_id app = Some ''oid''" "ga_app_id app = Some ''cid''"
    "(''dev:ns:app'', ''oid'') \<in> set (registered (\<lambda>_ _. Inr plain_registered) (trace s2))"
    using reg by (auto split: prod.splits outcome.splits)
  obtain s3 where u: "update_with_application_ids app s2 = (Ok (), s3)" "trace s3 = trace s2"
    using a(2,3) by (simp add: update_with_application_ids_def set_status_def runs)
  obtain e s4 where f: "do_retry tracking_env (sp_register tracking_env ?tx) s3 = (Err e, s4)"
    "registered (\<lambda>_ _. Inr plain_registered) (trace s4) = registered (\<lambda>_ _. Inr plain_registered) (trace s3)"
    using refused_principal by blast
  have c: "\<exists>e'. controller_process tracking_env ?tx s1 = (Err e', s4)"
    using a(1) u(1) f(1) tx(1)
    by (simp add: controller_process_def azure_process_def azure_create_def client_create_def
        bnd_run_Err bnd_run_Ok wrap_def)
  obtain e' where e': "reconcile tracking_env ''ns'' ''app'' start_state = handle_error tracking_env ?tx e' s4"
    using c p tx
    by (auto simp: reconcile_def attempt_def step_def finalizer_process_def reconcile_credentials_def
        azure_delete_expired_credentials_def azure_validate_credentials_def secrets_delete_unused_def
        instance_of_def Let_def bnd_run_Ok ret_def gets_def)
  obtain r s5 where h: "handle_error tracking_env ?tx e' s4 = (r, s5)"
    by (cases "handle_error tracking_env ?tx e' s4")
  have "(''dev:ns:app'', ''oid'') \<in> set (registered (\<lambda>_ _. Inr plain_registered) (trace s4))"
    using a(4) f(2) u(2) by simp
  then have "(''dev:ns:app'', ''oid'') \<in> set (registered (\<lambda>_ _. Inr plain_registered) (trace s5))"
    by (rule subsetD [OF registered_kept [OF handle_error_ordinary h]])
  then show ?thesis by (simp only: e' h snd_conv)
qed

lemma no_application_leaked_witness:
  "finalized {(''ns'', ''app'')} ''ns'' ''app''
     (trace (snd (reconcile tracking_env ''ns'' ''app'' start_state)))"
proof (rule no_application_leaked [OF tracking_consistent, where oid = "''oid''"])
  show "dns_name ''ns''" "dns_name ''app''" by (simp_all add: dns_name_def)
  show "has_annotation i PreserveKey = None"
    if "e_resource tracking_env h (Kube (GetResource ''ns'' ''app'')) = Inr i" for h i
    using that by (auto simp: tracking_env_def read_back_def has_annotation_def ann_lookup_def)
  show "operator_run tracking_env (trace (snd (reconcile tracking_env ''ns'' ''app'' start_state)))"
    by (rule reconciled [OF _ prod.collapse [symmetric]]) (simp add: started)
  show "(e_urn tracking_env ''app'' ''ns'' (cfg_cluster_name (e_config tracking_env)), ''oid'')
    \<in> set (registered (e_application tracking_env)
        (trace (snd (reconcile tracking_env ''ns'' ''app'' start_state))))"
    using tracking_run by (simp add: tracking_env_def quiet_config_def)
qed

end
