(* ===== verification/Yields.thy ===== *)
theory Yields
  imports World
begin

text \<open>
  A logic for panics. \<open>yields Q m\<close>: whatever the state, the program \<open>m\<close> does not panic, and a value it
  returns satisfies \<open>Q\<close>; \<open>out_yields\<close> says the same of a pure function. The rules compute the
  weakest such statement backwards through a program: every rule has a conclusion for an arbitrary
  \<open>Q\<close>, so the rules of the components (collected in \<open>yielding\<close>) apply wherever a program is called.
\<close>

named_theorems yielding

definition out_yields :: "('a \<Rightarrow> bool) \<Rightarrow> 'a outcome \<Rightarrow> bool" where
  "out_yields Q r = (case r of Ok x \<Rightarrow> Q x | Err _ \<Rightarrow> True | Panic \<Rightarrow> False)"

definition yields :: "('a \<Rightarrow> bool) \<Rightarrow> ('s, 'a) io \<Rightarrow> bool" where
  "yields Q m \<longleftrightarrow> (\<forall>s. out_yields Q (fst (m s)))"

lemma out_yields_simps [simp]:
  "out_yields Q (Ok x) = Q x" "out_yields Q (Err e)" "\<not> out_yields Q Panic"
  by (simp_all add: out_yields_def)

lemma yieldsD: "yields Q m \<Longrightarrow> m s = (r, s') \<Longrightarrow> r \<noteq> Panic \<and> (\<forall>x. r = Ok x \<longrightarrow> Q x)"
  by (cases r) (auto simp: yields_def dest: spec [of _ s])

lemma yieldsI: "(\<And>s r s'. m s = (r, s') \<Longrightarrow> out_yields Q r) \<Longrightarrow> yields Q m"
  by (simp add: yields_def) (metis prod.collapse)

lemma out_yields_mono: "out_yields P r \<Longrightarrow> (\<And>x. P x \<Longrightarrow> Q x) \<Longrightarrow> out_yields Q r"
  by (cases r) auto

lemma yields_mono: "yields P m \<Longrightarrow> (\<And>x. P x \<Longrightarrow> Q x) \<Longrightarrow> yields Q m"
  unfolding yields_def by (meson out_yields_mono)

subsection \<open>Pure functions\<close>

lemma out_yields_bind: "out_yields (\<lambda>x. out_yields Q (f x)) r \<Longrightarrow> out_yields Q (out_bind r f)"
  by (cases r) auto

lemma out_yields_wrap: "out_yields Q r \<Longrightarrow> out_yields Q (out_wrap msg r)"
  by (cases r) auto

lemma out_yields_deref: "p \<noteq> None \<Longrightarrow> (\<And>x. p = Some x \<Longrightarrow> Q x) \<Longrightarrow> out_yields Q (deref p)"
  by (cases p) auto

lemma out_yields_map:
  assumes "\<And>x. x \<in> set xs \<Longrightarrow> out_yields P (f x)"
    and "\<And>ys. (\<And>y. y \<in> set ys \<Longrightarrow> P y) \<Longrightarrow> Q ys"
  shows "out_yields Q (out_map f xs)"
proof -
  have "out_yields (\<lambda>ys. \<forall>y \<in> set ys. P y) (out_map f xs)"
    using assms(1)
  proof (induction xs)
    case (Cons x xs)
    then have "out_yields P (f x)" "out_yields (\<lambda>ys. \<forall>y \<in> set ys. P y) (out_map f xs)" by simp_all
    then show ?case by (cases "f x"; cases "out_map f xs") auto
  qed simp
  then show ?thesis using assms(2) by (rule out_yields_mono) simp
qed

lemma out_yields_filter:
  assumes "\<And>x. x \<in> set xs \<Longrightarrow> out_yields (\<lambda>_. True) (p x)"
    and "\<And>ys. set ys \<subseteq> set xs \<Longrightarrow> Q ys"
  shows "out_yields Q (out_filter p xs)"
proof -
  have "out_yields (\<lambda>_. True) (out_filter p xs)"
    using assms(1)
  proof (induction xs)
    case (Cons x xs)
    then have "out_yields (\<lambda>_. True) (p x)" "out_yields (\<lambda>_. True) (out_filter p xs)" by simp_all
    then show ?case by (cases "p x"; cases "out_filter p xs") auto
  qed simp
  then show ?thesis
    using out_filter_subset [of p xs] assms(2) by (cases "out_filter p xs") auto
qed

lemma out_yields_ex:
  assumes "\<And>x. x \<in> set xs \<Longrightarrow> out_yields (\<lambda>_. True) (p x)" "\<And>b. Q b"
  shows "out_yields Q (out_ex p xs)"
proof -
  have "out_yields (\<lambda>_. True) (out_ex p xs)"
    using assms(1)
  proof (induction xs)
    case (Cons x xs)
    then have "out_yields (\<lambda>_. True) (p x)" "out_yields (\<lambda>_. True) (out_ex p xs)" by simp_all
    then show ?case by (cases "p x") simp_all
  qed simp
  then show ?thesis using assms(2) by (rule out_yields_mono)
qed

text \<open>The folds need an invariant of the accumulator.\<close>

lemma out_yields_fold:
  assumes "I a" "\<And>x a. x \<in> set xs \<Longrightarrow> I a \<Longrightarrow> out_yields I (f x a)" "\<And>a. I a \<Longrightarrow> Q a"
  shows "out_yields Q (out_fold f xs a)"
proof -
  have "out_yields I (out_fold f xs a)"
    using assms(1,2)
  proof (induction xs arbitrary: a)
    case (Cons x xs)
    then have "out_yields I (f x a)" by simp
    then show ?case using Cons by (cases "f x a") auto
  qed simp
  then show ?thesis using assms(3) by (rule out_yields_mono)
qed

lemma gm_put_in: "(k', v') \<in> set (gm_put k v m) \<Longrightarrow> k' = k \<and> v' = v \<or> (k', v') \<in> set m"
  unfolding gm_put_def by (induction m) (auto split: if_splits)

lemma out_yields_collect:
  assumes "\<And>k v. (k, v) \<in> set m \<Longrightarrow> P v"
    and "\<And>x. x \<in> set xs \<Longrightarrow> out_yields (\<lambda>r. \<forall>k v. r = Some (k, v) \<longrightarrow> P v) (f x)"
    and "\<And>m'. (\<And>k v. (k, v) \<in> set m' \<Longrightarrow> P v) \<Longrightarrow> Q m'"
  shows "out_yields Q (out_collect f xs m)"
proof -
  have "out_yields (\<lambda>m'. \<forall>k v. (k, v) \<in> set m' \<longrightarrow> P v) (out_collect f xs m)"
    using assms(1,2)
  proof (induction xs arbitrary: m)
    case (Cons x xs)
    have f: "out_yields (\<lambda>r. \<forall>k v. r = Some (k, v) \<longrightarrow> P v) (f x)" using Cons.prems(2) by simp
    show ?case
    proof (cases "f x")
      case (Ok r)
      let ?m = "case r of None \<Rightarrow> m | Some (k, v) \<Rightarrow> gm_put k v m"
      have "P v" if "(k, v) \<in> set ?m" for k v
        using that f Ok Cons.prems(1) by (auto split: option.splits dest!: gm_put_in)
      then have "out_yields (\<lambda>m'. \<forall>k v. (k, v) \<in> set m' \<longrightarrow> P v) (out_collect f xs ?m)"
        by (rule Cons.IH) (use Cons.prems(2) in auto)
      then show ?thesis using Ok by (simp split: option.splits prod.splits)
    qed (use f in auto)
  qed simp
  then show ?thesis by (rule out_yields_mono) (use assms(3) in blast)
qed

lemma collect_all:
  assumes "\<And>k v. (k, v) \<in> set m \<Longrightarrow> P v"
    and "\<And>x k v. x \<in> set xs \<Longrightarrow> f x = Some (k, v) \<Longrightarrow> P v" "(k, v) \<in> set (collect f xs m)"
  shows "P v"
proof -
  have "out_yields (\<lambda>m'. \<forall>k v. (k, v) \<in> set m' \<longrightarrow> P v) (out_collect (\<lambda>x. Ok (f x)) xs m)"
    by (rule out_yields_collect [where P = P]) (use assms(1,2) in auto)
  then show ?thesis using assms(3) out_collect_Ok [of xs "\<lambda>x. Ok (f x)" f m] by auto
qed

lemma gm_range_in: "iteration_order ord \<Longrightarrow> (k, v) \<in> set (gm_range ord m) \<Longrightarrow> (k, v) \<in> set m"
proof -
  assume ord: "iteration_order ord" and v: "(k, v) \<in> set (gm_range ord m)"
  then have "k \<in> fst ` set m" "v = the (map_of m k)"
    by (auto simp: gm_range_def iteration_order_def)
  then show "(k, v) \<in> set m" by (metis map_of_SomeD map_of_eq_None_iff option.exhaust_sel)
qed

subsection \<open>Programs\<close>

lemma yields_ret: "Q x \<Longrightarrow> yields Q (ret x)"
  by (simp add: yields_def ret_def)

lemma yields_fail: "yields Q (fail e)"
  by (simp add: yields_def fail_def)

lemma yields_lift: "out_yields Q r \<Longrightarrow> yields Q (lift r)"
  by (simp add: yields_def lift_def)

lemma yields_gets: "(\<And>s. Q (f s)) \<Longrightarrow> yields Q (gets f)"
  by (simp add: yields_def gets_def)

lemma yields_modify: "Q () \<Longrightarrow> yields Q (modify f)"
  by (simp add: yields_def modify_def)

lemma yields_bnd:
  assumes "yields (\<lambda>x. yields Q (f x)) m"
  shows "yields Q (bnd m f)"
proof (rule yieldsI)
  fix s r s'
  assume run: "bnd m f s = (r, s')"
  show "out_yields Q r"
  proof (cases rule: bnd_cases [of m s f])
    case (Ok x s1)
    then have "yields Q (f x)" using yieldsD [OF assms Ok(1)] by simp
    then show ?thesis using Ok(2) run by (simp add: yields_def) (metis fst_conv)
  next
    case (Panic s1)
    then show ?thesis using yieldsD [OF assms Panic(1)] by simp
  qed (use run in auto)
qed

lemma yields_wrap: "yields Q m \<Longrightarrow> yields Q (wrap msg m)"
  by (auto simp: yields_def wrap_def out_yields_wrap split: prod.split) (metis fst_conv out_yields_wrap)

lemma yields_attempt: "yields (\<lambda>x. Q (Inr x)) m \<Longrightarrow> (\<And>e. Q (Inl e)) \<Longrightarrow> yields Q (attempt m)"
  by (rule yieldsI) (auto simp: attempt_def split: prod.splits outcome.splits dest: yieldsD)

lemma yields_catch:
  assumes "yields Q m" "\<And>e. yields Q (h e)"
  shows "yields Q (catch m h)"
proof (rule yieldsI)
  fix s r s'
  assume run: "catch m h s = (r, s')"
  obtain r0 s0 where m: "m s = (r0, s0)" by (cases "m s")
  show "out_yields Q r"
    using run m yieldsD [OF assms(1) m] yieldsD [OF assms(2)]
    by (cases r0; cases r) (auto simp: catch_def)
qed

lemma yields_deferred: "yields Q m \<Longrightarrow> yields Q (deferred release m)"
  by (simp add: yields_def deferred_def split: prod.split) (metis fst_conv)

lemma yields_for_each:
  assumes "\<And>x. x \<in> set xs \<Longrightarrow> yields (\<lambda>_. True) (f x)" "Q ()"
  shows "yields Q (for_each f xs)"
  using assms(1)
proof (induction xs)
  case (Cons x xs)
  then have "yields (\<lambda>_. True) (f x)" "yields Q (for_each f xs)" by simp_all
  then show ?case using yields_mono by (fastforce intro!: yields_bnd)
qed (simp add: assms(2) yields_ret)

lemma yields_fold_io:
  assumes "I a" "\<And>x a. x \<in> set xs \<Longrightarrow> I a \<Longrightarrow> yields I (f x a)" "\<And>a. I a \<Longrightarrow> Q a"
  shows "yields Q (fold_io f xs a)"
  using assms(1,2)
proof (induction xs arbitrary: a)
  case (Cons x xs)
  have "yields I (f x a)" using Cons.prems by simp
  then have "yields (\<lambda>b. yields Q (fold_io f xs b)) (f x a)"
    by (rule yields_mono) (use Cons in simp)
  then show ?case by (simp add: yields_bnd)
qed (simp add: assms(3) yields_ret)

lemma yields_retry_loop:
  assumes "yields (\<lambda>_. True) again" "yields Q m"
  shows "yields Q (retry_loop again n m)"
proof (induction n)
  case (Suc n)
  have "yields (\<lambda>go. yields Q (if go then retry_loop again n m else fail e)) again" for e
    using assms(1) by (rule yields_mono) (simp add: Suc yields_fail)
  then show ?case using assms(2) by (auto intro!: yields_catch yields_bnd)
qed (simp add: assms(2))

lemma yields_retry_on_conflict: "yields Q m \<Longrightarrow> yields Q (retry_on_conflict n m)"
  by (induction n) (auto intro!: yields_catch yields_fail)

subsection \<open>Steps of the world\<close>

lemma yields_call: "(\<And>h x. reply h req = Inr x \<Longrightarrow> Q x) \<Longrightarrow> yields Q (call req reply)"
  by (rule yieldsI) (auto simp: call_def split: sum.splits)

lemma yields_ask: "(\<And>h. Q (reply h req)) \<Longrightarrow> yields Q (ask req reply)"
  by (rule yieldsI) (auto simp: ask_def)

lemma yields_notify: "Q () \<Longrightarrow> yields Q (notify req)"
  by (simp add: notify_def yields_ask)

lemma yields_now: "(\<And>t. Q t) \<Longrightarrow> yields Q (now env)"
  by (simp add: now_def yields_ask)

lemma yields_draw_uuids: "(\<And>u. Q u) \<Longrightarrow> yields Q (draw_uuids env)"
  by (simp add: draw_uuids_def yields_ask)

lemma yields_instance: "(\<And>i. Q i) \<Longrightarrow> yields Q instance_of"
  by (simp add: instance_of_def yields_gets)

lemma yields_ids:
  "(\<And>i. Q i) \<Longrightarrow> yields Q object_id_of" "(\<And>i. Q i) \<Longrightarrow> yields Q client_id_of" "(\<And>i. Q i) \<Longrightarrow> yields Q sp_id_of"
  by (simp_all add: object_id_of_def client_id_of_def sp_id_of_def yields_gets)

lemma yields_set_status: "Q () \<Longrightarrow> yields Q (set_status f)"
  by (simp add: set_status_def yields_modify)

text \<open>Replies whose value is never dereferenced.\<close>

lemma yields_plain_calls:
  "Q () \<Longrightarrow> yields Q (call req (e_unit env))"
  "(\<And>x. R x) \<Longrightarrow> yields R (call req (e_ids env))"
  "(\<And>x. T x) \<Longrightarrow> yields T (call req (e_response env))"
  "(\<And>x. U x) \<Longrightarrow> yields U (call req (e_resources env))"
  "(\<And>x. V x) \<Longrightarrow> yields V (call req (e_secret_lists env))"
  "(\<And>x. W x) \<Longrightarrow> yields W (call req (e_secret env))"
  "(\<And>x. X x) \<Longrightarrow> yields X (call req (e_string env))"
  "(\<And>x. Y x) \<Longrightarrow> yields Y (call req (e_again env))"
  "(\<And>x. Z x) \<Longrightarrow> yields Z (ask req (e_cached_bool env))"
  "(\<And>x. A x) \<Longrightarrow> yields A (ask req (e_cached_string env))"
  "(\<And>x. B x) \<Longrightarrow> yields B (ask req (e_cached_resolved env))"
  by (auto intro!: yields_call yields_ask)

lemma yields_retry_do: "yields Q m \<Longrightarrow> yields Q (retry_do env base timeout m)"
  unfolding retry_do_def by (intro yields_retry_loop yields_plain_calls TrueI)

subsection \<open>Branches\<close>

lemma yields_if: "(b \<Longrightarrow> yields Q m) \<Longrightarrow> (\<not> b \<Longrightarrow> yields Q m') \<Longrightarrow> yields Q (if b then m else m')"
  by simp

lemma yields_case:
  "(x = None \<Longrightarrow> yields Q m) \<Longrightarrow> (\<And>y. x = Some y \<Longrightarrow> yields Q (f y)) \<Longrightarrow> yields Q (case x of None \<Rightarrow> m | Some y \<Rightarrow> f y)"
  "(\<And>e. z = Inl e \<Longrightarrow> yields R (g e)) \<Longrightarrow> (\<And>y. z = Inr y \<Longrightarrow> yields R (h y)) \<Longrightarrow>
     yields R (case z of Inl e \<Rightarrow> g e | Inr y \<Rightarrow> h y)"
  "(\<And>a b. p = (a, b) \<Longrightarrow> yields S (k a b)) \<Longrightarrow> yields S (case p of (a, b) \<Rightarrow> k a b)"
  "(l = [] \<Longrightarrow> yields T n) \<Longrightarrow> (\<And>y ys. l = y # ys \<Longrightarrow> yields T (q y ys)) \<Longrightarrow>
     yields T (case l of [] \<Rightarrow> n | y # ys \<Rightarrow> q y ys)"
  by (auto split: option.split sum.split prod.split list.split)

lemma yields_Let: "(\<And>y. y = x \<Longrightarrow> yields Q (f y)) \<Longrightarrow> yields Q (let y = x in f y)"
  by simp

text \<open>The rules for \<open>auto\<close>; a loop over an accumulator is given its invariant by hand.\<close>

lemmas out_yields_intros = out_yields_bind out_yields_wrap out_yields_deref

lemmas yields_intros =
  yields_ret yields_fail yields_lift yields_gets yields_modify yields_bnd yields_wrap yields_attempt
  yields_catch yields_deferred yields_for_each yields_retry_on_conflict yields_notify yields_now yields_draw_uuids
  yields_instance yields_ids yields_set_status yields_plain_calls yields_retry_do yields_if yields_case
  yields_Let out_yields_intros

end
