(* ===== verification/PanicFree.thy ===== *)
theory PanicFree
  imports Yields AzureClient
begin

text \<open>
  The Azure client does not panic when the Graph API answers with complete entities. An entity is
  complete when every property that the code dereferences is set; \<open>complete_env\<close> says that of
  every reply, of the keys that the codec decodes and of the caches, which only hold what the
  operator stored in them.
\<close>

subsection \<open>Complete replies\<close>

definition key_complete :: "key_credential \<Rightarrow> bool" where
  "key_complete c \<longleftrightarrow> kc_key_id c \<noteq> None \<and> kc_start c \<noteq> None \<and> kc_end c \<noteq> None"

definition password_complete :: "password_credential \<Rightarrow> bool" where
  "password_complete c \<longleftrightarrow> pc_key_id c \<noteq> None \<and> pc_start c \<noteq> None \<and> pc_end c \<noteq> None"

definition permissions_complete :: "graph_application \<Rightarrow> bool" where
  "permissions_complete a \<longleftrightarrow> (\<forall>r \<in> set (ga_app_roles a). approle_complete r) \<and>
     (\<exists>api. ga_api a = Some api \<and> (\<forall>s \<in> set (api_scopes api). scope_complete s))"

definition app_complete :: "graph_application \<Rightarrow> bool" where
  "app_complete a \<longleftrightarrow> ga_id a \<noteq> None \<and> ga_app_id a \<noteq> None \<and> ga_display_name a \<noteq> None \<and>
     permissions_complete a \<and> (\<forall>p \<in> set (api_pre_authorized (the (ga_api a))). pa_app_id p \<noteq> None) \<and>
     (\<forall>c \<in> set (ga_key_credentials a). key_complete c) \<and>
     (\<forall>c \<in> set (ga_password_credentials a). password_complete c)"

definition sp_complete :: "service_principal \<Rightarrow> bool" where
  "sp_complete sp \<longleftrightarrow> sp_id sp \<noteq> None \<and> sp_app_id sp \<noteq> None"

definition complete_env :: "env \<Rightarrow> bool" where
  "complete_env env \<longleftrightarrow>
     iteration_order (e_order env) \<and>
     (\<forall>h req a. e_application env h req = Inr a \<longrightarrow> app_complete a) \<and>
     (\<forall>h req as a. e_applications env h req = Inr as \<longrightarrow> a \<in> set as \<longrightarrow> app_complete a) \<and>
     (\<forall>h req sp. e_service_principal env h req = Inr sp \<longrightarrow> sp_complete sp) \<and>
     (\<forall>h req sps sp. e_service_principals env h req = Inr sps \<longrightarrow> sp \<in> set sps \<longrightarrow> sp_complete sp) \<and>
     (\<forall>h req pw. e_password env h req = Inr pw \<longrightarrow> pc_key_id pw \<noteq> None \<and> pc_secret pw \<noteq> None) \<and>
     (\<forall>h req as a. e_assignments env h req = Inr as \<longrightarrow> a \<in> set as \<longrightarrow>
        assignment_complete a \<and> ra_id a \<noteq> None) \<and>
     (\<forall>h req g. e_cached_group env h req = Some g \<longrightarrow> gg_id g \<noteq> None \<and> gg_display_name g \<noteq> None) \<and>
     (\<forall>k. jk_certificates (jose_public (e_codec env) k) = jk_certificates k) \<and>
     (\<forall>t k. dec_jwk (e_codec env) t = Inr k \<longrightarrow> jk_certificates k \<noteq> []) \<and>
     (\<forall>i. e_hash env i \<noteq> Panic)"

lemma complete_replyD:
  assumes "complete_env env"
  shows "e_application env h req = Inr a \<Longrightarrow> app_complete a"
    and "e_applications env h req = Inr as \<Longrightarrow> a \<in> set as \<Longrightarrow> app_complete a"
    and "e_service_principal env h req = Inr sp \<Longrightarrow> sp_complete sp"
    and "e_service_principals env h req = Inr sps \<Longrightarrow> sp \<in> set sps \<Longrightarrow> sp_complete sp"
    and "e_password env h req = Inr pw \<Longrightarrow> pc_key_id pw \<noteq> None \<and> pc_secret pw \<noteq> None"
    and "e_assignments env h req = Inr xs \<Longrightarrow> x \<in> set xs \<Longrightarrow> assignment_complete x \<and> ra_id x \<noteq> None"
    and "e_cached_group env h req = Some g \<Longrightarrow> gg_id g \<noteq> None \<and> gg_display_name g \<noteq> None"
    and "jk_certificates (jose_public (e_codec env) k) = jk_certificates k"
    and "dec_jwk (e_codec env) t = Inr k \<Longrightarrow> jk_certificates k \<noteq> []"
    and "e_hash env i \<noteq> Panic"
  using assms by (auto simp del: not_None_eq simp: complete_env_def)

lemma complete_replies:
  assumes "complete_env env"
  shows "(\<And>a. app_complete a \<Longrightarrow> Q a) \<Longrightarrow> yields Q (call req (e_application env))"
    and "(\<And>as. (\<And>a. a \<in> set as \<Longrightarrow> app_complete a) \<Longrightarrow> R as) \<Longrightarrow> yields R (call req (e_applications env))"
    and "(\<And>sp. sp_complete sp \<Longrightarrow> S sp) \<Longrightarrow> yields S (call req (e_service_principal env))"
    and "(\<And>sps. (\<And>sp. sp \<in> set sps \<Longrightarrow> sp_complete sp) \<Longrightarrow> T sps) \<Longrightarrow> yields T (call req (e_service_principals env))"
    and "(\<And>pw. pc_key_id pw \<noteq> None \<Longrightarrow> pc_secret pw \<noteq> None \<Longrightarrow> U pw) \<Longrightarrow> yields U (call req (e_password env))"
    and "(\<And>as. (\<And>a. a \<in> set as \<Longrightarrow> assignment_complete a \<and> ra_id a \<noteq> None) \<Longrightarrow> V as) \<Longrightarrow>
      yields V (call req (e_assignments env))"
    and "(\<And>g. (\<And>x. g = Some x \<Longrightarrow> gg_id x \<noteq> None \<and> gg_display_name x \<noteq> None) \<Longrightarrow> W g) \<Longrightarrow>
      yields W (ask req (e_cached_group env))"
  using complete_replyD [OF assms] by (auto intro!: yields_call yields_ask)

lemma complete_order: "complete_env env \<Longrightarrow> iteration_order (e_order env)"
  by (simp add: complete_env_def)

lemma completeD:
  "app_complete a \<Longrightarrow> ga_id a \<noteq> None" "app_complete a \<Longrightarrow> ga_app_id a \<noteq> None"
  "app_complete a \<Longrightarrow> ga_display_name a \<noteq> None" "app_complete a \<Longrightarrow> permissions_complete a"
  "permissions_complete a \<Longrightarrow> ga_api a \<noteq> None"
  "sp_complete sp \<Longrightarrow> sp_id sp \<noteq> None" "sp_complete sp \<Longrightarrow> sp_app_id sp \<noteq> None"
  "key_complete k \<Longrightarrow> kc_key_id k \<noteq> None" "key_complete k \<Longrightarrow> kc_start k \<noteq> None" "key_complete k \<Longrightarrow> kc_end k \<noteq> None"
  "password_complete p \<Longrightarrow> pc_key_id p \<noteq> None" "password_complete p \<Longrightarrow> pc_start p \<noteq> None"
  "password_complete p \<Longrightarrow> pc_end p \<noteq> None"
  "approle_complete r \<Longrightarrow> ar_id r \<noteq> None" "approle_complete r \<Longrightarrow> ar_value r \<noteq> None" "approle_complete r \<Longrightarrow> ar_enabled r \<noteq> None"
  "scope_complete s \<Longrightarrow> ps_id s \<noteq> None" "scope_complete s \<Longrightarrow> ps_value s \<noteq> None" "scope_complete s \<Longrightarrow> ps_enabled s \<noteq> None"
  "scope_complete s \<Longrightarrow> ps_type s \<noteq> None"
  "assignment_complete x \<Longrightarrow> ra_role_id x \<noteq> None" "assignment_complete x \<Longrightarrow> ra_principal_id x \<noteq> None"
  "assignment_complete x \<Longrightarrow> ra_resource_id x \<noteq> None" "assignment_complete x \<Longrightarrow> ra_principal_type x \<noteq> None"
  "assignment_complete x \<Longrightarrow> ra_principal_name x \<noteq> None"
  by (auto simp: app_complete_def permissions_complete_def sp_complete_def key_complete_def password_complete_def
      approle_complete_def scope_complete_def assignment_complete_def)

lemma complete_parts:
  "app_complete a \<Longrightarrow> c \<in> set (ga_key_credentials a) \<Longrightarrow> key_complete c"
  "app_complete a \<Longrightarrow> p \<in> set (ga_password_credentials a) \<Longrightarrow> password_complete p"
  "app_complete a \<Longrightarrow> ga_api a = Some api \<Longrightarrow> q \<in> set (api_pre_authorized api) \<Longrightarrow> pa_app_id q \<noteq> None"
  "permissions_complete a \<Longrightarrow> r \<in> set (ga_app_roles a) \<Longrightarrow> approle_complete r"
  "permissions_complete a \<Longrightarrow> ga_api a = Some api \<Longrightarrow> s \<in> set (api_scopes api) \<Longrightarrow> scope_complete s"
  by (auto simp: app_complete_def permissions_complete_def)

text \<open>The premises of the rule for dereferencing.\<close>

lemmas set_pointers [simp] = completeD [unfolded not_None_eq]

subsection \<open>Permissions\<close>

lemma extract_permissions_yields [yielding]:
  "permissions_complete a \<Longrightarrow> (\<And>p. Q p) \<Longrightarrow> out_yields Q (extract_permissions a)"
  unfolding extract_permissions_def permission_from_scope_def permission_from_app_role_def
  by (auto intro!: out_yields_intros out_yields_fold [where I = "\<lambda>_. True"] dest: complete_parts)

lemma generate_preserve_yields [yielding]:
  "permissions_complete a \<Longrightarrow> (\<And>p. Q p) \<Longrightarrow> out_yields Q (generate_desired_preserve_existing fresh i a)"
  unfolding generate_desired_preserve_existing_def by (auto intro!: out_yields_intros yielding)

lemma approle_new_complete [simp]: "approle_complete (approle_new i n)" "approle_complete (approle_from_permission q)"
  "approle_complete r \<Longrightarrow> approle_complete (r\<lparr>ar_enabled := Some b\<rparr>)"
  unfolding approle_complete_def approle_new_def approle_from_permission_def by simp_all

lemma scope_new_complete [simp]: "scope_complete (scope_new i n)" "scope_complete (scope_from_permission q)"
  "scope_complete s \<Longrightarrow> scope_complete (s\<lparr>ps_enabled := Some b\<rparr>)"
  "scope_complete s \<Longrightarrow> scope_complete (s\<lparr>ps_type := Some t\<rparr>)"
  unfolding scope_complete_def scope_new_def scope_from_permission_def by simp_all

text \<open>A map of roles or scopes all of which are complete.\<close>

abbreviation complete_roles :: "app_role gomap \<Rightarrow> bool" where
  "complete_roles m \<equiv> (\<forall>k v. (k, v) \<in> set m \<longrightarrow> approle_complete v)"

abbreviation complete_scopes :: "permission_scope gomap \<Rightarrow> bool" where
  "complete_scopes m \<equiv> (\<forall>k v. (k, v) \<in> set m \<longrightarrow> scope_complete v)"

lemma gm_del_in [simp]: "(k', v') \<in> set (gm_del k m) \<longleftrightarrow> k' \<noteq> k \<and> (k', v') \<in> set m"
  by (auto simp: gm_del_def AList.delete_eq)

lemma approle_maps:
  assumes "iteration_order ord"
  shows "complete_roles (approle_to_create ord m d)"
    and "(\<And>r. r \<in> set rs \<Longrightarrow> approle_complete r) \<Longrightarrow> (\<And>m. complete_roles m \<Longrightarrow> Q m) \<Longrightarrow> out_yields Q (approle_to_map rs)"
    and "complete_roles m \<Longrightarrow> (\<And>m. complete_roles m \<Longrightarrow> Q m) \<Longrightarrow> out_yields Q (approle_to_disable ord m d)"
    and "complete_roles m \<Longrightarrow> (\<And>m. complete_roles m \<Longrightarrow> Q m) \<Longrightarrow> out_yields Q (approle_unmodified ord m c dis)"
    and "complete_roles m \<Longrightarrow> r \<in> set (approle_to_slice ord m) \<Longrightarrow> approle_complete r"
    and "complete_roles m \<Longrightarrow> (\<And>l. R l) \<Longrightarrow> out_yields R (approle_to_permission_list ord m)"
proof -
  note range = gm_range_in [OF assms]
  show "complete_roles (approle_to_create ord m d)"
    unfolding approle_to_create_def
    by (intro allI impI, erule collect_all [rotated 2])
       (auto simp: approle_default_role_def split: if_splits dest!: gm_put_in)
  show "out_yields Q (approle_to_map rs)"
    if "\<And>r. r \<in> set rs \<Longrightarrow> approle_complete r" "\<And>m. complete_roles m \<Longrightarrow> Q m"
    unfolding approle_to_map_def approle_map_add_def
    by (rule out_yields_fold [where I = complete_roles]) (use that in \<open>auto intro!: out_yields_intros dest!: gm_put_in\<close>)
  show "out_yields Q (approle_to_disable ord m d)"
    if "complete_roles m" "\<And>m. complete_roles m \<Longrightarrow> Q m" for m
    unfolding approle_to_disable_def using that(1)
    by (auto intro!: out_yields_intros out_yields_collect [where P = approle_complete] that(2)
        dest!: range split: if_splits)
  show "out_yields Q (approle_unmodified ord m c dis)"
    if "complete_roles m" "\<And>m. complete_roles m \<Longrightarrow> Q m" for m
    unfolding approle_unmodified_def using that
    by (auto intro!: out_yields_intros out_yields_collect [where P = approle_complete]
        dest!: range split: if_splits)
  show "approle_complete r" if "complete_roles m" "r \<in> set (approle_to_slice ord m)" for m r
    using that by (auto simp: approle_to_slice_def dest: range)
  show "out_yields R (approle_to_permission_list ord m)" if "complete_roles m" "\<And>l. R l" for m
    unfolding approle_to_permission_list_def permission_from_app_role_def using that
    by (auto intro!: out_yields_intros out_yields_map [where P = "\<lambda>_. True"] dest!: range)
qed

lemma scope_maps:
  assumes "iteration_order ord"
  shows "complete_scopes (scope_to_create ord m d)"
    and "(\<And>r. r \<in> set rs \<Longrightarrow> scope_complete r) \<Longrightarrow> (\<And>m. complete_scopes m \<Longrightarrow> Q m) \<Longrightarrow> out_yields Q (scope_to_map rs)"
    and "complete_scopes m \<Longrightarrow> (\<And>m. complete_scopes m \<Longrightarrow> Q m) \<Longrightarrow> out_yields Q (scope_to_disable ord m d)"
    and "complete_scopes m \<Longrightarrow> (\<And>m. complete_scopes m \<Longrightarrow> Q m) \<Longrightarrow> out_yields Q (scope_unmodified ord m c dis)"
    and "complete_scopes m \<Longrightarrow> r \<in> set (scope_to_slice ord m) \<Longrightarrow> scope_complete r"
    and "complete_scopes m \<Longrightarrow> (\<And>l. R l) \<Longrightarrow> out_yields R (scope_to_permission_list ord m)"
proof -
  note range = gm_range_in [OF assms]
  show "complete_scopes (scope_to_create ord m d)"
    unfolding scope_to_create_def
    by (intro allI impI, erule collect_all [rotated 2])
       (auto simp: scope_default_scope_def split: if_splits dest!: gm_put_in)
  show "out_yields Q (scope_to_map rs)"
    if "\<And>r. r \<in> set rs \<Longrightarrow> scope_complete r" "\<And>m. complete_scopes m \<Longrightarrow> Q m"
    unfolding scope_to_map_def scope_map_add_def
    by (rule out_yields_fold [where I = complete_scopes]) (use that in \<open>auto intro!: out_yields_intros dest!: gm_put_in\<close>)
  show "out_yields Q (scope_to_disable ord m d)"
    if "complete_scopes m" "\<And>m. complete_scopes m \<Longrightarrow> Q m" for m
    unfolding scope_to_disable_def using that(1)
    by (auto intro!: out_yields_intros out_yields_collect [where P = scope_complete] that(2)
        dest!: range split: if_splits)
  show "out_yields Q (scope_unmodified ord m c dis)"
    if "complete_scopes m" "\<And>m. complete_scopes m \<Longrightarrow> Q m" for m
    unfolding scope_unmodified_def using that
    by (auto intro!: out_yields_intros out_yields_collect [where P = scope_complete]
        dest!: range split: if_splits)
  show "scope_complete r" if "complete_scopes m" "r \<in> set (scope_to_slice ord m)" for m r
    using that by (auto simp: scope_to_slice_def dest: range)
  show "out_yields R (scope_to_permission_list ord m)" if "complete_scopes m" "\<And>l. R l" for m
    unfolding scope_to_permission_list_def permission_from_scope_def using that
    by (auto intro!: out_yields_intros out_yields_map [where P = "\<lambda>_. True"] dest!: range)
qed

text \<open>The descriptions of a creation and of an update, and what they log.\<close>

fun approles_described :: "approle_result \<Rightarrow> bool" where
  "approles_described (ApproleCreate c) = complete_roles c"
| "approles_described (ApproleUpdate c d u result) =
     (complete_roles c \<and> complete_roles d \<and> complete_roles u \<and> (\<forall>r \<in> set result. approle_complete r))"

fun scopes_described :: "scope_result \<Rightarrow> bool" where
  "scopes_described (ScopeCreate c) = complete_scopes c"
| "scopes_described (ScopeUpdate c d u result) =
     (complete_scopes c \<and> complete_scopes d \<and> complete_scopes u \<and> (\<forall>r \<in> set result. scope_complete r))"

lemma described_create [simp]:
  assumes "complete_env env"
  shows "approles_described (approles_describe_create (e_order env) d)"
    and "scopes_described (scopes_describe_create (e_order env) d)"
  using approle_maps(1) scope_maps(1) complete_order [OF assms]
  by (auto simp: approles_describe_create_def scopes_describe_create_def)

lemma described_results:
  assumes "complete_env env"
  shows "approles_described a \<Longrightarrow> r \<in> set (approle_get_result (e_order env) a) \<Longrightarrow> approle_complete r"
    and "scopes_described b \<Longrightarrow> s \<in> set (scope_get_result (e_order env) b) \<Longrightarrow> scope_complete s"
proof -
  note ord = complete_order [OF assms]
  show "approle_complete r" if "approles_described a" "r \<in> set (approle_get_result (e_order env) a)"
    using that by (cases a) (auto intro: approle_maps(5) [OF ord])
  show "scope_complete s" if "scopes_described b" "s \<in> set (scope_get_result (e_order env) b)"
    using that by (cases b) (auto intro: scope_maps(5) [OF ord])
qed

lemma log_yields [yielding]:
  assumes "complete_env env"
  shows "approles_described a \<Longrightarrow> Q () \<Longrightarrow> out_yields Q (approle_log (e_order env) a)"
    and "scopes_described b \<Longrightarrow> R () \<Longrightarrow> out_yields R (scope_log (e_order env) b)"
proof -
  note ord = complete_order [OF assms]
  show "out_yields Q (approle_log (e_order env) a)" if "approles_described a" "Q ()"
    using that by (cases a) (auto intro!: out_yields_intros approle_maps(6) [OF ord])
  show "out_yields R (scope_log (e_order env) b)" if "scopes_described b" "R ()"
    using that by (cases b) (auto intro!: out_yields_intros scope_maps(6) [OF ord])
qed

lemma ensure_default_yields:
  "(\<And>r. r \<in> set rs \<Longrightarrow> approle_complete r) \<Longrightarrow> (\<And>ys. (\<And>y. y \<in> set ys \<Longrightarrow> approle_complete y) \<Longrightarrow> Q ys) \<Longrightarrow>
     out_yields Q (approle_ensure_default_enabled rs)"
  "(\<And>r. r \<in> set ss \<Longrightarrow> scope_complete r) \<Longrightarrow> (\<And>ys. (\<And>y. y \<in> set ys \<Longrightarrow> scope_complete y) \<Longrightarrow> R ys) \<Longrightarrow>
     out_yields R (scope_ensure_default_enabled ss)"
  "(\<And>r. r \<in> set ss \<Longrightarrow> scope_complete r) \<Longrightarrow> (\<And>ys. (\<And>y. y \<in> set ys \<Longrightarrow> scope_complete y) \<Longrightarrow> R ys) \<Longrightarrow>
     out_yields R (scope_ensure_admin_consent ss)"
  unfolding approle_ensure_default_enabled_def scope_ensure_default_enabled_def scope_ensure_admin_consent_def
  by (rule out_yields_map [where P = approle_complete] out_yields_map [where P = scope_complete];
      auto intro!: out_yields_intros)+

lemma described_update:
  assumes "complete_env env"
  shows "(\<And>r. r \<in> set rs \<Longrightarrow> approle_complete r) \<Longrightarrow>
      out_yields approles_described (approles_describe_update (e_order env) d rs)"
    and "(\<And>r. r \<in> set ss \<Longrightarrow> scope_complete r) \<Longrightarrow>
      out_yields scopes_described (scopes_describe_update (e_order env) d ss)"
proof -
  note roles = approle_maps [OF complete_order [OF assms]] and scopes = scope_maps [OF complete_order [OF assms]]
    and range = gm_range_in [OF complete_order [OF assms]]
  show "out_yields approles_described (approles_describe_update (e_order env) d rs)"
    if "\<And>r. r \<in> set rs \<Longrightarrow> approle_complete r"
    unfolding approles_describe_update_def Let_def approle_to_slice_def using that roles(1)
    by (auto intro!: out_yields_bind roles(2-4) ensure_default_yields dest!: range)
  show "out_yields scopes_described (scopes_describe_update (e_order env) d ss)"
    if "\<And>r. r \<in> set ss \<Longrightarrow> scope_complete r"
    unfolding scopes_describe_update_def Let_def scope_to_slice_def using that scopes(1)
    by (auto intro!: out_yields_bind scopes(2-4) ensure_default_yields dest!: range)
qed

lemma describe_update_yields [yielding]:
  assumes "complete_env env"
  shows "(\<And>r. r \<in> set rs \<Longrightarrow> approle_complete r) \<Longrightarrow> (\<And>a. approles_described a \<Longrightarrow> Q a) \<Longrightarrow>
      out_yields Q (approles_describe_update (e_order env) d rs)"
    and "(\<And>r. r \<in> set ss \<Longrightarrow> scope_complete r) \<Longrightarrow> (\<And>b. scopes_described b \<Longrightarrow> R b) \<Longrightarrow>
      out_yields R (scopes_describe_update (e_order env) d ss)"
  using described_update [OF assms] by (blast intro: out_yields_mono)+

subsection \<open>Applications\<close>

lemma is_managed_yields [yielding]: "ga_app_id a \<noteq> None \<Longrightarrow> (\<And>b. Q b) \<Longrightarrow> yields Q (is_managed env a)"
  unfolding is_managed_def by (auto intro!: yields_intros)

lemma get_all_yields [yielding]:
  assumes "complete_env env" "\<And>as. (\<And>a. a \<in> set as \<Longrightarrow> app_complete a) \<Longrightarrow> Q as"
  shows "yields Q (get_all env fs)"
  unfolding get_all_def
  by (auto intro!: yields_intros complete_replies [OF assms(1)] is_managed_yields assms(2))

lemma exists_by_filter_yields [yielding]:
  assumes "complete_env env" "Q None" "\<And>a. app_complete a \<Longrightarrow> Q (Some a)"
  shows "yields Q (exists_by_filter env f)"
  unfolding exists_by_filter_def using assms(2,3)
  by (auto intro!: yields_intros get_all_yields [OF assms(1)])

lemma get_single_yields [yielding]:
  assumes "complete_env env" "\<And>a. app_complete a \<Longrightarrow> Q a"
  shows "yields Q (get_single_by_filter_or_error env f)"
  unfolding get_single_by_filter_or_error_def using assms(2)
  by (auto intro!: yields_intros get_all_yields [OF assms(1)])

lemma application_get_yields [yielding]:
  assumes "complete_env env"
  shows "(\<And>a. app_complete a \<Longrightarrow> Q a) \<Longrightarrow> yields Q (application_get_by_name env n)"
    and "(\<And>a. app_complete a \<Longrightarrow> Q a) \<Longrightarrow> yields Q (application_get_by_client_id env i)"
    and "(\<And>a. app_complete a \<Longrightarrow> Q a) \<Longrightarrow> yields Q (application_get env tx)"
    and "R None \<Longrightarrow> (\<And>a. app_complete a \<Longrightarrow> R (Some a)) \<Longrightarrow> yields R (application_exists env tx)"
  unfolding application_get_by_name_def application_get_by_client_id_def application_get_def
    application_exists_def
  using assms by (auto intro!: yields_intros yielding)

lemma application_writes_yield [yielding]:
  "Q () \<Longrightarrow> yields Q (application_delete env tx)"
  "Q () \<Longrightarrow> yields Q (application_patch env oid p)"
  "Q () \<Longrightarrow> yields Q (identifier_uri_set env tx uris)"
  "Q () \<Longrightarrow> yields Q (redirect_uri_update env tx)"
  "Q () \<Longrightarrow> yields Q (enable_accept_mapped_claims env tx a)"
  "Q () \<Longrightarrow> yields Q (application_owners_process env tx owner)"
  "Q () \<Longrightarrow> yields Q (sp_owners_process env tx owner)"
  unfolding application_delete_def application_patch_def identifier_uri_set_def redirect_uri_update_def
    enable_accept_mapped_claims_def application_owners_process_def application_owners_get_def
    application_owners_add_def sp_owners_process_def sp_owners_get_def sp_owners_add_def
  by (auto intro!: yields_intros split: option.splits)

lemma group_claim_yields [yielding]:
  "(\<And>c. Q c) \<Longrightarrow> out_yields Q (normalize_claim claim)"
  "(\<And>c. Q c) \<Longrightarrow> out_yields Q (group_claim_from_spec i)"
  "(\<And>c. Q c) \<Longrightarrow> out_yields Q (group_claim_from_spec_or_default i dflt)"
  unfolding normalize_claim_def group_claim_from_spec_def group_claim_from_spec_or_default_def
  by (auto split: option.splits)

lemma update_group_claim_yields [yielding]:
  assumes "Q app" "\<And>c. Q (with_group_membership_claims c app)"
  shows "out_yields Q (update_group_claim env i actual app)"
  unfolding update_group_claim_def using assms by (auto intro!: out_yields_intros yielding)

lemma application_register_yields [yielding]:
  assumes "complete_env env" "\<And>a. app_complete a \<Longrightarrow> Q a"
  shows "yields Q (application_register env tx)"
  unfolding application_register_def using assms
  by (auto intro!: yields_intros yielding complete_replies)

text \<open>The application an update returns is what it sent: the permissions are the described ones.\<close>

lemma update_body_complete:
  assumes "complete_env env" "approles_described a" "scopes_described b"
  shows "permissions_complete (with_permission_scopes (scope_get_result (e_order env) b)
      (with_optional_claims c (with_identifier_uris u
        (with_app_roles (approle_get_result (e_order env) a) app))))"
  using described_results [OF assms(1)] assms(2,3)
  by (simp add: permissions_complete_def with_permission_scopes_def with_optional_claims_def
      with_identifier_uris_def with_app_roles_def)

lemma claim_permissions_complete [simp]:
  "permissions_complete (with_group_membership_claims c a) = permissions_complete a"
  by (simp add: permissions_complete_def with_group_membership_claims_def)

lemma application_update_yields [yielding]:
  assumes "complete_env env" "\<And>a. permissions_complete a \<Longrightarrow> Q a"
  shows "yields Q (application_update env tx)"
  unfolding application_update_def using assms(1)
  by (auto intro!: yields_intros yielding assms(2) update_body_complete dest: complete_parts(4,5) completeD(4))

lemma disabled_filters_yield [yielding]:
  "permissions_complete a \<Longrightarrow> (\<And>ss. Q ss) \<Longrightarrow> out_yields Q (scope_remove_disabled a)"
  "permissions_complete a \<Longrightarrow> (\<And>rs. R rs) \<Longrightarrow> out_yields R (approle_remove_disabled a)"
  unfolding scope_remove_disabled_def approle_remove_disabled_def
  by (auto intro!: out_yields_intros out_yields_filter split: option.split dest: complete_parts)

lemma remove_disabled_yields [yielding]:
  assumes "permissions_complete a" "Q ()"
  shows "yields Q (remove_disabled_permissions env tx a)"
  unfolding remove_disabled_permissions_def using assms
  by (auto intro!: yields_intros yielding)

subsection \<open>Service principals and policies\<close>

lemma sp_reads_yield [yielding]:
  assumes "complete_env env"
  shows "(\<And>c. Q c) \<Longrightarrow> yields Q (sp_get_client_id env i)"
    and "R None \<Longrightarrow> (\<And>sp. sp_complete sp \<Longrightarrow> R (Some sp)) \<Longrightarrow> yields R (sp_exists env j)"
proof -
  show "yields Q (sp_get_client_id env i)" if "\<And>c. Q c"
    unfolding sp_get_client_id_def using assms that by (auto intro!: yields_intros complete_replies)
  show "yields R (sp_exists env j)" if "R None" "\<And>sp. sp_complete sp \<Longrightarrow> R (Some sp)"
    unfolding sp_exists_def using that by (auto intro!: yields_intros complete_replies [OF assms])
qed

lemma sp_yields [yielding]:
  assumes "complete_env env"
  shows "(\<And>i. Q i) \<Longrightarrow> yields Q (sp_get_id_by_client_id env i)"
    and "(\<And>sp. sp_complete sp \<Longrightarrow> R sp) \<Longrightarrow> yields R (sp_register env tx)"
    and "S () \<Longrightarrow> yields S (set_app_role_assignment_required env tx)"
  unfolding sp_get_id_by_client_id_def sp_register_def set_app_role_assignment_required_def
    set_app_role_assignment_def sp_update_def
  using assms by (auto intro!: yields_intros yielding complete_replies)

lemma sp_writes_yield [yielding]:
  "Q () \<Longrightarrow> yields Q (set_security_attributes env tx)"
  "Q () \<Longrightarrow> yields Q (grant_process env tx)"
  unfolding set_security_attributes_def grant_process_def grant_exists_def
  by (auto intro!: yields_intros)

lemma policies_loop_yields: "Q () \<Longrightarrow> yields Q (policies_loop env desired i ps)"
proof (induction ps)
  case (Cons p ps)
  then show ?case
    by (auto simp: remove_policy_def intro!: yields_intros split: option.split)
qed (auto simp: assign_policy_def intro!: yields_intros)

lemma policies_yields [yielding]: "Q () \<Longrightarrow> yields Q (policies_process env tx desired)"
  unfolding policies_process_def get_assigned_policies_def
  by (auto intro!: yields_intros policies_loop_yields)

end
