(* ===== verification/PanicFreeClient.thy ===== *)
theory PanicFreeClient
  imports PanicFree
begin

text \<open>
  The absence of panics, continued: app role assignments, groups, pre-authorized applications, the
  credentials of an application, and the operations of the Azure client that are composed of them.
\<close>

subsection \<open>App role assignments\<close>

definition listed :: "app_role_assignment \<Rightarrow> bool" where
  "listed a \<longleftrightarrow> assignment_complete a \<and> ra_id a \<noteq> None"

lemma listedD [simp]: "listed a \<Longrightarrow> assignment_complete a" "listed a \<Longrightarrow> \<exists>i. ra_id a = Some i"
  by (auto simp: listed_def)

lemma difference_yields:
  assumes "\<And>a. a \<in> set xs \<Longrightarrow> assignment_complete a" "\<And>a. a \<in> set ys \<Longrightarrow> assignment_complete a"
    and "\<And>a. a \<in> set xs \<Longrightarrow> P a" "\<And>zs. (\<And>a. a \<in> set zs \<Longrightarrow> P a) \<Longrightarrow> Q zs"
  shows "out_yields Q (assignment_difference xs ys)"
  unfolding assignment_difference_def to_assignment_key_def
  by (rule out_yields_bind, rule out_yields_map [where P = "\<lambda>_. True"])
     (use assms(1-3) in \<open>auto intro!: out_yields_intros out_yields_filter assms(4)\<close>)

lemma assignment_filters_yield [yielding]:
  assumes "\<And>a. a \<in> set xs \<Longrightarrow> assignment_complete a" "\<And>zs. set zs \<subseteq> set xs \<Longrightarrow> Q zs"
  shows "out_yields Q (assignments_filter_by_role_id xs i)"
    and "out_yields Q (assignments_groups xs)"
    and "out_yields Q (assignments_service_principals xs)"
    and "out_yields Q (assignments_without_matching_role xs roles)"
  unfolding assignments_filter_by_role_id_def assignments_groups_def assignments_service_principals_def
    assignments_filter_by_type_def assignments_without_matching_role_def
  using assms(1) by (auto intro!: out_yields_intros out_yields_filter assms(2))

lemma has_resource_yields [yielding]:
  assumes "\<And>a. a \<in> set xs \<Longrightarrow> assignment_complete a" "\<And>b. Q b"
  shows "out_yields Q (assignments_has_resource xs re)"
  unfolding assignments_has_resource_def using assms
  by (auto intro!: out_yields_intros out_yields_ex)

lemma log_and_do_yields [yielding]:
  "assignment_complete a \<Longrightarrow> yields Q body \<Longrightarrow> yields Q (log_and_do a body)"
  unfolding log_and_do_def by (auto intro!: yields_intros)

lemma assignment_loops_yield [yielding]:
  "(\<And>a. a \<in> set as \<Longrightarrow> assignment_complete a) \<Longrightarrow> Q () \<Longrightarrow> yields Q (assign_for env target as)"
  "(\<And>a. a \<in> set bs \<Longrightarrow> listed a) \<Longrightarrow> R () \<Longrightarrow> yields R (revoke_for env target bs)"
  "(\<And>a. a \<in> set as \<Longrightarrow> assignment_complete a) \<Longrightarrow> S () \<Longrightarrow> yields S (log_unmodified as)"
  unfolding assign_for_def revoke_for_def log_unmodified_def
  by (auto intro!: yields_intros log_and_do_yields)

text \<open>What is listed for a target, and the requests that one role and all roles lead to.\<close>

lemma assignments_get_all_yields [yielding]:
  assumes "complete_env env" "\<And>as. (\<And>a. a \<in> set as \<Longrightarrow> listed a) \<Longrightarrow> Q as"
  shows "yields Q (assignments_get_all env target)"
  unfolding assignments_get_all_def
  by (auto intro!: yields_intros complete_replies(6) [OF assms(1), folded listed_def] assms(2))

lemma keep_if_managed_yields [yielding]:
  assumes "complete_env env" "assignment_complete a" "Q filtered" "Q (filtered @ [a])"
  shows "yields Q (keep_if_managed env a filtered)"
  unfolding keep_if_managed_def assignee_is_managed_def using assms
  by (auto intro!: yields_intros yielding)

lemma listed_filters_yield:
  assumes "\<And>a. a \<in> set xs \<Longrightarrow> listed a" "\<And>zs. (\<And>a. a \<in> set zs \<Longrightarrow> listed a) \<Longrightarrow> Q zs"
  shows "out_yields Q (assignments_filter_by_role_id xs i)"
    and "out_yields Q (assignments_groups xs)"
    and "out_yields Q (assignments_service_principals xs)"
    and "out_yields Q (assignments_without_matching_role xs roles)"
  using assms(1) by (auto intro!: assignment_filters_yield assms(2))

lemma differences_yield:
  assumes "\<And>a. a \<in> set existing \<Longrightarrow> listed a" "\<And>a. a \<in> set desired \<Longrightarrow> assignment_complete a"
  shows "(\<And>as. (\<And>a. a \<in> set as \<Longrightarrow> assignment_complete a) \<Longrightarrow> Q as) \<Longrightarrow>
      out_yields Q (assignments_to_assign existing desired)"
    and "(\<And>as. (\<And>a. a \<in> set as \<Longrightarrow> listed a) \<Longrightarrow> R as) \<Longrightarrow>
      out_yields R (assignments_to_revoke existing desired)"
    and "(\<And>as. (\<And>a. a \<in> set as \<Longrightarrow> assignment_complete a) \<Longrightarrow> S as) \<Longrightarrow>
      (\<And>a. a \<in> set rs \<Longrightarrow> listed a) \<Longrightarrow> out_yields S (assignments_unmodified existing desired rs)"
  unfolding assignments_to_assign_def assignments_to_revoke_def assignments_unmodified_def
  by (rule difference_yields [where P = assignment_complete] difference_yields [where P = listed];
      use assms in auto)+

lemma service_principals_yield [yielding]:
  assumes "complete_env env" "\<And>as. (\<And>a. a \<in> set as \<Longrightarrow> listed a) \<Longrightarrow> Q as"
  shows "yields Q (assignments_get_all_service_principals env target)"
  unfolding assignments_get_all_service_principals_def
  by (auto intro!: yields_intros assignments_get_all_yields [OF assms(1)] listed_filters_yield
      yields_fold_io [where I = "\<lambda>as. \<forall>a \<in> set as. listed a"] keep_if_managed_yields [OF assms(1)] assms(2))

lemma fetch_existing_yields [yielding]:
  assumes "complete_env env" "\<And>as. (\<And>a. a \<in> set as \<Longrightarrow> listed a) \<Longrightarrow> Q as"
  shows "yields Q (fetch_existing env target t)"
  unfolding fetch_existing_def assignments_get_all_groups_def
  by (auto intro!: yields_intros assignments_get_all_yields [OF assms(1)] listed_filters_yield
      service_principals_yield [OF assms(1)] assms(2))

lemma process_role_yields [yielding]:
  assumes "\<And>a. a \<in> set existing \<Longrightarrow> listed a" "Q ()"
  shows "yields Q (process_role env target existing assignees t role)"
  unfolding process_role_def
  using assms
  by (auto intro!: yields_intros listed_filters_yield(1) differences_yield
      assignment_loops_yield)

lemma process_for_yields [yielding]:
  assumes "complete_env env" "Q ()"
  shows "yields Q (process_for env target assignees t roles)"
  unfolding process_for_def process_enabled_roles_def revoke_for_disabled_roles_def
    revoke_without_matching_role_def
  using assms
  by (auto intro!: yields_intros fetch_existing_yields process_role_yields listed_filters_yield(1,4)
      assignment_loops_yield)

subsection \<open>Groups\<close>

lemma out_of_sum_yields [yielding]: "(\<And>y. r = Inr y \<Longrightarrow> Q y) \<Longrightarrow> out_yields Q (out_of_sum r)"
  by (cases r) (simp_all add: out_of_sum_def)

lemma group_get_yields [yielding]:
  assumes "complete_env env" "Q None" "\<And>g. gg_id g \<noteq> None \<Longrightarrow> gg_display_name g \<noteq> None \<Longrightarrow> Q (Some g)"
  shows "yields Q (group_get_by_id env i)"
  unfolding group_get_by_id_def decode_group_response_def Let_def using assms(2)
  by (auto intro!: yields_intros complete_replies [OF assms(1)] out_of_sum_yields assms(3))

lemma group_roles_yield [yielding]: "(\<And>p. Q p) \<Longrightarrow> out_yields Q group_roles"
  unfolding group_roles_def permission_from_app_role_def approle_default_group_role_def
    approle_from_permission_def
  by (auto intro!: out_yields_intros)

lemma group_folds_yield [yielding]:
  assumes "complete_env env"
  shows "(\<And>acc. Q acc) \<Longrightarrow> yields Q (add_claim_group env i acc)"
    and "(\<And>gs. R gs) \<Longrightarrow> yields R (add_all_users_group env j groups)"
proof -
  show "yields Q (add_claim_group env i acc)" if "\<And>acc. Q acc"
    unfolding add_claim_group_def group_to_resource_def
    by (auto intro!: yields_intros group_get_yields [OF assms] that)
  show "yields R (add_all_users_group env j groups)" if "\<And>gs. R gs"
    unfolding add_all_users_group_def group_to_resource_def
    by (auto intro!: yields_intros group_get_yields [OF assms] that)
qed

lemma groups_yield [yielding]:
  assumes "complete_env env" "Q ()"
  shows "yields Q (groups_process env tx)"
  unfolding groups_process_def get_groups_def groups_from_claims_def all_users_groups_def
    process_for_groups_def
  using assms
  by (auto intro!: yields_intros yields_fold_io [where I = "\<lambda>_. True"] group_folds_yield group_roles_yield
      process_for_yields split: option.split list.split)

subsection \<open>Pre-authorized applications\<close>

lemma map_to_resource_yields [yielding]:
  assumes "complete_env env" "\<And>r. Q r"
  shows "yields Q (map_to_resource env app)"
  unfolding map_to_resource_def pre_auth_exists_def using assms(2)
  by (auto intro!: yields_intros exists_by_filter_yields [OF assms(1)] sp_reads_yield [OF assms(1)])

lemma pre_auth_folds_yield [yielding]:
  assumes "complete_env env"
  shows "(\<And>acc. Q acc) \<Longrightarrow> yields Q (add_desired env tx i app acc)"
    and "pa_app_id existing \<noteq> None \<Longrightarrow> (\<And>l. R l) \<Longrightarrow> yields R (keep_unmanaged env added existing apps)"
  unfolding add_desired_def keep_unmanaged_def
  by (auto intro!: yields_intros map_to_resource_yields [OF assms] exists_by_filter_yields [OF assms]
      is_managed_yields split: prod.split)

lemma map_desired_yields [yielding]:
  assumes "complete_env env" "\<And>p. Q p"
  shows "yields Q (map_desired_pre_authorized_apps env tx)"
  unfolding map_desired_pre_authorized_apps_def using assms
  by (auto intro!: yields_intros yields_fold_io [where I = "\<lambda>_. True"] pre_auth_folds_yield)

lemma pre_auth_process_yields [yielding]:
  assumes "complete_env env" "\<And>p. Q p"
  shows "yields Q (pre_auth_process env tx perms)"
  unfolding pre_auth_process_def patch_pre_authorized_applications_def process_for_service_principals_def
  using assms
  by (auto intro!: yields_intros yields_fold_io [where I = "\<lambda>_. True"] pre_auth_folds_yield
      map_desired_yields application_get_yields application_writes_yield process_for_yields
      dest: completeD(4,5) complete_parts(3))

lemma split_assigned_yields:
  assumes "\<And>p. p \<in> set actual \<Longrightarrow> pa_app_id p \<noteq> None" "\<And>a. a \<in> set all \<Longrightarrow> listed a" "\<And>acc. Q acc"
  shows "out_yields Q (split_assigned actual all re acc)"
  unfolding split_assigned_def pre_auth_has_resource_def using assms
  by (auto intro!: out_yields_intros out_yields_ex has_resource_yields split: prod.split)

lemma pre_auth_get_yields [yielding]:
  assumes "complete_env env" "\<And>p. Q p"
  shows "yields Q (pre_auth_get env tx)"
  unfolding pre_auth_get_def using assms
  by (auto intro!: yields_intros out_yields_fold [where I = "\<lambda>_. True"] split_assigned_yields
      map_desired_yields application_get_yields service_principals_yield
      dest: completeD(4,5) complete_parts(3))

subsection \<open>Credentials\<close>

text \<open>The loops over the listed credentials of either kind.\<close>

lemma newest_index_yields [yielding]:
  "(\<And>c. c \<in> set cs \<Longrightarrow> start c \<noteq> None) \<Longrightarrow> (\<And>n. Q n) \<Longrightarrow> out_yields Q (newest_index start i cs newest idx)"
  by (induction cs arbitrary: i newest idx) (auto intro!: out_yields_intros split: option.split)

lemma select_credentials_yields:
  assumes "\<And>c. c \<in> set cs \<Longrightarrow> key_id c \<noteq> None" "\<And>l. (\<And>c. c \<in> set l \<Longrightarrow> c \<in> set cs) \<Longrightarrow> Q l"
  shows "out_yields Q (select_credentials key_id keep ids newest cs)"
proof -
  have snd: "snd p \<in> set cs" if "p \<in> set (enumerate 0 cs)" for p
    using that set_zip_rightD [of "fst p" "snd p"] by (simp add: enumerate_eq_zip)
  then have "key_id (snd p) \<noteq> None" if "p \<in> set (enumerate 0 cs)" for p
    using that assms(1) by blast
  moreover have "c \<in> set cs" if "set ics \<subseteq> set (enumerate 0 cs)" "c \<in> set (map snd ics)" for c ics
    using that snd by auto
  ultimately show ?thesis
    unfolding select_credentials_def has_matching_key_id_def
    by (auto intro!: out_yields_intros out_yields_filter assms(2))
qed

lemma keep_keys_yields [yielding]:
  assumes "\<And>c. c \<in> set cs \<Longrightarrow> key_complete c" "\<And>l. Q l"
  shows "out_yields Q (keep_keys ids cs)"
  unfolding keep_keys_def using assms
  by (auto intro!: out_yields_intros newest_index_yields select_credentials_yields)

lemma revocation_candidates_yields [yielding]:
  assumes "\<And>c. c \<in> set cs \<Longrightarrow> password_complete c" "\<And>l. (\<And>c. c \<in> set l \<Longrightarrow> password_complete c) \<Longrightarrow> Q l"
  shows "out_yields Q (revocation_candidates ids cs)"
  unfolding revocation_candidates_def using assms(1)
  by (auto intro!: out_yields_intros newest_index_yields select_credentials_yields assms(2))

lemma ids_in_use_yield [yielding]:
  assumes "latest_of tx \<noteq> None" "\<And>ids. Q ids"
  shows "out_yields Q (key_ids_in_use tx)" "out_yields Q (password_ids_in_use tx)"
  unfolding key_ids_in_use_def password_ids_in_use_def latest_outcome_def using assms
  by (auto intro!: out_yields_intros)

lemma validate_step_yields [yielding]:
  assumes "expiry c \<noteq> None" "key_id c \<noteq> None" "\<And>acc. Q acc"
  shows "yields Q (validate_step env expiry key_id cur nxt c acc)"
  unfolding validate_step_def using assms(1,2)
  by (auto intro!: yields_intros assms(3))

text \<open>A generated key has the certificate that was created for it.\<close>

lemma generate_jwk_yields [yielding]:
  assumes "complete_env env" "\<And>j. Q j"
  shows "yields Q (generate_jwk env i cluster)"
  unfolding generate_jwk_def new_rsa_key_pair_def certificate_template_def generate_certificate_def
    from_jwk_def
  using complete_replyD(8) [OF assms(1)] assms(2) by (auto intro!: yields_intros)

lemma key_credential_new_yields [yielding]:
  assumes "complete_env env" "\<And>kc j. kc_key_id kc \<noteq> None \<Longrightarrow> Q (kc, j)"
  shows "yields Q (key_credential_new env tx)"
  unfolding key_credential_new_def to_key_credential_def using assms
  by (auto intro!: yields_intros generate_jwk_yields)

lemma key_credentials_yield [yielding]:
  assumes "complete_env env"
  shows "(\<And>ks. kc_key_id (akc_key_credential (akcs_current ks)) \<noteq> None \<Longrightarrow>
        kc_key_id (akc_key_credential (akcs_next ks)) \<noteq> None \<Longrightarrow> Q ks) \<Longrightarrow> yields Q (key_credential_add env tx)"
    and "R () \<Longrightarrow> yields R (key_credential_delete_expired env tx)"
    and "latest_of tx \<noteq> None \<Longrightarrow> S () \<Longrightarrow> yields S (key_credential_delete_unused env tx)"
    and "latest_of tx \<noteq> None \<Longrightarrow> (\<And>kc j. kc_key_id kc \<noteq> None \<Longrightarrow> T (kc, j)) \<Longrightarrow>
      yields T (key_credential_rotate env tx)"
    and "R () \<Longrightarrow> yields R (key_credential_purge env tx)"
    and "(\<And>b. U b) \<Longrightarrow> yields U (key_credential_validate env tx existing)"
  unfolding key_credential_add_def key_credential_delete_expired_def keep_unexpired_def
    key_credential_delete_unused_def key_credential_rotate_def filter_revoked_keys_def
    key_credential_purge_def key_credential_validate_def
  using assms
  by (auto intro!: yields_intros yielding yields_fold_io [where I = "\<lambda>_. True"] dest: complete_parts(1))

lemma password_remove_yields [yielding]:
  "key_id \<noteq> None \<Longrightarrow> Q () \<Longrightarrow> yields Q (password_remove env i key_id)"
  unfolding password_remove_def delay_def by (auto intro!: yields_intros)

lemma remove_passwords_yields [yielding]:
  assumes "ga_id a \<noteq> None" "\<And>c. c \<in> set cs \<Longrightarrow> password_complete c" "Q ()"
  shows "yields Q (remove_passwords env a cs)"
  unfolding remove_passwords_def using assms by (auto intro!: yields_intros password_remove_yields)

lemma passwords_yield [yielding]:
  assumes "complete_env env"
  shows "(\<And>p. pc_key_id p \<noteq> None \<Longrightarrow> pc_secret p \<noteq> None \<Longrightarrow> Q p) \<Longrightarrow> yields Q (password_add env tx)"
    and "R () \<Longrightarrow> yields R (password_delete_expired env tx)"
    and "latest_of tx \<noteq> None \<Longrightarrow> S () \<Longrightarrow> yields S (password_delete_unused env tx)"
    and "latest_of tx \<noteq> None \<Longrightarrow> (\<And>p. pc_key_id p \<noteq> None \<Longrightarrow> pc_secret p \<noteq> None \<Longrightarrow> T p) \<Longrightarrow>
      yields T (password_rotate env tx)"
    and "R () \<Longrightarrow> yields R (password_purge env tx)"
    and "(\<And>b. U b) \<Longrightarrow> yields U (password_validate env tx existing)"
  unfolding password_add_def to_add_request_def password_delete_expired_def remove_if_expired_def
    password_delete_unused_def password_rotate_def password_purge_def password_validate_def delay_def
  using assms
  by (auto intro!: yields_intros yielding complete_replies yields_fold_io [where I = "\<lambda>_. True"]
      dest: complete_parts(2))

lemma credentials_yield [yielding]:
  assumes "complete_env env"
  shows "(\<And>cs. Q cs) \<Longrightarrow> yields Q (credentials_add env tx)"
    and "R () \<Longrightarrow> yields R (credentials_delete_expired env tx)"
    and "latest_of tx \<noteq> None \<Longrightarrow> R () \<Longrightarrow> yields R (credentials_delete_unused env tx)"
    and "latest_of tx \<noteq> None \<Longrightarrow> (\<And>cs. Q cs) \<Longrightarrow> yields Q (credentials_rotate env tx)"
    and "R () \<Longrightarrow> yields R (credentials_purge env tx)"
    and "(\<And>b. U b) \<Longrightarrow> yields U (credentials_validate env tx existing)"
  unfolding credentials_add_def credentials_delete_expired_def credentials_delete_unused_def
    credentials_rotate_def credentials_purge_def credentials_validate_def delay_def latest_outcome_def
  using assms by (auto intro!: yields_intros yielding)

subsection \<open>The operations of the client\<close>

lemma update_ids_yield [yielding]:
  "app_complete a \<Longrightarrow> Q () \<Longrightarrow> yields Q (update_with_application_ids a)"
  "sp_complete sp \<Longrightarrow> Q () \<Longrightarrow> yields Q (update_with_service_principal_id sp)"
  unfolding update_with_application_ids_def update_with_service_principal_id_def
  by (auto intro!: yields_intros)

lemma client_process_yields [yielding]:
  assumes "complete_env env" "permissions_complete a" "\<And>r. Q r"
  shows "yields Q (client_process env tx a)"
  unfolding client_process_def using assms by (auto intro!: yields_intros yielding)

lemma client_yields [yielding]:
  assumes "complete_env env"
  shows "(\<And>r. Q r) \<Longrightarrow> yields Q (client_create env tx)"
    and "(\<And>r. Q r) \<Longrightarrow> yields Q (client_update env tx)"
    and "R None \<Longrightarrow> (\<And>a. app_complete a \<Longrightarrow> R (Some a)) \<Longrightarrow> yields R (client_exists env tx)"
    and "(\<And>a. app_complete a \<Longrightarrow> S a) \<Longrightarrow> yields S (client_get env tx)"
    and "T () \<Longrightarrow> yields T (client_delete env tx)"
    and "(\<And>sp. sp_complete sp \<Longrightarrow> U sp) \<Longrightarrow> yields U (get_service_principal env tx)"
    and "(\<And>p. V p) \<Longrightarrow> yields V (get_pre_authorized_apps env tx)"
  unfolding client_create_def client_update_def client_exists_def client_get_def client_delete_def
    get_service_principal_def get_pre_authorized_apps_def do_retry_def
  using assms by (auto intro!: yields_intros yielding dest: completeD(4))

end
