(* ===== verification/PanicFreedom.thy ===== *)
theory PanicFreedom
  imports PanicFreeClient Controller Scenario
begin

text \<open>
  A reconciliation does not panic: the secrets, the reconcilers and the controller on top of the
  Azure client. What is left besides complete replies is the nil map of annotations to which
  \<open>UpdateAnnotations\<close> may write; the last theorem says exactly when it does.
\<close>

subsection \<open>Secrets\<close>

lemma extract_credentials_yields [yielding]:
  assumes "complete_env env" "\<And>c. Q c"
  shows "out_yields Q (extract_credentials (e_codec env) s keys)"
  unfolding extract_credentials_def from_jwk_def Let_def
  using complete_replyD(8,9) [OF assms(1)] assms(2)
  by (auto intro!: out_yields_intros out_of_sum_yields split: list.split)

lemma get_previous_yields [yielding]:
  assumes "complete_env env" "\<And>c. Q c"
  shows "out_yields Q (get_previous_credentials_set (e_codec env) l keys n)"
  unfolding get_previous_credentials_set_def extract_credentials_set_def using assms(2)
  by (auto intro!: out_yields_intros extract_credentials_yields [OF assms(1)] split: option.split)

lemma secret_data_yields [yielding]:
  "(\<And>d. Q d) \<Longrightarrow> out_yields Q (secret_data c app cs oid keys)"
  unfolding secret_data_def by (auto intro!: out_yields_intros out_of_sum_yields)

lemma secrets_prepare_yields [yielding]:
  assumes "complete_env env" "\<And>ss. Q ss"
  shows "yields Q (secrets_prepare env)"
  unfolding secrets_prepare_def get_managed_secrets_def using assms(2)
  by (auto intro!: yields_intros get_previous_yields [OF assms(1)])

lemma secrets_write_yields [yielding]:
  "Q () \<Longrightarrow> yields Q (secrets_create_or_update env tx res cs)"
  "Q () \<Longrightarrow> yields Q (secrets_delete_unused env tx)"
  unfolding secrets_create_or_update_def create_or_update_object_def mutate_secret_def
    secrets_delete_unused_def
  by (auto intro!: yields_intros secret_data_yields out_of_sum_yields)

subsection \<open>Reconcilers\<close>

lemma report_event_yields [yielding]: "Q () \<Longrightarrow> yields Q (report_event env ty reason msg)"
  unfolding report_event_def by (auto intro!: yields_intros)

text \<open>What an update of the newest version does, for a property of the versions that are read.\<close>

lemma update_application_yields:
  assumes "\<And>h req i. e_resource env h req = Inr i \<Longrightarrow> P i" "\<And>i. P i \<Longrightarrow> yields Q (upd i)" "Q ()"
  shows "yields Q (update_application env upd)"
  unfolding update_application_def using assms by (auto intro!: yields_intros yields_call)

lemma azure_process_yields [yielding]:
  assumes "complete_env env" "\<And>r. Q r"
  shows "yields Q (azure_process env tx)"
  unfolding azure_process_def azure_create_def azure_update_def azure_not_modified_def
    report_pre_authorized_status_def
  using assms by (auto intro!: yields_intros yielding)

lemma azure_credentials_yield [yielding]:
  assumes "complete_env env"
  shows "(\<And>r. Q r) \<Longrightarrow> yields Q (azure_add_credentials env tx)"
    and "latest_of tx \<noteq> None \<Longrightarrow> R () \<Longrightarrow> yields R (azure_delete_unused_credentials env tx)"
    and "R () \<Longrightarrow> yields R (azure_delete_expired_credentials env tx)"
    and "latest_of tx \<noteq> None \<Longrightarrow> (\<And>r. Q r) \<Longrightarrow> yields Q (azure_rotate_credentials env tx)"
    and "R () \<Longrightarrow> yields R (azure_purge_credentials env tx)"
    and "tx_credentials_ok tx \<Longrightarrow> (\<And>b. S b) \<Longrightarrow> yields S (azure_validate_credentials env tx)"
  unfolding azure_add_credentials_def azure_delete_unused_credentials_def
    azure_delete_expired_credentials_def azure_rotate_credentials_def azure_purge_credentials_def
    azure_validate_credentials_def latest_outcome_def tx_credentials_ok_def
  using assms by (auto intro!: yields_intros yielding)

lemma azure_existence_yields [yielding]:
  assumes "complete_env env"
  shows "R () \<Longrightarrow> yields R (azure_delete env tx)"
    and "(\<And>b. S b) \<Longrightarrow> yields S (azure_exists env tx)"
    and "R () \<Longrightarrow> yields R (azure_process_orphaned env tx)"
  unfolding azure_delete_def azure_exists_def azure_process_orphaned_def
  using assms by (auto intro!: yields_intros yielding)

lemma finalizer_yields [yielding]:
  assumes "complete_env env" "\<And>b. Q b"
  shows "yields Q (finalizer_process env tx)"
  unfolding finalizer_process_def finalizer_finalize_def finalizer_register_def
  using assms
  by (auto intro!: yields_intros yielding update_application_yields [where P = "\<lambda>_. True"])

lemma secrets_process_yields [yielding]:
  assumes "complete_env env" "tx_credentials_ok tx" "Q ()"
  shows "yields Q (secrets_process env tx res)"
  unfolding secrets_process_def using assms
  by (auto simp: tx_credentials_ok_def intro!: yields_intros yielding)

subsection \<open>The controller\<close>

lemma process_opts_latest:
  assumes "complete_env env"
    and "\<And>p. (opt_secret_valid (opt_secret (opt_process p)) \<Longrightarrow> latest_set (txs_latest secrets) \<noteq> None) \<Longrightarrow> Q p"
  shows "out_yields Q (new_options (e_hash env) t i cfg secrets)"
  unfolding new_options_def process_opts_def is_hash_changed_def Let_def
  using complete_replyD(10) [OF assms(1), of i]
  by (cases "e_hash env i") (auto intro!: assms(2))

lemma prepare_yields [yielding]:
  assumes "complete_env env" "\<And>tx. tx_credentials_ok tx \<Longrightarrow> Q tx"
  shows "yields Q (prepare env namespace name)"
  unfolding prepare_def get_or_generate_correlation_id_def
  by (auto simp: tx_credentials_ok_def intro!: yields_intros yields_call secrets_prepare_yields [OF assms(1)]
      process_opts_latest [OF assms(1)] azure_existence_yields [OF assms(1)] assms(2))

lemma handle_error_yields [yielding]: "(\<And>r. Q r) \<Longrightarrow> yields Q (handle_error env tx e)"
  unfolding handle_error_def is_unrecoverable_error_def
  by (auto intro!: yields_intros report_event_yields split: err.split cause.split)

lemma step_yields:
  assumes "yields (\<lambda>x. yields Q (k x)) m" "\<And>r. Q r"
  shows "yields Q (step env tx m k)"
  unfolding step_def using assms by (auto intro!: yields_intros handle_error_yields)

lemma annotations_stay [simp]:
  "app_annotations r \<noteq> None \<Longrightarrow> app_annotations (remove_processed i r) \<noteq> None"
  by (auto simp: remove_processed_def remove_annotation_def remove_from_annotation_def Let_def
      split: option.splits)

lemma merge_yields:
  "e \<noteq> None \<Longrightarrow> (\<And>m. Q m) \<Longrightarrow> out_yields Q (merge_annotations e m)"
  by (auto simp: merge_annotations_def split: option.split)

text \<open>Every version of the resource that is read has a map of annotations, possibly an empty one.\<close>

definition annotated_env :: "env \<Rightarrow> bool" where
  "annotated_env env \<longleftrightarrow> (\<forall>h req i. e_resource env h req = Inr i \<longrightarrow> app_annotations i \<noteq> None)"

lemma update_annotations_yields [yielding]:
  assumes "annotated_env env" "Q ()"
  shows "yields Q (update_annotations env tx)"
  unfolding update_annotations_def Let_def
  by (rule yields_wrap, rule update_application_yields [where P = "\<lambda>i. app_annotations i \<noteq> None"])
     (use assms in \<open>auto simp: annotated_env_def simp del: not_None_eq
       intro!: yields_intros merge_yields annotations_stay\<close>)

lemma hash_yields [yielding]: "complete_env env \<Longrightarrow> (\<And>h. Q h) \<Longrightarrow> out_yields Q (e_hash env i)"
  using complete_replyD(10) [of env i] by (cases "e_hash env i") auto

lemma complete_yields [yielding]:
  assumes "complete_env env" "annotated_env env" "\<And>r. Q r"
  shows "yields Q (complete env tx)"
  unfolding complete_def update_status_def using assms
  by (auto intro!: yields_intros report_event_yields update_annotations_yields hash_yields
      update_application_yields [where P = "\<lambda>_. True"])

lemma reconcile_credentials_yields [yielding]:
  assumes "complete_env env" "annotated_env env" "tx_credentials_ok tx" "\<And>r. Q r"
  shows "yields Q (reconcile_credentials env tx)"
proof -
  have ok: "tx_credentials_ok (with_invalid_credentials tx)"
    by (simp add: tx_credentials_ok_def with_invalid_credentials_def Let_def)
  have known: "\<exists>l. latest_of tx = Some l" if "tx_credentials_ok tx" "opt_secret_valid (secret_opts tx)" for tx
    using that by (simp add: tx_credentials_ok_def)
  show ?thesis
    unfolding reconcile_credentials_def Let_def controller_process_def using assms ok
    by (auto intro!: step_yields yields_intros yielding known)
qed

lemma reconcile_yields:
  assumes "complete_env env" "annotated_env env"
  shows "yields (\<lambda>_. True) (reconcile env namespace name)"
  unfolding reconcile_def using assms
  by (auto intro!: yields_intros step_yields yielding)

subsection \<open>Events and sweeps\<close>

lemma synchronize_yields [yielding]: "Q () \<Longrightarrow> yields Q (synchronize env e)"
  unfolding synchronize_def synchronizer_resync_def
  by (auto simp: event_validate_def Let_def intro!: yields_intros yields_call)

lemma produce_event_yields [yielding]: "Q () \<Longrightarrow> yields Q (produce_event env tx i res)"
  unfolding produce_event_def Let_def
  by (auto simp: event_validate_def Let_def intro!: yields_intros synchronize_yields)

lemma sweeper_resolve_yields [yielding]:
  assumes "complete_env env" "\<And>r. Q r"
  shows "yields Q (sweeper_resolve env rule)"
  unfolding sweeper_resolve_def pre_authorized_app_client_id_def Let_def using assms
  by (auto intro!: yields_intros yielding)

lemma any_yields:
  assumes "complete_env env"
  shows "yields (\<lambda>_. True) (any_assignable env us)" "yields (\<lambda>_. True) (any_recreated env as)"
  by (induction us) (auto intro!: yields_intros sweeper_resolve_yields assms split: option.split,
      induction as, auto intro!: yields_intros sweeper_resolve_yields assms split: option.split)

lemma should_resync_yields [yielding]:
  assumes "complete_env env" "\<And>r. Q r"
  shows "yields Q (should_resync env app)"
  unfolding should_resync_def has_resyncable_pre_auth_app_def using assms
  by (auto intro!: yields_intros any_yields [THEN yields_mono])

lemma sweep_yields [yielding]:
  assumes "complete_env env" "Q ()"
  shows "yields Q (sweep env)"
  unfolding sweep_def sweeper_resync_def using assms
  by (auto intro!: yields_intros yields_call should_resync_yields)

subsection \<open>The theorems\<close>

text \<open>
  C15: the operator's work does not panic, whatever the state and whichever requests fail, as long as
  Graph answers with entities that have the properties the code dereferences and the stored keys have
  a certificate: neither the delivery of an event nor a sweep, nor a reconciliation if no version of
  the resource is read without a map of annotations.
\<close>

theorem operator_does_not_panic:
  assumes "complete_env env"
  shows "fst (produce_event env tx i res s) \<noteq> Panic \<and> fst (sweep env s) \<noteq> Panic \<and>
    (annotated_env env \<longrightarrow> fst (reconcile env namespace name s) \<noteq> Panic)"
proof (intro conjI impI)
  have unit: "fst (m s) \<noteq> Panic" if "yields (\<lambda>_. True) m" for m :: "unit prog" and s
    using that by (auto simp: yields_def dest: spec [of _ s])
  show "fst (produce_event env tx i res s) \<noteq> Panic" "fst (sweep env s) \<noteq> Panic"
    by (rule unit, rule produce_event_yields, simp) (rule unit, rule sweep_yields [OF assms], simp)
  show "fst (reconcile env namespace name s) \<noteq> Panic" if "annotated_env env"
    using reconcile_yields [OF assms that, of namespace name] by (auto simp: yields_def dest: spec [of _ s])
qed

definition annotated_sample :: env where
  "annotated_sample = quiet_env\<lparr>e_resource := (\<lambda>_ _. Inr (plain_app\<lparr>app_annotations := Some []\<rparr>))\<rparr>"

lemma annotated_sample_complete: "complete_env annotated_sample" "annotated_env annotated_sample"
  by (simp_all del: set_pointers add: complete_env_def annotated_sample_def iteration_order_id app_complete_def
      permissions_complete_def sp_complete_def quiet_codec_def sample_key_def zero_api_def annotated_env_def)

lemma operator_does_not_panic_witness:
  "fst (reconcile annotated_sample ''ns'' ''app'' start_state) \<noteq> Panic \<and>
   fst (sweep annotated_sample start_state) \<noteq> Panic"
  using operator_does_not_panic [OF annotated_sample_complete(1)] annotated_sample_complete(2) by blast

text \<open>An update of the newest version panics exactly when its last step does.\<close>

lemma update_application_panics:
  "fst (update_application env upd s) = Panic \<longleftrightarrow>
     (\<exists>existing. e_resource env ((Runtime LockAppsync, True) # trace s)
        (Kube (GetResource (app_namespace (inst s)) (app_name (inst s)))) = Inr existing \<and>
      fst (upd existing (s\<lparr>trace := (Kube (GetResource (app_namespace (inst s)) (app_name (inst s))), True)
        # (Runtime LockAppsync, True) # trace s\<rparr>)) = Panic)"
  by (auto simp: update_application_run Let_def split: sum.split prod.split)

lemma merge_panics:
  "merge_annotations existing mine = Panic \<longleftrightarrow> existing = None \<and> (\<exists>k v rest. mine = Some ((k, v) # rest))"
  by (auto simp: merge_annotations_def neq_Nil_conv split: option.split)

lemma remove_processed_none:
  "app_annotations (remove_processed i r) = None \<longleftrightarrow> app_annotations r = None"
  using annotations_stay [of r i]
  by (auto simp: remove_processed_def remove_annotation_def remove_from_annotation_def Let_def
      split: option.splits)

text \<open>
  C38: the annotations of a completed reconciliation are merged into the newest version; this panics
  exactly when that version can be read and has no annotations at all, while the instance still has
  some besides the processed marks.
\<close>

theorem update_annotations_panics:
  "fst (update_annotations env tx s) = Panic \<longleftrightarrow>
     (\<exists>existing k v rest.
        e_resource env ((Runtime LockAppsync, True) # trace s)
          (Kube (GetResource (app_namespace (inst s)) (app_name (inst s)))) = Inr existing \<and>
        app_annotations existing = None \<and>
        app_annotations (remove_processed (inst s) (inst s)) = Some ((k, v) # rest))"
proof -
  have wrapped: "fst (wrap msg m s) = Panic \<longleftrightarrow> fst (m s) = Panic" for msg and m :: "unit prog"
    by (cases "m s"; cases "fst (m s)") (auto simp: wrap_def)
  have last: "fst (bnd (lift x) (\<lambda>y. call (req y) (e_unit env)) t) = Panic \<longleftrightarrow> x = Panic"
    for x :: "string gomap option outcome" and req t
    by (cases x) (auto simp: bnd_def lift_def call_def split: sum.split)
  show ?thesis
    unfolding update_annotations_def wrapped update_application_panics Let_def
    by (simp add: bnd_run_Ok instance_of_def gets_def modify_def last merge_panics remove_processed_none)
qed

end
