(* ===== verification/Locking.thy ===== *)
theory Locking
  imports RequestClasses Scenario
begin

text \<open>
  The mutex \<open>appsync\<close> (azureadapplication_controller.go). The critical sections of a reconciliation
  are the words of a small automaton: the lock, one read of the newest version, at most one write of
  the resource, the release. Go's mutex is not reentrant, so a second lock inside a section would
  wait for ever; the automaton has no transition for it, for a release without a lock, for a write
  outside a section and for any other request inside one.
\<close>

datatype section_state = Outside | Locked | Missing | Newest | Written

fun advance :: "section_state \<Rightarrow> event \<Rightarrow> section_state option" where
  "advance Outside e = (if plain e \<or> deletes e \<or> adds e \<or> drops e then Some Outside
     else if e = (Runtime LockAppsync, True) then Some Locked else None)"
| "advance Locked e = (case e of
       (Kube (GetResource _ _), ok) \<Rightarrow> Some (if ok then Newest else Missing)
     | _ \<Rightarrow> None)"
| "advance Newest e = (case e of
       (Kube (UpdateResource _), _) \<Rightarrow> Some Written
     | (Kube (UpdateResourceStatus _), _) \<Rightarrow> Some Written
     | (Runtime UnlockAppsync, _) \<Rightarrow> Some Outside
     | _ \<Rightarrow> None)"
| "advance Missing e = (if e = (Runtime UnlockAppsync, True) then Some Outside else None)"
| "advance Written e = (if e = (Runtime UnlockAppsync, True) then Some Outside else None)"

text \<open>The state after a history, which is kept newest first; \<open>None\<close> when the discipline is broken.\<close>

fun section_after :: "history \<Rightarrow> section_state option" where
  "section_after [] = Some Outside"
| "section_after (e # h) = Option.bind (section_after h) (\<lambda>st. advance st e)"

definition disciplined :: "state \<Rightarrow> state \<Rightarrow> bool" where
  "disciplined s s' \<longleftrightarrow> (\<exists>new. trace s' = new @ trace s \<and>
     (\<forall>h. section_after h = Some Outside \<longrightarrow> section_after (new @ h) = Some Outside))"

interpretation disciplined: step_relation disciplined
proof
  show "disciplined s s" for s by (simp add: disciplined_def)
  show "disciplined s s''" if s: "disciplined s s'" "disciplined s' s''" for s s' s''
  proof -
    obtain n1 where 1: "trace s' = n1 @ trace s"
      "\<And>h. section_after h = Some Outside \<Longrightarrow> section_after (n1 @ h) = Some Outside"
      using s(1) unfolding disciplined_def by blast
    obtain n2 where 2: "trace s'' = n2 @ trace s'"
      "\<And>h. section_after h = Some Outside \<Longrightarrow> section_after (n2 @ h) = Some Outside"
      using s(2) unfolding disciplined_def by blast
    show ?thesis unfolding disciplined_def using 1 2 by (intro exI [of _ "n2 @ n1"]) simp
  qed
qed

text \<open>A program that sends no request of a section stays outside.\<close>

lemma disciplined_outside:
  assumes "emits Q m" "\<And>e. Q e \<Longrightarrow> plain e \<or> deletes e \<or> adds e \<or> drops e"
  shows "moves disciplined m"
proof (rule movesI)
  fix s r s'
  assume "m s = (r, s')"
  from movesD [OF assms(1) this] obtain new where new: "trace s' = new @ trace s" "\<forall>e \<in> set new. Q e"
    by (auto simp: emits_rel_def)
  have "section_after (new @ h) = Some Outside" if "section_after h = Some Outside" for h
    using new(2) that assms(2) by (induction new) simp_all
  then show "disciplined s s'" unfolding disciplined_def using new(1) by blast
qed

lemma disciplined_plain: "emits plain m \<Longrightarrow> moves disciplined m"
  by (erule disciplined_outside) simp

lemma disciplined_instance: "moves disciplined instance_of"
  by (simp add: instance_of_def disciplined.gets)

text \<open>An update is one section, if its last step sends nothing, a write, or nothing after a change of the instance.\<close>

lemma update_application_disciplined:
  assumes "\<And>existing t. trace (snd (upd existing t)) = trace t \<or>
     (\<exists>a ok. trace (snd (upd existing t)) = (Kube (UpdateResource a), ok) # trace t \<or>
       trace (snd (upd existing t)) = (Kube (UpdateResourceStatus a), ok) # trace t)"
  shows "moves disciplined (update_application env upd)"
proof (rule movesI)
  fix s r s'
  assume run: "update_application env upd s = (r, s')"
  let ?q = "Kube (GetResource (app_namespace (inst s)) (app_name (inst s)))"
  let ?lock = "(Runtime LockAppsync, True)" and ?unlock = "(Runtime UnlockAppsync, True)"
  show "disciplined s s'"
  proof (cases "e_resource env (?lock # trace s) ?q")
    case (Inl e)
    then have "trace s' = [?unlock, (?q, False), ?lock] @ trace s"
      using run by (auto simp: update_application_run Let_def)
    then show ?thesis unfolding disciplined_def by (intro exI conjI) (assumption, simp)
  next
    case (Inr existing)
    define t where "t = s\<lparr>trace := (?q, True) # ?lock # trace s\<rparr>"
    have s': "trace s' = ?unlock # trace (snd (upd existing t))"
      using run Inr by (auto simp: update_application_run Let_def t_def split: prod.splits)
    from assms [of existing t] consider
        "trace s' = [?unlock, (?q, True), ?lock] @ trace s"
      | a ok where "trace s' = [?unlock, (Kube (UpdateResource a), ok), (?q, True), ?lock] @ trace s"
      | a ok where "trace s' = [?unlock, (Kube (UpdateResourceStatus a), ok), (?q, True), ?lock] @ trace s"
      by (auto simp: s' t_def)
    then show ?thesis
      unfolding disciplined_def by cases (intro exI conjI, assumption, simp)+
  qed
qed

lemma call_writes: "trace (snd (call req reply t)) = trace t \<or> (\<exists>ok. trace (snd (call req reply t)) = (req, ok) # trace t)"
  by (auto simp: call_def split: sum.split)

subsection \<open>The parts of a reconciliation\<close>

lemma status_disciplined: "moves disciplined (update_status env tx)"
  unfolding update_status_def
  by (intro disciplined.wrap update_application_disciplined)
     (auto simp: instance_of_def gets_def bnd_def call_def split: sum.split)

lemma annotations_disciplined: "moves disciplined (update_annotations env tx)"
  unfolding update_annotations_def Let_def
  by (intro disciplined.wrap update_application_disciplined)
     (auto simp: instance_of_def gets_def modify_def lift_def bnd_def call_def
       split: sum.split outcome.split prod.split)

lemma finalizer_disciplined:
  "moves disciplined (finalizer_register env tx)" "moves disciplined (finalizer_finalize env tx)"
proof -
  have upd: "moves disciplined (update_application env (\<lambda>existing. call (Kube (UpdateResource (f existing))) (e_unit env)))" for f
    by (rule update_application_disciplined) (auto simp: call_def split: sum.split)
  show "moves disciplined (finalizer_register env tx)"
    unfolding finalizer_register_def by (intro disciplined.wrap upd)
  have "moves disciplined (azure_delete env tx)"
    by (rule disciplined_outside [OF azure_delete_plain]) blast
  then show "moves disciplined (finalizer_finalize env tx)"
    unfolding finalizer_finalize_def
    by (auto intro!: disciplined.rules upd azure_credentials_plain [THEN disciplined_plain] disciplined_instance
        disciplined_plain [OF report_event_emits])
qed

lemma finalizer_process_disciplined: "moves disciplined (finalizer_process env tx)"
  unfolding finalizer_process_def Let_def
  by (auto intro!: disciplined.rules finalizer_disciplined disciplined_instance)

lemma step_disciplined:
  "moves disciplined m \<Longrightarrow> (\<And>x. moves disciplined (k x)) \<Longrightarrow> moves disciplined (step env tx m k)"
  unfolding step_def
  by (auto intro!: disciplined.rules handle_error_plain [THEN disciplined_plain] split: sum.split)

lemma complete_disciplined: "moves disciplined (complete env tx)"
  unfolding complete_def
  by (auto intro!: disciplined.rules status_disciplined annotations_disciplined disciplined_instance
      disciplined_plain [OF report_event_emits] disciplined_plain [OF emits_now]
      disciplined_plain [OF emits_set_status])

lemma reconcile_credentials_disciplined: "moves disciplined (reconcile_credentials env tx)"
proof -
  have process: "moves disciplined (controller_process env tx')" for tx'
    by (rule disciplined_outside [OF controller_process_plain_registering]) blast
  have drop: "moves disciplined (secrets_delete_unused env tx')" for tx'
    by (rule disciplined_outside [OF secrets_delete_unused_class [where Q = "\<lambda>e. drops e"]]) simp_all
  show ?thesis
    unfolding reconcile_credentials_def Let_def
    by (auto intro!: step_disciplined disciplined.rules process drop complete_disciplined
        azure_credentials_plain [THEN disciplined_plain])
qed

lemma reconcile_disciplined: "moves disciplined (reconcile env namespace name)"
proof -
  have orphaned: "moves disciplined (azure_process_orphaned env tx)" for tx
    by (rule disciplined_outside [OF orphaned_plain]) blast
  show ?thesis
    unfolding reconcile_def
    by (auto intro!: disciplined.rules step_disciplined orphaned finalizer_process_disciplined
        reconcile_credentials_disciplined prepare_plain [THEN disciplined_plain] split: sum.split)
qed

text \<open>
  Every critical section of a reconciliation ends: when it starts outside a section it ends
  outside one, whatever its result, a panic included; inside a section it never locks again (which
  would wait for ever), reads the newest version before it writes, writes at most once and sends no
  request to Graph; and it writes the resource only inside a section.
\<close>

theorem critical_sections_end:
  assumes "reconcile env namespace name s = (r, s')" "section_after (trace s) = Some Outside"
  shows "section_after (trace s') = Some Outside"
  using movesD [OF reconcile_disciplined assms(1)] assms(2) by (auto simp: disciplined_def)

lemma critical_sections_end_witness:
  "section_after (trace (snd (reconcile quiet_env ''ns'' ''app'' start_state))) = Some Outside"
  using critical_sections_end [of quiet_env "''ns''" "''app''" start_state] by (metis prod.collapse section_after.simps(1) start_state_simps(1))

end
