(* ===== verification/Workers.thy ===== *)
theory Workers
  imports Locking SyncProperties ReconcileSafety
begin

text \<open>
  Several pieces of work at a time: the workers of the controller (\<open>MaxConcurrentReconciles\<close>), the
  goroutines that produce events and the sweeper. A worker is the sequence of the requests of one
  piece of work, with the replies it got; an interleaving runs the workers' sequences, and the only
  thing a worker waits for is the mutex \<open>appsync\<close>. Because the environment of a worker is arbitrary,
  its replies may be those that the other workers' requests lead to.
\<close>

subsection \<open>Pieces of work\<close>

definition reconciliation :: "event list \<Rightarrow> bool" where
  "reconciliation w \<longleftrightarrow> (\<exists>env namespace name s r s'.
     reconcile env namespace name s = (r, s') \<and> trace s' = rev w @ trace s)"

definition production :: "event list \<Rightarrow> bool" where
  "production w \<longleftrightarrow> (\<exists>env tx i res s r s'.
     produce_event env tx i res s = (r, s') \<and> trace s' = rev w @ trace s)"

definition sweeping_round :: "event list \<Rightarrow> bool" where
  "sweeping_round w \<longleftrightarrow> (\<exists>env s r s'. sweep env s = (r, s') \<and> trace s' = rev w @ trace s)"

text \<open>What a sequence does to the mutex: whether it is held afterwards, \<open>None\<close> for a misuse.\<close>

fun holds :: "bool \<Rightarrow> event list \<Rightarrow> bool option" where
  "holds b [] = Some b"
| "holds b ((q, ok) # w) =
     (if q = Runtime LockAppsync then (if b then None else holds True w)
      else if q = Runtime UnlockAppsync then (if b then holds False w else None)
      else holds b w)"

lemma holds_append: "holds b (v @ w) = Option.bind (holds b v) (\<lambda>b'. holds b' w)"
  by (induction b v rule: holds.induct) auto

text \<open>The automaton of the critical sections, read forwards.\<close>

fun sections :: "section_state \<Rightarrow> event list \<Rightarrow> section_state option" where
  "sections st [] = Some st"
| "sections st (e # w) = Option.bind (advance st e) (\<lambda>st'. sections st' w)"

lemma sections_append: "sections st (v @ w) = Option.bind (sections st v) (\<lambda>st'. sections st' w)"
  by (induction v arbitrary: st) (auto simp: bind_assoc split: Option.bind_split)

lemma section_after_sections: "section_after h = sections Outside (rev h)"
  by (induction h) (simp_all add: sections_append)

lemma advance_holds:
  assumes "advance st (q, ok) = Some st'"
  shows "q = Runtime LockAppsync \<Longrightarrow> st = Outside \<and> st' \<noteq> Outside"
    and "q = Runtime UnlockAppsync \<Longrightarrow> st \<noteq> Outside \<and> st' = Outside"
    and "q \<noteq> Runtime LockAppsync \<Longrightarrow> q \<noteq> Runtime UnlockAppsync \<Longrightarrow> st = Outside \<longleftrightarrow> st' = Outside"
  using assms
  by (cases st; auto split: if_splits request.splits kube_request.splits runtime_request.splits)+

lemma sections_holds:
  "sections st w = Some st' \<Longrightarrow> holds (st \<noteq> Outside) w = Some (st' \<noteq> Outside)"
proof (induction w arbitrary: st)
  case (Cons e w)
  obtain q ok where e: "e = (q, ok)" by (cases e)
  obtain st1 where st1: "advance st (q, ok) = Some st1" "sections st1 w = Some st'"
    using Cons.prems by (auto simp: e bind_eq_Some_conv)
  note change = advance_holds [OF st1(1)] and rest = Cons.IH [OF st1(2)]
  consider "q = Runtime LockAppsync" | "q = Runtime UnlockAppsync"
    | "q \<noteq> Runtime LockAppsync" "q \<noteq> Runtime UnlockAppsync" by blast
  then show ?case
    by cases (use change(1) rest in \<open>simp add: e\<close>, use change(2) rest in \<open>simp add: e\<close>,
        use change(3) rest in \<open>simp add: e\<close>)
qed simp

lemma reconciliation_sections:
  assumes "reconciliation w"
  shows "sections Outside w = Some Outside"
proof -
  obtain env namespace name s r s' where run: "reconcile env namespace name s = (r, s')" "trace s' = rev w @ trace s"
    using assms unfolding reconciliation_def by blast
  obtain new where new: "trace s' = new @ trace s"
    "\<forall>h. section_after h = Some Outside \<longrightarrow> section_after (new @ h) = Some Outside"
    using movesD [OF reconcile_disciplined run(1)] unfolding disciplined_def by blast
  have "new = rev w" using run(2) new(1) by simp
  then show ?thesis using spec [OF new(2), of "[]"] by (simp add: section_after_sections)
qed

text \<open>The synchronizer and the sweeper leave the mutex alone.\<close>

fun locks :: "event \<Rightarrow> bool" where
  "locks (q, ok) \<longleftrightarrow> q = Runtime LockAppsync \<or> q = Runtime UnlockAppsync"

lemma holds_lock_free: "\<forall>e \<in> set w. \<not> locks e \<Longrightarrow> holds b w = Some b"
  by (induction w) auto

lemma lock_free_worker:
  assumes "emits (\<lambda>e. \<not> locks e) m" "m s = (r, s')" "trace s' = rev w @ trace s"
  shows "holds b w = Some b"
proof (rule holds_lock_free, rule ballI)
  fix e assume "e \<in> set w"
  moreover obtain new where "trace s' = new @ trace s" "\<forall>e \<in> set new. \<not> locks e"
    using movesD [OF assms(1,2)] by (auto simp: emits_rel_def)
  ultimately show "\<not> locks e" using assms(3) by (metis append_same_eq set_rev)
qed

lemma produce_event_lock_free: "emits (\<lambda>e. \<not> locks e) (produce_event env tx i res)"
proof -
  have "\<not> locks ev" if "marking env e ev" for e ev
    using that by (cases "(env, e, ev)" rule: marking.cases) auto
  then have "emits (\<lambda>e. \<not> locks e) (synchronize env e)" for e
    by (intro emits_mono [OF synchronize_emits])
  then show ?thesis
    unfolding produce_event_def Let_def by (auto intro!: emits_intros split: outcome.split)
qed

lemma sweep_lock_free: "emits (\<lambda>e. \<not> locks e) (sweep env)"
proof (rule emits_mono [OF sweep_emits])
  fix ev assume "sweeping env ev"
  then show "\<not> locks ev" by (cases "(env, ev)" rule: sweeping.cases) auto
qed

definition piece :: "event list \<Rightarrow> bool" where
  "piece w \<longleftrightarrow> reconciliation w \<or> production w \<or> sweeping_round w"

lemma piece_holds: "piece w \<Longrightarrow> holds False w = Some False"
  using sections_holds [OF reconciliation_sections] lock_free_worker [OF produce_event_lock_free]
    lock_free_worker [OF sweep_lock_free]
  by (auto simp: piece_def production_def sweeping_round_def)

subsection \<open>Interleavings\<close>

text \<open>What is left of every worker, and which of them holds the mutex.\<close>

type_synonym workers = "event list list \<times> nat option"

inductive worker_step :: "workers \<Rightarrow> workers \<Rightarrow> bool" where
  acquire: "i < length ws \<Longrightarrow> ws ! i = (Runtime LockAppsync, ok) # w \<Longrightarrow> worker_step (ws, None) (ws[i := w], Some i)"
| release: "i < length ws \<Longrightarrow> ws ! i = (Runtime UnlockAppsync, ok) # w \<Longrightarrow> worker_step (ws, Some i) (ws[i := w], None)"
| proceed: "i < length ws \<Longrightarrow> ws ! i = e # w \<Longrightarrow> \<not> locks e \<Longrightarrow> worker_step (ws, h) (ws[i := w], h)"

text \<open>The worker that steps, and what becomes of the mutex.\<close>

lemma worker_step_cases:
  assumes "worker_step (ws, h) (ws', h')"
  obtains i q ok w where "i < length ws" "ws ! i = (q, ok) # w" "ws' = ws[i := w]"
    "q = Runtime LockAppsync \<Longrightarrow> h = None \<and> h' = Some i"
    "q = Runtime UnlockAppsync \<Longrightarrow> h = Some i \<and> h' = None"
    "q \<noteq> Runtime LockAppsync \<Longrightarrow> q \<noteq> Runtime UnlockAppsync \<Longrightarrow> h' = h"
    "\<And>j. j \<noteq> i \<Longrightarrow> h' = Some j \<longleftrightarrow> h = Some j"
  using assms
proof cases
  case (proceed i e w)
  then show ?thesis using that [of i "fst e" "snd e" w] by (cases e) auto
qed (use that in auto)

definition well_held :: "workers \<Rightarrow> bool" where
  "well_held c \<longleftrightarrow> (case c of (ws, h) \<Rightarrow>
     (\<forall>i < length ws. holds (h = Some i) (ws ! i) = Some False) \<and> (\<forall>i. h = Some i \<longrightarrow> i < length ws))"

lemma well_held_step:
  assumes "worker_step (ws, h) (ws', h')" "well_held (ws, h)"
  shows "well_held (ws', h')"
  using assms(1)
proof (cases rule: worker_step_cases)
  case (1 i q ok w)
  have "holds (h = Some i) ((q, ok) # w) = Some False" using assms(2) 1(1,2) by (auto simp: well_held_def)
  then have "holds (h' = Some i) w = Some False" using 1(4-6) by (auto split: if_splits)
  then show ?thesis
    using assms(2) 1(1,3-7) by (auto simp: well_held_def nth_list_update)
qed

text \<open>A worker that has something left can move, or the holder of the mutex can.\<close>

lemma well_held_progress:
  assumes "well_held (ws, h)" "\<exists>w \<in> set ws. w \<noteq> []"
  shows "\<exists>c. worker_step (ws, h) c"
proof -
  have inv: "\<And>i. i < length ws \<Longrightarrow> holds (h = Some i) (ws ! i) = Some False"
    "\<And>i. h = Some i \<Longrightarrow> i < length ws"
    using assms(1) by (auto simp: well_held_def)
  obtain i where i: "i < length ws" "ws ! i \<noteq> []" "h = Some i \<or> h = None"
  proof (cases h)
    case None
    then show ?thesis using assms(2) that by (auto simp: in_set_conv_nth)
  next
    case (Some j)
    then show ?thesis using inv [of j] that [of j] by (cases "ws ! j") auto
  qed
  then obtain q ok w where w: "ws ! i = (q, ok) # w" by (cases "ws ! i") auto
  consider "q = Runtime LockAppsync" | "q = Runtime UnlockAppsync" | "\<not> locks (q, ok)" by auto
  then show ?thesis
  proof cases
    case 1
    then have "h = None" using inv(1) [OF i(1)] w i(3) by auto
    then show ?thesis using worker_step.acquire i(1) w 1 by blast
  next
    case 2
    then have "h = Some i" using inv(1) [OF i(1)] w i(3) by (auto split: if_splits)
    then show ?thesis using worker_step.release i(1) w 2 by blast
  next
    case 3
    then show ?thesis using worker_step.proceed i(1) w by blast
  qed
qed

lemma well_held_end:
  assumes "well_held (ws, h)" "\<forall>w \<in> set ws. w = []"
  shows "h = None"
proof (cases h)
  case (Some j)
  then have "holds True (ws ! j) = Some False" "ws ! j = []"
    using assms by (auto simp: well_held_def)
  then show ?thesis by simp
qed

lemma worker_step_size:
  assumes "worker_step (ws, h) (ws', h')"
  shows "Suc (sum_list (map length ws')) = sum_list (map length ws)"
  using assms
proof (cases rule: worker_step_cases)
  case (1 i q ok w)
  have "Suc (sum_list (map length (ws[i := w]))) = sum_list (map length ws)"
    if "i < length ws" "ws ! i = e # w" for ws i and e :: event
    using that by (induction ws arbitrary: i) (auto simp: nth_Cons split: nat.splits)
  then show ?thesis using 1(1-3) by blast
qed

lemma start_well_held: "(\<And>w. w \<in> set W \<Longrightarrow> piece w) \<Longrightarrow> well_held (W, None)"
  by (auto simp: well_held_def intro: piece_holds)

lemma runs_well_held:
  assumes "(worker_step ^^ n) (W, None) (ws, h)" "\<And>w. w \<in> set W \<Longrightarrow> piece w"
  shows "well_held (ws, h) \<and> n + sum_list (map length ws) = sum_list (map length W)"
  using assms(1)
proof (induction n arbitrary: ws h)
  case 0
  then show ?case using start_well_held [OF assms(2)] by simp
next
  case (Suc n)
  then obtain ws1 h1 where "(worker_step ^^ n) (W, None) (ws1, h1)" "worker_step (ws1, h1) (ws, h)"
    by auto
  then show ?case using Suc.IH [of ws1 h1] well_held_step [of ws1 h1 ws h] worker_step_size [of ws1 h1 ws h] by simp
qed

text \<open>
  C16: work in parallel ends: however the requests of reconciliations, productions of events and
  sweeps interleave, nobody waits for ever for the mutex. Every step sends one of the requests, and
  when no step is possible every piece of work is done and the mutex is free.
\<close>

theorem workers_finish:
  assumes "\<And>w. w \<in> set W \<Longrightarrow> piece w" "(worker_step ^^ n) (W, None) (ws, h)"
  shows "n + sum_list (map length ws) = sum_list (map length W) \<and>
    ((\<exists>c. worker_step (ws, h) c) \<or> h = None \<and> (\<forall>w \<in> set ws. w = []))"
  using runs_well_held [OF assms(2,1)] well_held_progress well_held_end by blast

definition quiet_work :: "event list" where
  "quiet_work = rev (trace (snd (reconcile quiet_env ''ns'' ''app'' start_state)))"

lemma quiet_work_reconciliation: "reconciliation quiet_work"
  unfolding reconciliation_def quiet_work_def
  by (intro exI [of _ quiet_env] exI [of _ "''ns''"] exI [of _ "''app''"] exI [of _ start_state] exI
      conjI, rule prod.collapse [symmetric]) simp

lemma workers_finish_witness:
  "\<exists>n ws. (worker_step ^^ n) ([quiet_work, quiet_work], None) (ws, None) \<and> (\<forall>w \<in> set ws. w = [])"
proof -
  let ?W = "[quiet_work, quiet_work]"
  have pieces: "piece w" if "w \<in> set ?W" for w
    using that quiet_work_reconciliation by (auto simp: piece_def)
  have finish: "n + sum_list (map length ws) = sum_list (map length ?W) \<and>
      ((\<exists>c. worker_step (ws, h) c) \<or> h = None \<and> (\<forall>w \<in> set ws. w = []))"
    if "(worker_step ^^ n) (?W, None) (ws, h)" for n ws h
    by (rule workers_finish [OF pieces that])
  let ?P = "\<lambda>n. \<exists>c. (worker_step ^^ n) (?W, None) c"
  have "?P 0" by simp
  moreover have "n \<le> sum_list (map length ?W)" if reached: "?P n" for n
  proof -
    obtain ws h where "(worker_step ^^ n) (?W, None) (ws, h)" using reached by (metis surj_pair)
    from finish [OF this] show ?thesis by linarith
  qed
  ultimately obtain n where n: "?P n" "\<And>m. ?P m \<Longrightarrow> m \<le> n"
    using GreatestI_nat [of ?P 0] Greatest_le_nat [of ?P] by (metis (no_types, lifting))
  obtain ws h where run: "(worker_step ^^ n) (?W, None) (ws, h)" using n(1) by (metis surj_pair)
  have "\<not> worker_step (ws, h) c" for c
    using n(2) [of "Suc n"] relpowp_Suc_I [OF run, of c] by (metis Suc_n_not_le_n)
  then show ?thesis using finish [OF run] run by blast
qed

subsection \<open>Exclusive writes\<close>

text \<open>
  For workers that reconcile, the state of each in its critical sections, from what it has sent: the
  holder of the mutex is the one inside a section.
\<close>

definition section_states :: "event list list \<Rightarrow> workers \<Rightarrow> bool" where
  "section_states W c \<longleftrightarrow> (case c of (ws, h) \<Rightarrow> length ws = length W \<and>
     (\<forall>i < length W. \<exists>v st. W ! i = v @ ws ! i \<and> sections Outside v = Some st \<and>
        sections st (ws ! i) = Some Outside \<and> (h = Some i \<longleftrightarrow> st \<noteq> Outside)))"

lemma section_statesD:
  assumes "section_states W (ws, h)" "i < length ws"
  obtains v st where "W ! i = v @ ws ! i" "sections Outside v = Some st"
    "sections st (ws ! i) = Some Outside" "h = Some i \<longleftrightarrow> st \<noteq> Outside"
proof -
  have "\<exists>v st. W ! i = v @ ws ! i \<and> sections Outside v = Some st \<and>
      sections st (ws ! i) = Some Outside \<and> (h = Some i \<longleftrightarrow> st \<noteq> Outside)"
    using assms by (simp add: section_states_def)
  then show thesis using that by blast
qed

lemma section_states_step:
  assumes "worker_step (ws, h) (ws', h')" "section_states W (ws, h)"
  shows "section_states W (ws', h')"
  using assms(1)
proof (cases rule: worker_step_cases)
  case (1 i q ok w)
  have states: "length ws = length W" "\<And>i. i < length W \<Longrightarrow> \<exists>v st. W ! i = v @ ws ! i \<and>
      sections Outside v = Some st \<and> sections st (ws ! i) = Some Outside \<and> (h = Some i \<longleftrightarrow> st \<noteq> Outside)"
    using assms(2) by (auto simp: section_states_def)
  obtain v st where v: "W ! i = v @ ws ! i" "sections Outside v = Some st"
    "sections st (ws ! i) = Some Outside" "h = Some i \<longleftrightarrow> st \<noteq> Outside"
    using section_statesD [OF assms(2) 1(1)] .
  obtain st1 where st1: "advance st (q, ok) = Some st1" "sections st1 w = Some Outside"
    using v(3) 1(2) by (auto simp: bind_eq_Some_conv)
  have stepped: "W ! i = (v @ [(q, ok)]) @ w" "sections Outside (v @ [(q, ok)]) = Some st1"
    using v(1,2) 1(2) st1(1) by (simp_all add: sections_append)
  have "h' = Some i \<longleftrightarrow> st1 \<noteq> Outside"
    using 1(4-6) v(4) advance_holds [OF st1(1)] by auto
  then show ?thesis
    using states stepped st1(2) 1(1,3,7) unfolding section_states_def
    by (auto simp: nth_list_update simp del: append_assoc)
qed

lemma advance_write: "advance st e = Some st' \<Longrightarrow> writes_resource e \<Longrightarrow> st = Newest"
  by (cases st; cases e rule: writes_resource.cases) (auto simp: plain_def split: if_splits)

lemma advance_Newest: "advance st e = Some Newest \<Longrightarrow> st = Locked \<and> (\<exists>x y. e = (Kube (GetResource x y), True))"
  by (cases st) (auto split: if_splits request.splits kube_request.splits runtime_request.splits prod.splits)

lemma advance_Locked: "advance st e = Some Locked \<Longrightarrow> st = Outside \<and> e = (Runtime LockAppsync, True)"
  by (cases st) (auto split: if_splits request.splits kube_request.splits runtime_request.splits prod.splits)

text \<open>The newest version has been read right after the lock.\<close>

lemma sections_Newest:
  assumes "sections Outside v = Some Newest"
  shows "\<exists>u x y. v = u @ [(Runtime LockAppsync, True), (Kube (GetResource x y), True)]"
proof -
  obtain v1 e where v: "v = v1 @ [e]" using assms by (cases v rule: rev_cases) auto
  obtain st where st: "sections Outside v1 = Some st" "advance st e = Some Newest"
    using assms by (auto simp: v sections_append bind_eq_Some_conv)
  then have e: "sections Outside v1 = Some Locked" "\<exists>x y. e = (Kube (GetResource x y), True)"
    using advance_Newest by blast+
  obtain u e1 where v1: "v1 = u @ [e1]" using e(1) by (cases v1 rule: rev_cases) auto
  obtain st1 where "advance st1 e1 = Some Locked"
    using e(1) by (auto simp: v1 sections_append bind_eq_Some_conv)
  then show ?thesis using advance_Locked e(2) v v1 by auto
qed

lemma runs_section_states:
  assumes "(worker_step ^^ n) (W, None) (ws, h)" "\<And>w. w \<in> set W \<Longrightarrow> reconciliation w"
  shows "section_states W (ws, h)"
  using assms(1)
proof (induction n arbitrary: ws h)
  case 0
  have "\<exists>v st. W ! i = v @ W ! i \<and> sections Outside v = Some st \<and> sections st (W ! i) = Some Outside \<and>
      (None = Some i \<longleftrightarrow> st \<noteq> Outside)" if "i < length W" for i
    using reconciliation_sections assms(2) that by (intro exI [of _ "[]"]) simp
  then show ?case using 0 by (simp add: section_states_def)
next
  case (Suc n)
  then obtain ws1 h1 where "(worker_step ^^ n) (W, None) (ws1, h1)" "worker_step (ws1, h1) (ws, h)"
    by auto
  then show ?case using Suc.IH [of ws1 h1] section_states_step by blast
qed

lemma next_write:
  assumes "section_states W (ws, h)" "i < length ws" "ws ! i = e # w" "writes_resource e"
  shows "h = Some i \<and> (\<exists>u x y. W ! i = u @ [(Runtime LockAppsync, True), (Kube (GetResource x y), True)] @ ws ! i)"
proof -
  obtain v st where v: "W ! i = v @ ws ! i" "sections Outside v = Some st"
    "sections st (ws ! i) = Some Outside" "h = Some i \<longleftrightarrow> st \<noteq> Outside"
    using section_statesD [OF assms(1,2)] .
  obtain st1 where "advance st e = Some st1" using v(3) assms(3) by (auto simp: bind_eq_Some_conv)
  then have "st = Newest" using advance_write assms(4) by blast
  then show ?thesis using v(1,2,4) sections_Newest by fastforce
qed

text \<open>
  C17: the writes of the controller's workers exclude each other: a worker that is about to write a
  resource or its status holds the mutex, has read the newest version with the request before, right
  after it took the mutex, and no other worker is about to write one.
\<close>

theorem controller_writes_exclusive:
  assumes "\<And>w. w \<in> set W \<Longrightarrow> reconciliation w" "(worker_step ^^ n) (W, None) (ws, h)"
    and "i < length ws" "ws ! i = e # w" "writes_resource e"
  shows "h = Some i \<and>
    (\<exists>u x y. W ! i = u @ [(Runtime LockAppsync, True), (Kube (GetResource x y), True)] @ e # w) \<and>
    (\<forall>j < length ws. j \<noteq> i \<longrightarrow> (\<forall>e' w'. ws ! j = e' # w' \<longrightarrow> \<not> writes_resource e'))"
proof -
  note states = runs_section_states [OF assms(2,1)]
  show ?thesis
    using next_write [OF states assms(3-5)] next_write [OF states] assms(4) by fastforce
qed

text \<open>A single worker runs any beginning of its sequence.\<close>

lemma alone:
  assumes "holds False (v @ w) = Some False"
  shows "\<exists>b. holds False v = Some b \<and> (worker_step ^^ length v) ([v @ w], None) ([w], if b then Some 0 else None)"
  using assms
proof (induction v arbitrary: w rule: rev_induct)
  case (snoc e v)
  obtain b where b: "holds False v = Some b"
    "(worker_step ^^ length v) ([v @ e # w], None) ([e # w], if b then Some 0 else None)"
    using snoc.IH [of "e # w"] snoc.prems by auto
  obtain q ok where e: "e = (q, ok)" by (cases e)
  have last: "holds b (e # w) = Some False" using snoc.prems b(1) by (simp add: holds_append)
  obtain b' where b': "holds b [e] = Some b'"
    "worker_step ([e # w], if b then Some 0 else None) ([w], if b' then Some 0 else None)"
  proof -
    consider "q = Runtime LockAppsync" "\<not> b" | "q = Runtime UnlockAppsync" b | "\<not> locks e"
      using last by (auto simp: e split: if_splits)
    then show ?thesis
    proof cases
      case 1
      then show ?thesis using that [of True] worker_step.acquire [of 0 "[e # w]" ok w] by (simp add: e)
    next
      case 2
      then show ?thesis using that [of False] worker_step.release [of 0 "[e # w]" ok w] by (simp add: e)
    next
      case 3
      then show ?thesis using that [of b] worker_step.proceed [of 0 "[e # w]" e w] by (simp add: e)
    qed
  qed
  have "holds False (v @ [e]) = Some b'" using b(1) b'(1) by (simp add: holds_append)
  then show ?case using relpowp_Suc_I [OF b(2) b'(2)] by auto
next
  case Nil
  then show ?case by (intro exI [of _ False]) simp
qed

text \<open>A worker that adds the finalizer to a new resource.\<close>

definition registering_env :: env where
  "registering_env = quiet_env\<lparr>e_resource := (\<lambda>_ _. Inr (plain_app\<lparr>app_finalizers := []\<rparr>))\<rparr>"

definition registering_work :: "event list" where
  "registering_work = rev (trace (snd (reconcile registering_env ''ns'' ''app'' start_state)))"

lemma registering_work_reconciliation: "reconciliation registering_work"
  unfolding reconciliation_def registering_work_def
  by (intro exI [of _ registering_env] exI [of _ "''ns''"] exI [of _ "''app''"] exI [of _ start_state] exI
      conjI, rule prod.collapse [symmetric]) simp

lemma controller_writes_exclusive_witness:
  "\<exists>n e w u x y. (worker_step ^^ n) ([registering_work], None) ([e # w], Some 0) \<and> writes_resource e \<and>
     registering_work = u @ [(Runtime LockAppsync, True), (Kube (GetResource x y), True)] @ e # w"
proof -
  have "list_ex writes_resource (trace (snd (reconcile registering_env ''ns'' ''app'' start_state)))"
    by (simp add: runs reconcile_evals registering_env_def cong: eval_congs)
  then obtain e where e: "e \<in> set registering_work" "writes_resource e"
    by (auto simp: registering_work_def list_ex_iff)
  then obtain v w where work: "registering_work = v @ e # w" by (meson split_list)
  have "holds False (v @ e # w) = Some False"
    using sections_holds [OF reconciliation_sections [OF registering_work_reconciliation]] by (simp add: work)
  from alone [OF this] obtain h where run: "(worker_step ^^ length v) ([registering_work], None) ([e # w], h)"
    by (auto simp: work)
  have "h = Some 0 \<and>
      (\<exists>u x y. [registering_work] ! 0 = u @ [(Runtime LockAppsync, True), (Kube (GetResource x y), True)] @ e # w)"
    using controller_writes_exclusive [OF _ run, of 0 e w] registering_work_reconciliation e(2) by simp
  then obtain u x y where "h = Some 0"
    "registering_work = u @ [(Runtime LockAppsync, True), (Kube (GetResource x y), True)] @ e # w" by auto
  then show ?thesis using run e(2) by blast
qed

end
