(* ===== verification/Completion.thy ===== *)
theory Completion
  imports Idle ControllerProperties
begin

text \<open>
  When a reconciliation writes a status, the work that the status reports is done: the application
  was processed and the secret was written before, in this reconciliation.
\<close>

subsection \<open>Steps without a status\<close>

abbreviation no_status :: "event \<Rightarrow> bool" where
  "no_status e \<equiv> status_of e = None"

lemma plain_no_status: "plain e \<Longrightarrow> no_status e"
  by (cases e rule: status_of.cases) (auto simp: plain_def)

lemma no_status_of_plain: "emits plain m \<Longrightarrow> emits no_status m"
  by (erule plain_into) (rule plain_no_status)

lemmas no_status_parts =
  prepare_plain [THEN no_status_of_plain] handle_error_plain [THEN no_status_of_plain]
  azure_credentials_plain [THEN no_status_of_plain]

lemma no_status_deletions:
  "emits no_status (azure_delete env tx)" "emits no_status (azure_process_orphaned env tx)"
  "emits no_status (secrets_delete_unused env tx)"
proof -
  have deleting: "no_status e" if "plain_deleting e" for e
    using that plain_no_status by (cases e rule: deletes.cases) auto
  show "emits no_status (azure_delete env tx)"
    by (rule emits_mono [OF azure_delete_plain]) (rule deleting)
  show "emits no_status (azure_process_orphaned env tx)"
    by (rule emits_mono [OF orphaned_plain]) (rule deleting)
  show "emits no_status (secrets_delete_unused env tx)"
    by (rule secrets_delete_unused_class) simp
qed

lemma controller_process_no_status: "emits no_status (controller_process env tx)"
proof (rule emits_mono [OF controller_process_plain_registering])
  show "no_status e" if "plain_registering e" for e
    using that plain_no_status by (cases e rule: adds.cases) auto
qed

lemma finalizer_no_status: "emits no_status (finalizer_process env tx)"
  unfolding finalizer_process_def finalizer_finalize_def finalizer_register_def Let_def
  by (auto intro!: emits_intros update_application_emits report_event_emits no_status_parts no_status_deletions)

text \<open>A status that a run writes after a part without one.\<close>

lemma status_after:
  assumes "emits_rel no_status s s1" "emits_rel (\<lambda>_. True) s1 s'"
    and "trace s' = later @ e # earlier @ trace s" "\<not> no_status e"
  obtains n y where "trace s1 = n @ trace s" "trace s' = later @ e # y @ trace s1" "earlier @ trace s = y @ trace s1"
proof -
  obtain n where n: "trace s1 = n @ trace s" "\<forall>e \<in> set n. no_status e"
    using assms(1) by (auto simp: emits_rel_def)
  obtain n' where "trace s' = n' @ trace s1" using assms(2) by (auto simp: emits_rel_def)
  then have "n' @ n = later @ e # earlier" "e \<notin> set n" using assms(3,4) n by auto
  from suffix_after [OF this] obtain y where "earlier = y @ n" by blast
  then show thesis using that [OF n(1), of y] assms(3) n(1) by simp
qed

lemma no_status_run:
  assumes "emits_rel no_status s s'" "trace s' = later @ e # earlier @ trace s"
  shows "no_status e"
  using assms by (auto simp: emits_rel_def)

text \<open>A step before the status: it succeeded, and the rest follows it.\<close>

lemma step_before:
  assumes run: "step env tx m k s = (r, s')" "trace s' = later @ e # earlier @ trace s" "\<not> no_status e"
    and m: "emits no_status m" and k: "\<And>x. emits (\<lambda>_. True) (k x)"
  obtains x s1 n earlier' where "m s = (Ok x, s1)" "k x s1 = (r, s')" "trace s1 = n @ trace s"
    "trace s' = later @ e # earlier' @ trace s1" "earlier @ trace s = earlier' @ trace s1"
  using run(1)
proof (cases rule: step_cases)
  case (Ok x s1)
  obtain n y where "trace s1 = n @ trace s" "trace s' = later @ e # y @ trace s1" "earlier @ trace s = y @ trace s1"
    by (rule status_after [OF movesD [OF m Ok(1)] movesD [OF k Ok(2)] run(2,3)])
  then show ?thesis by (rule that [OF Ok])
next
  case (Err e1 s1)
  have "emits_rel no_status s s'"
    by (rule emits.trans [OF movesD [OF m Err(1)] movesD [OF no_status_parts(2) Err(2)]])
  then show ?thesis using no_status_run [OF _ run(2)] run(3) by simp
next
  case (Panic s1)
  have "emits_rel no_status s s'" using movesD [OF m Panic(1)] Panic(3) by simp
  then show ?thesis using no_status_run [OF _ run(2)] run(3) by simp
qed

subsection \<open>The identifiers in the status\<close>

text \<open>The programs that keep the spec and the identifiers of the application in the status.\<close>

definition same_app :: "state \<Rightarrow> state \<Rightarrow> bool" where
  "same_app s s' \<longleftrightarrow> app_spec (inst s') = app_spec (inst s) \<and>
     status_client_id (app_status (inst s')) = status_client_id (app_status (inst s)) \<and>
     status_object_id (app_status (inst s')) = status_object_id (app_status (inst s)) \<and>
     status_sp_id (app_status (inst s')) = status_sp_id (app_status (inst s))"

interpretation same_app: step_relation same_app
  by unfold_locales (auto simp: same_app_def)

lemma same_app_of_inst: "moves same_inst m \<Longrightarrow> moves same_app m"
  by (auto simp: moves_def same_inst_def same_app_def)

lemma same_app_status:
  "(\<And>st. status_client_id (f st) = status_client_id st \<and> status_object_id (f st) = status_object_id st \<and>
      status_sp_id (f st) = status_sp_id st) \<Longrightarrow> moves same_app (set_status f)"
  by (rule movesI) (auto simp: set_status_def same_app_def)

lemmas same_app_intros =
  same_app.rules same_app_status same_app_of_inst [OF same_inst_call] same_app_of_inst [OF same_inst_ask]
  same_inst_basic [THEN same_app_of_inst]

lemma report_event_same_app: "moves same_app (report_event env ty reason msg)"
  unfolding report_event_def by (intro same_app_intros) simp

lemma secrets_process_same_app: "moves same_app (secrets_process env tx res)"
  unfolding secrets_process_def azure_add_credentials_def azure_rotate_credentials_def
    secrets_create_or_update_def create_or_update_object_def
  by (auto intro!: same_app_intros report_event_same_app credentials_same [THEN same_app_of_inst]
      split: prod.split sum.split)

text \<open>The result of the Azure reconciler names the application that the status names.\<close>

definition names_app :: "application_result \<Rightarrow> app_status \<Rightarrow> bool" where
  "names_app res st \<longleftrightarrow> ares_client_id res = status_client_id st \<and> ares_object_id res = status_object_id st \<and>
     ares_sp_id res = status_sp_id st"

lemma same_app_names:
  "same_app s s' \<Longrightarrow> names_app res (app_status (inst s')) = names_app res (app_status (inst s))"
  by (auto simp: same_app_def names_app_def)

lemma client_update_names:
  assumes "client_update env tx s = (Ok res, s')"
  shows "names_app res (app_status (inst s'))"
  using assms movesD [OF client_update_same assms]
  by (auto simp: client_update_def bnd_Ok_iff ids_iff names_app_def same_inst_def)

lemma azure_process_names_app:
  assumes "azure_process env tx s = (Ok res, s')"
  shows "names_app res (app_status (inst s'))"
proof -
  have report: "moves same_app (if b then report_pre_authorized_status env apps else ret ())" for b apps
    unfolding report_pre_authorized_status_def Let_def by (auto intro!: same_app_intros)
  obtain s1 s2 where p: "(if \<not> tx_exists_in_azure tx then azure_create env tx
       else if opt_azure_synchronize (opt_azure (opt_process (tx_options tx))) then azure_update env tx
       else azure_not_modified env tx) s = (Ok res, s1)"
    and r: "(if is_modified res then report_pre_authorized_status env (ares_pre_authorized_apps res) else ret ()) s1 = (Ok (), s2)"
    and s': "inst s' = inst s2"
    using assms unfolding azure_process_def by (auto simp: bnd_Ok_iff notify_iff)
  have "names_app res (app_status (inst s1))"
  proof (cases "tx_exists_in_azure tx")
    case False
    then show ?thesis using p
      by (auto simp: azure_create_def bnd_Ok_iff set_status_iff names_app_def)
  next
    case True
    show ?thesis
    proof (cases "opt_azure_synchronize (opt_azure (opt_process (tx_options tx)))")
      case True
      then obtain s0 where "client_update env tx s = (Ok res, s0)"
        "report_event env Normal UpdatedInAzure ''Azure application is updated'' s0 = (Ok (), s1)"
        using p \<open>tx_exists_in_azure tx\<close> by (auto simp: azure_update_def bnd_Ok_iff)
      then show ?thesis
        using client_update_names movesD [OF report_event_same_app] same_app_names by blast
    next
      case False
      then show ?thesis
        using p True by (auto simp: azure_not_modified_def bnd_Ok_iff ids_iff names_app_def)
    qed
  qed
  then show ?thesis using movesD [OF report r] same_app_names s' by metis
qed

subsection \<open>The status that is written\<close>

lemma update_status_events:
  assumes "update_status env tx s = (r, s')"
  shows "\<exists>n. trace s' = n @ trace s \<and> (\<forall>e \<in> set n. status_of e \<in> {None, Some (app_status (inst s))})"
  using assms unfolding update_status_def update_application_run
  by (auto simp: wrap_def Let_def bnd_def instance_of_def gets_def call_def split: sum.splits prod.splits)

text \<open>The steps of \<open>Complete\<close> before its requests to Kubernetes cannot fail.\<close>

lemma bnd_totals:
  "bnd (report_event env Normal Synchronized msg) f s = f () (s\<lparr>trace := (Kube (RecordEvent Normal Synchronized msg), True) # trace s,
     inst := (inst s)\<lparr>app_status := (app_status (inst s))\<lparr>status_state := e_reason env Synchronized\<rparr>\<rparr>\<rparr>)"
  "bnd instance_of g s = g (inst s) s"
  "bnd (now env) h s = h (e_time env (trace s)) (s\<lparr>trace := (Runtime Now, True) # trace s\<rparr>)"
  "bnd (set_status u) k s = k () (s\<lparr>inst := (inst s)\<lparr>app_status := u (app_status (inst s))\<rparr>\<rparr>)"
  by (simp_all add: bnd_run_Ok report_event_runs instance_of_def gets_def now_def ask_def set_status_def modify_def)

text \<open>The requests at the end of \<open>Complete\<close>.\<close>

abbreviation record_status :: "env \<Rightarrow> transaction \<Rightarrow> unit prog" where
  "record_status env tx \<equiv> catch (update_status env tx) (\<lambda>e.
     bnd (report_event env Warning FailedStatusUpdate ''Failed to update status'') (\<lambda>_. fail e))"

abbreviation record_completion :: "env \<Rightarrow> transaction \<Rightarrow> ctrl_result prog" where
  "record_completion env tx \<equiv>
     bnd (record_status env tx) (\<lambda>_.
     bnd (catch (update_annotations env tx) (\<lambda>e.
            bnd (report_event env Warning Retrying ''Failed to update annotations'') (\<lambda>_. fail e))) (\<lambda>_.
     ret \<lparr>requeue = False, requeue_after = Some orphanedSecretCleanupGracePeriod\<rparr>))"

text \<open>What holds before them, of a run of \<open>Complete\<close> from \<open>s\<close>.\<close>

definition ready_status :: "env \<Rightarrow> state \<Rightarrow> state \<Rightarrow> bool" where
  "ready_status env s t \<longleftrightarrow> same_app s t \<and> (\<exists>n. trace t = n @ trace s \<and> (\<forall>e \<in> set n. no_status e)) \<and>
     status_secret_name (app_status (inst t)) = spec_secret_name (app_spec (inst s)) \<and>
     (\<exists>i. app_spec i = app_spec (inst s) \<and> e_hash env i = Ok (status_hash (app_status (inst t))))"

lemma complete_before_status:
  assumes "complete env tx s = (r, s')"
  shows "(\<exists>n. trace s' = n @ trace s \<and> (\<forall>e \<in> set n. no_status e)) \<or>
    (\<exists>t. ready_status env s t \<and>
      record_completion env tx t = (r, s'))"
proof -
  define i where "i = (inst s)\<lparr>app_status := (app_status (inst s))
    \<lparr>status_state := e_reason env Synchronized, status_secret_name := spec_secret_name (app_spec (inst s)),
     status_sync_time := Some (e_time env ((Kube (RecordEvent Normal Synchronized ''Azure application is up-to-date''), True) # trace s)),
     status_tenant := tenant_id (az_tenant (azure_cfg env)), status_tenant_name := tenant_name (az_tenant (azure_cfg env))\<rparr>\<rparr>"
  define t where "t = s\<lparr>trace := (Runtime Now, True) #
    (Kube (RecordEvent Normal Synchronized ''Azure application is up-to-date''), True) # trace s, inst := i\<rparr>"
  note run = assms [unfolded complete_def bnd_totals]
  show ?thesis
  proof (cases "e_hash env i")
    case (Ok h)
    let ?t = "t\<lparr>inst := i\<lparr>app_status := (app_status i)\<lparr>status_hash := h\<rparr>\<rparr>\<rparr>"
    have ready: "ready_status env s ?t"
      unfolding ready_status_def same_app_def
      using Ok by (auto simp: t_def i_def intro!: exI [of _ i])
    show ?thesis
      by (rule disjI2, rule exI [of _ ?t], rule conjI [OF ready])
        (use run Ok in \<open>simp add: bnd_totals bnd_run_Ok wrap_def lift_def t_def i_def\<close>)
  next
    case (Err e)
    then have "trace s' = trace t" using run by (auto simp: bnd_def wrap_def lift_def t_def i_def)
    then show ?thesis by (auto simp: t_def)
  next
    case Panic
    then have "trace s' = trace t" using run by (auto simp: bnd_def wrap_def lift_def t_def i_def)
    then show ?thesis by (auto simp: t_def)
  qed
qed

text \<open>The rest of a program after its first part.\<close>

lemma rest_emits:
  assumes "bnd m f s = (r, s')" "m s = (r1, s1)" "\<And>x. emits P (f x)"
  shows "emits_rel P s1 s'"
  using assms(1,2) movesD [OF assms(3)] emits.refl by (auto simp: bnd_def split: outcome.splits)

lemma failing_update_status:
  assumes "catch (update_status env tx) (\<lambda>e. bnd (report_event env ty reason msg) (\<lambda>_. fail e)) t = (r, t')"
  shows "emits_rel (\<lambda>e. status_of e \<in> {None, Some (app_status (inst t))}) t t'"
proof -
  let ?P = "\<lambda>e. status_of e \<in> {None, Some (app_status (inst t))}"
  obtain r1 t1 where u: "update_status env tx t = (r1, t1)" by (cases "update_status env tx t")
  have "emits_rel ?P t t1" using update_status_events [OF u] by (simp add: emits_rel_def)
  moreover have "emits_rel ?P t1 t'"
  proof -
    have h: "emits ?P (bnd (report_event env ty reason msg) (\<lambda>_. fail e))" for e
      by (auto intro!: emits_intros report_event_emits)
    show ?thesis
    proof (cases r1)
      case (Err e)
      then show ?thesis using assms u movesD [OF h] by (auto simp: catch_def)
    qed (use assms u emits.refl in \<open>auto simp: catch_def\<close>)
  qed
  ultimately show ?thesis by (rule emits.trans)
qed

lemma complete_status:
  assumes "complete env tx s = (r, s')" "trace s' = n @ trace s" "e \<in> set n" "status_of e = Some st"
  obtains t where "ready_status env s t" "st = app_status (inst t)"
  using complete_before_status [OF assms(1)]
proof
  assume "\<exists>n. trace s' = n @ trace s \<and> (\<forall>e \<in> set n. no_status e)"
  then show thesis using assms(2-4) by auto
next
  assume "\<exists>t. ready_status env s t \<and>
      record_completion env tx t = (r, s')"
  then obtain t where ready: "ready_status env s t" and run: "record_completion env tx t = (r, s')"
    by blast
  let ?first = "record_status env tx"
  obtain r1 t1 where first: "?first t = (r1, t1)" by (cases "?first t")
  have "emits_rel no_status t1 s'"
    by (rule rest_emits [OF run first])
      (auto intro!: emits_intros report_event_emits update_annotations_no_status)
  moreover obtain k where "trace t = k @ trace s" "\<forall>e \<in> set k. no_status e"
    using ready by (auto simp: ready_status_def)
  ultimately have "\<exists>n. trace s' = n @ trace s \<and> (\<forall>e \<in> set n. status_of e \<in> {None, Some (app_status (inst t))})"
    using failing_update_status [OF first] by (auto simp: emits_rel_def ball_Un)
  then have "status_of e \<in> {None, Some (app_status (inst t))}" using assms(2,3) by auto
  then show thesis using that [OF ready] assms(4) by simp
qed

lemma emits_anything: "emits P m \<Longrightarrow> emits (\<lambda>_. True) m"
  by (erule emits_mono) simp

lemma step_anything:
  "emits no_status m \<Longrightarrow> (\<And>x. emits (\<lambda>_. True) (k x)) \<Longrightarrow> emits (\<lambda>_. True) (step env tx m k)"
  by (rule step_emits) (auto intro: emits_anything no_status_parts(2))

lemma anything_after:
  "emits (\<lambda>_. True) (complete env tx)" "emits (\<lambda>_. True) (after_validation env tx)"
  "emits (\<lambda>_. True) (reconcile_credentials env tx)"
proof -
  show complete: "emits (\<lambda>_. True) (complete env tx)" for tx
    unfolding complete_def update_status_def
    by (auto intro!: emits_intros report_event_emits update_application_emits
        emits_anything [OF update_annotations_no_status])
  show after: "emits (\<lambda>_. True) (after_validation env tx)" for tx
    unfolding after_validation_def
    by (auto intro!: step_anything complete no_status_parts no_status_deletions controller_process_no_status emits_intros)
  show "emits (\<lambda>_. True) (reconcile_credentials env tx)"
    unfolding reconcile_credentials_steps by (intro step_anything after no_status_parts)
qed

subsection \<open>The work before the status\<close>

lemma after_validation_status:
  assumes "after_validation env tx s = (r, s')" "trace s' = later @ e # earlier @ trace s" "status_of e = Some st"
  obtains n s1 res s2 s3 m t where "trace s1 = n @ trace s" "azure_process env tx s1 = (Ok res, s2)"
    "secrets_process env tx res s2 = (Ok (), s3)" "earlier @ trace s = m @ trace s3"
    "ready_status env s3 t" "st = app_status (inst t)"
proof -
  have status: "\<not> no_status e" using assms(3) by simp
  let ?unused = "if opt_secret_cleanup (secret_opts tx) \<and> opt_secret_valid (secret_opts tx)
    then azure_delete_unused_credentials env tx else ret ()"
  let ?process = "step env tx (controller_process env tx) (\<lambda>_. complete env tx)"
  let ?work = "if \<not> opt_synchronize (opt_process (tx_options tx)) then ret (idle_result env) else ?process"
  have process: "emits (\<lambda>_. True) ?process"
    by (intro step_anything controller_process_no_status anything_after)
  have unused: "emits no_status ?unused" by (auto intro!: no_status_parts emits_intros)
  have work: "emits (\<lambda>_. True) ?work" using process by (auto intro!: emits_intros)
  obtain x1 s1 n1 y1 where 1: "step env tx ?unused (\<lambda>_. ?work) s1 = (r, s')"
      "trace s1 = n1 @ trace s" "trace s' = later @ e # y1 @ trace s1" "earlier @ trace s = y1 @ trace s1"
    by (rule step_before [OF assms(1) [unfolded after_validation_def] assms(2) status no_status_deletions(3)
        step_anything [OF unused work]])
  obtain x2 s2 n2 y2 where 2: "?work s2 = (r, s')" "trace s2 = n2 @ trace s1"
      "trace s' = later @ e # y2 @ trace s2" "y1 @ trace s1 = y2 @ trace s2"
    by (rule step_before [OF 1(1,3) status unused work])
  have "?work = ?process" using 2(1,3) by (auto simp: ret_def)
  then have run: "?process s2 = (r, s')" using 2(1) by simp
  obtain x3 s3 n3 y3 where 3: "controller_process env tx s2 = (Ok x3, s3)" "complete env tx s3 = (r, s')"
      "trace s' = later @ e # y3 @ trace s3" "y2 @ trace s2 = y3 @ trace s3"
    by (rule step_before [OF run 2(3) status controller_process_no_status anything_after(1)])
  obtain t where t: "ready_status env s3 t" "st = app_status (inst t)"
    by (rule complete_status [OF 3(2), of "later @ e # y3" e st]) (use 3(3) assms(3) in simp_all)
  obtain res s23 where p: "azure_process env tx s2 = (Ok res, s23)" "secrets_process env tx res s23 = (Ok (), s3)"
    using 3(1) by (auto simp: controller_process_def bnd_Ok_iff)
  show thesis using that [OF _ p _ t, of "n2 @ n1" y3] 1(2,4) 2(2,4) 3(4) by simp
qed

text \<open>From the validation of the stored credentials on.\<close>

definition status_work ::
  "env \<Rightarrow> transaction \<Rightarrow> state \<Rightarrow> history \<Rightarrow> app_status \<Rightarrow> bool" where
  "status_work env tx s h st \<longleftrightarrow> (\<exists>tx' s1 res s2 s3 n m. tx' \<in> {tx, with_invalid_credentials tx} \<and>
     trace s1 = n @ trace s \<and> azure_process env tx' s1 = (Ok res, s2) \<and>
     secrets_process env tx' res s2 = (Ok (), s3) \<and> h = m @ trace s3 \<and> names_app res st \<and>
     status_secret_name st = spec_secret_name (app_spec (inst s3)) \<and>
     (\<exists>i. app_spec i = app_spec (inst s3) \<and> e_hash env i = Ok (status_hash st)))"

lemma status_work_later:
  "status_work env tx s1 h st \<Longrightarrow> trace s1 = n @ trace s \<Longrightarrow> status_work env tx s h st"
  unfolding status_work_def by (metis append.assoc)

lemma credentials_status:
  assumes "reconcile_credentials env tx s = (r, s')" "trace s' = later @ e # earlier @ trace s" "status_of e = Some st"
  shows "status_work env tx s (earlier @ trace s) st"
proof -
  have status: "\<not> no_status e" using assms(3) by simp
  obtain x1 s1 n1 y1 where 1: "step env tx (azure_validate_credentials env tx)
        (\<lambda>valid. after_validation env (if valid then tx else with_invalid_credentials tx)) s1 = (r, s')"
      "trace s1 = n1 @ trace s" "trace s' = later @ e # y1 @ trace s1" "earlier @ trace s = y1 @ trace s1"
    by (rule step_before [OF assms(1) [unfolded reconcile_credentials_steps] assms(2) status no_status_parts(3)
        step_anything [OF no_status_parts(6) anything_after(2)]])
  obtain valid s2 n2 y2 where 2: "after_validation env (if valid then tx else with_invalid_credentials tx) s2 = (r, s')"
      "trace s2 = n2 @ trace s1" "trace s' = later @ e # y2 @ trace s2" "y1 @ trace s1 = y2 @ trace s2"
    by (rule step_before [OF 1(1,3) status no_status_parts(6) anything_after(2)])
  define tx' where "tx' = (if valid then tx else with_invalid_credentials tx)"
  obtain n3 s3 res s4 s5 m t where 3: "trace s3 = n3 @ trace s2" "azure_process env tx' s3 = (Ok res, s4)"
      "secrets_process env tx' res s4 = (Ok (), s5)" "y2 @ trace s2 = m @ trace s5"
      "ready_status env s5 t" "st = app_status (inst t)"
    by (rule after_validation_status [OF 2(1) [folded tx'_def] 2(3) assms(3)])
  have "names_app res st"
    using azure_process_names_app [OF 3(2)] same_app_names [OF movesD [OF secrets_process_same_app 3(3)]]
      same_app_names [of s5 t res] 3(5,6) by (simp add: ready_status_def)
  moreover have "tx' \<in> {tx, with_invalid_credentials tx}" "trace s3 = (n3 @ n2 @ n1) @ trace s"
    "earlier @ trace s = m @ trace s5"
    using 1(2,4) 2(2,4) 3(1,4) by (simp_all add: tx'_def)
  moreover have "status_secret_name st = spec_secret_name (app_spec (inst s5))"
    "\<exists>i. app_spec i = app_spec (inst s5) \<and> e_hash env i = Ok (status_hash st)"
    using 3(5,6) by (simp_all add: ready_status_def)
  ultimately show ?thesis unfolding status_work_def using 3(2,3) by blast
qed


text \<open>A world in which the secret of a registered application was renamed.\<close>

definition renamed_env :: env where
  "renamed_env = quiet_env
     \<lparr>e_resource := (\<lambda>_ _. Inr (plain_app
      \<lparr>app_status := blank_status\<lparr>status_hash := ''hash'', status_secret_name := ''old''\<rparr>\<rparr>)),
      e_applications := (\<lambda>_ _. Inr [plain_registered])\<rparr>"

text \<open>What the codec of that world writes; it is not needed further.\<close>

definition quiet_data ::
  "application_result \<Rightarrow> credentials_set \<Rightarrow> openid_config \<Rightarrow> secret_data_keys \<Rightarrow> string gomap" where
  "quiet_data app cs oid keys =
     fold (\<lambda>(k, v). gm_put k v) (secret_entries app cs oid keys
       (''jwk:'' @ jk_key (jwk_private (cert_jwk (cr_certificate (set_current cs)))))
       (''jwk:'' @ jk_key (jwk_private (cert_jwk (cr_certificate (set_next cs))))) ''jwks'' ''apps'') []"

lemma quiet_codec_runs:
  "secret_data quiet_codec app cs oid keys = Ok (quiet_data app cs oid keys)"
  "from_jwk quiet_codec \<lparr>jk_key = k, jk_key_id = i, jk_use = u, jk_algorithm = a, jk_certificates = [der],
     jk_thumbprint_sha1 = t, jk_thumbprint_sha256 = t'\<rparr> = Ok \<lparr>jwk_private = \<lparr>jk_key = k, jk_key_id = i, jk_use = u,
       jk_algorithm = a, jk_certificates = [der], jk_thumbprint_sha1 = t, jk_thumbprint_sha256 = t'\<rparr>,
     jwk_public_pem = ''pem:'' @ der\<rparr>"
  by (simp_all add: secret_data_def from_jwk_def quiet_codec_def quiet_data_def out_of_sum_def)

lemma renamed_simps:
  "e_resource renamed_env h q = Inr (plain_app
      \<lparr>app_status := blank_status\<lparr>status_hash := ''hash'', status_secret_name := ''old''\<rparr>\<rparr>)"
  "e_applications renamed_env h q = Inr [plain_registered]"
  "e_config renamed_env = quiet_config" "e_hash renamed_env = (\<lambda>i. Ok ''hash'')"
  "e_urn renamed_env = (\<lambda>name namespace cluster. cluster @ '':'' @ namespace @ '':'' @ name)"
  "e_unit renamed_env = (\<lambda>_ _. Inr ())" "e_service_principals renamed_env = (\<lambda>_ _. Inr [plain_principal])"
  "e_assignments renamed_env = (\<lambda>_ _. Inr [])" "e_time renamed_env = (\<lambda>_. 100)"
  "e_uuids renamed_env = (\<lambda>_ _. ''uuid'')" "e_codec renamed_env = quiet_codec"
  "e_resources renamed_env = (\<lambda>_ _. Inr [])" "e_reason renamed_env = (\<lambda>_. ''reason'')"
  "e_secret_lists renamed_env = (\<lambda>_ _. Inr \<lparr>sl_used = [], sl_unused = []\<rparr>)"
  "e_cached_bool renamed_env = (\<lambda>_ _. None)" "e_cached_string renamed_env = (\<lambda>_ _. None)"
  "e_correlation_key renamed_env = ''nais.io/deploymentCorrelationID''" "e_order renamed_env = (\<lambda>ks. ks)"
  by (simp_all add: renamed_env_def)

text \<open>The state after the secret was stored, kept folded.\<close>

definition stored :: "transaction \<Rightarrow> application_result \<Rightarrow> state \<Rightarrow> state" where
  "stored tx res s = snd (secrets_process renamed_env tx res s)"

lemma stored:
  assumes "\<not> opt_secret_valid (secret_opts tx)"
  shows "secrets_process renamed_env tx res s = (Ok (), stored tx res s)"
  using assms by (simp add: stored_def runs renamed_env_def quiet_codec_runs Let_def remove_duplicates_def
      mutate_secret_def new_secret_def out_of_sum_def not_found_def IaCAppTag_def LegacyIaCAppTag_def cong: eval_congs)

lemma renamed_update_status:
  "list_ex (\<lambda>e. status_of e \<noteq> None) (trace (snd (update_status renamed_env tx s)))"
  "\<exists>s'. update_status renamed_env tx s = (Ok (), s')"
  by (simp_all add: runs renamed_simps cong: eval_congs)

lemma renamed_complete: "list_ex (\<lambda>e. status_of e \<noteq> None) (trace (snd (complete renamed_env tx s)))"
proof -
  obtain t :: state where t: "complete renamed_env tx s =
      record_completion renamed_env tx t"
    unfolding complete_def bnd_totals by (simp add: renamed_simps bnd_totals bnd_run_Ok wrap_def lift_def)
  obtain t1 where u: "update_status renamed_env tx t = (Ok (), t1)" using renamed_update_status(2) by blast
  obtain r s' where c: "complete renamed_env tx s = (r, s')" by (cases "complete renamed_env tx s")
  have first: "record_status renamed_env tx t = (Ok (), t1)"
    using u by (simp add: catch_def)
  have "emits_rel (\<lambda>_. True) t1 s'"
    by (rule rest_emits [OF c [unfolded t] first])
      (auto intro!: emits_intros report_event_emits emits_anything [OF update_annotations_no_status])
  then show ?thesis using renamed_update_status(1) [of tx t] u c by (auto simp: emits_rel_def list_ex_iff)
qed


end
