(* ===== verification/Revocation.thy ===== *)
theory Revocation
  imports Idle Histories CredentialProperties
begin

text \<open>
  The credentials of an application over a whole reconciliation: a password is revoked and a key
  credential dropped only when the application is given up, when it has expired, or when no secret
  that the reconciliation listed refers to it.
\<close>

subsection \<open>Parts that leave the credentials alone\<close>

text \<open>The key credentials that a patch sets; an empty list of fields is omitted from the request.\<close>

fun replacement_of :: "event \<Rightarrow> (object_id \<times> key_credential list) option" where
  "replacement_of (Graph (PatchApplication i (PatchFields a)), ok) =
     (if ga_key_credentials a = [] then None else Some (i, ga_key_credentials a))"
| "replacement_of (Graph (PatchApplication i (PatchKeyCredentials ks)), ok) = Some (i, ks)"
| "replacement_of e = None"

fun lists_applications :: "event \<Rightarrow> bool" where
  "lists_applications (Graph (ListApplications f m), ok) = True"
| "lists_applications e = False"

fun secret_of :: "event \<Rightarrow> secret option" where
  "secret_of (Kube (CreateSecret w), ok) = Some w"
| "secret_of (Kube (UpdateSecret w), ok) = Some w"
| "secret_of e = None"

text \<open>A part \<open>spares\<close> the credentials when it removes and replaces none, and stores no secret.\<close>

abbreviation spares :: "event \<Rightarrow> bool" where
  "spares e \<equiv> removal_of e = None \<and> replacement_of e = None \<and> secret_of e = None"

abbreviation idle_event :: "event \<Rightarrow> bool" where
  "idle_event e \<equiv> spares e \<and> \<not> lists_applications e"

lemma spares_class:
  "reads e \<Longrightarrow> spares e" "maintains e \<Longrightarrow> spares e" "registers e \<Longrightarrow> spares e"
proof -
  have r: "removal_of e = None" if "maintains e" for e using that by (cases e rule: removal_of.cases) simp_all
  have k: "replacement_of e = None" if "maintains e" for e using that by (cases e rule: replacement_of.cases) auto
  have w: "secret_of e = None" if "maintains e" for e using that by (cases e rule: secret_of.cases) simp_all
  show "reads e \<Longrightarrow> spares e" "maintains e \<Longrightarrow> spares e" using r k w maintains_reads by blast+
  show "registers e \<Longrightarrow> spares e" using r [of e] k [of e] w [of e] by (cases e rule: registers.cases) (simp_all del: maintains.simps)
qed

lemma spares_of:
  "emits reads m \<Longrightarrow> emits spares m" "emits maintains m \<Longrightarrow> emits spares m"
  "emits registers m \<Longrightarrow> emits spares m"
  by (erule emits_mono, rule spares_class, assumption)+

lemma credential_removal:
  "credential_request unused e \<Longrightarrow> removal_of e = Some (i, k) \<Longrightarrow> unused k"
  by (cases e rule: removal_of.cases) auto

lemma report_event_spares: "emits spares (report_event env ty reason msg)"
  by (rule report_event_emits) simp

lemma handle_error_spares: "emits spares (handle_error env tx e)"
  unfolding handle_error_def is_unrecoverable_error_def
  by (auto intro!: emits_intros report_event_emits split: cause.split)

lemma prepared_spares:
  "emits spares (get_or_generate_correlation_id env)" "emits spares (secrets_prepare env)" "emits spares (azure_exists env tx)"
  unfolding get_or_generate_correlation_id_def secrets_prepare_def get_managed_secrets_def
    azure_exists_def client_exists_def update_with_application_ids_def
    update_with_service_principal_id_def Let_def
  by (auto intro!: emits_intros emits_set_inst spares_of(1) [OF application_get_reads(4)]
      spares_of(2) [OF get_service_principal_emits] split: option.split)

lemma prepare_spares: "emits spares (prepare env namespace name)"
  unfolding prepare_def Let_def by (auto intro!: emits_intros emits_set_inst prepared_spares)

lemma azure_delete_spares:
  "emits spares (azure_delete env tx)" "emits spares (azure_process_orphaned env tx)"
  unfolding azure_process_orphaned_def azure_delete_def client_delete_def client_exists_def application_delete_def
  by (auto intro!: emits_intros spares_of(1) [OF application_get_reads(4)])

lemma finalizer_register_spares: "emits spares (finalizer_register env tx)"
  unfolding finalizer_register_def by (auto intro!: emits_intros update_application_emits)

lemma azure_process_spares: "emits spares (azure_process env tx)"
  unfolding azure_process_def azure_create_def azure_update_def azure_not_modified_def
    get_pre_authorized_apps_def report_pre_authorized_status_def Let_def
  by (auto intro!: emits_intros report_event_emits client_create_emits [THEN spares_of(3)]
      client_update_emits [THEN spares_of(2)] pre_auth_reads [THEN spares_of(1)])

lemma azure_validate_spares: "emits spares (azure_validate_credentials env tx)"
proof -
  have "emits spares (application_get env tx)" by (rule spares_of(1) [OF application_get_reads(2)])
  then show ?thesis
    unfolding azure_validate_credentials_def credentials_validate_def password_validate_def
      key_credential_validate_def validate_step_def
    by (auto intro!: emits_intros split: prod.split)
qed

lemma secrets_delete_unused_spares: "emits spares (secrets_delete_unused env tx)"
  by (rule secrets_delete_unused_class) simp

lemma complete_spares: "emits spares (complete env tx)"
  unfolding complete_def update_status_def update_annotations_def Let_def
  by (auto intro!: emits_intros emits_set_inst report_event_emits update_application_emits)

lemma password_add_idle: "emits idle_event (password_add env tx)" "emits idle_event (delay env)"
  unfolding password_add_def to_add_request_def delay_def by (auto intro!: emits_intros)

lemma key_credential_new_idle: "emits idle_event (key_credential_new env tx)"
  unfolding key_credential_new_def generate_jwk_def new_rsa_key_pair_def certificate_template_def
    generate_certificate_def to_key_credential_def
  by (auto intro!: emits_intros)

subsection \<open>The newest listing\<close>

text \<open>
  \<open>listed env app h\<close>: \<open>app\<close> is in the reply to the last listing of applications in the history.
  A credential has expired when the clock showed a time past its end at a point of the history.
\<close>

definition listed :: "env \<Rightarrow> graph_application \<Rightarrow> history \<Rightarrow> bool" where
  "listed env app h \<longleftrightarrow> (\<exists>later f m earlier apps.
     h = later @ (Graph (ListApplications f m), True) # earlier \<and> (\<forall>e \<in> set later. \<not> lists_applications e) \<and>
     e_applications env earlier (Graph (ListApplications f m)) = Inr apps \<and> app \<in> set apps)"

definition seen_time :: "env \<Rightarrow> time \<Rightarrow> history \<Rightarrow> bool" where
  "seen_time env t h \<longleftrightarrow> (\<exists>later earlier. h = later @ (Runtime Now, True) # earlier \<and> e_time env earlier = t)"

text \<open>A password that the listing contains, with an end in the past.\<close>

definition expired_password :: "env \<Rightarrow> object_id \<Rightarrow> string option \<Rightarrow> history \<Rightarrow> bool" where
  "expired_password env i k h \<longleftrightarrow> (\<exists>app c end t. listed env app h \<and> ga_id app = Some i \<and>
     c \<in> set (ga_password_credentials app) \<and> pc_key_id c = k \<and> pc_end c = Some end \<and> seen_time env t h \<and> end < t)"

text \<open>
  An unused password that the listing contains, at another position than a newest one, so that the
  only password of an application is never superseded.
\<close>

definition superseded_password :: "env \<Rightarrow> (string option \<Rightarrow> bool) \<Rightarrow> object_id \<Rightarrow> string option \<Rightarrow> history \<Rightarrow> bool" where
  "superseded_password env unused i k h \<longleftrightarrow> unused k \<and> (\<exists>app p q. listed env app h \<and> ga_id app = Some i \<and>
     p < length (ga_password_credentials app) \<and> q < length (ga_password_credentials app) \<and> p \<noteq> q \<and>
     pc_key_id (ga_password_credentials app ! p) = k \<and>
     newest_of pc_start (ga_password_credentials app) (ga_password_credentials app ! q))"

definition expired_key :: "env \<Rightarrow> key_credential \<Rightarrow> history \<Rightarrow> bool" where
  "expired_key env c h \<longleftrightarrow> (\<exists>end t. kc_end c = Some end \<and> seen_time env t h \<and> end \<le> t)"

text \<open>
  A list that drops no credential of the listing but expired ones and those not in use, and that
  keeps a newest one unless it has expired.
\<close>

definition keeps_listed :: "env \<Rightarrow> (string option \<Rightarrow> bool) \<Rightarrow> graph_application \<Rightarrow> key_credential list \<Rightarrow> history \<Rightarrow> bool" where
  "keeps_listed env unused app ks h \<longleftrightarrow>
     (\<forall>c \<in> set (ga_key_credentials app). c \<in> set ks \<or> unused (kc_key_id c) \<or> expired_key env c h) \<and>
     (ga_key_credentials app = [] \<or>
      (\<exists>c. newest_of kc_start (ga_key_credentials app) c \<and> (c \<in> set ks \<or> expired_key env c h)))"

lemma listed_append: "listed env app h \<Longrightarrow> \<forall>e \<in> set n. \<not> lists_applications e \<Longrightarrow> listed env app (n @ h)"
proof -
  assume "listed env app h" and n: "\<forall>e \<in> set n. \<not> lists_applications e"
  then obtain later f m earlier apps where "h = later @ (Graph (ListApplications f m), True) # earlier"
    "\<forall>e \<in> set later. \<not> lists_applications e"
    "e_applications env earlier (Graph (ListApplications f m)) = Inr apps" "app \<in> set apps"
    unfolding listed_def by blast
  then show ?thesis unfolding listed_def using n
    by (intro exI [of _ "n @ later"] exI [of _ f] exI [of _ m] exI [of _ earlier] exI [of _ apps]) auto
qed

lemma seen_time_append: "seen_time env t h \<Longrightarrow> seen_time env t (n @ h)"
  unfolding seen_time_def by (metis append.assoc)

lemma seen_time_now: "seen_time env (e_time env h) (n @ (Runtime Now, True) # h)"
  unfolding seen_time_def by blast

lemma expired_key_append: "expired_key env c h \<Longrightarrow> expired_key env c (n @ h)"
  unfolding expired_key_def using seen_time_append by blast

text \<open>A list that drops only expired credentials keeps what has to be kept.\<close>

lemma keeps_unexpired:
  assumes "\<forall>c \<in> set (ga_key_credentials app). c \<in> set ks \<or> expired_key env c h"
  shows "keeps_listed env unused app ks h"
proof (cases "ga_key_credentials app = []")
  case False
  then obtain c where c: "newest_of kc_start (ga_key_credentials app) c" by (rule newest_of_exists)
  then have "c \<in> set ks \<or> expired_key env c h" using assms by (simp add: newest_of_def)
  then show ?thesis using c assms unfolding keeps_listed_def by blast
qed (simp add: keeps_listed_def)

lemma listed_after:
  assumes "emits (\<lambda>e. \<not> lists_applications e) m" "m s = (r, s')" "listed env app (trace s)"
  shows "listed env app (trace s')"
  using movesD [OF assms(1,2)] listed_append [OF assms(3)] by (auto simp: emits_rel_def)

lemma get_all_listed:
  assumes "get_all env fs s = (Ok apps, s')" "app \<in> set apps"
  shows "listed env app (trace s')"
proof -
  define q where "q = Graph (ListApplications (map_filters_to_filter fs) (max_pages env))"
  obtain s1 where c: "call q (e_applications env) s = (Ok apps, s1)"
    and l: "for_each (\<lambda>app. bnd (is_managed env app) (\<lambda>_. ret ())) apps s1 = (Ok (), s')"
    using assms(1) by (auto simp: get_all_def q_def bnd_Ok_iff)
  have l1: "listed env app (trace s1)"
    unfolding listed_def
    by (rule exI [of _ "[]"], rule exI [of _ "map_filters_to_filter fs"], rule exI [of _ "max_pages env"],
        rule exI [of _ "trace s"], rule exI [of _ apps]) (use c assms(2) in \<open>simp add: call_Ok_iff q_def\<close>)
  have "emits (\<lambda>e. \<not> lists_applications e) (is_managed env app)" for app
    unfolding is_managed_def by (auto intro!: emits_intros split: option.split)
  then have each: "emits (\<lambda>e. \<not> lists_applications e) (for_each (\<lambda>app. bnd (is_managed env app) (\<lambda>_. ret ())) apps)"
    by (auto intro!: emits_intros)
  show ?thesis by (rule listed_after [OF each l l1])
qed

lemma application_get_listed:
  assumes "application_get env tx s = (Ok app, s')"
  shows "listed env app (trace s')"
proof -
  obtain apps s1 where g: "get_all env [filter_by_name (tx_urn tx)] s = (Ok apps, s1)"
    and r: "(case apps of [] \<Rightarrow> fail (Cause (Opaque ''no matching azure applications found''))
         | [app] \<Rightarrow> ret app
         | _ \<Rightarrow> fail (Cause (Opaque ''found more than one matching azure application''))) s1 = (Ok app, s')"
    using assms unfolding application_get_def application_get_by_name_def get_single_by_filter_or_error_def
    by (auto simp: bnd_Ok_iff)
  from r have "apps = [app]" "s' = s1" by (auto split: list.splits)
  then show ?thesis using get_all_listed [OF g] by simp
qed

subsection \<open>When a credential may go\<close>

definition due :: "(string option \<Rightarrow> bool) \<Rightarrow> (string option \<Rightarrow> bool) \<Rightarrow> env \<Rightarrow> event \<Rightarrow> history \<Rightarrow> bool" where
  "due pws keys env e h \<longleftrightarrow>
     (\<forall>i k. removal_of e = Some (i, k) \<longrightarrow> superseded_password env pws i k h \<or> expired_password env i k h) \<and>
     (\<forall>i ks. replacement_of e = Some (i, ks) \<longrightarrow> (\<exists>app. listed env app h \<and> keeps_listed env keys app ks h))"

lemma due_spares: "emits spares m \<Longrightarrow> moves (extends (due pws keys env)) m"
  by (erule ext_emits) (simp add: due_def)

lemma due_idle: "emits idle_event m \<Longrightarrow> moves (extends (due pws keys env)) m"
  by (rule due_spares, erule emits_mono) simp

lemma permits_oid: "(\<And>i. permits Q s (f i)) \<Longrightarrow> permits Q s (bnd object_id_of f)"
  by (auto simp: permits_def bnd_def object_id_of_def gets_def)

text \<open>After the listing, an idle part keeps it the newest one.\<close>

lemma permits_idle:
  assumes "emits idle_event m" "listed env app (trace s)"
    and "\<And>x s1. m s = (Ok x, s1) \<Longrightarrow> listed env app (trace s1) \<Longrightarrow> permits (due pws keys env) s1 (f x)"
  shows "permits (due pws keys env) s (bnd m f)"
proof (rule permits_bnd [OF permits_moves [OF due_idle [OF assms(1)]]])
  fix x s1
  assume run: "m s = (Ok x, s1)"
  have "emits (\<lambda>e. \<not> lists_applications e) m" by (rule emits_mono [OF assms(1)]) simp
  from listed_after [OF this run assms(2)] show "permits (due pws keys env) s1 (f x)" by (rule assms(3) [OF run])
qed

lemma permits_get:
  assumes "\<And>app s1. listed env app (trace s1) \<Longrightarrow> permits (due pws keys env) s1 (f app)"
  shows "permits (due pws keys env) s (bnd (application_get env tx) f)"
proof (rule permits_bnd [OF permits_moves])
  show "moves (extends (due pws keys env)) (application_get env tx)"
    by (intro due_spares spares_of(1) application_get_reads(2))
qed (intro assms application_get_listed)

text \<open>A patch of the key credentials.\<close>

lemma permits_patch:
  assumes "listed env app (trace s)" "keeps_listed env keys app ks (trace s)"
    and "p = PatchFields (with_keys ks zero_application) \<or> p = PatchKeyCredentials ks"
  shows "permits (due pws keys env) s (application_patch env i p)"
  unfolding permits_def
proof (intro allI impI)
  fix r s'
  assume "application_patch env i p s = (r, s')"
  then have "\<exists>ok. trace s' = [(Graph (PatchApplication i p), ok)] @ trace s"
    by (auto simp: application_patch_def wrap_def call_def split: sum.splits)
  then obtain ok where t: "trace s' = [(Graph (PatchApplication i p), ok)] @ trace s" ..
  have "due pws keys env (Graph (PatchApplication i p), ok) (trace s)"
    using assms by (auto simp: due_def with_keys_def split: if_splits)
  then show "extends (due pws keys env) s s'" using t unfolding extends_def by (intro exI conjI) (assumption, simp)
qed

lemma permits_patch_then:
  assumes "permits Q s (application_patch env i p)"
  shows "permits Q s (bnd (wrap msg (application_patch env i p)) (\<lambda>u. ret (g u)))"
  by (rule permits_bnd [OF permits_wrap [OF assms]]) (rule permits_moves [OF ext.ret])

subsection \<open>Key credentials\<close>

lemma out_filter_keeps:
  "out_filter f xs = Ok ys \<Longrightarrow> x \<in> set xs \<Longrightarrow> f x = Ok True \<Longrightarrow> x \<in> set ys"
  by (induction xs arbitrary: ys) (auto simp: out_bind_Ok_iff split: if_splits)

lemma out_filter_decides: "out_filter f xs = Ok ys \<Longrightarrow> x \<in> set xs \<Longrightarrow> \<exists>b. f x = Ok b"
  by (induction xs arbitrary: ys) (auto simp: out_bind_Ok_iff split: if_splits)

lemma keep_keys_newest:
  assumes "keep_keys ids cs = Ok ks" "cs \<noteq> []"
  obtains c where "newest_of kc_start cs c" "c \<in> set ks"
proof (cases "has_managed_key kc_display_name cs")
  case False
  then have "ks = cs" using assms(1) by (auto simp: keep_keys_def out_bind_Ok_iff)
  moreover obtain c where "newest_of kc_start cs c" using newest_of_exists [OF assms(2)] .
  ultimately show ?thesis by (intro that) (auto simp: newest_of_def)
next
  case True
  obtain n ics where n: "newest_index kc_start 0 cs None 0 = Ok n"
    and f: "out_filter (\<lambda>(i, c). out_bind (has_matching_key_id ids (kc_key_id c)) (\<lambda>m.
         Ok ((m \<or> i = n) = True))) (enumerate 0 cs) = Ok ics" "ks = map snd ics"
    using assms(1) True by (auto simp: keep_keys_def select_credentials_def out_bind_Ok_iff)
  note newest = newest_index_newest [OF n assms(2)]
  have j: "(n, cs ! n) \<in> set (enumerate 0 cs)" using newest by (simp add: in_set_enumerate_eq)
  from out_filter_decides [OF f(1) j] have "(n, cs ! n) \<in> set ics"
    by (intro out_filter_keeps [OF f(1) j]) (auto simp: out_bind_Ok_iff)
  then have "cs ! n \<in> set ks" using f(2) by force
  then show ?thesis by (rule that [OF conjunct2 [OF newest]])
qed

lemma keep_keys_keeps:
  assumes "keep_keys ids cs = Ok ks" "c \<in> set cs" "kc_key_id c \<in> Some ` set ids"
  shows "c \<in> set ks"
proof (cases "has_managed_key kc_display_name cs")
  case False
  then show ?thesis using assms by (auto simp: keep_keys_def out_bind_Ok_iff)
next
  case True
  then obtain n ics where f: "out_filter (\<lambda>(i, c). out_bind (has_matching_key_id ids (kc_key_id c)) (\<lambda>m.
         Ok ((m \<or> i = n) = True))) (enumerate 0 cs) = Ok ics" "ks = map snd ics"
    using assms(1) by (auto simp: keep_keys_def select_credentials_def out_bind_Ok_iff)
  have "\<exists>j. (j, c) \<in> set (enumerate 0 cs)"
    using assms(2) unfolding in_set_conv_nth [of c] by (auto simp: in_set_enumerate_eq)
  then obtain j where j: "(j, c) \<in> set (enumerate 0 cs)" ..
  have "(j, c) \<in> set ics"
    by (rule out_filter_keeps [OF f(1) j]) (use assms(3) in \<open>auto simp: has_matching_key_id_def\<close>)
  then show ?thesis using f(2) by force
qed

abbreviation unprotected_key :: "transaction \<Rightarrow> string option \<Rightarrow> bool" where
  "unprotected_key tx k \<equiv> k \<notin> Some ` protected_keys tx"

lemma permits_filter:
  assumes "\<And>app ks s1. listed env app (trace s1) \<Longrightarrow> (\<And>ks' h. set ks \<subseteq> set ks' \<Longrightarrow> keeps_listed env (unprotected_key tx) app ks' h) \<Longrightarrow>
     permits (due pws (unprotected_key tx) env) s1 (f ks)"
  shows "permits (due pws (unprotected_key tx) env) s (bnd (filter_revoked_keys env tx) f)"
proof -
  have assoc: "bnd (filter_revoked_keys env tx) f = bnd (lift (key_ids_in_use tx)) (\<lambda>ids.
     bnd (application_get env tx) (\<lambda>app. bnd (lift (keep_keys ids (ga_key_credentials app))) f))"
    unfolding filter_revoked_keys_def by (rule ext) (auto simp: bnd_def split: prod.split outcome.split)
  show ?thesis
    unfolding assoc
  proof (intro permits_lift permits_get)
    fix ids app ks and s1 :: state
    assume ids: "key_ids_in_use tx = Ok ids" and l: "listed env app (trace s1)"
      and k: "keep_keys ids (ga_key_credentials app) = Ok ks"
    have "keeps_listed env (unprotected_key tx) app ks' h" if "set ks \<subseteq> set ks'" for ks' h
    proof (cases "ga_key_credentials app = []")
      case False
      then obtain c where c: "newest_of kc_start (ga_key_credentials app) c" "c \<in> set ks"
        by (rule keep_keys_newest [OF k])
      then have "c \<in> set ks'" using that by blast
      then show ?thesis
        using c(1) keep_keys_keeps [OF k] key_ids_protected [OF ids] that unfolding keeps_listed_def by blast
    qed (simp add: keeps_listed_def)
    then show "permits (due pws (unprotected_key tx) env) s1 (f ks)" by (rule assms [OF l])
  qed
qed

lemma key_unused_due:
  "moves (extends (due pws (unprotected_key tx) env)) (key_credential_delete_unused env tx)"
  "moves (extends (due pws (unprotected_key tx) env)) (key_credential_rotate env tx)"
proof -
  show "moves (extends (due pws (unprotected_key tx) env)) (key_credential_delete_unused env tx)"
    unfolding key_credential_delete_unused_def
    by (intro moves_permits permits_filter permits_oid permits_wrap permits_patch) auto
  show "moves (extends (due pws (unprotected_key tx) env)) (key_credential_rotate env tx)"
    unfolding key_credential_rotate_def
  proof (intro moves_permits permits_filter, rule permits_idle [OF key_credential_new_idle])
    fix app ks and x :: "key_credential \<times> jwk" and s1 s2 :: state
    assume l: "listed env app (trace s2)"
      and k: "\<And>ks' h. set ks \<subseteq> set ks' \<Longrightarrow> keeps_listed env (unprotected_key tx) app ks' h"
    obtain kc j where x: "x = (kc, j)" by (cases x)
    show "permits (due pws (unprotected_key tx) env) s2 (case x of (kc, j) \<Rightarrow> bnd object_id_of (\<lambda>oid.
       bnd (wrap ''updating application with keycredential''
            (application_patch env oid (PatchFields (with_keys (ks @ [kc]) zero_application)))) (\<lambda>_. ret (kc, j))))"
      unfolding x prod.case
      by (intro permits_oid permits_patch_then permits_patch [OF l k [of "ks @ [kc]"]]) auto
  qed
qed

lemma key_add_due: "moves (extends (due pws keys env)) (key_credential_add env tx)"
  unfolding key_credential_add_def
proof (intro moves_permits permits_get, rule permits_idle [OF key_credential_new_idle], assumption,
    simp only: case_prod_unfold, rule permits_idle [OF key_credential_new_idle], assumption)
  fix app :: graph_application and x y :: "key_credential \<times> jwk" and s1 s2 s3 :: state
  assume l: "listed env app (trace s3)"
  have k: "keeps_listed env keys app (ga_key_credentials app @ [fst x, fst y]) (trace s3)"
    by (rule keeps_unexpired) simp
  show "permits (due pws keys env) s3 (bnd object_id_of (\<lambda>oid.
     bnd (wrap ''updating application with keycredential set''
            (application_patch env oid
              (PatchFields (with_keys (ga_key_credentials app @ [fst x, fst y]) zero_application)))) (\<lambda>_.
     ret \<lparr>akcs_current = \<lparr>akc_key_credential = fst x, akc_jwk = snd x\<rparr>,
          akcs_next = \<lparr>akc_key_credential = fst y, akc_jwk = snd y\<rparr>\<rparr>)))"
    by (intro permits_oid permits_patch_then permits_patch [OF l k]) auto
qed

text \<open>The credentials that a fold over the listing drops have expired.\<close>

lemma keep_unexpired_idle: "emits idle_event (keep_unexpired env c acc)"
  unfolding keep_unexpired_def by (auto intro!: emits_intros)

lemma keep_unexpired_drops:
  assumes "keep_unexpired env c acc s = (Ok acc', s')"
  shows "set acc \<subseteq> set acc'"
    "c \<in> set acc' \<or> (\<exists>end t. kc_end c = Some end \<and> seen_time env t (trace s') \<and> end \<le> t)"
proof -
  obtain e where e: "kc_end c = Some e" "s' = s\<lparr>trace := (Runtime Now, True) # trace s\<rparr>"
    "acc' = (if e > e_time env (trace s) then acc @ [c] else acc)"
    using assms by (auto simp: keep_unexpired_def bnd_Ok_iff now_iff)
  show "set acc \<subseteq> set acc'" using e(3) by auto
  show "c \<in> set acc' \<or> (\<exists>end t. kc_end c = Some end \<and> seen_time env t (trace s') \<and> end \<le> t)"
    using e seen_time_now [of env "trace s" "[]"] by force
qed

lemma keep_unexpired_fold_drops:
  assumes "fold_io (keep_unexpired env) cs acc s = (Ok ks, s')"
  shows "set acc \<subseteq> set ks \<and> (\<forall>c \<in> set cs. c \<in> set ks \<or>
    (\<exists>end t. kc_end c = Some end \<and> seen_time env t (trace s') \<and> end \<le> t))"
  using assms
proof (induction cs arbitrary: acc s)
  case (Cons c cs)
  obtain acc' s1 where c: "keep_unexpired env c acc s = (Ok acc', s1)"
    and rest: "fold_io (keep_unexpired env) cs acc' s1 = (Ok ks, s')"
    using Cons.prems by (auto simp: bnd_Ok_iff)
  have "emits idle_event (fold_io (keep_unexpired env) cs acc')"
    by (intro emits.fold_io keep_unexpired_idle)
  from movesD [OF this rest] obtain n where "trace s' = n @ trace s1" by (auto simp: emits_rel_def)
  then show ?case using keep_unexpired_drops [OF c] Cons.IH [OF rest] seen_time_append by force
qed (simp add: ret_def)

lemma key_expired_due: "moves (extends (due pws keys env)) (key_credential_delete_expired env tx)"
  unfolding key_credential_delete_expired_def
proof (intro moves_permits permits_get, rule permits_idle)
  fix app :: graph_application and ks :: "key_credential list" and s1 s2 :: state
  show "emits idle_event (fold_io (keep_unexpired env) (ga_key_credentials app) [])"
    by (intro emits.fold_io keep_unexpired_idle)
  assume f: "fold_io (keep_unexpired env) (ga_key_credentials app) [] s1 = (Ok ks, s2)"
    and l: "listed env app (trace s2)"
  have k: "keeps_listed env keys app ks (trace s2)"
    by (rule keeps_unexpired) (use keep_unexpired_fold_drops [OF f] in \<open>auto simp: expired_key_def\<close>)
  show "permits (due pws keys env) s2 (bnd object_id_of (\<lambda>oid. application_patch env oid (PatchKeyCredentials ks)))"
    by (intro permits_oid permits_patch [OF l k]) simp
qed

subsection \<open>Passwords\<close>

lemma password_remove_class:
  "emits (\<lambda>e. removal_of e \<in> {None, Some (i, k)} \<and> replacement_of e = None \<and> \<not> lists_applications e)
     (password_remove env i k)"
  unfolding password_remove_def delay_def by (auto intro!: emits_intros split: sum.split)

lemma permits_remove:
  assumes "\<And>n. \<forall>e \<in> set n. \<not> lists_applications e \<Longrightarrow>
    superseded_password env pws i k (n @ trace s) \<or> expired_password env i k (n @ trace s)"
  shows "permits (due pws keys env) s (password_remove env i k)"
  unfolding permits_def
proof (intro allI impI)
  fix r s'
  assume run: "password_remove env i k s = (r, s')"
  obtain n where n: "trace s' = n @ trace s"
    "\<forall>e \<in> set n. removal_of e \<in> {None, Some (i, k)} \<and> replacement_of e = None \<and> \<not> lists_applications e"
    using movesD [OF password_remove_class run] by (auto simp: emits_rel_def)
  from n(2) have "history_ok (due pws keys env) n (trace s)"
  proof (induction n)
    case (Cons e n)
    have "superseded_password env pws i k (n @ trace s) \<or> expired_password env i k (n @ trace s)" using Cons.prems by (intro assms) simp
    then show ?case using Cons by (auto simp: due_def)
  qed simp
  then show "extends (due pws keys env) s s'" using n(1) by (auto simp: extends_def)
qed

lemma permits_loop:
  assumes "\<And>c. emits (\<lambda>e. \<not> lists_applications e) (f c)" "listed env app (trace s)"
    and "\<And>c s1. c \<in> set cs \<Longrightarrow> listed env app (trace s1) \<Longrightarrow> permits Q s1 (f c)"
  shows "permits Q s (for_each f cs)"
  using assms(2,3)
proof (induction cs arbitrary: s)
  case Nil
  show ?case using permits_moves [OF ext.ret] by simp
next
  case (Cons c cs)
  show ?case
    unfolding for_each.simps
  proof (rule permits_bnd)
    show "permits Q s (f c)" by (rule Cons.prems(2)) (use Cons.prems(1) in auto)
    show "permits Q s1 (for_each f cs)" if "f c s = (Ok x, s1)" for x s1
      by (rule Cons.IH [OF listed_after [OF assms(1) that Cons.prems(1)]]) (auto intro: Cons.prems(2))
  qed
qed

lemma permits_remove_if_expired:
  assumes "c \<in> set (ga_password_credentials app)" "listed env app (trace s)"
  shows "permits (due pws keys env) s (remove_if_expired env app c)"
  unfolding remove_if_expired_def
proof (rule permits_bnd [OF permits_moves [OF due_idle [OF emits_now]]], simp, intro permits_lift)
  fix t e and s1 :: state
  assume n: "now env s = (Ok t, s1)" and e: "deref (pc_end c) = Ok e"
  then have t: "t = e_time env (trace s)" "trace s1 = (Runtime Now, True) # trace s" by (auto simp: now_iff)
  show "permits (due pws keys env) s1
     (if e < t then bnd (lift (deref (ga_id app))) (\<lambda>i. password_remove env i (pc_key_id c)) else ret ())"
  proof (cases "e < t")
    case True
    have "permits (due pws keys env) s1 (password_remove env i (pc_key_id c))" if i: "deref (ga_id app) = Ok i" for i
    proof (rule permits_remove, rule disjI2)
      fix n :: history
      assume no: "\<forall>e \<in> set n. \<not> lists_applications e"
      then have "listed env app (n @ trace s1)" using listed_append [OF assms(2), of "n @ [(Runtime Now, True)]"] t(2) by simp
      then show "expired_password env i (pc_key_id c) (n @ trace s1)"
        unfolding expired_password_def using assms(1) i e True t seen_time_now [of env "trace s" n]
        by (intro exI [of _ app] exI [of _ c] exI [of _ e] exI [of _ t]) auto
    qed
    then show ?thesis using True by (auto intro: permits_lift)
  qed (use permits_moves [OF ext.ret] in simp)
qed

lemma password_expired_due: "moves (extends (due pws keys env)) (password_delete_expired env tx)"
  unfolding password_delete_expired_def
proof (intro moves_permits permits_get, rule permits_loop)
  show "emits (\<lambda>e. \<not> lists_applications e) (remove_if_expired env app c)" for app c
    unfolding remove_if_expired_def
    by (auto intro!: emits_intros emits_mono [OF password_remove_class])
qed (assumption, intro permits_remove_if_expired)

text \<open>The candidates for revocation are unused, and at another position than a newest password.\<close>

lemma candidates_superseded:
  assumes "revocation_candidates ids cs = Ok revoked" "c \<in> set revoked"
  obtains p q where "p < length cs" "q < length cs" "p \<noteq> q" "cs ! p = c" "newest_of pc_start cs (cs ! q)"
proof -
  obtain n ics where n: "newest_index pc_start 0 cs None 0 = Ok n"
    and f: "out_filter (\<lambda>(i, c). out_bind (has_matching_key_id ids (pc_key_id c)) (\<lambda>m.
         Ok ((m \<or> i = n) = False))) (enumerate 0 cs) = Ok ics" "revoked = map snd ics"
    using assms by (auto simp: revocation_candidates_def select_credentials_def out_bind_Ok_iff split: if_splits)
  obtain p where "(p, c) \<in> set ics" using assms(2) f(2) by auto
  then have p: "(p, c) \<in> set (enumerate 0 cs)" "p \<noteq> n"
    using out_filter_subset [OF f(1)] by (fastforce simp: out_bind_Ok_iff)+
  then have "p < length cs" "cs ! p = c" by (auto simp: in_set_enumerate_eq)
  moreover from this have "cs \<noteq> []" by auto
  ultimately show ?thesis using newest_index_newest [OF n] p(2) by (intro that [of p n]) simp_all
qed

lemma permits_remove_candidates:
  assumes "password_ids_in_use tx = Ok ids" "revocation_candidates ids (ga_password_credentials app) = Ok revoked"
    and "listed env app (trace s)"
  shows "permits (due (unprotected tx) keys env) s (remove_passwords env app revoked)"
  unfolding remove_passwords_def
proof (rule permits_loop [OF _ assms(3)])
  fix c and s1 :: state
  show "emits (\<lambda>e. \<not> lists_applications e) (bnd (lift (deref (ga_id app))) (\<lambda>i. password_remove env i (pc_key_id c)))" for c
    by (auto intro!: emits_intros emits_mono [OF password_remove_class])
  assume c: "c \<in> set revoked" and l: "listed env app (trace s1)"
  have unused: "unprotected tx (pc_key_id c)"
    using candidates_unused [OF assms(2) c] password_ids_protected [OF assms(1)] by simp
  obtain p q where pq: "p < length (ga_password_credentials app)" "q < length (ga_password_credentials app)" "p \<noteq> q"
    "ga_password_credentials app ! p = c"
    "newest_of pc_start (ga_password_credentials app) (ga_password_credentials app ! q)"
    by (rule candidates_superseded [OF assms(2) c])
  show "permits (due (unprotected tx) keys env) s1
     (bnd (lift (deref (ga_id app))) (\<lambda>i. password_remove env i (pc_key_id c)))"
  proof (intro permits_lift permits_remove disjI1)
    fix i and n :: history
    assume i: "deref (ga_id app) = Ok i" and no: "\<forall>e \<in> set n. \<not> lists_applications e"
    show "superseded_password env (unprotected tx) i (pc_key_id c) (n @ trace s1)"
      unfolding superseded_password_def using unused pq i listed_append [OF l no]
      by (intro conjI exI [of _ app] exI [of _ p] exI [of _ q]) simp_all
  qed
qed

lemma password_unused_due:
  "moves (extends (due (unprotected tx) keys env)) (password_delete_unused env tx)"
  "moves (extends (due (unprotected tx) keys env)) (password_rotate env tx)"
proof -
  show "moves (extends (due (unprotected tx) keys env)) (password_delete_unused env tx)"
    unfolding password_delete_unused_def
    by (intro moves_permits permits_get permits_lift permits_remove_candidates)
  have rest: "moves (extends (due (unprotected tx) keys env)) (bnd (delay env) (\<lambda>_. password_add env tx))"
    by (intro ext.bnd password_add_idle [THEN due_idle])
  show "moves (extends (due (unprotected tx) keys env)) (password_rotate env tx)"
    unfolding password_rotate_def
    by (intro moves_permits permits_get permits_lift permits_bnd [OF permits_remove_candidates]
        permits_moves [OF rest])
qed

subsection \<open>The rest of a reconciliation\<close>

abbreviation settles :: "env \<Rightarrow> transaction \<Rightarrow> 'a prog \<Rightarrow> bool" where
  "settles env tx m \<equiv> moves (extends (due (unprotected tx) (unprotected_key tx) env)) m"

lemma azure_credentials_settle:
  "settles env tx (azure_delete_expired_credentials env tx)"
  "settles env tx (azure_add_credentials env tx)"
  "settles env tx (azure_rotate_credentials env tx)"
  "settles env tx (azure_delete_unused_credentials env tx)"
proof -
  show "settles env tx (azure_delete_expired_credentials env tx)"
    unfolding azure_delete_expired_credentials_def credentials_delete_expired_def
    by (auto intro!: ext.wrap ext.bnd ext.ret password_expired_due key_expired_due)
  show "settles env tx (azure_add_credentials env tx)"
    unfolding azure_add_credentials_def credentials_add_def
    by (auto intro!: ext.wrap ext.bnd ext.ret ext.lift key_add_due password_add_idle [THEN due_idle]
        due_spares [OF report_event_spares])
  show "settles env tx (azure_rotate_credentials env tx)"
    unfolding azure_rotate_credentials_def credentials_rotate_def
    by (auto intro!: ext.wrap ext.bnd ext.ret ext.lift key_unused_due password_unused_due password_add_idle(2) [THEN due_idle]
        due_spares [OF report_event_spares] split: prod.split)
  show "settles env tx (azure_delete_unused_credentials env tx)"
    unfolding azure_delete_unused_credentials_def credentials_delete_unused_def
    by (auto intro!: ext.wrap ext.bnd key_unused_due password_unused_due)
qed

lemma create_or_update_due: "moves (extends (due pws keys env)) (secrets_create_or_update env tx res cs)"
proof -
  have "emits (\<lambda>e. removal_of e = None \<and> replacement_of e = None) (secrets_create_or_update env tx res cs)"
    unfolding secrets_create_or_update_def create_or_update_object_def
    by (auto intro!: emits_intros split: sum.split)
  then show ?thesis by (rule ext_emits) (simp add: due_def)
qed

lemma secrets_process_settles: "settles env tx (secrets_process env tx res)"
proof -
  have st: "settles env tx (set_status f)" for f
    by (intro due_spares emits_set_status)
  show ?thesis
    unfolding secrets_process_def
    by (auto intro!: ext.bnd ext.wrap ext.ret ext.lift azure_credentials_settle st due_spares [OF emits_now]
        create_or_update_due split: prod.split)
qed

lemma controller_process_settles: "settles env tx (controller_process env tx)"
  unfolding controller_process_def
  by (intro ext.bnd ext.wrap secrets_process_settles due_spares [OF azure_process_spares])

lemma protected_with_invalid [simp]:
  "protected_passwords (with_invalid_credentials tx) = protected_passwords tx"
  "protected_keys (with_invalid_credentials tx) = protected_keys tx"
  by (simp_all add: protected_passwords_def protected_keys_def)

lemma step_settles:
  "settles env tx' m \<Longrightarrow> (\<And>x. settles env tx' (k x)) \<Longrightarrow> settles env tx' (step env tx m k)"
  unfolding step_def
  by (auto intro!: ext.bnd ext.attempt due_spares [OF handle_error_spares] split: sum.split)

lemma after_validation_settles: "settles env tx (after_validation env tx)"
  unfolding after_validation_def
  by (auto intro!: step_settles ext.ret azure_credentials_settle(4) controller_process_settles
      due_spares [OF secrets_delete_unused_spares] due_spares [OF complete_spares])

lemma reconcile_credentials_settles: "settles env tx (reconcile_credentials env tx)"
  unfolding reconcile_credentials_steps
proof (intro step_settles azure_credentials_settle(1) due_spares [OF azure_validate_spares])
  show "settles env tx (after_validation env (if valid then tx else with_invalid_credentials tx))" for valid
    using after_validation_settles [where tx = tx] after_validation_settles [where tx = "with_invalid_credentials tx"]
    by simp
qed

text \<open>The finalizer revokes passwords only to purge those of a preserved application.\<close>

lemma finalizer_revokes:
  assumes "finalizer_process env tx s = (r, s')"
    and n: "\<not> (app_deletion_timestamp (inst s) \<noteq> None \<and> has_annotation (inst s) PreserveKey \<noteq> None)"
  shows "emits_rel spares s s'"
proof -
  have fin: "emits spares (wrap msg (update_application env (\<lambda>i. call (Kube (UpdateResource (f i))) (e_unit env))))" for msg f
    by (auto intro!: emits_intros update_application_emits)
  let ?del = "bnd (bnd (wrap ''failed to delete resources'' (azure_delete env tx)) (\<lambda>_.
               report_event env Normal DeletedInAzure ''Azure application is deleted'')) (\<lambda>_.
     wrap ''failed to remove finalizer from list''
       (update_application env (\<lambda>existing.
         call (Kube (UpdateResource
           (remove_finalizer FinalizerOldName (remove_finalizer FinalizerName existing)))) (e_unit env))))"
  have runs: "finalizer_process env tx s \<in> {bnd ?del (\<lambda>_. ret True) s, bnd (finalizer_register env tx) (\<lambda>_. ret True) s, ret False s}"
    using n unfolding finalizer_process_def finalizer_finalize_def
    by (auto simp: Let_def instance_of_def gets_def bnd_def)
  have parts: "emits spares (bnd ?del (\<lambda>_. ret True))" "emits spares (ret False)"
    "emits spares (bnd (finalizer_register env tx) (\<lambda>_. ret True))"
    by (intro emits.bnd emits.ret emits.wrap fin azure_delete_spares(1) report_event_spares
        finalizer_register_spares)+
  show ?thesis
    using runs [unfolded assms(1) insert_iff empty_iff] movesD [OF parts(1), of s r s'] movesD [OF parts(2), of s r s']
      movesD [OF parts(3), of s r s']
    by metis
qed

lemma finalizer_passes:
  assumes "finalizer_process env tx s = (Ok False, s')"
  shows "app_deletion_timestamp (inst s) = None" "s' = s"
  using assms by (auto simp: finalizer_process_def Let_def ids_iff bnd_Ok_iff split: if_splits)

lemma extends_none: "emits_rel spares s s' \<Longrightarrow> extends (due pws keys env) s s'"
proof -
  assume "emits_rel spares s s'"
  then obtain n where n: "trace s' = n @ trace s" "\<forall>e \<in> set n. spares e" by (auto simp: emits_rel_def)
  have "history_ok (due pws keys env) n (trace s)" using n(2) by (induction n) (auto simp: due_def)
  then show ?thesis using n(1) by (auto simp: extends_def)
qed

text \<open>A reconciliation of a resource that is not purged.\<close>

lemma unpurged_revokes:
  assumes "step env tx (finalizer_process env tx)
      (\<lambda>processed. if processed then ret no_requeue else reconcile_credentials env tx) s = (r, s')"
    and "\<not> (app_deletion_timestamp (inst s) \<noteq> None \<and> has_annotation (inst s) PreserveKey \<noteq> None)"
  shows "emits_rel spares s s' \<or>
    app_deletion_timestamp (inst s) = None \<and> extends (due (unprotected tx) (unprotected_key tx) env) s s'"
proof -
  note fin = finalizer_revokes [OF _ assms(2)]
  show ?thesis
    using assms(1)
  proof (cases rule: step_cases)
    case (Ok processed s1)
    show ?thesis
    proof (cases processed)
      case True
      then show ?thesis using Ok(2) fin [OF Ok(1)] by (simp add: ret_def)
    next
      case False
      then have pass: "finalizer_process env tx s = (Ok False, s1)" and rest: "reconcile_credentials env tx s1 = (r, s')"
        using Ok by simp_all
      note pass = finalizer_passes [OF pass]
      show ?thesis using movesD [OF reconcile_credentials_settles rest [unfolded pass(2)]] pass(1) by simp
    qed
  next
    case (Err e s1)
    show ?thesis using emits.trans [OF fin [OF Err(1)] movesD [OF handle_error_spares Err(2)]] by simp
  next
    case (Panic s1)
    show ?thesis using fin [OF Panic(1)] Panic(3) by simp
  qed
qed

subsection \<open>What the transaction protects\<close>

abbreviation keys_of :: "azure_ad_application \<Rightarrow> secret_data_keys" where
  "keys_of i \<equiv> new_secret_data_keys [spec_secret_key_prefix (app_spec i)]"

text \<open>The listing of the secrets of a resource since the state \<open>s\<close>, answered with \<open>l\<close>.\<close>

definition secrets_listed :: "env \<Rightarrow> azure_ad_application \<Rightarrow> secret_lists \<Rightarrow> state \<Rightarrow> state \<Rightarrow> bool" where
  "secrets_listed env i l s s1 \<longleftrightarrow>
     (let c = Kube (ListSecrets (app_namespace i) (app_name i) (resource_labels i)) in
      \<exists>m n. trace s1 = m @ (c, True) # n @ trace s \<and> e_secret_lists env (n @ trace s) c = Inr l)"

lemma secrets_prepare_lists:
  assumes "secrets_prepare env s = (Ok secrets, s1)"
  obtains l where "secrets_listed env (inst s) l s s1"
    "txs_key_ids secrets = get_key_ids l (keys_of (inst s))"
    "get_previous_credentials_set (e_codec env) l (keys_of (inst s)) (status_secret_name (app_status (inst s))) =
       Ok (latest_set (txs_latest secrets))"
proof -
  let ?c = "Kube (ListSecrets (app_namespace (inst s)) (app_name (inst s)) (resource_labels (inst s)))"
  obtain l cs where l: "e_secret_lists env (trace s) ?c = Inr l" "trace s1 = (?c, True) # trace s"
    "get_previous_credentials_set (e_codec env) l (keys_of (inst s)) (status_secret_name (app_status (inst s))) = Ok cs"
    "txs_key_ids secrets = get_key_ids l (keys_of (inst s))" "latest_set (txs_latest secrets) = cs"
    using assms unfolding secrets_prepare_def get_managed_secrets_def
    by (auto simp: bnd_Ok_iff call_Ok_iff ids_iff set_status_iff Let_def)
  have "secrets_listed env (inst s) l s s1"
    unfolding secrets_listed_def Let_def by (intro exI [of _ "[]"] conjI) (simp_all add: l)
  then show thesis by (rule that) (simp_all add: l)
qed

text \<open>The secrets of a transaction were computed from the listing \<open>l\<close> of the resource \<open>i\<close>.\<close>

definition prepared_from :: "env \<Rightarrow> azure_ad_application \<Rightarrow> secret_lists \<Rightarrow> transaction \<Rightarrow> bool" where
  "prepared_from env i l tx \<longleftrightarrow> txs_key_ids (tx_secrets tx) = get_key_ids l (keys_of i) \<and>
     get_previous_credentials_set (e_codec env) l (keys_of i) (status_secret_name (app_status i)) = Ok (latest_of tx)"

text \<open>The secrets of a transaction come from one listing, made while it was prepared.\<close>

lemma prepare_secrets:
  assumes "prepare env namespace name s = (Ok tx, s1)"
  obtains i l where "e_resource env (trace s) (Kube (GetResource namespace name)) = Inr i"
    "secrets_listed env i l s s1" "prepared_from env i l tx"
    "app_deletion_timestamp (inst s1) = app_deletion_timestamp i" "app_annotations (inst s1) = app_annotations i"
proof -
  obtain i and cid sa sb secrets sc tx0 sd found where
    i: "e_resource env (trace s) (Kube (GetResource namespace name)) = Inr i"
    and sa: "get_or_generate_correlation_id env
       (s\<lparr>trace := (Kube (GetResource namespace name), True) # trace s, inst := i\<rparr>) = (Ok cid, sa)"
    and sb: "sb = sa\<lparr>inst := (inst sa)\<lparr>app_status := (app_status (inst sa))\<lparr>status_correlation_id := cid\<rparr>\<rparr>\<rparr>"
    and sc: "secrets_prepare env sb = (Ok secrets, sc)" and tx: "tx_secrets tx = secrets"
    and sd: "azure_exists env tx0 sd = (Ok found, s1)" "trace sd = (Runtime Now, True) # trace sc"
    using assms unfolding prepare_def
    by (auto simp: bnd_Ok_iff call_Ok_iff ids_iff now_iff set_status_iff Let_def)
  have "inst sa = i" using movesD [OF correlation_id_same sa] by (simp add: same_inst_def)
  then have same: "resource_labels (inst sb) = resource_labels i" "keys_of (inst sb) = keys_of i"
    "app_name (inst sb) = app_name i" "app_namespace (inst sb) = app_namespace i"
    "status_secret_name (app_status (inst sb)) = status_secret_name (app_status i)"
    using sb by (simp_all add: resource_labels_def)
  from movesD [OF prepared_spares(1) sa] obtain n where n: "trace sb = n @ trace s"
    using sb by (auto simp: emits_rel_def)
  from movesD [OF prepared_spares(3) sd(1)] obtain m where m: "trace s1 = (m @ [(Runtime Now, True)]) @ trace sc"
    using sd(2) by (auto simp: emits_rel_def)
  have frame: "app_deletion_timestamp (inst s1) = app_deletion_timestamp i" "app_annotations (inst s1) = app_annotations i"
    using prepare_Ok [OF assms] i by (auto simp: frame_rel_def)
  from secrets_prepare_lists [OF sc, unfolded same] obtain l where l: "secrets_listed env (inst sb) l sb sc"
    "txs_key_ids secrets = get_key_ids l (keys_of i)"
    "get_previous_credentials_set (e_codec env) l (keys_of i) (status_secret_name (app_status i)) = Ok (latest_set (txs_latest secrets))" .
  have "secrets_listed env i l s s1"
    using l(1) n m unfolding secrets_listed_def same Let_def by (metis append.assoc append_Cons)
  then show ?thesis by (rule that [OF i]) (use l tx frame in \<open>simp_all add: prepared_from_def\<close>)
qed

lemma has_annotation_cong: "app_annotations i = app_annotations j \<Longrightarrow> has_annotation i k = has_annotation j k"
  by (simp add: has_annotation_def)

text \<open>
  The credentials that the listed secrets protect: the ones that the secrets in use hold as their
  current credentials, under the entry names of the key prefix in the spec, and both of the secret
  that the status names. Nothing else that a secret in use holds is protected, not the next
  credentials, nor what was written under another prefix.
\<close>

definition password_protected :: "env \<Rightarrow> azure_ad_application \<Rightarrow> secret_lists \<Rightarrow> string \<Rightarrow> bool" where
  "password_protected env i l k \<longleftrightarrow>
     k \<noteq> [] \<and> (\<exists>st \<in> set (sl_used l). map_of (sec_data st) (ck_password_key_id (sdk_current (keys_of i))) = Some k) \<or>
     (\<exists>cs. get_previous_credentials_set (e_codec env) l (keys_of i) (status_secret_name (app_status i)) = Ok (Some cs) \<and>
        k \<in> {pw_key_id (cr_password (set_current cs)), pw_key_id (cr_password (set_next cs))})"

definition key_protected :: "env \<Rightarrow> azure_ad_application \<Rightarrow> secret_lists \<Rightarrow> string \<Rightarrow> bool" where
  "key_protected env i l k \<longleftrightarrow>
     k \<noteq> [] \<and> (\<exists>st \<in> set (sl_used l). map_of (sec_data st) (ck_certificate_key_id (sdk_current (keys_of i))) = Some k) \<or>
     (\<exists>cs. get_previous_credentials_set (e_codec env) l (keys_of i) (status_secret_name (app_status i)) = Ok (Some cs) \<and>
        k \<in> {cert_key_id (cr_certificate (set_current cs)), cert_key_id (cr_certificate (set_next cs))})"

lemma protected_referenced:
  assumes "prepared_from env i l tx"
  shows "protected_passwords tx = {k. password_protected env i l k}" "protected_keys tx = {k. key_protected env i l k}"
proof -
  note ids = key_ids_of_secrets [of l "keys_of i"]
  show "protected_passwords tx = {k. password_protected env i l k}"
    using assms ids by (cases "latest_of tx") (auto simp: prepared_from_def protected_passwords_def password_protected_def)
  show "protected_keys tx = {k. key_protected env i l k}"
    using assms ids by (cases "latest_of tx") (auto simp: prepared_from_def protected_keys_def key_protected_def)
qed

subsection \<open>A revocation\<close>

text \<open>Every request of a reconciliation of a resource that is not purged is allowed.\<close>

lemma reconcile_settles:
  assumes "reconcile env namespace name s = (r, s')" "trace s' = later @ e # earlier @ trace s" "\<not> spares e"
  obtains tx s1 where "prepare env namespace name s = (Ok tx, s1)" "\<not> opt_tenant_ignore (tx_options tx)"
    "app_deletion_timestamp (inst s1) \<noteq> None \<and> has_annotation (inst s1) PreserveKey \<noteq> None \<or>
     app_deletion_timestamp (inst s1) = None \<and> due (unprotected tx) (unprotected_key tx) env e (earlier @ trace s)"
proof -
  have spared: False if "emits_rel spares s s'"
    using that assms(2,3) by (auto simp: emits_rel_def)
  show thesis
    using assms(1)
  proof (cases rule: reconcile_cases)
    case unprepared
    have "emits_rel spares s s'"
      using movesD [OF prepare_spares [of env namespace name] prod.collapse [symmetric], of s] unprepared by simp
    then show thesis using spared by simp
  next
    case (ignored tx s1)
    have "emits spares (step env tx (wrap ''processing orphaned resources'' (azure_process_orphaned env tx)) (\<lambda>_. ret no_requeue))"
      by (intro step_emits emits.wrap emits.ret azure_delete_spares(2) handle_error_spares)
    from emits.trans [OF movesD [OF prepare_spares ignored(1)] movesD [OF this ignored(3)]]
    show thesis using spared by simp
  next
    case (addressed tx s1)
    note p = movesD [OF prepare_spares addressed(1)]
    show thesis
    proof (cases "app_deletion_timestamp (inst s1) \<noteq> None \<and> has_annotation (inst s1) PreserveKey \<noteq> None")
      case True
      then show thesis by (intro that [OF addressed(1,2)] disjI1)
    next
      case False
      have rest: "app_deletion_timestamp (inst s1) = None"
        "extends (due (unprotected tx) (unprotected_key tx) env) s1 s'"
        using unpurged_revokes [OF addressed(3) False] emits.trans [OF p] spared by blast+
      from extends_at [OF ext.trans [OF extends_none [OF p] rest(2)] assms(2)] rest(1)
      show thesis by (intro that [OF addressed(1,2)] disjI2 conjI)
    qed
  qed
qed

subsection \<open>A sample run that revokes\<close>

text \<open>A world in which Graph lists expired credentials, and nothing once a removal was asked for.\<close>

definition expired_env :: env where
  "expired_env = quiet_env
     \<lparr>e_resource := (\<lambda>_ _. Inr plain_app),
      e_applications := (\<lambda>h _. if list_ex (\<lambda>e. removal_of e \<noteq> None) h then Inl (Cause (Opaque ''unavailable''))
        else Inr [plain_registered\<lparr>ga_password_credentials := [sample_password ''old'' 1],
          ga_key_credentials := [sample_certificate ''old'' 1, sample_certificate ''new'' 10]\<rparr>])\<rparr>"

lemma expired_runs:
  "\<exists>e \<in> set (trace (snd (reconcile expired_env ''ns'' ''app'' start_state))). removal_of e \<noteq> None"
  "\<exists>e \<in> set (trace (snd (reconcile expired_env ''ns'' ''app'' start_state))). replacement_of e \<noteq> None"
proof -
  let ?run = "reconcile expired_env ''ns'' ''app'' start_state"
  have "list_ex (\<lambda>e. removal_of e \<noteq> None) (trace (snd ?run)) \<and> list_ex (\<lambda>e. replacement_of e \<noteq> None) (trace (snd ?run))"
    by (simp add: runs reconcile_evals sample_evals expired_env_def with_invalid_credentials_def Let_def cong: eval_congs)
  then show "\<exists>e \<in> set (trace (snd ?run)). removal_of e \<noteq> None" "\<exists>e \<in> set (trace (snd ?run)). replacement_of e \<noteq> None"
    by (auto simp: list_ex_iff)
qed

subsection \<open>Properties\<close>

lemma unreferenced: "k \<notin> Some ` {x. P x} \<longleftrightarrow> (\<forall>x. k = Some x \<longrightarrow> \<not> P x)"
  by auto

text \<open>
  C4: a reconciliation revokes a password only when the resource that it fetched is addressed to this
  tenant, and is being deleted with its application preserved, or is not being deleted and the newest
  listing of the application with the object ID of the request contains the password, either with an
  end that the clock had passed, or beside another password that starts no earlier than any other and
  while the listed secrets do not protect it: it is neither the current password of a secret in use,
  under the key prefix of the spec, nor one of the two passwords of the secret named in the status.
\<close>

theorem passwords_revoked_only_when_due:
  assumes "reconcile env namespace name s = (r, s')"
    and "trace s' = later @ (Graph (RemovePassword oid k), ok) # earlier @ trace s"
  shows "\<exists>tx s1 i l. prepare env namespace name s = (Ok tx, s1) \<and> \<not> opt_tenant_ignore (tx_options tx) \<and>
    e_resource env (trace s) (Kube (GetResource namespace name)) = Inr i \<and> secrets_listed env i l s s1 \<and>
    (app_deletion_timestamp i \<noteq> None \<and> has_annotation i PreserveKey \<noteq> None \<or>
     app_deletion_timestamp i = None \<and>
     (expired_password env oid k (earlier @ trace s) \<or>
      superseded_password env (\<lambda>k. \<forall>id. k = Some id \<longrightarrow> \<not> password_protected env i l id) oid k (earlier @ trace s)))"
proof (rule reconcile_settles [OF assms])
  fix tx s1
  assume p: "prepare env namespace name s = (Ok tx, s1)" "\<not> opt_tenant_ignore (tx_options tx)"
    and c: "app_deletion_timestamp (inst s1) \<noteq> None \<and> has_annotation (inst s1) PreserveKey \<noteq> None \<or>
     app_deletion_timestamp (inst s1) = None \<and>
     due (unprotected tx) (unprotected_key tx) env (Graph (RemovePassword oid k), ok) (earlier @ trace s)"
  from prepare_secrets [OF p(1)] obtain i l where f: "e_resource env (trace s) (Kube (GetResource namespace name)) = Inr i"
    "secrets_listed env i l s s1"
    and t: "prepared_from env i l tx"
    and a: "app_deletion_timestamp (inst s1) = app_deletion_timestamp i" "app_annotations (inst s1) = app_annotations i" .
  have "app_deletion_timestamp i \<noteq> None \<and> has_annotation i PreserveKey \<noteq> None \<or>
     app_deletion_timestamp i = None \<and> (expired_password env oid k (earlier @ trace s) \<or>
       superseded_password env (unprotected tx) oid k (earlier @ trace s))"
    using c unfolding a(1) has_annotation_cong [OF a(2)] due_def by auto
  then show ?thesis
    unfolding protected_referenced [OF t] unreferenced
    by (intro exI [of _ tx] exI [of _ s1] exI [of _ i] exI [of _ l] conjI p f)
qed simp

lemma passwords_revoked_only_when_due_witness:
  "\<exists>s1 l oid k h. secrets_listed expired_env plain_app l start_state s1 \<and>
     (expired_password expired_env oid k h \<or>
      superseded_password expired_env (\<lambda>k. \<forall>id. k = Some id \<longrightarrow> \<not> password_protected expired_env plain_app l id) oid k h)"
proof -
  let ?run = "reconcile expired_env ''ns'' ''app'' start_state"
  obtain e where e: "e \<in> set (trace (snd ?run))" "removal_of e \<noteq> None" using expired_runs(1) by blast
  then obtain later oid k ok earlier where
    "trace (snd ?run) = later @ (Graph (RemovePassword oid k), ok) # earlier @ trace start_state"
    by (cases e rule: removal_of.cases) (auto dest: split_list simp: start_state_def)
  from passwords_revoked_only_when_due [OF prod.collapse [symmetric] this] obtain tx s1 i l where
    "e_resource expired_env (trace start_state) (Kube (GetResource ''ns'' ''app'')) = Inr i"
    "secrets_listed expired_env i l start_state s1"
    "app_deletion_timestamp i \<noteq> None \<or> expired_password expired_env oid k (earlier @ trace start_state) \<or>
       superseded_password expired_env (\<lambda>k. \<forall>id. k = Some id \<longrightarrow> \<not> password_protected expired_env i l id) oid k (earlier @ trace start_state)"
    by blast
  moreover from this(1) have "i = plain_app" by (simp add: expired_env_def)
  moreover have "app_deletion_timestamp plain_app = None" by (simp add: sample_evals)
  ultimately show ?thesis by - (hypsubst, blast)
qed

text \<open>
  C5: a reconciliation replaces the key credentials of an application only when the resource that it
  fetched is addressed to this tenant, and is being deleted with its application preserved, or is not
  being deleted and the list sent contains every key credential of the newest listing but expired
  ones and those that the listed secrets do not protect, and still a newest one of them unless it has
  expired. Protected are the current key of a secret in use, under the key prefix of the spec, and
  both keys of the secret named in the status; expired means that the clock had reached the end.
\<close>

theorem keys_dropped_only_when_due:
  assumes "reconcile env namespace name s = (r, s')"
    and "trace s' = later @ (Graph (PatchApplication oid p), ok) # earlier @ trace s"
    and "replacement_of (Graph (PatchApplication oid p), ok) = Some (oid, ks)"
  shows "\<exists>tx s1 i l. prepare env namespace name s = (Ok tx, s1) \<and> \<not> opt_tenant_ignore (tx_options tx) \<and>
    e_resource env (trace s) (Kube (GetResource namespace name)) = Inr i \<and> secrets_listed env i l s s1 \<and>
    (app_deletion_timestamp i \<noteq> None \<and> has_annotation i PreserveKey \<noteq> None \<or>
     app_deletion_timestamp i = None \<and>
     (\<exists>app. listed env app (earlier @ trace s) \<and>
        keeps_listed env (\<lambda>k. \<forall>id. k = Some id \<longrightarrow> \<not> key_protected env i l id) app ks (earlier @ trace s)))"
proof (rule reconcile_settles [OF assms(1,2)])
  fix tx s1
  assume p: "prepare env namespace name s = (Ok tx, s1)" "\<not> opt_tenant_ignore (tx_options tx)"
    and c: "app_deletion_timestamp (inst s1) \<noteq> None \<and> has_annotation (inst s1) PreserveKey \<noteq> None \<or>
     app_deletion_timestamp (inst s1) = None \<and>
     due (unprotected tx) (unprotected_key tx) env (Graph (PatchApplication oid p), ok) (earlier @ trace s)"
  from prepare_secrets [OF p(1)] obtain i l where f: "e_resource env (trace s) (Kube (GetResource namespace name)) = Inr i"
    "secrets_listed env i l s s1"
    and t: "prepared_from env i l tx"
    and a: "app_deletion_timestamp (inst s1) = app_deletion_timestamp i" "app_annotations (inst s1) = app_annotations i" .
  have "app_deletion_timestamp i \<noteq> None \<and> has_annotation i PreserveKey \<noteq> None \<or>
     app_deletion_timestamp i = None \<and>
     (\<exists>app. listed env app (earlier @ trace s) \<and> keeps_listed env (unprotected_key tx) app ks (earlier @ trace s))"
    using c assms(3) unfolding a(1) has_annotation_cong [OF a(2)] due_def by blast
  then show ?thesis
    unfolding protected_referenced [OF t] unreferenced
    by (intro exI [of _ tx] exI [of _ s1] exI [of _ i] exI [of _ l] conjI p f)
qed (use assms(3) in auto)

lemma keys_dropped_only_when_due_witness:
  "\<exists>s1 l app h. secrets_listed expired_env plain_app l start_state s1 \<and> listed expired_env app h"
proof -
  let ?run = "reconcile expired_env ''ns'' ''app'' start_state"
  obtain e where e: "e \<in> set (trace (snd ?run))" "replacement_of e \<noteq> None" using expired_runs(2) by blast
  have "\<exists>i p ok ks. e = (Graph (PatchApplication i p), ok) \<and> replacement_of (Graph (PatchApplication i p), ok) = Some (i, ks)"
    using e(2) by (cases e rule: replacement_of.cases) (auto split: if_splits)
  then obtain oid p ok ks where p: "e = (Graph (PatchApplication oid p), ok)"
    "replacement_of (Graph (PatchApplication oid p), ok) = Some (oid, ks)" by blast
  then obtain later earlier where
    "trace (snd ?run) = later @ (Graph (PatchApplication oid p), ok) # earlier @ trace start_state"
    using e(1) by (auto dest: split_list simp: start_state_def)
  from keys_dropped_only_when_due [OF prod.collapse [symmetric] this p(2)] obtain tx s1 i l where
    "e_resource expired_env (trace start_state) (Kube (GetResource ''ns'' ''app'')) = Inr i"
    "secrets_listed expired_env i l start_state s1"
    "app_deletion_timestamp i \<noteq> None \<or> (\<exists>app. listed expired_env app (earlier @ trace start_state))"
    by metis
  moreover from this(1) have "i = plain_app" by (simp add: expired_env_def)
  moreover have "app_deletion_timestamp plain_app = None" by (simp add: sample_evals)
  ultimately show ?thesis by - (hypsubst, blast)
qed

text \<open>
  C6: the credentials that secrets in use hold are not all protected. Deleting the unused passwords
  removes a password that is an entry of a secret in use, unless it is the current one under the key
  prefix of the spec or one of the secret named in the status, as soon as a listed password starts
  later; so it removes the next password of a secret that pods still use, and the current one if it
  was written under another prefix.
\<close>

theorem credentials_in_use_revoked:
  assumes "lists_only env app" "ga_id app = Some oid" "latest_of tx \<noteq> None"
    and "listed_credentials pc_key_id pc_start (ga_password_credentials app)"
    and "has_managed_key pc_display_name (ga_password_credentials app)"
    and "prepared_from env i l tx" "st \<in> set (sl_used l)" "map_of (sec_data st) entry = Some kid"
    and "\<not> password_protected env i l kid"
    and "c \<in> set (ga_password_credentials app)" "pc_key_id c = Some kid"
    and "c' \<in> set (ga_password_credentials app)" "the (pc_start c) < the (pc_start c')"
  shows "\<exists>n. password_delete_unused env tx s = (Ok (), s\<lparr>trace := n @ trace s\<rparr>) \<and> (oid, Some kid) \<in> removals n"
proof -
  from unused_removed [OF assms(1-4), of s] obtain n newest where
    n: "password_delete_unused env tx s = (Ok (), s\<lparr>trace := n @ trace s\<rparr>)"
    "newest_of pc_start (ga_password_credentials app) newest"
    "removals n = {oid} \<times> {k. \<exists>c \<in> set (ga_password_credentials app). k = pc_key_id c \<and>
       the k \<notin> protected_passwords tx \<and> c \<noteq> newest}"
    using assms(5,10) by auto
  have "pc_start c \<noteq> None" "pc_start c' \<noteq> None" using assms(4,10,12) by (auto simp: listed_credentials_def)
  then have "c \<noteq> newest" using n(2) assms(12,13) by (auto simp: newest_of_def)
  moreover have "kid \<notin> protected_passwords tx" using assms(9) by (simp add: protected_referenced [OF assms(6)])
  ultimately have "(oid, Some kid) \<in> removals n"
    unfolding n(3) using assms(10,11) by (auto intro!: bexI [of _ c])
  then show ?thesis using n(1) by blast
qed

text \<open>A resource with two secrets: the one that its status names, and an older one that is still in use.\<close>

definition renewed_app :: azure_ad_application where
  "renewed_app = plain_app\<lparr>app_status := blank_status\<lparr>status_secret_name := ''latest''\<rparr>\<rparr>"

definition renewed_lists :: secret_lists where
  "renewed_lists = (let k = keys_of renewed_app in
     \<lparr>sl_used =
        [(new_secret plain_app)\<lparr>sec_name := ''former'',
           sec_data := [(ck_password_key_id (sdk_current k), ''older''), (ck_password_key_id (sdk_next k), ''old'')]\<rparr>],
      sl_unused =
        [(new_secret plain_app)\<lparr>sec_name := ''latest'',
           sec_data := [(ck_client_secret (sdk_current k), ''s1''), (ck_password_key_id (sdk_current k), ''pw-1''),
             (ck_jwk (sdk_current k), ''jwk:k1''), (ck_certificate_key_id (sdk_current k), ''cert-1''),
             (ck_client_secret (sdk_next k), ''s2''), (ck_password_key_id (sdk_next k), ''pw-2''),
             (ck_jwk (sdk_next k), ''jwk:k2''), (ck_certificate_key_id (sdk_next k), ''cert-2'')]\<rparr>]\<rparr>)"

definition renewed_tx :: transaction where
  "renewed_tx = plain_tx\<lparr>tx_secrets := (tx_secrets plain_tx)
     \<lparr>txs_key_ids := get_key_ids renewed_lists (keys_of renewed_app),
      txs_latest := (case get_previous_credentials_set quiet_codec renewed_lists (keys_of renewed_app) ''latest'' of
        Ok cs \<Rightarrow> \<lparr>latest_set = cs, latest_valid = True\<rparr> | _ \<Rightarrow> \<lparr>latest_set = None, latest_valid = False\<rparr>)\<rparr>\<rparr>"

lemma renewed_set:
  "\<exists>cs. get_previous_credentials_set quiet_codec renewed_lists (keys_of renewed_app) ''latest'' = Ok (Some cs) \<and>
     pw_key_id (cr_password (set_current cs)) = ''pw-1'' \<and> pw_key_id (cr_password (set_next cs)) = ''pw-2''"
proof -
  have "case get_previous_credentials_set quiet_codec renewed_lists (keys_of renewed_app) ''latest'' of
      Ok (Some cs) \<Rightarrow> pw_key_id (cr_password (set_current cs)) = ''pw-1'' \<and> pw_key_id (cr_password (set_next cs)) = ''pw-2''
    | _ \<Rightarrow> False"
    by code_simp
  then show ?thesis by (auto split: outcome.splits option.splits)
qed

lemma credentials_in_use_revoked_witness:
  "\<exists>n. password_delete_unused sample_env renewed_tx start_state = (Ok (), start_state\<lparr>trace := n\<rparr>) \<and>
     (''oid'', Some ''old'') \<in> removals n"
proof -
  obtain cs where cs: "get_previous_credentials_set quiet_codec renewed_lists (keys_of renewed_app) ''latest'' = Ok (Some cs)"
    "pw_key_id (cr_password (set_current cs)) = ''pw-1''" "pw_key_id (cr_password (set_next cs)) = ''pw-2''"
    using renewed_set by blast
  have codec: "e_codec sample_env = quiet_codec" "status_secret_name (app_status renewed_app) = ''latest''"
    by (simp_all add: sample_env_def renewed_app_def)
  have latest: "latest_of renewed_tx = Some cs" by (simp add: renewed_tx_def cs)
  have prepared: "prepared_from sample_env renewed_app renewed_lists renewed_tx"
    by (simp add: prepared_from_def codec cs renewed_tx_def)
  obtain st where st: "st \<in> set (sl_used renewed_lists)" "map_of (sec_data st) (ck_password_key_id (sdk_next (keys_of renewed_app))) = Some ''old''"
    and used: "\<forall>st \<in> set (sl_used renewed_lists). map_of (sec_data st) (ck_password_key_id (sdk_current (keys_of renewed_app))) \<noteq> Some ''old''"
    by (auto simp: renewed_lists_def new_secret_data_keys_def Let_def)
  have "\<not> password_protected sample_env renewed_app renewed_lists ''old''"
    using used cs by (auto simp: password_protected_def codec)
  from credentials_in_use_revoked [OF sample_facts(1,2) _ sample_listed(1,3) prepared st this,
      of "sample_password ''old'' 3" "sample_password ''new'' 30" start_state]
  show ?thesis by (simp add: latest sample_app_def) (simp add: sample_password_def start_state_def)
qed

end
