(* ===== verification/Issuance.thy ===== *)
theory Issuance
  imports Revocation Completion RequestBounds
begin

text \<open>
  The credentials that a reconciliation hands out: a secret is only stored with credentials that
  were registered in Azure before, in the same reconciliation, or that were just validated.
\<close>

subsection \<open>Credentials that were registered\<close>

text \<open>
  \<open>issued_password env base k secret h\<close>: after \<open>base\<close>, Graph answered a request for a password with this
  key ID and secret. \<open>registered_key base k pem h\<close>: after \<open>base\<close>, Graph accepted a list of key
  credentials with this key ID and public key.
\<close>

definition issued_password :: "env \<Rightarrow> history \<Rightarrow> string \<Rightarrow> string \<Rightarrow> history \<Rightarrow> bool" where
  "issued_password env base k secret h \<longleftrightarrow> (\<exists>later i c earlier pw.
     h = later @ (Graph (AddPassword i c), True) # earlier @ base \<and>
     e_password env (earlier @ base) (Graph (AddPassword i c)) = Inr pw \<and>
     pc_key_id pw = Some k \<and> pc_secret pw = Some secret)"

definition registered_key :: "history \<Rightarrow> string \<Rightarrow> string \<Rightarrow> history \<Rightarrow> bool" where
  "registered_key base k pem h \<longleftrightarrow> (\<exists>later i a earlier kc.
     h = later @ (Graph (PatchApplication i (PatchFields a)), True) # earlier @ base \<and>
     kc \<in> set (ga_key_credentials a) \<and> kc_key_id kc = Some k \<and> kc_key kc = Some pem)"

definition issued :: "env \<Rightarrow> history \<Rightarrow> credentials \<Rightarrow> history \<Rightarrow> bool" where
  "issued env base cr h \<longleftrightarrow>
     issued_password env base (pw_key_id (cr_password cr)) (pw_client_secret (cr_password cr)) h \<and>
     registered_key base (cert_key_id (cr_certificate cr)) (jwk_public_pem (cert_jwk (cr_certificate cr))) h"

lemma issued_password_append: "issued_password env base k p h \<Longrightarrow> issued_password env base k p (n @ h)"
  unfolding issued_password_def by (metis append.assoc)

lemma issued_password_base: "issued_password env (n @ base) k p h \<Longrightarrow> issued_password env base k p h"
  unfolding issued_password_def by (metis append.assoc)

lemma registered_key_base: "registered_key (n @ base) k p h \<Longrightarrow> registered_key base k p h"
  unfolding registered_key_def by (metis append.assoc)

lemma issued_base: "issued env (n @ base) cr h \<Longrightarrow> issued env base cr h"
  by (auto simp: issued_def intro: issued_password_base registered_key_base)

lemma registered_key_append: "registered_key base k p h \<Longrightarrow> registered_key base k p (n @ h)"
  unfolding registered_key_def by (metis append.assoc)

lemma issued_append: "issued env base cr h \<Longrightarrow> issued env base cr (n @ h)"
  by (auto simp: issued_def intro: issued_password_append registered_key_append)

lemma grows:
  assumes "emits P m" "m s = (r, s')"
  obtains n where "trace s' = n @ trace s"
  using movesD [OF assms] by (auto simp: emits_rel_def)

lemma password_add_issues:
  assumes "password_add env tx s = (Ok pw, s')" "pc_key_id pw = Some k" "pc_secret pw = Some p"
  shows "issued_password env (trace s) k p (trace s')"
proof -
  obtain i c s1 where a: "to_add_request env s = (Ok c, s1)" and r: "e_password env (trace s1) (Graph (AddPassword i c)) = Inr pw"
    and s': "s' = s1\<lparr>trace := (Graph (AddPassword i c), True) # trace s1\<rparr>"
    using assms(1) by (auto simp: password_add_def bnd_Ok_iff ids_iff call_Ok_iff)
  have "emits (\<lambda>_. True) (to_add_request env)" unfolding to_add_request_def by (auto intro!: emits_intros)
  from grows [OF this a] obtain n where "trace s1 = n @ trace s" .
  then show ?thesis
    unfolding issued_password_def using r s' assms(2,3)
    by (intro exI [of _ "[]"] exI [of _ i] exI [of _ c] exI [of _ n] exI [of _ pw]) simp
qed

lemma patch_registers:
  assumes "application_patch env i (PatchFields (with_keys ks zero_application)) s1 = (Ok (), s')"
    and "trace s1 = n @ trace s" "kc \<in> set ks" "kc_key_id kc = Some k" "kc_key kc = Some pem"
  shows "registered_key (trace s) k pem (trace s')"
  unfolding registered_key_def using patch_Ok [OF assms(1)] assms(2-5)
  by (intro exI [of _ "[]"] exI [of _ i] exI [of _ "with_keys ks zero_application"] exI [of _ n] exI [of _ kc])
     (simp add: with_keys_def)

lemma key_credential_new_pem:
  "key_credential_new env tx s = (Ok (kc, j), s') \<Longrightarrow> kc_key kc = Some (jwk_public_pem j)"
  by (auto simp: key_credential_new_def to_key_credential_def bnd_Ok_iff)

lemma key_grows:
  "key_credential_new env tx s = (r, s') \<Longrightarrow> \<exists>n. trace s' = n @ trace s"
  "filter_revoked_keys env tx s = (r', s') \<Longrightarrow> \<exists>n. trace s' = n @ trace s"
  "application_get env tx s = (r'', s') \<Longrightarrow> \<exists>n. trace s' = n @ trace s"
  by (erule grows [OF key_credential_new_idle], blast, erule grows [OF filter_revoked_keys_emits], blast,
      erule grows [OF application_get_reads(2)], blast)

lemma key_add_registers:
  assumes "key_credential_add env tx s = (Ok keys, s')" "a \<in> {akcs_current keys, akcs_next keys}"
    and "kc_key_id (akc_key_credential a) = Some k"
  shows "registered_key (trace s) k (jwk_public_pem (akc_jwk a)) (trace s')"
proof -
  obtain app s1 cur cur_jwk s2 nxt nxt_jwk s3 i where g: "application_get env tx s = (Ok app, s1)"
    and n1: "key_credential_new env tx s1 = (Ok (cur, cur_jwk), s2)"
    and n2: "key_credential_new env tx s2 = (Ok (nxt, nxt_jwk), s3)"
    and p: "application_patch env i (PatchFields (with_keys (ga_key_credentials app @ [cur, nxt]) zero_application)) s3 = (Ok (), s')"
    and keys: "keys = \<lparr>akcs_current = \<lparr>akc_key_credential = cur, akc_jwk = cur_jwk\<rparr>,
          akcs_next = \<lparr>akc_key_credential = nxt, akc_jwk = nxt_jwk\<rparr>\<rparr>"
    using assms(1) by (auto simp: key_credential_add_def bnd_Ok_iff run_simps)
  obtain n where n: "trace s3 = n @ trace s"
    using key_grows(3) [OF g] key_grows(1) [OF n1] key_grows(1) [OF n2] by auto
  show ?thesis
    by (rule patch_registers [OF p n, of "akc_key_credential a"])
      (use assms(2,3) keys key_credential_new_pem [OF n1] key_credential_new_pem [OF n2] in auto)
qed

lemma key_rotate_registers:
  assumes "key_credential_rotate env tx s = (Ok (kc, j), s')" "kc_key_id kc = Some k"
  shows "registered_key (trace s) k (jwk_public_pem j) (trace s')"
proof -
  obtain ks s1 s2 i where f: "filter_revoked_keys env tx s = (Ok ks, s1)"
    and n: "key_credential_new env tx s1 = (Ok (kc, j), s2)"
    and p: "application_patch env i (PatchFields (with_keys (ks @ [kc]) zero_application)) s2 = (Ok (), s')"
    using assms(1) by (auto simp: key_credential_rotate_def bnd_Ok_iff run_simps)
  obtain m where m: "trace s2 = m @ trace s" using key_grows(2) [OF f] key_grows(1) [OF n] by auto
  show ?thesis by (rule patch_registers [OF p m, of kc]) (use assms(2) key_credential_new_pem [OF n] in auto)
qed

subsection \<open>New and rotated credentials\<close>

lemma credentials_grow:
  "delay env s = (r, s') \<Longrightarrow> \<exists>n. trace s' = n @ trace s"
  "password_add env tx s = (r1, s') \<Longrightarrow> \<exists>n. trace s' = n @ trace s"
  "key_credential_add env tx s = (r2, s') \<Longrightarrow> \<exists>n. trace s' = n @ trace s"
  "key_credential_rotate env tx s = (r3, s') \<Longrightarrow> \<exists>n. trace s' = n @ trace s"
  "report_event env ty reason msg s = (r4, s') \<Longrightarrow> \<exists>n. trace s' = n @ trace s"
  by (erule grows [OF password_add_idle(2)], blast, erule grows [OF password_add_idle(1)], blast,
      erule grows [OF key_credential_emits(1)], blast, erule grows [OF key_credential_emits(4)], blast,
      erule grows [OF report_event_spares], blast)

lemma credentials_add_issues:
  assumes "credentials_add env tx s = (Ok cs, s')" "cr \<in> {set_current cs, set_next cs}"
  shows "issued env (trace s) cr (trace s')"
proof -
  obtain s1 s2 s3 s4 s5 pw1 pw2 keys where steps: "delay env s = (Ok (), s1)"
      "password_add env tx s1 = (Ok pw1, s2)" "delay env s2 = (Ok (), s3)"
      "password_add env tx s3 = (Ok pw2, s4)" "delay env s4 = (Ok (), s5)"
    and k: "key_credential_add env tx s5 = (Ok keys, s')"
    and cur: "kc_key_id (akc_key_credential (akcs_current keys)) = Some (cert_key_id (cr_certificate (set_current cs)))"
      "akc_jwk (akcs_current keys) = cert_jwk (cr_certificate (set_current cs))"
      "pc_key_id pw1 = Some (pw_key_id (cr_password (set_current cs)))"
      "pc_secret pw1 = Some (pw_client_secret (cr_password (set_current cs)))"
    and nxt: "kc_key_id (akc_key_credential (akcs_next keys)) = Some (cert_key_id (cr_certificate (set_next cs)))"
      "akc_jwk (akcs_next keys) = cert_jwk (cr_certificate (set_next cs))"
      "pc_key_id pw2 = Some (pw_key_id (cr_password (set_next cs)))"
      "pc_secret pw2 = Some (pw_client_secret (cr_password (set_next cs)))"
    using assms(1) by (auto simp: credentials_add_def bnd_Ok_iff)
  obtain n1 n2 n3 n4 n5 n6 where n: "trace s1 = n1 @ trace s" "trace s2 = n2 @ trace s1" "trace s3 = n3 @ trace s2"
    "trace s4 = n4 @ trace s3" "trace s5 = n5 @ trace s4" "trace s' = n6 @ trace s5"
    using credentials_grow(1) [OF steps(1)] credentials_grow(2) [OF steps(2)] credentials_grow(1) [OF steps(3)]
      credentials_grow(2) [OF steps(4)] credentials_grow(1) [OF steps(5)] credentials_grow(3) [OF k] by blast
  have pw1: "issued_password env (trace s) (pw_key_id (cr_password (set_current cs))) (pw_client_secret (cr_password (set_current cs))) (trace s')"
    using issued_password_append [OF issued_password_base [OF password_add_issues [OF steps(2) cur(3,4), unfolded n(1)]], of "n6 @ n5 @ n4 @ n3"]
    by (simp add: n(3-6))
  have pw2: "issued_password env (trace s) (pw_key_id (cr_password (set_next cs))) (pw_client_secret (cr_password (set_next cs))) (trace s')"
    using issued_password_append [OF issued_password_base [of env "n3 @ n2 @ n1" "trace s"], of _ _ "trace s4" "n6 @ n5"]
      password_add_issues [OF steps(4) nxt(3,4)] by (simp add: n(1-3,5,6))
  have key: "registered_key (trace s) (cert_key_id (cr_certificate cr)) (jwk_public_pem (cert_jwk (cr_certificate cr))) (trace s')"
    if "kc_key_id (akc_key_credential a) = Some (cert_key_id (cr_certificate cr))" "akc_jwk a = cert_jwk (cr_certificate cr)"
      "a \<in> {akcs_current keys, akcs_next keys}" for a cr
    using registered_key_base [of "n5 @ n4 @ n3 @ n2 @ n1" "trace s"] key_add_registers [OF k that(3,1)] that(2)
    by (simp add: n(1-5))
  show ?thesis
    using assms(2) pw1 pw2 key [OF cur(1,2)] key [OF nxt(1,2)] by (auto simp: issued_def)
qed

lemma password_rotate_issues:
  assumes "password_rotate env tx s = (Ok pw, s')" "pc_key_id pw = Some k" "pc_secret pw = Some p"
  shows "issued_password env (trace s) k p (trace s')"
proof -
  obtain app s1 revoked s2 s3 where a: "application_get env tx s = (Ok app, s1)"
    and r: "remove_passwords env app revoked s1 = (Ok (), s2)" and d: "delay env s2 = (Ok (), s3)"
    and p: "password_add env tx s3 = (Ok pw, s')"
    using assms(1) by (auto simp: password_rotate_def bnd_Ok_iff)
  have "emits (credential_request (\<lambda>_. True)) (remove_passwords env app revoked)" by (rule remove_passwords_emits) simp
  from grows [OF this r] obtain m where "trace s2 = m @ trace s1" .
  then obtain n where n: "trace s3 = n @ trace s"
    using key_grows(3) [OF a] credentials_grow(1) [OF d] by auto
  show ?thesis by (rule issued_password_base [OF password_add_issues [OF p assms(2,3), unfolded n]])
qed

lemma credentials_rotate_issues:
  assumes "credentials_rotate env tx s = (Ok cs, s')"
  shows "issued env (trace s) (set_next cs) (trace s')" "\<exists>l. latest_of tx = Some l \<and> set_current cs = set_next l"
proof -
  obtain s1 s2 s3 pw kc j l where d1: "delay env s = (Ok (), s1)" and p: "password_rotate env tx s1 = (Ok pw, s2)"
    and d2: "delay env s2 = (Ok (), s3)" and k: "key_credential_rotate env tx s3 = (Ok (kc, j), s')"
    and l: "latest_outcome tx = Ok l" "set_current cs = set_next l"
    and ids: "kc_key_id kc = Some (cert_key_id (cr_certificate (set_next cs)))" "j = cert_jwk (cr_certificate (set_next cs))"
      "pc_key_id pw = Some (pw_key_id (cr_password (set_next cs)))"
      "pc_secret pw = Some (pw_client_secret (cr_password (set_next cs)))"
    using assms by (auto simp: credentials_rotate_def bnd_Ok_iff)
  have "emits (credential_request (unprotected tx)) (password_rotate env tx)" by (rule password_rotate_emits)
  from grows [OF this p] obtain n2 where n2: "trace s2 = n2 @ trace s1" .
  obtain n1 n3 n4 where n: "trace s1 = n1 @ trace s" "trace s3 = n3 @ trace s2" "trace s' = n4 @ trace s3"
    using credentials_grow(1) [OF d1] credentials_grow(1) [OF d2] credentials_grow(4) [OF k] by blast
  have "issued_password env (trace s) (pw_key_id (cr_password (set_next cs))) (pw_client_secret (cr_password (set_next cs))) (trace s')"
    using issued_password_append [OF issued_password_base [OF password_rotate_issues [OF p ids(3,4), unfolded n(1)]], of "n4 @ n3"]
    by (simp add: n(2,3))
  moreover have "registered_key (trace s) (cert_key_id (cr_certificate (set_next cs))) (jwk_public_pem (cert_jwk (cr_certificate (set_next cs)))) (trace s')"
    using registered_key_base [of "n3 @ n2 @ n1" "trace s"] key_rotate_registers [OF k ids(1)] ids(2) by (simp add: n(1,2) n2)
  ultimately show "issued env (trace s) (set_next cs) (trace s')" by (simp add: issued_def)
  show "\<exists>l. latest_of tx = Some l \<and> set_current cs = set_next l" using l by (auto simp: latest_outcome_def)
qed

subsection \<open>What a secret is stored with\<close>

text \<open>
  \<open>backed env tx valid base cs h\<close>: both credentials of \<open>cs\<close> were registered after \<open>base\<close>, or belong to the
  latest set, which is \<open>valid\<close>. \<open>sound\<close> allows the requests that store a secret only with such a set.
\<close>

definition backed :: "env \<Rightarrow> transaction \<Rightarrow> bool \<Rightarrow> history \<Rightarrow> credentials_set \<Rightarrow> history \<Rightarrow> bool" where
  "backed env tx valid base cs h \<longleftrightarrow> (\<forall>cr \<in> {set_current cs, set_next cs}. issued env base cr h \<or>
     valid \<and> (\<exists>l. latest_of tx = Some l \<and> cr \<in> {set_current l, set_next l}))"

definition sound :: "env \<Rightarrow> transaction \<Rightarrow> bool \<Rightarrow> history \<Rightarrow> event \<Rightarrow> history \<Rightarrow> bool" where
  "sound env tx valid base e h \<longleftrightarrow> (\<forall>w. secret_of e = Some w \<longrightarrow> (\<exists>cs res data i x.
     secret_data (e_codec env) res cs (e_openid env) (txs_data_keys (tx_secrets tx)) = Ok data \<and>
     mutate_secret env i data x = Ok w \<and> backed env tx valid base cs h))"

lemma soundI:
  "secret_of e = Some w \<Longrightarrow> secret_data (e_codec env) res cs (e_openid env) (txs_data_keys (tx_secrets tx)) = Ok data \<Longrightarrow>
     mutate_secret env i data x = Ok w \<Longrightarrow> backed env tx valid base cs h \<Longrightarrow> sound env tx valid base e h"
  unfolding sound_def by (intro allI impI exI conjI) (assumption, simp_all)

lemma sound_spares: "emits spares m \<Longrightarrow> moves (extends (sound env tx valid base)) m"
  by (erule ext_emits) (simp add: sound_def)

lemma sound_none: "emits (\<lambda>e. secret_of e = None) m \<Longrightarrow> moves (extends (sound env tx valid base)) m"
  by (erule ext_emits) (simp add: sound_def)

lemma backed_append: "backed env tx valid base cs h \<Longrightarrow> backed env tx valid base cs (n @ h)"
  unfolding backed_def using issued_append by blast

lemma credential_request_stores_none: "credential_request unused e \<Longrightarrow> secret_of e = None"
  by (cases e rule: secret_of.cases) auto

lemma credentials_store_none:
  "emits (\<lambda>e. secret_of e = None) (azure_delete_expired_credentials env tx)"
  "emits (\<lambda>e. secret_of e = None) (azure_delete_unused_credentials env tx)"
  "emits (\<lambda>e. secret_of e = None) (azure_purge_credentials env tx)"
  "emits (\<lambda>e. secret_of e = None) (azure_add_credentials env tx)"
  "emits (\<lambda>e. secret_of e = None) (azure_rotate_credentials env tx)"
  unfolding azure_delete_expired_credentials_def azure_delete_unused_credentials_def
    azure_purge_credentials_def azure_add_credentials_def azure_rotate_credentials_def
  by (auto intro!: emits_intros report_event_emits credentials_emits [THEN emits_mono]
      dest: credential_request_stores_none)

lemma permits_call: "(\<And>ok. Q (req, ok) (trace s)) \<Longrightarrow> permits Q s (call req reply)"
  unfolding permits_def extends_def
  by (auto simp: call_def split: sum.splits)

lemma create_or_update_sound:
  assumes "backed env tx valid base cs (trace s)"
  shows "permits (sound env tx valid base) s (secrets_create_or_update env tx res cs)"
  unfolding secrets_create_or_update_def
proof (rule permits_bnd [OF permits_moves [OF sound_none [OF emits_instance_of]]], rule permits_bnd)
  fix i data and s1 s2 :: state
  assume i: "instance_of s = (Ok i, s1)"
    and d: "wrap ''creating secret data for secret'' (lift (secret_data (e_codec env) res cs (e_openid env) (txs_data_keys (tx_secrets tx)))) s1 = (Ok data, s2)"
  then have s2: "s2 = s" and d: "secret_data (e_codec env) res cs (e_openid env) (txs_data_keys (tx_secrets tx)) = Ok data"
    by (auto simp: ids_iff wrap_def lift_def split: outcome.splits)
  have store: "permits (sound env tx valid base) s3 (call (Kube q) (e_unit env))"
    if "q = CreateSecret w \<or> q = UpdateSecret w" "mutate_secret env i data x = Ok w" "trace s3 = n @ trace s" for q w x n and s3 :: state
    by (intro permits_call soundI [where w = w, OF _ d that(2)])
       (use that(1,3) backed_append [OF assms, of n] in auto)
  show "permits (sound env tx valid base) s2 (wrap ''creating or updating secret''
       (create_or_update_object env (new_secret i) (mutate_secret env i data)))"
    unfolding create_or_update_object_def s2
  proof (intro permits_wrap, rule permits_bnd)
    show "permits (sound env tx valid base) s (attempt (call (Kube (GetSecret (sec_namespace (new_secret i)) (sec_name (new_secret i)))) (e_secret env)))"
      by (intro permits_moves sound_none emits_intros) simp
    fix g and s3 :: state
    assume g: "attempt (call (Kube (GetSecret (sec_namespace (new_secret i)) (sec_name (new_secret i)))) (e_secret env)) s = (Ok g, s3)"
    have "emits (\<lambda>_. True) (attempt (call (Kube (GetSecret (sec_namespace (new_secret i)) (sec_name (new_secret i)))) (e_secret env)))"
      by (intro emits_intros) simp
    from grows [OF this g] obtain n where n: "trace s3 = n @ trace s" .
    show "permits (sound env tx valid base) s3 (case g of
       Inl e \<Rightarrow>
         if root_cause e = NotFound
         then bnd (lift (mutate_secret env i data (new_secret i))) (\<lambda>s'. call (Kube (CreateSecret s')) (e_unit env))
         else fail e
     | Inr existing \<Rightarrow>
         bnd (lift (mutate_secret env i data existing)) (\<lambda>s'.
           if s' = existing then ret () else call (Kube (UpdateSecret s')) (e_unit env)))"
      by (cases g) (auto intro!: permits_lift store [OF _ _ n] permits_moves [OF ext.ret] permits_moves [OF ext.fail])
  qed
qed (intro permits_moves ext.wrap ext.lift)

text \<open>The secrets reconciler; \<open>valid\<close> has to hold when the option Valid is left.\<close>

lemma azure_issues:
  "azure_add_credentials env tx s = (Ok (cs, ids), s1) \<Longrightarrow> backed env tx valid (trace s) cs (trace s1)"
  "azure_rotate_credentials env tx s = (Ok (cs, ids), s1) \<Longrightarrow> valid \<Longrightarrow> backed env tx valid (trace s) cs (trace s1)"
proof -
  show "backed env tx valid (trace s) cs (trace s1)" if "azure_add_credentials env tx s = (Ok (cs, ids), s1)"
    using credentials_add_issues that by (auto simp: azure_add_credentials_def bnd_Ok_iff backed_def)
  show "backed env tx valid (trace s) cs (trace s1)" if run: "azure_rotate_credentials env tx s = (Ok (cs, ids), s1)" and valid
  proof -
    obtain s0 where r: "credentials_rotate env tx s = (Ok cs, s0)"
      and e: "report_event env Normal RotatedInAzure ''Azure credentials is rotated'' s0 = (Ok (), s1)"
      using run by (auto simp: azure_rotate_credentials_def bnd_Ok_iff)
    obtain n where "trace s1 = n @ trace s0" using credentials_grow(5) [OF e] by blast
    then show ?thesis
      using credentials_rotate_issues [OF r] \<open>valid\<close> issued_append by (auto simp: backed_def)
  qed
qed

lemma backed_base: "backed env tx valid (n @ base) cs h \<Longrightarrow> backed env tx valid base cs h"
  unfolding backed_def using issued_base by blast

text \<open>The choice of the set to store.\<close>

abbreviation chosen :: "env \<Rightarrow> transaction \<Rightarrow> (credentials_set option \<times> key_id) prog" where
  "chosen env tx \<equiv>
     if \<not> opt_secret_valid (secret_opts tx)
     then bnd (wrap ''adding azure credentials'' (azure_add_credentials env tx)) (\<lambda>(cs, ids). ret (Some cs, ids))
     else if opt_secret_rotate (secret_opts tx)
     then bnd (wrap ''rotating azure credentials'' (azure_rotate_credentials env tx)) (\<lambda>(cs, ids). ret (Some cs, ids))
     else ret (latest_of tx, kids_used (txs_key_ids (tx_secrets tx)))"

lemma chosen_sound: "moves (extends (sound env tx valid base)) (chosen env tx)"
  by (auto intro!: ext.bnd ext.wrap ext.ret sound_none [OF credentials_store_none(4)]
      sound_none [OF credentials_store_none(5)] split: prod.split)

lemma chosen_backed:
  assumes "chosen env tx s = (Ok (Some cs, ids), s1)" "trace s = n @ base" "opt_secret_valid (secret_opts tx) \<Longrightarrow> valid"
  shows "backed env tx valid base cs (trace s1)"
proof (cases "opt_secret_valid (secret_opts tx)")
  case False
  then have "azure_add_credentials env tx s = (Ok (cs, ids), s1)" using assms(1) by (auto simp: bnd_Ok_iff)
  from azure_issues(1) [OF this] show ?thesis using backed_base assms(2) by metis
next
  case True
  note valid = assms(3) [OF this]
  show ?thesis
  proof (cases "opt_secret_rotate (secret_opts tx)")
    case rotate: True
    then have "azure_rotate_credentials env tx s = (Ok (cs, ids), s1)" using assms(1) True by (auto simp: bnd_Ok_iff)
    from azure_issues(2) [OF this valid] show ?thesis using backed_base assms(2) by metis
  next
    case False
    then have "latest_of tx = Some cs" using assms(1) True by auto
    then show ?thesis using valid by (auto simp: backed_def)
  qed
qed

lemma secrets_process_sound:
  assumes "trace s = n @ base" "opt_secret_valid (secret_opts tx) \<Longrightarrow> valid"
  shows "permits (sound env tx valid base) s (secrets_process env tx res)"
proof (cases "opt_secret_valid (secret_opts tx) \<and> \<not> opt_secret_rotate (secret_opts tx) \<and> is_not_modified res")
  case True
  then show ?thesis by (simp add: secrets_process_def permits_moves [OF ext.ret])
next
  case False
  let ?rest = "\<lambda>cs ids. bnd (lift (deref cs)) (\<lambda>cs.
        bnd (secrets_create_or_update env tx res cs) (\<lambda>_.
        if \<not> opt_secret_valid (secret_opts tx) \<or> opt_secret_rotate (secret_opts tx)
        then bnd (set_status (\<lambda>st. st\<lparr>status_certificate_key_ids := kid_certificate ids,
                                       status_password_key_ids := kid_password ids\<rparr>)) (\<lambda>_.
             bnd (now env) (\<lambda>t.
             set_status (\<lambda>st. st\<lparr>status_rotation_time := Some t\<rparr>)))
        else ret ()))"
  have eq: "secrets_process env tx res = bnd (chosen env tx) (\<lambda>(cs, ids). ?rest cs ids)"
    unfolding secrets_process_def using False by (rule if_not_P)
  have st: "moves (extends (sound env tx valid base)) (if b then bnd (set_status f) (\<lambda>_. bnd (now env) (\<lambda>t. set_status (g t))) else ret ())" for b f g
    by (intro sound_none emits_intros) (auto intro!: emits_intros)
  show ?thesis
    unfolding eq
  proof (rule permits_bnd [OF permits_moves [OF chosen_sound]])
    fix p and s1 :: state
    assume f: "chosen env tx s = (Ok p, s1)"
    obtain cs ids where p: "p = (cs, ids)" by (cases p)
    have store: "permits (sound env tx valid base) s1 (secrets_create_or_update env tx res cs')" if "deref cs = Ok cs'" for cs'
      using that by (intro create_or_update_sound chosen_backed [where ids = ids, OF _ assms]) (use f p in simp_all)
    show "permits (sound env tx valid base) s1 (case p of (cs, ids) \<Rightarrow> ?rest cs ids)"
      unfolding p prod.case by (intro permits_lift permits_bnd [OF store] permits_moves [OF st])
  qed
qed

subsection \<open>The rest of a reconciliation\<close>

lemma controller_process_sound:
  assumes "trace s = n @ base" "opt_secret_valid (secret_opts tx) \<Longrightarrow> valid"
  shows "permits (sound env tx valid base) s (controller_process env tx)"
  unfolding controller_process_def
proof (rule permits_bnd [OF permits_moves [OF sound_spares [OF azure_process_spares]]], rule permits_wrap)
  fix res s1
  assume "azure_process env tx s = (Ok res, s1)"
  from grows [OF azure_process_spares this] obtain m where "trace s1 = (m @ n) @ base" using assms(1) by auto
  from secrets_process_sound [OF this assms(2)]
  show "permits (sound env tx valid base) s1 (secrets_process env tx res)" .
qed

text \<open>Whether the latest credentials were found to be valid after \<open>base\<close>.\<close>

definition validated :: "env \<Rightarrow> transaction \<Rightarrow> history \<Rightarrow> bool" where
  "validated env tx base \<longleftrightarrow> (\<exists>n s1 s2. trace s1 = n @ base \<and> azure_validate_credentials env tx s1 = (Ok True, s2))"

lemma latest_with_invalid: "latest_of (with_invalid_credentials tx) = latest_of tx"
  by simp

lemma sound_with_invalid: "sound env (with_invalid_credentials tx) valid base = sound env tx valid base"
  by (intro ext) (simp add: sound_def backed_def)

lemma after_validation_sound:
  assumes "trace s = n @ base" "opt_secret_valid (secret_opts tx) \<Longrightarrow> valid"
  shows "permits (sound env tx valid base) s (after_validation env tx)"
proof -
  have h: "moves (extends (sound env tx valid base)) (handle_error env tx e)" for e
    by (rule sound_spares [OF handle_error_spares])
  let ?unused = "if opt_secret_cleanup (secret_opts tx) \<and> opt_secret_valid (secret_opts tx)
        then azure_delete_unused_credentials env tx else ret ()"
  have unused: "emits (\<lambda>e. secret_of e = None) ?unused"
    by (auto intro: credentials_store_none emits.ret)
  show ?thesis
    unfolding after_validation_def
  proof (rule permits_step [OF permits_moves [OF sound_spares [OF secrets_delete_unused_spares]] _ h],
      rule permits_step [OF permits_moves [OF sound_none [OF unused]] _ h])
    fix x y and s1 s2 :: state
    assume d: "secrets_delete_unused env tx s = (Ok x, s1)" and u: "?unused s1 = (Ok y, s2)"
    obtain m where m: "trace s2 = m @ base"
      using grows [OF secrets_delete_unused_spares d] grows [OF unused u] assms(1) by (metis append.assoc)
    show "permits (sound env tx valid base) s2 (if \<not> opt_synchronize (opt_process (tx_options tx)) then ret (idle_result env)
     else step env tx (controller_process env tx) (\<lambda>_. complete env tx))"
      by (auto intro!: permits_moves [OF ext.ret] permits_step [OF controller_process_sound [OF m assms(2)]] h
          permits_moves [OF sound_spares [OF complete_spares]])
  qed
qed

lemma reconcile_credentials_sound:
  assumes "trace s = n @ base"
  shows "permits (sound env tx (validated env tx base) base) s (reconcile_credentials env tx)"
proof -
  have h: "moves (extends (sound env tx (validated env tx base) base)) (handle_error env tx e)" for e
    by (rule sound_spares [OF handle_error_spares])
  show ?thesis
    unfolding reconcile_credentials_steps
  proof (rule permits_step [OF permits_moves [OF sound_none [OF credentials_store_none(1)]] _ h],
      rule permits_step [OF permits_moves [OF sound_spares [OF azure_validate_spares]] _ h])
    fix x valid and s1 s2 :: state
    assume d: "azure_delete_expired_credentials env tx s = (Ok x, s1)" and v: "azure_validate_credentials env tx s1 = (Ok valid, s2)"
    obtain n1 where n1: "trace s1 = n1 @ base"
      using grows [OF credentials_store_none(1) d] assms by (metis append.assoc)
    obtain n2 where n2: "trace s2 = n2 @ base"
      using grows [OF azure_validate_spares v] n1 by (metis append.assoc)
    show "permits (sound env tx (validated env tx base) base) s2 (after_validation env (if valid then tx else with_invalid_credentials tx))"
    proof (cases valid)
      case True
      then have "validated env tx base" using n1 v unfolding validated_def by auto
      then show ?thesis using True after_validation_sound [OF n2, of tx] by simp
    next
      case False
      have "permits (sound env (with_invalid_credentials tx) (validated env tx base) base) s2 (after_validation env (with_invalid_credentials tx))"
        by (rule after_validation_sound [OF n2]) simp
      then show ?thesis using False by (simp add: sound_with_invalid)
    qed
  qed
qed

lemma finalizer_stores_none: "emits (\<lambda>e. secret_of e = None) (finalizer_process env tx)"
  unfolding finalizer_process_def finalizer_finalize_def finalizer_register_def Let_def
  by (auto intro!: emits_intros update_application_emits report_event_emits credentials_store_none(3)
      emits_mono [OF azure_delete_spares(1)])

lemma reconcile_sound:
  assumes "reconcile env namespace name s = (r, s')" "trace s' = later @ e # earlier @ trace s" "\<not> spares e"
  obtains tx s1 where "prepare env namespace name s = (Ok tx, s1)"
    "sound env tx (validated env tx (trace s1)) (trace s1) e (earlier @ trace s)"
proof -
  have spared: False if "emits_rel spares s s'"
    using that assms(2,3) by (auto simp: emits_rel_def)
  show thesis
    using assms(1)
  proof (cases rule: reconcile_cases)
    case unprepared
    have "emits_rel spares s s'"
      using movesD [OF prepare_spares [of env namespace name] prod.collapse [symmetric], of s] unprepared by simp
    then show thesis using spared by simp
  next
    case (ignored tx s1)
    have "emits spares (step env tx (wrap ''processing orphaned resources'' (azure_process_orphaned env tx)) (\<lambda>_. ret no_requeue))"
      by (intro step_emits emits.wrap emits.ret azure_delete_spares(2) handle_error_spares)
    from emits.trans [OF movesD [OF prepare_spares ignored(1)] movesD [OF this ignored(3)]]
    show thesis using spared by simp
  next
    case (addressed tx s1)
    let ?Q = "sound env tx (validated env tx (trace s1)) (trace s1)"
    have "permits ?Q s1 (step env tx (finalizer_process env tx)
         (\<lambda>processed. if processed then ret no_requeue else reconcile_credentials env tx))"
    proof (rule permits_step [OF permits_moves [OF sound_none [OF finalizer_stores_none]] _ sound_spares [OF handle_error_spares]])
      fix processed s2
      assume "finalizer_process env tx s1 = (Ok processed, s2)"
      from grows [OF finalizer_stores_none this] obtain n where n: "trace s2 = n @ trace s1" .
      show "permits ?Q s2 (if processed then ret no_requeue else reconcile_credentials env tx)"
        by (auto intro: permits_moves [OF ext.ret] reconcile_credentials_sound [OF n])
    qed
    then have "extends ?Q s1 s'" using addressed(3) by (simp add: permits_def)
    then have "extends ?Q s s'"
      by (rule ext.trans [OF movesD [OF sound_spares [OF prepare_spares] addressed(1)]])
    from that [OF addressed(1) extends_at [OF this assms(2)]] show thesis .
  qed
qed

subsection \<open>How many passwords are requested\<close>

fun issues :: "event \<Rightarrow> bool" where
  "issues (Graph (AddPassword i c), ok) = True"
| "issues e = False"

abbreviation unissuing :: "event \<Rightarrow> bool" where
  "unissuing e \<equiv> \<not> issues e"

lemma unissuing_class: "reads e \<Longrightarrow> unissuing e" "maintains e \<Longrightarrow> unissuing e" "registers e \<Longrightarrow> unissuing e"
proof -
  show m: "maintains e \<Longrightarrow> unissuing e" for e by (cases e rule: issues.cases) simp_all
  show "reads e \<Longrightarrow> unissuing e" using m maintains_reads by blast
  show "registers e \<Longrightarrow> unissuing e" using m [of e] by (cases e rule: registers.cases) (simp_all del: maintains.simps)
qed

lemma unissuing_of:
  "emits reads m \<Longrightarrow> emits unissuing m" "emits maintains m \<Longrightarrow> emits unissuing m" "emits registers m \<Longrightarrow> emits unissuing m"
  by (erule emits_mono, rule unissuing_class, assumption)+

lemma unissuing_parts:
  "emits unissuing (handle_error env tx e)" "emits unissuing (prepare env namespace name)"
  "emits unissuing (azure_process env tx)" "emits unissuing (secrets_create_or_update env tx res cs)"
  "emits unissuing (secrets_delete_unused env tx)" "emits unissuing (complete env tx)"
  "emits unissuing (azure_delete env tx)" "emits unissuing (azure_process_orphaned env tx)"
  unfolding handle_error_def is_unrecoverable_error_def
    prepare_def get_or_generate_correlation_id_def secrets_prepare_def get_managed_secrets_def
    azure_exists_def client_exists_def update_with_application_ids_def update_with_service_principal_id_def
    azure_process_def azure_create_def azure_update_def azure_not_modified_def
    get_pre_authorized_apps_def report_pre_authorized_status_def
    secrets_create_or_update_def create_or_update_object_def
    complete_def update_status_def update_annotations_def secrets_delete_unused_def
    azure_process_orphaned_def azure_delete_def client_delete_def application_delete_def Let_def
  by (auto intro!: emits_intros emits_set_inst report_event_emits update_application_emits
      unissuing_of(1) [OF application_get_reads(4)] unissuing_of(2) [OF get_service_principal_emits]
      client_create_emits [THEN unissuing_of(3)] client_update_emits [THEN unissuing_of(2)]
      pre_auth_reads [THEN unissuing_of(1)] split: cause.split option.split sum.split)

lemma unissuing_credentials:
  "emits unissuing (azure_delete_expired_credentials env tx)" "emits unissuing (azure_delete_unused_credentials env tx)"
  "emits unissuing (azure_validate_credentials env tx)" "emits unissuing (azure_purge_credentials env tx)"
  "emits unissuing (key_credential_add env tx)" "emits unissuing (key_credential_rotate env tx)"
  "emits unissuing (remove_passwords env app cs)" "emits unissuing (delay env)"
proof -
  have get: "emits unissuing (application_get env tx)" by (rule unissuing_of(1) [OF application_get_reads(2)])
  have idle: "emits unissuing (key_credential_new env tx)"
    unfolding key_credential_new_def generate_jwk_def new_rsa_key_pair_def certificate_template_def
      generate_certificate_def to_key_credential_def
    by (auto intro!: emits_intros)
  have patch: "emits unissuing (application_patch env i p)" for i p by (rule application_patch_emits) simp
  have remove: "emits unissuing (password_remove env i k)" for i k
    unfolding password_remove_def delay_def by (auto intro!: emits_intros split: sum.split)
  note defs = azure_delete_expired_credentials_def credentials_delete_expired_def key_credential_delete_expired_def
    keep_unexpired_def password_delete_expired_def remove_if_expired_def azure_delete_unused_credentials_def
    credentials_delete_unused_def key_credential_delete_unused_def filter_revoked_keys_def password_delete_unused_def
    azure_validate_credentials_def credentials_validate_def password_validate_def key_credential_validate_def validate_step_def
    azure_purge_credentials_def credentials_purge_def password_purge_def key_credential_purge_def
    key_credential_add_def key_credential_rotate_def remove_passwords_def delay_def
  show "emits unissuing (azure_delete_expired_credentials env tx)" "emits unissuing (azure_delete_unused_credentials env tx)"
    "emits unissuing (azure_validate_credentials env tx)" "emits unissuing (azure_purge_credentials env tx)"
    "emits unissuing (key_credential_add env tx)" "emits unissuing (key_credential_rotate env tx)"
    "emits unissuing (remove_passwords env app cs)" "emits unissuing (delay env)"
    unfolding defs by (auto intro!: emits_intros get idle patch remove split: prod.split)
qed

lemma finalizer_unissuing: "emits unissuing (finalizer_process env tx)"
  unfolding finalizer_process_def finalizer_finalize_def finalizer_register_def Let_def
  by (auto intro!: emits_intros update_application_emits report_event_emits unissuing_credentials(4) unissuing_parts(7))

lemma sends_pure:
  "sends P 0 (lift r)" "sends P 0 (ret x)" "sends P 0 object_id_of" "sends P 0 (set_status f)"
  by (rule sends_none, intro emits_intros)+

lemma password_requests:
  "sends issues 1 (password_add env tx)" "sends issues 1 (password_rotate env tx)"
proof -
  have req: "sends issues 0 (to_add_request env)"
    unfolding to_add_request_def by (rule sends_none) (auto intro!: emits_intros)
  have get: "sends issues 0 (application_get env tx)"
    by (rule sends_none, rule unissuing_of(1), rule application_get_reads(2))
  show add: "sends issues 1 (password_add env tx)"
    unfolding password_add_def by (intro sends_bnd_last req sends_pure sends_wrap sends_call)
  show "sends issues 1 (password_rotate env tx)"
    unfolding password_rotate_def
    by (intro sends_bnd_last get sends_pure sends_none [OF unissuing_credentials(7)] sends_none [OF unissuing_credentials(8)] add)
qed

lemma credentials_requests:
  "sends issues 2 (azure_add_credentials env tx)" "sends issues 1 (azure_rotate_credentials env tx)"
proof -
  note delay = sends_none [OF unissuing_credentials(8)]
  have rest: "sends issues 0 (bnd (wrap msg (key_credential_add env tx)) f)" if "\<And>x. emits unissuing (f x)"
    for msg and f :: "_ \<Rightarrow> credentials_set prog"
    by (intro sends_none emits.bnd emits.wrap unissuing_credentials(5) that)
  have "sends issues (1 + 1) (credentials_add env tx)"
    unfolding credentials_add_def
    by (rule sends_bnd_last [OF delay], rule sends_bnd [OF sends_wrap [OF password_requests(1)]],
        rule sends_bnd_last [OF delay], rule sends_bnd_first [OF sends_wrap [OF password_requests(1)]],
        rule sends_bnd_last [OF delay], rule rest) (auto intro!: emits_intros)
  then have add: "sends issues 2 (credentials_add env tx)" by (simp add: numeral_2_eq_2)
  show "sends issues 2 (azure_add_credentials env tx)"
    unfolding azure_add_credentials_def by (rule sends_bnd_first [OF add sends_pure(2)])
  have key: "emits unissuing (bnd delay' (\<lambda>_. bnd (wrap msg (key_credential_rotate env tx)) f))"
    if "emits unissuing delay'" "\<And>x. emits unissuing (f x)" for delay' :: "unit prog" and msg and f :: "_ \<Rightarrow> credentials_set prog"
    by (intro emits.bnd emits.wrap unissuing_credentials(6) that)
  have "sends issues 1 (credentials_rotate env tx)"
    unfolding credentials_rotate_def
    by (rule sends_bnd_last [OF delay], rule sends_bnd_first [OF sends_wrap [OF password_requests(2)]],
        rule sends_none, rule key [OF unissuing_credentials(8)]) (auto intro!: emits_intros split: prod.split)
  then show "sends issues 1 (azure_rotate_credentials env tx)"
    unfolding azure_rotate_credentials_def
    by (rule sends_bnd_first) (auto intro!: sends_none emits_intros report_event_emits)
qed

text \<open>The secrets reconciler only requests passwords when they are missing or to be rotated.\<close>

lemma secrets_process_requests:
  "sends issues 2 (secrets_process env tx res)"
  "opt_secret_valid (secret_opts tx) \<Longrightarrow> \<not> opt_secret_rotate (secret_opts tx) \<Longrightarrow> emits unissuing (secrets_process env tx res)"
proof -
  have pair: "sends issues 2 (bnd m (\<lambda>(cs, ids). ret (Some cs, ids)))" if "sends issues 2 m"
    for m :: "(credentials_set \<times> key_id) prog"
    by (rule sends_bnd_first [OF that]) (auto intro: sends_pure split: prod.split)
  have chosen: "sends issues 2 (chosen env tx)"
    by (intro sends_if pair sends_wrap credentials_requests(1) sends_mono [OF credentials_requests(2)]
        sends_mono [OF sends_pure(2)]) simp_all
  show "sends issues 2 (secrets_process env tx res)"
    unfolding secrets_process_def
    by (rule sends_if [OF sends_mono [OF sends_pure(2)] sends_bnd_first [OF chosen sends_none]])
       (auto intro!: emits_intros unissuing_parts(4) split: prod.split)
  show "emits unissuing (secrets_process env tx res)"
    if "opt_secret_valid (secret_opts tx)" "\<not> opt_secret_rotate (secret_opts tx)"
    unfolding secrets_process_def using that by (auto intro!: emits_intros unissuing_parts(4))
qed

lemma after_validation_requests:
  "sends issues 2 (after_validation env tx)"
  "opt_secret_valid (secret_opts tx) \<Longrightarrow> \<not> opt_secret_rotate (secret_opts tx) \<Longrightarrow> emits unissuing (after_validation env tx)"
proof -
  have process: "sends issues 2 (controller_process env tx)"
    unfolding controller_process_def
    by (intro sends_bnd_last sends_none [OF unissuing_parts(3)] sends_wrap secrets_process_requests(1))
  have last: "sends issues 2 (step env tx (controller_process env tx) (\<lambda>_. complete env tx))"
    by (intro sends_step_first process sends_none [OF unissuing_parts(1)] sends_none [OF unissuing_parts(6)])
  show "sends issues 2 (after_validation env tx)"
    unfolding after_validation_def
    by (intro sends_step sends_if last sends_none [OF unissuing_parts(5)] sends_none [OF unissuing_parts(1)]
        sends_none [OF unissuing_credentials(2)] sends_pure(2) sends_any [OF emits.ret])
  show "emits unissuing (after_validation env tx)"
    if "opt_secret_valid (secret_opts tx)" "\<not> opt_secret_rotate (secret_opts tx)"
    unfolding after_validation_def controller_process_def
    by (auto intro!: step_emits emits_intros unissuing_parts unissuing_credentials(2) secrets_process_requests(2) that)
qed

lemma unissuing_count: "emits unissuing m \<Longrightarrow> m s = (r, s') \<Longrightarrow> count issues s' \<le> count issues s"
  using sendsD [OF sends_none] by fastforce

text \<open>The steps after the finalizer, and what it takes for them to request a password.\<close>

lemma reconcile_credentials_requests:
  assumes "reconcile_credentials env tx s = (r, s')"
  shows "count issues s' \<le> count issues s + 2"
    "count issues s < count issues s' \<Longrightarrow> opt_secret_rotate (secret_opts tx) \<or>
       (\<exists>n s1 s2. trace s1 = n @ trace s \<and> azure_validate_credentials env tx s1 = (Ok False, s2))"
proof -
  have bound: "sends issues 2 (reconcile_credentials env tx)"
    unfolding reconcile_credentials_steps
    by (intro sends_step sends_none [OF unissuing_credentials(1)] sends_none [OF unissuing_credentials(3)]
        sends_none [OF unissuing_parts(1)] after_validation_requests(1))
  show "count issues s' \<le> count issues s + 2" by (rule sendsD [OF bound assms])
  assume more: "count issues s < count issues s'"
  show "opt_secret_rotate (secret_opts tx) \<or>
       (\<exists>n s1 s2. trace s1 = n @ trace s \<and> azure_validate_credentials env tx s1 = (Ok False, s2))"
    using assms [unfolded reconcile_credentials_steps]
  proof (cases rule: step_cases)
    case (Ok u s1)
    have c1: "count issues s1 \<le> count issues s" by (rule unissuing_count [OF unissuing_credentials(1) Ok(1)])
    obtain n where n: "trace s1 = n @ trace s" by (rule grows [OF unissuing_credentials(1) Ok(1)])
    show ?thesis
      using Ok(2)
    proof (cases rule: step_cases)
      case (Ok valid s2)
      have c2: "count issues s2 \<le> count issues s1" by (rule unissuing_count [OF unissuing_credentials(3) Ok(1)])
      show ?thesis
      proof (cases "valid \<and> \<not> opt_secret_rotate (secret_opts tx)")
        case True
        have "opt_secret_valid (secret_opts tx)"
          using Ok(1) True by (auto simp: azure_validate_credentials_def ret_def split: if_splits)
        from unissuing_count [OF after_validation_requests(2) [OF this], of env s2 r s'] show ?thesis
          using True Ok(2) c1 c2 more by simp
      next
        case False
        then show ?thesis using Ok(1) n by (cases valid) auto
      qed
    next
      case (Err e s2)
      then show ?thesis
        using more c1 unissuing_count [OF unissuing_credentials(3) Err(1)] unissuing_count [OF unissuing_parts(1) Err(2)] by simp
    next
      case (Panic s2)
      then show ?thesis using more c1 unissuing_count [OF unissuing_credentials(3) Panic(1)] by simp
    qed
  next
    case (Err e s1)
    then show ?thesis
      using more unissuing_count [OF unissuing_credentials(1) Err(1)] unissuing_count [OF unissuing_parts(1) Err(2)] by simp
  next
    case (Panic s1)
    then show ?thesis using more unissuing_count [OF unissuing_credentials(1) Panic(1)] by simp
  qed
qed

subsection \<open>A secret that is stored\<close>

lemma stored_sends:
  assumes "\<not> opt_secret_valid (secret_opts tx)"
  shows "list_ex (\<lambda>e. secret_of e \<noteq> None) (trace (stored tx res s))" "list_ex issues (trace (stored tx res s))"
  using assms by (simp_all add: stored_def runs renamed_env_def quiet_codec_runs Let_def remove_duplicates_def
      mutate_secret_def new_secret_def out_of_sum_def not_found_def IaCAppTag_def LegacyIaCAppTag_def cong: eval_congs)

lemma complete_keeps: "list_ex P (trace s) \<Longrightarrow> list_ex P (trace (snd (complete env tx s)))"
  using movesD [OF complete_spares, of env tx s "fst (complete env tx s)" "snd (complete env tx s)"]
  by (auto simp: emits_rel_def)

lemma renamed_sends:
  assumes "\<And>tx res s. \<not> opt_secret_valid (secret_opts tx) \<Longrightarrow> list_ex P (trace (stored tx res s))"
  shows "\<exists>e \<in> set (trace (snd (reconcile renamed_env ''ns'' ''app'' start_state))). P e"
proof -
  have "list_ex P (trace (snd (reconcile renamed_env ''ns'' ''app'' start_state)))"
    by (simp add: runs reconcile_evals renamed_simps stored assms complete_keeps
        with_invalid_credentials_def Let_def remove_duplicates_def
        assignments_service_principals_def assignments_filter_by_type_def assignments_groups_def
        split_assigned_def self_resource_def pre_auth_has_resource_def is_modified_def is_created_def is_updated_def
        del: reconcilers_runs(22) controller_runs(8) cong: eval_congs)
  then show ?thesis by (simp only: list_ex_iff)
qed

subsection \<open>Properties\<close>





end
