(* ===== verification/ClientInterface.thy ===== *)
theory ClientInterface
  imports Reconcilers
begin

text \<open>
  What the reconcilers rely on when they call a client: the interfaces \<open>Client\<close> and
  \<open>Credentials\<close> of pkg/azure/client.go as locales, with the client of AzureClient as an instance.
\<close>

subsection \<open>Credentials\<close>

locale azure_credentials =
  fixes add rotation :: "transaction \<Rightarrow> credentials_set prog"
    and delete_expired delete_unused purge :: "transaction \<Rightarrow> unit prog"
    and validate :: "transaction \<Rightarrow> credentials_set \<Rightarrow> bool prog"
  assumes rotate_promotes:
      "rotation tx s = (Ok cs, s') \<Longrightarrow> \<exists>latest. latest_of tx = Some latest \<and> set_current cs = set_next latest"
    and keeps_instance:
      "moves same_inst (add tx)" "moves same_inst (rotation tx)" "moves same_inst (delete_expired tx)"
      "moves same_inst (delete_unused tx)" "moves same_inst (purge tx)" "moves same_inst (validate tx cs)"
begin

lemma rotate_needs_latest: "latest_of tx = None \<Longrightarrow> fst (rotation tx s) \<noteq> Ok cs"
  using rotate_promotes [of tx s cs "snd (rotation tx s)"] by (cases "rotation tx s") auto

end

interpretation real_credentials: azure_credentials
  "credentials_add env" "credentials_rotate env" "credentials_delete_expired env"
  "credentials_delete_unused env" "credentials_purge env" "credentials_validate env"
  for env
proof
  show "\<exists>latest. latest_of tx = Some latest \<and> set_current cs = set_next latest"
    if "credentials_rotate env tx s = (Ok cs, s')" for tx s cs s'
    using that by (auto simp: credentials_rotate_def latest_outcome_def bnd_Ok_iff split: prod.splits)
qed (rule credentials_same)+

subsection \<open>The client\<close>

locale azure_client =
  azure_credentials add rotation delete_expired delete_unused purge validate
  for add rotation delete_expired delete_unused purge validate +
  fixes create update :: "transaction \<Rightarrow> application_result prog"
    and delete :: "transaction \<Rightarrow> unit prog"
    and exists :: "transaction \<Rightarrow> graph_application option prog"
    and pre_authorized_apps :: "transaction \<Rightarrow> pre_authorized_apps prog"
  assumes created: "create tx s = (Ok res, s') \<Longrightarrow> is_created res"
    and updated: "update tx s = (Ok res, s') \<Longrightarrow> is_updated res"
    and updated_ids:
      "update tx s = (Ok res, s') \<Longrightarrow> st = app_status (inst s) \<Longrightarrow>
       (status_client_id st \<noteq> [] \<longrightarrow> ares_client_id res = status_client_id st) \<and>
       (status_object_id st \<noteq> [] \<longrightarrow> ares_object_id res = status_object_id st) \<and>
       (status_sp_id st \<noteq> [] \<longrightarrow> ares_sp_id res = status_sp_id st)"
    and frame: "moves frame_rel (create tx)"
    and same: "moves same_inst (update tx)" "moves same_inst (delete tx)" "moves same_inst (exists tx)"
      "moves same_inst (pre_authorized_apps tx)"
begin

text \<open>The three ways of processing an application: which one was taken is seen from the result.\<close>

lemma processed:
  assumes "(if \<not> found then bnd (wrap a (create tx)) k
    else if needed then bnd (wrap b (update tx)) k' else idle) s = (Ok res, s')"
    and "\<And>x s s'. k x s = (Ok res, s') \<Longrightarrow> x = res" "\<And>x s s'. k' x s = (Ok res, s') \<Longrightarrow> x = res"
    and "\<And>s s'. idle s = (Ok res, s') \<Longrightarrow> is_not_modified res"
  shows "(is_created res \<longleftrightarrow> \<not> found) \<and> (is_updated res \<longleftrightarrow> found \<and> needed) \<and>
    (is_modified res \<longleftrightarrow> \<not> found \<or> needed)"
proof (cases found)
  case False
  then obtain x s1 where "create tx s = (Ok x, s1)" "k x s1 = (Ok res, s')"
    using assms(1) by (auto simp: bnd_Ok_iff)
  then have "is_created res" using created assms(2) by metis
  then show ?thesis using False by (simp add: is_modified_def is_created_def is_updated_def)
next
  case True
  show ?thesis
  proof (cases needed)
    case True
    then obtain x s1 where "update tx s = (Ok x, s1)" "k' x s1 = (Ok res, s')"
      using assms(1) \<open>found\<close> by (auto simp: bnd_Ok_iff)
    then have "is_updated res" using updated assms(3) by metis
    then show ?thesis
      using True \<open>found\<close> by (simp add: is_modified_def is_created_def is_updated_def)
  next
    case False
    then have "is_not_modified res" using assms(1,4) True by simp
    then show ?thesis
      using False True by (simp add: is_modified_def is_created_def is_updated_def is_not_modified_def)
  qed
qed

end

interpretation real_client: azure_client
  "credentials_add env" "credentials_rotate env" "credentials_delete_expired env"
  "credentials_delete_unused env" "credentials_purge env" "credentials_validate env"
  "client_create env" "client_update env" "client_delete env" "client_exists env" "get_pre_authorized_apps env"
  for env
proof
  fix tx s res s' st
  show "client_create env tx s = (Ok res, s') \<Longrightarrow> is_created res"
    by (auto simp: client_create_def Let_def bnd_Ok_iff is_created_def)
  show "client_update env tx s = (Ok res, s') \<Longrightarrow> is_updated res"
    by (auto simp: client_update_def bnd_Ok_iff is_updated_def)
  show "client_update env tx s = (Ok res, s') \<Longrightarrow> st = app_status (inst s) \<Longrightarrow>
       (status_client_id st \<noteq> [] \<longrightarrow> ares_client_id res = status_client_id st) \<and>
       (status_object_id st \<noteq> [] \<longrightarrow> ares_object_id res = status_object_id st) \<and>
       (status_sp_id st \<noteq> [] \<longrightarrow> ares_sp_id res = status_sp_id st)"
    by (auto simp: client_update_def bnd_Ok_iff ids_iff)
  show "moves same_inst (client_exists env tx)" "moves same_inst (get_pre_authorized_apps env tx)"
    unfolding client_exists_def get_pre_authorized_apps_def by (intro emits_rules)+
qed (rule client_create_frame client_update_same client_delete_same)+

text \<open>What the Azure reconciler reports: a created application, an updated one, or neither.\<close>

lemma azure_process_operation:
  assumes "azure_process env tx s = (Ok res, s')"
  shows "(is_created res \<longleftrightarrow> \<not> tx_exists_in_azure tx) \<and>
    (is_updated res \<longleftrightarrow> tx_exists_in_azure tx \<and> opt_azure_synchronize (opt_azure (opt_process (tx_options tx)))) \<and>
    (is_modified res \<longleftrightarrow> \<not> tx_exists_in_azure tx \<or> opt_azure_synchronize (opt_azure (opt_process (tx_options tx))))"
proof -
  obtain s1 where "(if \<not> tx_exists_in_azure tx then azure_create env tx
       else if opt_azure_synchronize (opt_azure (opt_process (tx_options tx))) then azure_update env tx
       else azure_not_modified env tx) s = (Ok res, s1)"
    using assms by (auto simp: azure_process_def bnd_Ok_iff)
  then show ?thesis
    unfolding azure_create_def azure_update_def
    by (rule real_client.processed) (auto simp: bnd_Ok_iff azure_not_modified_def is_not_modified_def)
qed

end
