(* ===== verification/FakeClient.thy ===== *)
theory FakeClient
  imports ClientInterface CredentialProperties
begin

text \<open>
  The client the tests run the reconcilers against: pkg/azure/fake and its packages \<open>client\<close> and
  \<open>msgraph\<close>. It sends no requests and draws the identifiers it needs. \<open>uuid.NewSHA1\<close> in the OID
  namespace is a parameter: a function of the name. Display names of service principals, which
  nothing reads, are left out.
\<close>

subsection \<open>application.go\<close>

definition new_uuid :: "env \<Rightarrow> string prog" where
  "new_uuid env = bnd (draw_uuids env) (\<lambda>fresh. ret (fresh 0))"

definition get_or_generate :: "env \<Rightarrow> string \<Rightarrow> string prog" where
  "get_or_generate env field = (if length field > 0 then ret field else new_uuid env)"

definition client_id_for_rule :: "env \<Rightarrow> (string \<Rightarrow> string) \<Rightarrow> access_policy_rule \<Rightarrow> client_id" where
  "client_id_for_rule env name_uuid rule = name_uuid (get_unique_name (e_urn env) rule)"

definition map_to_internal_pre_auth_app ::
  "env \<Rightarrow> (string \<Rightarrow> string) \<Rightarrow> inbound_rule \<Rightarrow> resource prog" where
  "map_to_internal_pre_auth_app env name_uuid app =
     bnd (new_uuid env) (\<lambda>object_id.
     bnd (get_or_generate env (e_urn env (rule_application (in_rule app)) (rule_namespace (in_rule app))
            (rule_cluster (in_rule app)))) (\<lambda>name.
     ret \<lparr>res_name = name, res_client_id = client_id_for_rule env name_uuid (in_rule app),
          res_object_id = object_id, res_principal_type = PrincipalTypeServicePrincipal, res_rule = app\<rparr>))"

definition map_to_internal_pre_auth_apps ::
  "env \<Rightarrow> (string \<Rightarrow> string) \<Rightarrow> inbound_rule list \<Rightarrow> pre_authorized_apps prog" where
  "map_to_internal_pre_auth_apps env name_uuid apps =
     fold_io (\<lambda>app acc.
       bnd (map_to_internal_pre_auth_app env name_uuid app) (\<lambda>re.
       ret (if str_contains (get_unique_name (e_urn env) (in_rule app)) ''invalid''
            then acc\<lparr>paa_invalid := paa_invalid acc @ [re]\<rparr>
            else acc\<lparr>paa_valid := paa_valid acc @ [re]\<rparr>)))
       apps \<lparr>paa_valid = [], paa_invalid = []\<rparr>"

definition azure_pre_authorized_apps ::
  "env \<Rightarrow> (string \<Rightarrow> string) \<Rightarrow> azure_ad_application \<Rightarrow> pre_authorized_apps prog" where
  "azure_pre_authorized_apps env name_uuid i =
     map_to_internal_pre_auth_apps env name_uuid (spec_pre_authorized_applications (app_spec i))"

definition azure_application_result ::
  "env \<Rightarrow> (string \<Rightarrow> string) \<Rightarrow> operation \<Rightarrow> application_result prog" where
  "azure_application_result env name_uuid operation =
     bnd instance_of (\<lambda>i.
     bnd (get_or_generate env (status_object_id (app_status i))) (\<lambda>object_id.
     bnd (get_or_generate env (status_client_id (app_status i))) (\<lambda>client_id.
     bnd (get_or_generate env (status_sp_id (app_status i))) (\<lambda>sp_id.
     bnd (new_uuid env) (\<lambda>tenant.
     bnd (map_to_internal_pre_auth_apps env name_uuid (spec_pre_authorized_applications (app_spec i))) (\<lambda>apps.
     ret \<lparr>ares_client_id = client_id, ares_object_id = object_id, ares_sp_id = sp_id,
          ares_permissions = [], ares_pre_authorized_apps = apps, ares_tenant = tenant,
          ares_result = operation\<rparr>))))))"

text \<open>An error of the key generation is a panic.\<close>

definition must_generate_jwk :: "env \<Rightarrow> azure_ad_application \<Rightarrow> string \<Rightarrow> jwk prog" where
  "must_generate_jwk env i cluster = catch (generate_jwk env i cluster) (\<lambda>e. lift Panic)"

definition fake_credentials :: "env \<Rightarrow> jwk \<Rightarrow> credentials prog" where
  "fake_credentials env j =
     bnd (new_uuid env) (\<lambda>key_id.
     bnd (new_uuid env) (\<lambda>password_id.
     bnd (new_uuid env) (\<lambda>client_secret.
     ret \<lparr>cr_certificate = \<lparr>cert_key_id = key_id, cert_jwk = j\<rparr>,
          cr_password = \<lparr>pw_key_id = password_id, pw_client_secret = client_secret\<rparr>\<rparr>)))"

definition azure_credentials_set :: "env \<Rightarrow> string \<Rightarrow> credentials_set prog" where
  "azure_credentials_set env cluster =
     bnd instance_of (\<lambda>i.
     bnd (must_generate_jwk env i cluster) (\<lambda>cur_jwk.
     bnd (must_generate_jwk env i cluster) (\<lambda>next_jwk.
     bnd (fake_credentials env cur_jwk) (\<lambda>cur.
     bnd (fake_credentials env next_jwk) (\<lambda>nxt.
     ret \<lparr>set_current = cur, set_next = nxt\<rparr>)))))"

subsection \<open>msgraph\<close>

definition fake_application :: "env \<Rightarrow> transaction \<Rightarrow> graph_application prog" where
  "fake_application env tx =
     bnd instance_of (\<lambda>i.
     bnd (get_or_generate env (status_object_id (app_status i))) (\<lambda>object_id.
     bnd (get_or_generate env (status_client_id (app_status i))) (\<lambda>client_id.
     ret (zero_application\<lparr>ga_id := Some object_id, ga_display_name := Some (tx_urn tx),
            ga_app_id := Some client_id\<rparr>))))"

definition fake_service_principal :: "env \<Rightarrow> service_principal prog" where
  "fake_service_principal env =
     bnd (new_uuid env) (\<lambda>i.
     ret \<lparr>sp_id = Some i, sp_app_id = None, sp_assignment_required = None, sp_tags = []\<rparr>)"

text \<open>azureopenidconfig.go\<close>

definition fake_openid_config :: openid_config where
  "fake_openid_config =
     \<lparr>oid_issuer = ''https://azure-issuer/'', oid_token_endpoint = ''https://azure-issuer/token'',
      oid_jwks_uri = ''https://azure-issuer/keys'',
      oid_well_known = ''https://azure-issuer/.well-known/openid-configuration''\<rparr>"

subsection \<open>client.go\<close>

definition ApplicationExists :: string where "ApplicationExists = ''exists-in-azure''"

definition fake_create :: "env \<Rightarrow> (string \<Rightarrow> string) \<Rightarrow> transaction \<Rightarrow> application_result prog" where
  "fake_create env name_uuid tx = azure_application_result env name_uuid OperationCreated"

definition fake_update :: "env \<Rightarrow> (string \<Rightarrow> string) \<Rightarrow> transaction \<Rightarrow> application_result prog" where
  "fake_update env name_uuid tx = azure_application_result env name_uuid OperationUpdated"

definition fake_delete :: "transaction \<Rightarrow> unit prog" where
  "fake_delete tx = ret ()"

definition fake_exists :: "env \<Rightarrow> transaction \<Rightarrow> graph_application option prog" where
  "fake_exists env tx =
     bnd instance_of (\<lambda>i.
     let app_exists = (app_name i = ApplicationExists);
         valid_status = (length (status_object_id (app_status i)) > 0 \<and>
                         length (status_client_id (app_status i)) > 0)
     in if app_exists \<or> valid_status
        then bnd (fake_application env tx) (\<lambda>app. ret (Some app)) else ret None)"

definition fake_get :: "env \<Rightarrow> transaction \<Rightarrow> graph_application prog" where
  "fake_get env tx = fake_application env tx"

definition fake_get_service_principal :: "env \<Rightarrow> transaction \<Rightarrow> service_principal prog" where
  "fake_get_service_principal env tx = fake_service_principal env"

definition fake_get_pre_authorized_apps ::
  "env \<Rightarrow> (string \<Rightarrow> string) \<Rightarrow> transaction \<Rightarrow> pre_authorized_apps prog" where
  "fake_get_pre_authorized_apps env name_uuid tx =
     bnd instance_of (azure_pre_authorized_apps env name_uuid)"

definition fake_add :: "env \<Rightarrow> transaction \<Rightarrow> credentials_set prog" where
  "fake_add env tx = azure_credentials_set env (tx_cluster_name tx)"

definition fake_delete_expired :: "transaction \<Rightarrow> unit prog" where
  "fake_delete_expired tx = ret ()"

definition fake_delete_unused :: "transaction \<Rightarrow> unit prog" where
  "fake_delete_unused tx = ret ()"

definition fake_purge :: "transaction \<Rightarrow> unit prog" where
  "fake_purge tx = ret ()"

definition fake_rotate :: "env \<Rightarrow> transaction \<Rightarrow> credentials_set prog" where
  "fake_rotate env tx =
     bnd (azure_credentials_set env (tx_cluster_name tx)) (\<lambda>new_set.
     bnd (lift (latest_outcome tx)) (\<lambda>latest.
     ret (new_set\<lparr>set_current := set_next latest\<rparr>)))"

definition fake_validate :: "transaction \<Rightarrow> credentials_set \<Rightarrow> bool prog" where
  "fake_validate tx existing = ret True"

text \<open>A name with ``resync'' stands for an application that has appeared in Azure since.\<close>

definition fake_pre_authorized_app_client_id ::
  "env \<Rightarrow> (string \<Rightarrow> string) \<Rightarrow> access_policy_rule \<Rightarrow> (client_id \<times> bool) prog" where
  "fake_pre_authorized_app_client_id env name_uuid rule =
     (let name = get_unique_name (e_urn env) rule in
      if str_contains name ''resync'' then ret (client_id_for_rule env name_uuid rule, True)
      else if str_contains name ''invalid'' then ret ([], False)
      else ret (client_id_for_rule env name_uuid rule, True))"

subsection \<open>It is a client\<close>

lemma fake_same:
  "moves same_inst (new_uuid env)" "moves same_inst (get_or_generate env field)"
  "moves same_inst (map_to_internal_pre_auth_apps env name_uuid apps)"
  "moves same_inst (azure_application_result env name_uuid operation)"
  "moves same_inst (azure_credentials_set env cluster)"
  "moves same_inst (fake_application env tx)"
proof -
  show u: "moves same_inst (new_uuid env)"
    unfolding new_uuid_def by (intro same_inst_intros)
  show g: "moves same_inst (get_or_generate env field)" for field
    unfolding get_or_generate_def using u by (auto intro!: same_inst_intros)
  show m: "moves same_inst (map_to_internal_pre_auth_apps env name_uuid apps)" for apps
    unfolding map_to_internal_pre_auth_apps_def map_to_internal_pre_auth_app_def
    by (intro same_inst_intros u g)
  show "moves same_inst (azure_application_result env name_uuid operation)"
    unfolding azure_application_result_def by (intro same_inst_intros u g m)
  have "moves same_inst (generate_jwk env i cluster)" for i
    unfolding generate_jwk_def new_rsa_key_pair_def certificate_template_def generate_certificate_def
    by (intro same_inst_intros)
  then show "moves same_inst (azure_credentials_set env cluster)"
    unfolding azure_credentials_set_def must_generate_jwk_def fake_credentials_def
    by (intro same_inst_intros u)
  show "moves same_inst (fake_application env tx)"
    unfolding fake_application_def by (intro same_inst_intros g)
qed

lemma get_or_generate_Ok:
  "get_or_generate env field s = (Ok x, s') \<Longrightarrow> field \<noteq> [] \<Longrightarrow> x = field \<and> s' = s"
  by (auto simp: get_or_generate_def)

lemma fake_result:
  assumes "azure_application_result env name_uuid operation s = (Ok res, s')" "st = app_status (inst s)"
  shows "ares_result res = operation \<and>
    (status_client_id st \<noteq> [] \<longrightarrow> ares_client_id res = status_client_id st) \<and>
    (status_object_id st \<noteq> [] \<longrightarrow> ares_object_id res = status_object_id st) \<and>
    (status_sp_id st \<noteq> [] \<longrightarrow> ares_sp_id res = status_sp_id st)"
  using assms by (auto simp: azure_application_result_def bnd_Ok_iff instance_of_def dest: get_or_generate_Ok)

interpretation fake_client: azure_client
  "fake_add env" "fake_rotate env" fake_delete_expired fake_delete_unused fake_purge fake_validate
  "fake_create env name_uuid" "fake_update env name_uuid" fake_delete "fake_exists env"
  "fake_get_pre_authorized_apps env name_uuid"
  for env name_uuid
proof
  fix tx s cs s' res st
  show "fake_rotate env tx s = (Ok cs, s') \<Longrightarrow>
      \<exists>latest. latest_of tx = Some latest \<and> set_current cs = set_next latest"
    by (auto simp: fake_rotate_def latest_outcome_def bnd_Ok_iff)
  show "fake_create env name_uuid tx s = (Ok res, s') \<Longrightarrow> is_created res"
    unfolding fake_create_def is_created_def using fake_result by blast
  show "fake_update env name_uuid tx s = (Ok res, s') \<Longrightarrow> is_updated res"
    unfolding fake_update_def is_updated_def using fake_result by blast
  show "fake_update env name_uuid tx s = (Ok res, s') \<Longrightarrow> st = app_status (inst s) \<Longrightarrow>
       (status_client_id st \<noteq> [] \<longrightarrow> ares_client_id res = status_client_id st) \<and>
       (status_object_id st \<noteq> [] \<longrightarrow> ares_object_id res = status_object_id st) \<and>
       (status_sp_id st \<noteq> [] \<longrightarrow> ares_sp_id res = status_sp_id st)"
    unfolding fake_update_def using fake_result by blast
  show "moves frame_rel (fake_create env name_uuid tx)"
    unfolding fake_create_def by (rule frame_of_same_inst [OF fake_same(4)])
  show "moves same_inst (fake_exists env tx)"
    unfolding fake_exists_def Let_def by (auto intro!: same_inst_intros fake_same)
qed (auto simp: fake_add_def fake_rotate_def fake_delete_expired_def fake_delete_unused_def fake_purge_def
    fake_validate_def fake_update_def fake_delete_def azure_pre_authorized_apps_def fake_get_pre_authorized_apps_def intro!: same_inst_intros fake_same)

subsection \<open>The two paths to a client ID\<close>

definition invalid_by_name :: "env \<Rightarrow> resource \<Rightarrow> bool" where
  "invalid_by_name env re = str_contains (get_unique_name (e_urn env) (in_rule (res_rule re))) ''invalid''"

lemma mapped_apps:
  assumes "map_to_internal_pre_auth_apps env name_uuid apps s = (Ok mapped, s')"
  shows "(\<forall>re \<in> set (paa_valid mapped) \<union> set (paa_invalid mapped).
      res_client_id re = client_id_for_rule env name_uuid (in_rule (res_rule re))) \<and>
    (\<forall>re \<in> set (paa_valid mapped). \<not> invalid_by_name env re) \<and>
    (\<forall>re \<in> set (paa_invalid mapped). invalid_by_name env re)"
proof (rule fold_io_invariant [OF _ assms [unfolded map_to_internal_pre_auth_apps_def]], goal_cases)
  case (1 app acc s b s')
  then obtain re s1 where re: "map_to_internal_pre_auth_app env name_uuid app s = (Ok re, s1)"
    and b: "b = (if str_contains (get_unique_name (e_urn env) (in_rule app)) ''invalid''
      then acc\<lparr>paa_invalid := paa_invalid acc @ [re]\<rparr> else acc\<lparr>paa_valid := paa_valid acc @ [re]\<rparr>)"
    by (auto simp: bnd_Ok_iff)
  have "res_rule re = app" "res_client_id re = client_id_for_rule env name_uuid (in_rule app)"
    using re by (auto simp: map_to_internal_pre_auth_app_def bnd_Ok_iff)
  then show ?case using 1(3) b by (auto simp: invalid_by_name_def)
qed simp

text \<open>
  An application that is assigned is assignable by the same client ID; one that is not has become
  assignable exactly when its name says so.
\<close>

lemma fake_paths_agree:
  assumes "fake_get_pre_authorized_apps env name_uuid tx s = (Ok apps, s')"
  shows "re \<in> set (paa_valid apps) \<Longrightarrow>
      fake_pre_authorized_app_client_id env name_uuid (in_rule (res_rule re)) s1 = (Ok (res_client_id re, True), s1)"
    and "re \<in> set (paa_invalid apps) \<Longrightarrow>
      fake_pre_authorized_app_client_id env name_uuid (in_rule (res_rule re)) s1 =
        (Ok (if str_contains (get_unique_name (e_urn env) (in_rule (res_rule re))) ''resync''
             then (res_client_id re, True) else ([], False)), s1)"
proof -
  have "map_to_internal_pre_auth_apps env name_uuid
      (spec_pre_authorized_applications (app_spec (inst s))) s = (Ok apps, s')"
    using assms
    by (auto simp: fake_get_pre_authorized_apps_def azure_pre_authorized_apps_def bnd_Ok_iff instance_of_def)
  note m = mapped_apps [OF this]
  have client: "res_client_id re = client_id_for_rule env name_uuid (in_rule (res_rule re))"
    if "re \<in> set (paa_valid apps) \<union> set (paa_invalid apps)"
    using m that by blast
  show "fake_pre_authorized_app_client_id env name_uuid (in_rule (res_rule re)) s1 =
      (Ok (res_client_id re, True), s1)" if "re \<in> set (paa_valid apps)"
    using m that client by (simp add: fake_pre_authorized_app_client_id_def Let_def ret_def invalid_by_name_def)
  show "fake_pre_authorized_app_client_id env name_uuid (in_rule (res_rule re)) s1 =
      (Ok (if str_contains (get_unique_name (e_urn env) (in_rule (res_rule re))) ''resync''
           then (res_client_id re, True) else ([], False)), s1)" if "re \<in> set (paa_invalid apps)"
    using m that client by (simp add: fake_pre_authorized_app_client_id_def Let_def ret_def invalid_by_name_def)
qed

end
