(* ===== verification/Fixtures.thy ===== *)
theory Fixtures
  imports Effects Annotations
begin

text \<open>
  The set-up of a cluster for the tests: pkg/fixtures. The state is the log of the requests to
  Kubernetes, the newest first; the replies are those of a \<open>fixture_env\<close>. Of the objects
  the records carry the fields that are set.
\<close>

subsection \<open>The objects\<close>

record container =
  con_name :: string
  con_image :: string
  con_env_from :: "string list" \<comment> \<open>names of secrets\<close>

record pod =
  pod_name :: string
  pod_namespace :: string
  pod_labels :: "string gomap"
  pod_containers :: "container list"
  pod_secret_volumes :: "(string \<times> string) list" \<comment> \<open>names of volumes and secrets\<close>

datatype cluster_object =
    NamespaceObject string
  | PodObject pod
  | SecretObject secret
  | ApplicationObject azure_ad_application

datatype object_kind = PodKind | ApplicationKind

record fixture_config =
  fx_app_name :: string
  fx_namespace :: string
  fx_secret_name :: string
  fx_unused_secret_name :: string

record cluster_fixtures =
  cf_config :: fixture_config
  cf_application :: "azure_ad_application option"
  cf_pod :: "pod option"
  cf_pod_env_from :: "pod option"
  cf_unused_secret :: "secret option"

text \<open>An object to wait for: its kind, namespace and name.\<close>

type_synonym awaited = "object_kind \<times> string \<times> string"

definition fixtures_new :: "fixture_config \<Rightarrow> cluster_fixtures" where
  "fixtures_new cfg =
     \<lparr>cf_config = cfg, cf_application = None, cf_pod = None, cf_pod_env_from = None, cf_unused_secret = None\<rparr>"

definition zero_status :: app_status where
  "zero_status =
     \<lparr>status_client_id = [], status_object_id = [], status_sp_id = [],
      status_certificate_key_ids = [], status_password_key_ids = [], status_correlation_id = [],
      status_pre_authorized_apps = None, status_hash = [], status_secret_name = [],
      status_rotation_time = None, status_state = [], status_sync_time = None,
      status_tenant = [], status_tenant_name = []\<rparr>"

definition zero_spec :: app_spec where
  "zero_spec =
     \<lparr>spec_allow_all_users = None, spec_claims_groups = None, spec_group_membership_claims = None,
      spec_logout_url = [], spec_pre_authorized_applications = [], spec_reply_urls = [],
      spec_secret_key_prefix = [], spec_secret_name = [], spec_single_page_application = None,
      spec_tenant = []\<rparr>"

definition new_application :: "string \<Rightarrow> string \<Rightarrow> app_spec \<Rightarrow> app_status \<Rightarrow> azure_ad_application" where
  "new_application name namespace spec status =
     \<lparr>app_name = name, app_namespace = namespace, app_annotations = None, app_labels = None,
      app_finalizers = [], app_deletion_timestamp = None, app_spec = spec, app_status = status\<rparr>"

definition with_azure_app :: "cluster_fixtures \<Rightarrow> cluster_fixtures" where
  "with_azure_app c =
     (let cfg = cf_config c;
          rule = \<lparr>rule_application = ''some-other-app'', rule_namespace = fx_namespace cfg,
                  rule_cluster = ''test-cluster''\<rparr>;
          spec = zero_spec
            \<lparr>spec_reply_urls := [''http://localhost:3000/auth/callback''],
             spec_pre_authorized_applications := [\<lparr>in_rule = rule, in_permissions = None\<rparr>],
             spec_logout_url := [], spec_secret_name := fx_secret_name cfg\<rparr>
      in c\<lparr>cf_application := Some (new_application (fx_app_name cfg) (fx_namespace cfg) spec zero_status)\<rparr>)"

definition with_unused_secret :: "cluster_fixtures \<Rightarrow> cluster_fixtures" where
  "with_unused_secret c =
     (let cfg = cf_config c in
      c\<lparr>cf_unused_secret := Some
        \<lparr>sec_name = fx_unused_secret_name cfg, sec_namespace = fx_namespace cfg,
         sec_labels = [(AppLabelKey, fx_app_name cfg), (TypeLabelKey, TypeLabelValue)],
         sec_annotations = [], sec_data = [], sec_string_data = [], sec_owner = None\<rparr>\<rparr>)"

definition env_from_name :: "fixture_config \<Rightarrow> string" where
  "env_from_name cfg = fx_app_name cfg @ ''-envfrom''"

definition with_pods :: "cluster_fixtures \<Rightarrow> cluster_fixtures" where
  "with_pods c =
     (let cfg = cf_config c in
      c\<lparr>cf_pod := Some
          \<lparr>pod_name = fx_app_name cfg, pod_namespace = fx_namespace cfg,
           pod_labels = [(AppLabelKey, fx_app_name cfg)],
           pod_containers = [\<lparr>con_name = ''main'', con_image = ''foo'', con_env_from = []\<rparr>],
           pod_secret_volumes = [(''foo'', fx_secret_name cfg)]\<rparr>,
        cf_pod_env_from := Some
          \<lparr>pod_name = env_from_name cfg, pod_namespace = fx_namespace cfg,
           pod_labels = [(AppLabelKey, fx_app_name cfg)],
           pod_containers =
             [\<lparr>con_name = ''main'', con_image = ''foo'', con_env_from = [fx_secret_name cfg]\<rparr>],
           pod_secret_volumes = []\<rparr>\<rparr>)"

text \<open>Without an application the assignment dereferences a nil pointer.\<close>

definition with_tenant :: "string \<Rightarrow> cluster_fixtures \<Rightarrow> cluster_fixtures outcome" where
  "with_tenant tenant c =
     out_bind (deref (cf_application c)) (\<lambda>a.
       Ok (c\<lparr>cf_application := Some (a\<lparr>app_spec := (app_spec a)\<lparr>spec_tenant := tenant\<rparr>\<rparr>)\<rparr>))"

definition with_minimal_config :: "cluster_fixtures \<Rightarrow> cluster_fixtures" where
  "with_minimal_config c = with_unused_secret (with_pods (with_azure_app c))"

definition minimal_application :: "time \<Rightarrow> azure_ad_application" where
  "minimal_application t =
     new_application ''test-app'' ''test-namespace''
       (zero_spec\<lparr>spec_logout_url := ''test'', spec_secret_name := ''test''\<rparr>)
       (zero_status
         \<lparr>status_password_key_ids := [''test''], status_certificate_key_ids := [''test''],
          status_client_id := ''test'', status_object_id := ''test'', status_sp_id := ''test'',
          status_hash := ''b85f1aaff45fcfc2'', status_secret_name := ''test'',
          status_rotation_time := Some t\<rparr>)"

subsection \<open>The set-up\<close>

datatype fixture_request =
    CreateObject cluster_object
  | ReadObject awaited

datatype fixture_reply = Done | AlreadyExists | Missing | Failed err

type_synonym fixture_log = "(fixture_request \<times> fixture_reply) list"
type_synonym 'a fixture_prog = "(fixture_log, 'a) io"
type_synonym fixture_env = "fixture_log \<Rightarrow> fixture_request \<Rightarrow> fixture_reply"

definition request :: "fixture_env \<Rightarrow> fixture_request \<Rightarrow> fixture_reply fixture_prog" where
  "request env req = (\<lambda>log. (Ok (env log req), (req, env log req) # log))"

text \<open>\<open>Create\<close>, with an object that exists accepted.\<close>

definition create_object :: "fixture_env \<Rightarrow> cluster_object \<Rightarrow> unit fixture_prog" where
  "create_object env obj =
     bnd (request env (CreateObject obj)) (\<lambda>reply.
     case reply of
       Done \<Rightarrow> ret ()
     | AlreadyExists \<Rightarrow> ret ()
     | Missing \<Rightarrow> fail (Cause NotFound)
     | Failed e \<Rightarrow> fail e)"

fun all_exists :: "fixture_env \<Rightarrow> awaited list \<Rightarrow> bool fixture_prog" where
  "all_exists env [] = ret True"
| "all_exists env (r # rs) =
     bnd (request env (ReadObject r)) (\<lambda>reply.
     case reply of
       Done \<Rightarrow> all_exists env rs
     | Missing \<Rightarrow> ret False
     | AlreadyExists \<Rightarrow> fail (Cause (Opaque ''already exists''))
     | Failed e \<Rightarrow> fail e)"

text \<open>
  What the \<open>select\<close> of the loop receives, the timeout after five seconds or a tick every
  100 milliseconds, is an argument; without a result the loop still waits.
\<close>

datatype wake = Timeout | Tick

fun wait_for_cluster_resources :: "fixture_env \<Rightarrow> awaited list \<Rightarrow> wake list \<Rightarrow> unit option fixture_prog" where
  "wait_for_cluster_resources env rs [] = ret None"
| "wait_for_cluster_resources env rs (Timeout # ws) =
     fail (Cause (Opaque ''timeout while waiting for cluster fixtures setup synchronization''))"
| "wait_for_cluster_resources env rs (Tick # ws) =
     bnd (all_exists env rs) (\<lambda>exists.
       if exists then ret (Some ()) else wait_for_cluster_resources env rs ws)"

definition namespace_object :: "string \<Rightarrow> cluster_object" where
  "namespace_object name = NamespaceObject name"

declare namespace_object_def [simp]

text \<open>One of the conditional parts of \<open>Setup\<close>: the object is created and then waited for.\<close>

definition create_optional ::
  "fixture_env \<Rightarrow> cluster_object option \<Rightarrow> awaited list \<Rightarrow> awaited list \<Rightarrow> awaited list fixture_prog" where
  "create_optional env obj awaited rs =
     (case obj of
        None \<Rightarrow> ret rs
      | Some obj \<Rightarrow> bnd (create_object env obj) (\<lambda>_. ret (rs @ awaited)))"

definition setup_cluster :: "fixture_env \<Rightarrow> cluster_fixtures \<Rightarrow> wake list \<Rightarrow> unit option fixture_prog" where
  "setup_cluster env c ws =
     (let cfg = cf_config c; ns = fx_namespace cfg in
      bnd (create_object env (namespace_object ns)) (\<lambda>_.
      bnd (create_optional env (map_option PodObject (cf_pod c)) [(PodKind, ns, fx_app_name cfg)] []) (\<lambda>rs.
      bnd (create_optional env (map_option PodObject (cf_pod_env_from c)) [(PodKind, ns, env_from_name cfg)] rs) (\<lambda>rs.
      bnd (create_optional env (map_option SecretObject (cf_unused_secret c)) [] rs) (\<lambda>rs.
      bnd (create_optional env (map_option ApplicationObject (cf_application c))
             [(ApplicationKind, ns, fx_app_name cfg)] rs) (\<lambda>rs.
      wait_for_cluster_resources env rs ws))))))"

subsection \<open>What a set-up guarantees\<close>

definition accepted :: "fixture_reply \<Rightarrow> bool" where
  "accepted a \<longleftrightarrow> a \<in> {Done, AlreadyExists}"

lemma create_object_Ok:
  "create_object env obj log = (Ok u, log') \<Longrightarrow> \<exists>a. accepted a \<and> log' = (CreateObject obj, a) # log"
  by (auto simp: create_object_def request_def accepted_def bnd_def ret_def fail_def split: fixture_reply.splits)

lemma create_optional_Ok:
  "create_optional env (Some obj) awaited rs log = (Ok x, log') \<longleftrightarrow>
     (\<exists>u. create_object env obj log = (Ok u, log')) \<and> x = rs @ awaited"
  "create_optional env None awaited rs log = (Ok x, log') \<longleftrightarrow> x = rs \<and> log' = log"
  by (auto simp: create_optional_def bnd_Ok_iff)

lemma all_exists_True:
  "all_exists env rs log = (Ok True, log') \<Longrightarrow> log' = rev (map (\<lambda>r. (ReadObject r, Done)) rs) @ log"
proof (induction rs arbitrary: log)
  case (Cons r rs)
  then show ?case by (auto simp: request_def bnd_def ret_def fail_def split: fixture_reply.splits)
qed simp

lemma all_exists_extends: "all_exists env rs log = (Ok x, log') \<Longrightarrow> \<exists>new. log' = new @ log"
proof (induction rs arbitrary: log)
  case (Cons r rs)
  show ?case
  proof (cases "env log (ReadObject r)")
    case Done
    then have "all_exists env rs ((ReadObject r, Done) # log) = (Ok x, log')"
      using Cons.prems by (simp add: request_def bnd_def)
    from Cons.IH [OF this] show ?thesis by (metis append_Cons append_assoc append_Nil)
  qed (use Cons.prems in \<open>auto simp: request_def bnd_def ret_def fail_def\<close>)
qed simp

lemma wait_until_read:
  "wait_for_cluster_resources env rs ws log = (Ok (Some ()), log') \<Longrightarrow>
     \<exists>polls. log' = rev (map (\<lambda>r. (ReadObject r, Done)) rs) @ polls @ log"
proof (induction ws arbitrary: log)
  case (Cons w ws)
  show ?case
  proof (cases w)
    case Tick
    then obtain x log1 where x: "all_exists env rs log = (Ok x, log1)"
      "(if x then ret (Some ()) else wait_for_cluster_resources env rs ws) log1 = (Ok (Some ()), log')"
      using Cons.prems by (auto simp: bnd_Ok_iff)
    show ?thesis
    proof (cases x)
      case True
      then show ?thesis using x all_exists_True [of env rs log log1] by (auto intro: exI [of _ "[]"])
    next
      case False
      then obtain polls where "log' = rev (map (\<lambda>r. (ReadObject r, Done)) rs) @ polls @ log1"
        using Cons.IH x(2) by auto
      then show ?thesis using all_exists_extends [OF x(1)] by (metis append_assoc)
    qed
  qed (use Cons.prems in simp)
qed simp

text \<open>
  A minimal set-up that ends has created its objects in this order, where objects that exist count,
  and has read the pods and the application without a miss at the end.
\<close>

lemma minimal_setup:
  fixes cfg :: fixture_config
  defines "c \<equiv> with_minimal_config (fixtures_new cfg)" and "ns \<equiv> fx_namespace cfg"
  assumes "setup_cluster env c ws log = (Ok (Some ()), log')"
  shows "\<exists>polls creations.
    log' = rev (map (\<lambda>r. (ReadObject r, Done))
        [(PodKind, ns, fx_app_name cfg), (PodKind, ns, env_from_name cfg), (ApplicationKind, ns, fx_app_name cfg)])
      @ polls @ creations @ log \<and>
    map fst creations = rev (map CreateObject
      [NamespaceObject ns, PodObject (the (cf_pod c)), PodObject (the (cf_pod_env_from c)),
       SecretObject (the (cf_unused_secret c)), ApplicationObject (the (cf_application c))]) \<and>
    list_all (accepted \<circ> snd) creations"
proof -
  obtain p p' u a where c: "cf_config c = cfg" "cf_pod c = Some p" "cf_pod_env_from c = Some p'"
    "cf_unused_secret c = Some u" "cf_application c = Some a"
    by (simp add: c_def with_minimal_config_def fixtures_new_def with_unused_secret_def with_pods_def
        with_azure_app_def Let_def)
  let ?rs = "[(PodKind, ns, fx_app_name cfg), (PodKind, ns, env_from_name cfg), (ApplicationKind, ns, fx_app_name cfg)]"
  let ?objs = "[NamespaceObject ns, PodObject p, PodObject p', SecretObject u, ApplicationObject a]"
  obtain creations where cr: "map fst creations = rev (map CreateObject ?objs)"
      "list_all (accepted \<circ> snd) creations"
    and w: "wait_for_cluster_resources env ?rs ws (creations @ log) = (Ok (Some ()), log')"
  proof -
    obtain a1 a2 a3 a4 a5 where "accepted a1" "accepted a2" "accepted a3" "accepted a4" "accepted a5"
      "wait_for_cluster_resources env ?rs ws
        ([(CreateObject (ApplicationObject a), a5), (CreateObject (SecretObject u), a4),
          (CreateObject (PodObject p'), a3), (CreateObject (PodObject p), a2),
          (CreateObject (NamespaceObject ns), a1)] @ log) = (Ok (Some ()), log')"
      using assms(3) c
      by (auto simp: setup_cluster_def Let_def bnd_Ok_iff create_optional_Ok ns_def dest!: create_object_Ok)
    from that [OF _ _ this(6)] this(1-5) show thesis by simp
  qed
  moreover obtain polls where "log' = rev (map (\<lambda>r. (ReadObject r, Done)) ?rs) @ polls @ creations @ log"
    using wait_until_read [OF w] by blast
  ultimately show ?thesis unfolding c option.sel by blast
qed

end
