(* ===== verification/Spec2Isabelle.thy ===== *)
theory Spec2Isabelle
  imports CredentialProperties ControllerProperties AccessProperties SyncProperties SecretsProperties
    RequestBounds Startup Metrics Lifecycle PanicFreedom Workers Idle
    Completion Revocation Issuance FakeClient Fixtures
begin

text \<open>
  This development models azurerator, the Kubernetes operator that keeps one Azure AD
  application for every \<open>AzureAdApplication\<close> resource, and proves what its reconciliation does.

  \<^bold>\<open>The program.\<close> The controller (\<open>src/controllers/azureadapplication\<close>) fetches a resource,
  prepares a transaction (the managed secrets, the options, whether the application exists in
  Azure), lets the finalizer (\<open>src/pkg/reconciler/finalizer\<close>) register itself or clean up, lets the
  Azure reconciler (\<open>src/pkg/reconciler/azure\<close>) create, update or read the application through the
  Azure client (\<open>src/pkg/azure/client\<close>), lets the secrets reconciler
  (\<open>src/pkg/reconciler/secrets\<close>) add or rotate the credentials and write the Kubernetes secret,
  deletes unused and expired credentials, and completes by updating annotations and status. After
  a creation or an update the Azure reconciler emits an event, on which the synchronizer
  (\<open>src/pkg/synchronizer\<close>) marks the resources that pre-authorize the application; the sweeper
  does the same periodically. Before all this \<open>src/cmd/azurerator/main.go\<close> loads and validates the
  configuration, builds the token source and the Azure client, fetches the OpenID configuration,
  registers the controller, the metrics refresh and the sweeper, and starts the manager.

  \<^bold>\<open>Effects.\<close> A program is a function of a state, which holds the instance
  (\<open>tx.Instance\<close>) and the trace of the requests sent so far, the newest first, each with
  whether it succeeded. It ends with a value, an error or a panic (Prelude, Effects). Every request
  to the Graph API, to Kubernetes, to a cache or to the runtime is an event; the replies are an
  argument of the model, the environment \<open>env\<close>: functions of the history and the request, so a
  theorem about every \<open>env\<close> holds for whatever the services answer, failures and changing answers
  included (World). An environment also carries the configuration and the pure functions of
  libraries: the JSON and JWK codecs, the hash of a resource, the URL validator, the iteration order
  of Go maps.

  \<^bold>\<open>Theories\<close> and the code they model, in the order they build on each other:
  \<^item> Prelude, Effects: errors, nil dereferences, Go maps, the program monad and its loops, and the
    rules by which a relation between the states before and after is shown of a program.
  \<^item> GoStrings, Annotations: \<open>util/strings\<close>, the string functions used, \<open>annotations\<close>,
    \<open>customresources\<close>, \<open>labels\<close>.
  \<^item> Types, World: the records of the custom resource, of the Graph entities and of the
    configuration; the requests and the environment. Samples and Scenario: concrete values.
  \<^item> Permissions, PermissionDiff, AppRoles, PermissionScopes: \<open>azure/permissions\<close>,
    \<open>application/approle\<close>, \<open>application/permissionscope\<close>. Roles and scopes are two instances of the
    locale that PermissionDiff proves the difference of permission sets in.
  \<^item> Resources, AppManifest: \<open>azure/resource\<close>, \<open>azure/result\<close>, \<open>approleassignment\<close>; identifier URIs,
    redirect URIs, optional claims, group claims, the application builder.
  \<^item> SecretData, Transaction: \<open>pkg/secrets\<close>, \<open>pkg/transaction\<close>.
  \<^item> AppClient, ServicePrincipals, Assignments, AzureGroups, PreAuth, Credentials,
    CredentialsClient, AzureClient: the packages below \<open>azure/client\<close>.
  \<^item> Synchronizer, Reconcilers, Controller: \<open>synchronizer\<close>, \<open>reconciler\<close>, the controller.
  \<^item> Configuration, Startup, Metrics: \<open>pkg/config\<close>; \<open>cmd/azurerator\<close>, \<open>azure/client/auth.go\<close>, the
    construction of the client, \<open>azureopenidconfig.go\<close>, \<open>SetupWithManager\<close>, \<open>NewSweeper\<close>;
    \<open>pkg/metrics\<close>. The start and the metrics have states and replies of their own.
  \<^item> CredentialProperties, AccessProperties, SyncProperties, ControllerProperties: credentials in
    use and unused, access policies and their assignments, events and sweeps, errors and
    completion.
  \<^item> RequestClasses: which classes of requests (deletions, registrations, updates of the resource,
    secrets dropped, the rest) each part of a reconciliation can send. On it rest ReconcileSafety
    (deletions, registrations and finalizers of one reconciliation), SecretsProperties (the secrets
    written and deleted) and RequestBounds (how many requests a piece of work sends).
  \<^item> Histories, Lifecycle: runs of the operator, as sequences of reconciliations, productions of
    events and sweeps on one history (\<open>operator_run\<close>), against APIs that keep to their contract
    (\<open>consistent\<close>: reads return what was last written, listings contain what was registered).
  \<^item> Yields: a logic for panics, rules that compute backwards through a program what a value needs for
    the rest not to dereference nil. PanicFree, PanicFreeClient, PanicFreedom: its rules for every
    operation that a reconciliation calls, from the permissions to the controller.
  \<^item> Locking: the critical sections of the mutex \<open>appsync\<close>, as the words of an automaton. Workers: the
    interleavings of reconciliations, productions of events and sweeps, which wait for each other only
    at the mutex. Idle: the reasons a reconciliation has to write the resource. Completion: the work
    that is done before a status is written.
  \<^item> Revocation, Issuance: the life of the credentials over a whole reconciliation. Revocation follows
    every removal of a password and every list of keys that is sent back to the listing it was
    computed from, and to the secrets that the preparation listed; Issuance follows every secret that is
    stored back to the requests that registered its credentials, and counts the passwords requested.
    Both use \<open>permits\<close> (Histories), the rules for a program started in a given state.
  \<^item> ClientInterface: the contract of the interfaces \<open>Client\<close> and \<open>Credentials\<close>
    (\<open>azure/client.go\<close>) as locales, interpreted on the client of AzureClient and on the one of
    FakeClient (\<open>azure/fake\<close>), which the tests use. Fixtures: \<open>pkg/fixtures\<close>.

  \<^bold>\<open>What the lemmas show.\<close> Each component has the functional behaviour of its operations and the
  classes of events it can emit; the properties are: applications are deleted only when due and
  registered only when missing, finalizers go only after a deletion; in a whole reconciliation
  credentials are revoked only when the application is given up, when they have expired or when the
  listed secrets do not protect them and a newer one remains, passwords are requested only for a reason and at most twice, and secrets are stored only
  with credentials that Azure has registered; unused and expired
  credentials go, validation is exact; the first operation
  that fails ends a reconciliation and its error is reported, with another attempt for all but two
  kinds; a completed reconciliation is stable; the secret
  written is read back by the next preparation, and only secrets not in use are deleted; annotations
  form queues; an event marks only resources that it concerns, a sweep only unmarked ones, and nothing
  but two of their annotations is changed; no application is leaked over a whole
  run of the operator; events and sweeps do not panic on complete replies (\<open>complete_env\<close>), nor does a
  reconciliation as long as every version of the resource that is read has annotations; a
  reconciliation writes the resource only for a
  reason, and its status only after the work that the status reports; work in parallel ends, and
  its writes exclude each other; the manager starts last and only with an accepted configuration.

  \<^bold>\<open>Where the code falls short.\<close> Some properties state what the code does against its documentation
  or its purpose: passwords that a secret in use holds, but not as its current one under the key
  prefix of the spec, are revoked as unused (\<open>credentials_in_use_revoked\<close>, against
  \<open>docs/lifecycle.md\<close>); marks that arrive while a resource with several pending marks is reconciled
  are lost (\<open>marks_after_completion\<close>), and so is one that repeats the only mark being processed
  (\<open>repeated_mark_is_lost\<close>); copying annotations into a version that has none panics
  (\<open>update_annotations_panics\<close>), and so does an OpenID configuration that is null
  (\<open>openid_config_outcome\<close>).

  \<^bold>\<open>Bounds.\<close> A retry with maximal duration \<open>d\<close> and base delay \<open>b\<close> of at least a second makes at most
  \<open>d div b\<close> further attempts, because delays grow from \<open>b\<close>: 30 for the Graph requests and 300 for an
  event; within the bound the environment decides when time is up. \<open>RetryOnConflict\<close> makes at most
  five attempts. The loops that never return (the sweeper, the metrics refresh) are given the
  sequence of their ticks. Everything else terminates without fuel.

  \<^bold>\<open>Not modelled.\<close> Log lines (apart from the nil dereferences in their arguments), the increments
  of the metrics by the other components, the arguments of error messages, the text of wrapped
  errors beyond its prefix, the parsing of flags by the library, and the cancellation of a context,
  which shows as failing requests. Pieces of work that run at the same time are interleaved in
  Workers, with arbitrary replies; the runs of Lifecycle have them one after the other, with changes
  by others in between. The interfaces of the reconcilers have no code, and the helpers
  of \<open>util/test\<close> only assert.
\<close>

end
